(* ===== verification/Prelude.thy ===== *)
theory Prelude
  imports Main
begin

text \<open>
  Shared base of the development.

  \<^item> \<open>exn\<close>: the values the program throws, by class (a Nest HTTP exception, a RangeError, a
    plain Error, a node-postgres DatabaseError, the promotion error of domain/promotions.ts).
  \<^item> \<open>exn + 'a\<close> is the result of a synchronous function that may throw (\<open>let_ok\<close> runs on with
    the value); \<open>('s, 'a) prog\<close> is an async method: a state transformer that returns or
    throws. Effects made before a throw persist, as in JavaScript; \<open>transaction\<close> is the one
    construct that rolls them back (kysely's transaction().execute).
  \<^item> \<open>preserves I m\<close>: the invariant rule for such programs, with the introduction rules
    collected in \<open>preserves_intros\<close>; \<open>gives m s P\<close>: a postcondition of a run that returns;
    \<open>commutes f m\<close>: a change of the state the program neither sees nor undoes.
  \<^item> tables: lists of rows in insertion order, read and written by key.
  \<^item> decimal strings, as String(n) prints them.
\<close>

named_theorems preserves_intros \<open>rules that take an invariant through a program\<close>
named_theorems commutes_intros \<open>rules for what a program does not look at\<close>
named_theorems prog_simps \<open>unfolding of the program combinators\<close>
named_theorems table_simps \<open>reading a table after a write\<close>

type_synonym uuid = string
type_synonym time = int

section \<open>Thrown values and results\<close>

datatype exn =
    Http_Error int string string
  | Range_Error string
  | Plain_Error string
  | Database_Error "string option" string "string option"
  | Promotion_Error string string

fun is_http :: "exn \<Rightarrow> bool" where
  "is_http (Http_Error _ _ _) = True"
| "is_http _ = False"

fun error_message :: "exn \<Rightarrow> string" where
  "error_message (Http_Error _ _ m) = m"
| "error_message (Range_Error m) = m"
| "error_message (Plain_Error m) = m"
| "error_message (Database_Error _ m _) = m"
| "error_message (Promotion_Error _ m) = m"

definition let_ok :: "'e + 'a \<Rightarrow> ('a \<Rightarrow> 'e + 'b) \<Rightarrow> 'e + 'b" where
  "let_ok r k = (case r of Inl e \<Rightarrow> Inl e | Inr x \<Rightarrow> k x)"

lemma let_ok_simps [simp]:
  "let_ok (Inl e) k = Inl e"
  "let_ok (Inr x) k = k x"
  by (simp_all add: let_ok_def)

lemma let_ok_Inr: "let_ok r k = Inr y \<longleftrightarrow> (\<exists>x. r = Inr x \<and> k x = Inr y)"
  by (cases r) simp_all

lemma let_ok_Inl: "let_ok r k = Inl e \<longleftrightarrow> r = Inl e \<or> (\<exists>x. r = Inr x \<and> k x = Inl e)"
  by (cases r) simp_all

fun is_ok :: "'e + 'a \<Rightarrow> bool" where
  "is_ok (Inr _) = True"
| "is_ok (Inl _) = False"

fun map_ok :: "('a \<Rightarrow> 'e + 'b) \<Rightarrow> 'a list \<Rightarrow> 'e + 'b list" where
  "map_ok f [] = Inr []"
| "map_ok f (x # xs) = let_ok (f x) (\<lambda>y. let_ok (map_ok f xs) (\<lambda>ys. Inr (y # ys)))"

section \<open>Programs over a state\<close>

type_synonym ('s, 'a) prog = "'s \<Rightarrow> (exn + 'a) \<times> 's"

definition ret :: "'a \<Rightarrow> ('s, 'a) prog" where
  "ret x = (\<lambda>s. (Inr x, s))"

definition raise :: "exn \<Rightarrow> ('s, 'a) prog" where
  "raise e = (\<lambda>s. (Inl e, s))"

definition lift_ok :: "exn + 'a \<Rightarrow> ('s, 'a) prog" where
  "lift_ok r = (\<lambda>s. (r, s))"

definition bindM :: "('s, 'a) prog \<Rightarrow> ('a \<Rightarrow> ('s, 'b) prog) \<Rightarrow> ('s, 'b) prog" where
  "bindM m k = (\<lambda>s. case m s of (Inl e, s') \<Rightarrow> (Inl e, s') | (Inr x, s') \<Rightarrow> k x s')"

definition thenM :: "('s, 'a) prog \<Rightarrow> ('s, 'b) prog \<Rightarrow> ('s, 'b) prog" where
  "thenM m n = bindM m (\<lambda>_. n)"

definition catchM :: "('s, 'a) prog \<Rightarrow> (exn \<Rightarrow> ('s, 'a) prog) \<Rightarrow> ('s, 'a) prog" where
  "catchM m h = (\<lambda>s. case m s of (Inl e, s') \<Rightarrow> h e s' | (Inr x, s') \<Rightarrow> (Inr x, s'))"

definition transaction :: "('s, 'a) prog \<Rightarrow> ('s, 'a) prog" where
  "transaction m = (\<lambda>s. case m s of (Inl e, s') \<Rightarrow> (Inl e, s) | (Inr x, s') \<Rightarrow> (Inr x, s'))"

definition gets :: "('s \<Rightarrow> 'a) \<Rightarrow> ('s, 'a) prog" where
  "gets f = (\<lambda>s. (Inr (f s), s))"

definition modify :: "('s \<Rightarrow> 's) \<Rightarrow> ('s, unit) prog" where
  "modify f = (\<lambda>s. (Inr (), f s))"

definition whenM :: "bool \<Rightarrow> ('s, unit) prog \<Rightarrow> ('s, unit) prog" where
  "whenM b m = (if b then m else ret ())"

definition raise_if :: "bool \<Rightarrow> exn \<Rightarrow> ('s, unit) prog" where
  "raise_if b e = (if b then raise e else ret ())"

fun for_each :: "('a \<Rightarrow> ('s, unit) prog) \<Rightarrow> 'a list \<Rightarrow> ('s, unit) prog" where
  "for_each f [] = ret ()"
| "for_each f (x # xs) = thenM (f x) (for_each f xs)"

fun foldM :: "('b \<Rightarrow> 'a \<Rightarrow> ('s, 'b) prog) \<Rightarrow> 'b \<Rightarrow> 'a list \<Rightarrow> ('s, 'b) prog" where
  "foldM f acc [] = ret acc"
| "foldM f acc (x # xs) = bindM (f acc x) (\<lambda>acc'. foldM f acc' xs)"

lemma bindM_app [prog_simps]:
  "bindM m k s = (case m s of (Inl e, s') \<Rightarrow> (Inl e, s') | (Inr x, s') \<Rightarrow> k x s')"
  by (simp add: bindM_def)

lemma thenM_app [prog_simps]:
  "thenM m n s = (case m s of (Inl e, s') \<Rightarrow> (Inl e, s') | (Inr _, s') \<Rightarrow> n s')"
  by (simp add: thenM_def bindM_def)

lemma catchM_app [prog_simps]:
  "catchM m h s = (case m s of (Inl e, s') \<Rightarrow> h e s' | (Inr x, s') \<Rightarrow> (Inr x, s'))"
  by (simp add: catchM_def)

lemma transaction_app [prog_simps]:
  "transaction m s = (case m s of (Inl e, s') \<Rightarrow> (Inl e, s) | (Inr x, s') \<Rightarrow> (Inr x, s'))"
  by (simp add: transaction_def)

lemma basic_app [prog_simps]:
  "ret x s = (Inr x, s)"
  "raise e s = (Inl e, s)"
  "lift_ok r s = (r, s)"
  "gets f s = (Inr (f s), s)"
  "modify g s = (Inr (), g s)"
  by (simp_all add: ret_def raise_def lift_ok_def gets_def modify_def)

lemma whenM_app [prog_simps]: "whenM b m s = (if b then m s else (Inr (), s))"
  by (simp add: whenM_def ret_def)

lemma raise_if_app [prog_simps]: "raise_if b e s = ((if b then Inl e else Inr ()), s)"
  by (simp add: raise_if_def raise_def ret_def)

section \<open>Invariants of programs\<close>

definition preserves :: "('s \<Rightarrow> bool) \<Rightarrow> ('s, 'a) prog \<Rightarrow> bool" where
  "preserves I m \<longleftrightarrow> (\<forall>s. I s \<longrightarrow> I (snd (m s)))"

lemma preservesD: "preserves I m \<Longrightarrow> I s \<Longrightarrow> I (snd (m s))"
  by (simp add: preserves_def)

lemma preservesI: "(\<And>s. I s \<Longrightarrow> I (snd (m s))) \<Longrightarrow> preserves I m"
  by (simp add: preserves_def)

lemma preserves_result: "preserves I m \<Longrightarrow> I s \<Longrightarrow> m s = (r, t) \<Longrightarrow> I t"
  by (metis preservesD snd_conv)

lemma preserves_basic [preserves_intros]:
  "preserves I (ret x)"
  "preserves I (raise e)"
  "preserves I (lift_ok r)"
  "preserves I (gets f)"
  "preserves I (raise_if b e)"
  by (simp_all add: preserves_def prog_simps)

lemma preserves_modify: "(\<And>s. I s \<Longrightarrow> I (f s)) \<Longrightarrow> preserves I (modify f)"
  by (simp add: preserves_def prog_simps)

lemma preserves_bindM [preserves_intros]:
  assumes "preserves I m" and "\<And>x. preserves I (k x)"
  shows "preserves I (bindM m k)"
proof (rule preservesI)
  fix s assume "I s"
  with assms(1) have "I (snd (m s))" by (rule preservesD)
  with assms(2) show "I (snd (bindM m k s))"
    by (auto simp: bindM_app preserves_def split: prod.splits sum.splits)
qed

lemma preserves_thenM [preserves_intros]:
  "preserves I m \<Longrightarrow> preserves I n \<Longrightarrow> preserves I (thenM m n)"
  unfolding thenM_def by (rule preserves_bindM)

lemma preserves_catchM [preserves_intros]:
  assumes "preserves I m" and "\<And>e. preserves I (h e)"
  shows "preserves I (catchM m h)"
proof (rule preservesI)
  fix s assume "I s"
  with assms(1) have "I (snd (m s))" by (rule preservesD)
  with assms(2) show "I (snd (catchM m h s))"
    by (auto simp: catchM_app preserves_def split: prod.splits sum.splits)
qed

lemma preserves_transaction [preserves_intros]:
  assumes "preserves I m"
  shows "preserves I (transaction m)"
proof (rule preservesI)
  fix s assume "I s"
  moreover from assms this have "I (snd (m s))" by (rule preservesD)
  ultimately show "I (snd (transaction m s))"
    by (auto simp: transaction_app split: prod.splits sum.splits)
qed

lemma preserves_conj: "preserves I m \<Longrightarrow> preserves J m \<Longrightarrow> preserves (\<lambda>s. I s \<and> J s) m"
  by (simp add: preserves_def)

lemma preserves_whenM [preserves_intros]:
  "preserves I m \<Longrightarrow> preserves I (whenM b m)"
  by (simp add: preserves_def prog_simps)

lemma preserves_if [preserves_intros]:
  "preserves I m \<Longrightarrow> preserves I n \<Longrightarrow> preserves I (if b then m else n)"
  by simp

lemma preserves_case_option [preserves_intros]:
  "preserves I m \<Longrightarrow> (\<And>x. preserves I (k x)) \<Longrightarrow>
   preserves I (case v of None \<Rightarrow> m | Some x \<Rightarrow> k x)"
  by (cases v) simp_all

lemma preserves_for_each [preserves_intros]:
  "(\<And>x. preserves I (f x)) \<Longrightarrow> preserves I (for_each f xs)"
  by (induction xs) (simp_all add: preserves_basic preserves_thenM)

lemma preserves_foldM [preserves_intros]:
  "(\<And>a x. preserves I (f a x)) \<Longrightarrow> preserves I (foldM f acc xs)"
  by (induction xs arbitrary: acc) (simp_all add: preserves_basic preserves_bindM)

text \<open>Rolled-back programs: a transaction that throws leaves the state it started in.\<close>

lemma transaction_throws: "transaction m s = (Inl e, t) \<Longrightarrow> t = s"
  by (auto simp: transaction_app split: prod.splits sum.splits)

section \<open>Runs that return\<close>

text \<open>\<open>gives m s P\<close>: if \<open>m\<close> returns from \<open>s\<close>, its result and state satisfy \<open>P\<close>.\<close>

definition gives :: "('s, 'a) prog \<Rightarrow> 's \<Rightarrow> ('a \<Rightarrow> 's \<Rightarrow> bool) \<Rightarrow> bool" where
  "gives m s P \<longleftrightarrow> (\<forall>x t. m s = (Inr x, t) \<longrightarrow> P x t)"

lemma bindM_InrE:
  assumes "bindM m k s = (Inr y, t)"
  obtains x u where "m s = (Inr x, u)" "k x u = (Inr y, t)"
  using assms by (auto simp: bindM_app split: prod.splits sum.splits)

lemma thenM_InrE:
  assumes "thenM m k s = (Inr y, t)"
  obtains x u where "m s = (Inr x, u)" "k u = (Inr y, t)"
  using assms unfolding thenM_def by (rule bindM_InrE)

lemma givesI: "(\<And>x t. m s = (Inr x, t) \<Longrightarrow> P x t) \<Longrightarrow> gives m s P"
  by (simp add: gives_def)

lemma givesD: "gives m s P \<Longrightarrow> m s = (Inr x, t) \<Longrightarrow> P x t"
  by (simp add: gives_def)

lemma gives_bindM: "gives m s (\<lambda>x t. gives (k x) t P) \<Longrightarrow> gives (bindM m k) s P"
  by (auto simp: gives_def elim!: bindM_InrE)

lemma gives_thenM: "gives m s (\<lambda>x t. gives n t P) \<Longrightarrow> gives (thenM m n) s P"
  unfolding thenM_def by (rule gives_bindM)

lemma gives_basic: "gives (raise e) s P" "P x s \<Longrightarrow> gives (ret x) s P" "P (f s) s \<Longrightarrow> gives (gets f) s P"
  by (simp_all add: gives_def basic_app)

lemma gives_modify: "P () (g s) \<Longrightarrow> gives (modify g) s P"
  by (simp add: gives_def basic_app)

lemma gives_if: "(b \<Longrightarrow> gives m s P) \<Longrightarrow> (\<not> b \<Longrightarrow> gives n s P) \<Longrightarrow> gives (if b then m else n) s P"
  by simp

lemma gives_option: "(v = None \<Longrightarrow> gives m s P) \<Longrightarrow> (\<And>x. v = Some x \<Longrightarrow> gives (k x) s P) \<Longrightarrow>
   gives (case v of None \<Rightarrow> m | Some x \<Rightarrow> k x) s P"
  by (cases v) simp_all

lemma gives_pair: "(\<And>a b. p = (a, b) \<Longrightarrow> gives (k a b) s P) \<Longrightarrow> gives (case p of (a, b) \<Rightarrow> k a b) s P"
  by (cases p) simp

lemmas gives_intros = gives_bindM gives_thenM gives_basic gives_modify gives_if gives_option gives_pair

lemma gives_weaken: "gives m s P \<Longrightarrow> (\<And>x t. P x t \<Longrightarrow> Q x t) \<Longrightarrow> gives m s Q"
  by (auto simp: gives_def)

lemma gives_in_transaction: "gives m s P \<Longrightarrow> gives (transaction m) s P"
  by (auto simp: gives_def transaction_app split: prod.splits sum.splits)

lemma gives_catch_raise: "gives m s P \<Longrightarrow> gives (catchM m (\<lambda>e. raise (h e))) s P"
  by (auto simp: gives_def catchM_app basic_app split: prod.splits sum.splits)

lemma gives_ret: "gives (ret x) s P \<longleftrightarrow> P x s"
  by (simp add: gives_def basic_app)

lemma gives_reads: "(\<And>I. preserves I m) \<Longrightarrow> (\<And>x. P x s) \<Longrightarrow> gives m s P"
  using preserves_result [of "\<lambda>u. u = s" m s] by (fastforce simp: gives_def)

lemma gives_keeps: "preserves I m \<Longrightarrow> I s \<Longrightarrow> (\<And>x t. I t \<Longrightarrow> P x t) \<Longrightarrow> gives m s P"
  by (auto simp: gives_def dest: preserves_result)

lemma gives_transaction:
  assumes "\<And>s. I s \<Longrightarrow> gives m s (\<lambda>x t. I t)"
  shows "preserves I (transaction m)"
proof (rule preservesI)
  fix s assume s: "I s"
  show "I (snd (transaction m s))"
  proof (cases "m s")
    case (Pair r t)
    with s givesD [OF assms [OF s]] show ?thesis by (cases r) (simp_all add: transaction_app)
  qed
qed

section \<open>What a program does not look at\<close>

text \<open>\<open>commutes f m\<close>: changing the state by \<open>f\<close> before \<open>m\<close> is changing it after \<open>m\<close>, with the same result.\<close>

definition commutes :: "('s \<Rightarrow> 's) \<Rightarrow> ('s, 'a) prog \<Rightarrow> bool" where
  "commutes f m \<longleftrightarrow> (\<forall>s. m (f s) = (fst (m s), f (snd (m s))))"

lemma commutesI: "(\<And>s. m (f s) = (fst (m s), f (snd (m s)))) \<Longrightarrow> commutes f m"
  by (simp add: commutes_def)

lemma commutesD: "commutes f m \<Longrightarrow> m s = (r, t) \<Longrightarrow> m (f s) = (r, f t)"
  by (simp add: commutes_def)

lemma commutes_basic [commutes_intros]:
  "commutes f (ret x)" "commutes f (raise e)" "commutes f (lift_ok r)"
  by (simp_all add: commutes_def basic_app)

lemma commutes_gets: "(\<And>s. g (f s) = g s) \<Longrightarrow> commutes f (gets g)"
  by (simp add: commutes_def basic_app)

lemma commutes_modify: "(\<And>s. h (f s) = f (h s)) \<Longrightarrow> commutes f (modify h)"
  by (simp add: commutes_def basic_app)

lemma commutes_bindM [commutes_intros]:
  assumes "commutes f m" and "\<And>x. commutes f (k x)"
  shows "commutes f (bindM m k)"
proof (rule commutesI)
  fix s show "bindM m k (f s) = (fst (bindM m k s), f (snd (bindM m k s)))"
    using assms by (cases "m s") (auto simp: bindM_app commutes_def split: sum.split)
qed

lemma commutes_thenM [commutes_intros]: "commutes f m \<Longrightarrow> commutes f n \<Longrightarrow> commutes f (thenM m n)"
  unfolding thenM_def by (rule commutes_bindM)

lemma commutes_catchM [commutes_intros]:
  assumes "commutes f m" and "\<And>e. commutes f (h e)"
  shows "commutes f (catchM m h)"
proof (rule commutesI)
  fix s show "catchM m h (f s) = (fst (catchM m h s), f (snd (catchM m h s)))"
    using assms by (cases "m s") (auto simp: catchM_app commutes_def split: sum.split)
qed

lemma commutes_transaction [commutes_intros]: "commutes f m \<Longrightarrow> commutes f (transaction m)"
  by (auto simp: commutes_def transaction_app split: prod.split sum.split)

lemma commutes_whenM [commutes_intros]: "commutes f m \<Longrightarrow> commutes f (whenM b m)"
  by (simp add: whenM_def commutes_basic)

lemma commutes_cases [commutes_intros]:
  "commutes f m \<Longrightarrow> commutes f n \<Longrightarrow> commutes f (if b then m else n)"
  "commutes f m \<Longrightarrow> (\<And>x. commutes f (k x)) \<Longrightarrow> commutes f (case v of None \<Rightarrow> m | Some x \<Rightarrow> k x)"
  "(\<And>a b. commutes f (k2 a b)) \<Longrightarrow> commutes f (case p of (a, b) \<Rightarrow> k2 a b)"
  by (simp_all split: option.split prod.split)

lemma commutes_for_each [commutes_intros]: "(\<And>x. commutes f (g x)) \<Longrightarrow> commutes f (for_each g xs)"
  by (induction xs) (simp_all add: commutes_basic commutes_thenM)

section \<open>Tables\<close>

definition lookup_by :: "('r \<Rightarrow> 'k) \<Rightarrow> 'k \<Rightarrow> 'r list \<Rightarrow> 'r option" where
  "lookup_by key k rows = find (\<lambda>r. key r = k) rows"

definition update_where :: "('r \<Rightarrow> bool) \<Rightarrow> ('r \<Rightarrow> 'r) \<Rightarrow> 'r list \<Rightarrow> 'r list" where
  "update_where p f rows = map (\<lambda>r. if p r then f r else r) rows"

lemma lookup_by_Nil [table_simps]: "lookup_by key k [] = None"
  by (simp add: lookup_by_def)

lemma lookup_by_Cons [table_simps]:
  "lookup_by key k (r # rows) = (if key r = k then Some r else lookup_by key k rows)"
  by (simp add: lookup_by_def)

lemma lookup_by_append [table_simps]:
  "lookup_by key k (rows @ rows') =
     (case lookup_by key k rows of Some r \<Rightarrow> Some r | None \<Rightarrow> lookup_by key k rows')"
  by (induction rows) (simp_all add: table_simps)

lemma lookup_by_Some: "lookup_by key k rows = Some r \<Longrightarrow> r \<in> set rows \<and> key r = k"
  by (induction rows) (auto simp: table_simps split: if_splits)

lemma lookup_by_None: "lookup_by key k rows = None \<longleftrightarrow> k \<notin> key ` set rows"
  by (induction rows) (auto simp: table_simps)

lemma lookup_by_member:
  "distinct (map key rows) \<Longrightarrow> r \<in> set rows \<Longrightarrow> lookup_by key (key r) rows = Some r"
  by (induction rows) (auto simp: table_simps rev_image_eqI)

lemma update_where_simps [table_simps]:
  "update_where p f [] = []"
  "update_where p f (r # rows) = (if p r then f r else r) # update_where p f rows"
  by (simp_all add: update_where_def)

lemma set_update_where: "set (update_where p f rows) = (\<lambda>r. if p r then f r else r) ` set rows"
  by (simp add: update_where_def)

lemma map_update_where:
  "(\<And>r. g (f r) = g r) \<Longrightarrow> map g (update_where p f rows) = map g rows"
  by (simp add: update_where_def)

lemma lookup_update_where:
  "(\<And>r. key (f r) = key r) \<Longrightarrow>
   lookup_by key k (update_where p f rows) =
     map_option (\<lambda>r. if p r then f r else r) (lookup_by key k rows)"
  by (induction rows) (simp_all add: table_simps)

lemma lookup_update_other:
  "(\<And>r. key (f r) = key r) \<Longrightarrow> k' \<noteq> k \<Longrightarrow> lookup_by key k' (update_where (\<lambda>r. key r = k) f rows) = lookup_by key k' rows"
  by (induction rows) (auto simp: table_simps)

lemma lookup_update_same:
  "(\<And>r. key (f r) = key r) \<Longrightarrow> lookup_by key k (update_where (\<lambda>r. key r = k) f rows) = map_option f (lookup_by key k rows)"
  by (induction rows) (auto simp: table_simps)

lemma find_update: "(\<And>r. P (f r) = P r) \<Longrightarrow> find P (update_where sel f rows) = map_option (\<lambda>r. if sel r then f r else r) (find P rows)"
  by (induction rows) (simp_all add: table_simps)

text \<open>Replacing the row of a key.\<close>

lemma lookup_replaced_row:
  "lookup_by key k (update_where (\<lambda>r. key r = key a) (\<lambda>_. a) rows) =
     (if k = key a then if k \<in> key ` set rows then Some a else None else lookup_by key k rows)"
  by (induction rows) (auto simp: table_simps)

lemma replaced_absent: "key a \<notin> key ` set rows \<Longrightarrow> update_where (\<lambda>r. key r = key a) (\<lambda>_. a) rows = rows"
  by (induction rows) (auto simp: table_simps)

lemma keys_replaced: "map key (update_where (\<lambda>r. key r = key a) (\<lambda>_. a) rows) = map key rows"
  by (simp add: update_where_def)

section \<open>Decimal strings\<close>

definition digit_char :: "nat \<Rightarrow> char" where
  "digit_char d = ''0123456789'' ! d"

fun nat_str :: "nat \<Rightarrow> string" where
  "nat_str n = (if n < 10 then [digit_char n] else nat_str (n div 10) @ [digit_char (n mod 10)])"

declare nat_str.simps [simp del]

definition int_str :: "int \<Rightarrow> string" where
  "int_str i = (if i < 0 then ''-'' @ nat_str (nat (- i)) else nat_str (nat i))"

text \<open>For evaluation: the digits of an integer with binary instead of unary arithmetic.\<close>

function int_digits :: "int \<Rightarrow> string" where
  "int_digits i = (if i < 10 then [digit_char (nat i)] else int_digits (i div 10) @ [digit_char (nat (i mod 10))])"
  by pat_completeness auto
termination by (relation "measure nat") auto

declare int_digits.simps [simp del]

lemma int_digits_nat: "0 \<le> i \<Longrightarrow> nat_str (nat i) = int_digits i"
proof (induction i rule: int_digits.induct)
  case (1 i)
  show ?case
  proof (cases "i < 10")
    case True
    then have "nat i < 10" by simp
    with True show ?thesis by (simp add: nat_str.simps [of "nat i"] int_digits.simps [of i])
  next
    case False
    with "1.IH" have "nat_str (nat (i div 10)) = int_digits (i div 10)" by simp
    moreover from False have "\<not> nat i < 10" by simp
    ultimately show ?thesis using False "1.prems"
      by (simp add: nat_str.simps [of "nat i"] int_digits.simps [of i] nat_div_distrib nat_mod_distrib)
  qed
qed

lemma int_str_code [code]: "int_str i = (if i < 0 then ''-'' @ int_digits (- i) else int_digits i)"
  by (simp add: int_str_def int_digits_nat)

text \<open>
  Number.prototype.toLocaleString('en-NG') on an amount of kobo divided by 100: thousands grouped,
  up to two decimals. The naira sign is its UTF-8 bytes.
\<close>

fun group_rev :: "string \<Rightarrow> string" where
  "group_rev (a # b # c # d # ds) = a # b # c # CHR '','' # group_rev (d # ds)"
| "group_rev ds = ds"

definition naira_amount :: "int \<Rightarrow> string" where
  "naira_amount kobo =
     (let n = nat \<bar>kobo\<bar>; whole = rev (group_rev (rev (nat_str (n div 100)))); r = n mod 100
      in (if kobo < 0 then ''-'' else []) @ whole @
         (if r = 0 then []
          else if r mod 10 = 0 then ''.'' @ [digit_char (r div 10)]
          else ''.'' @ [digit_char (r div 10), digit_char (r mod 10)]))"

definition naira :: "int \<Rightarrow> string" where
  "naira kobo = [CHR 0xE2, CHR 0x82, CHR 0xA6] @ naira_amount kobo"

lemma digit_chars: "d < 10 \<Longrightarrow> digit_char d \<in> set ''0123456789''"
  unfolding digit_char_def by (rule nth_mem) simp

lemma digit_char_inj: "a < 10 \<Longrightarrow> b < 10 \<Longrightarrow> digit_char a = digit_char b \<longleftrightarrow> a = b"
proof -
  assume "a < 10" "b < 10"
  moreover have "distinct ''0123456789''" by simp
  ultimately show ?thesis
    unfolding digit_char_def by (subst nth_eq_iff_index_eq) simp_all
qed

lemma nat_str_digits: "set (nat_str n) \<subseteq> set ''0123456789''"
proof (induction n rule: nat_str.induct)
  case (1 n)
  show ?case
  proof (cases "n < 10")
    case True
    then show ?thesis using digit_chars [of n] by (subst nat_str.simps) simp
  next
    case False
    with "1.IH" show ?thesis
      using digit_chars [of "n mod 10"] by (subst nat_str.simps) auto
  qed
qed

lemma nat_str_not_Nil [simp]: "nat_str n \<noteq> []" "[] \<noteq> nat_str n"
proof -
  show "nat_str n \<noteq> []" by (subst nat_str.simps) simp
  then show "[] \<noteq> nat_str n" by simp
qed

lemma nat_str_inj: "nat_str m = nat_str n \<longleftrightarrow> m = n"
proof
  show "nat_str m = nat_str n \<Longrightarrow> m = n"
  proof (induction m arbitrary: n rule: nat_str.induct)
    case (1 m)
    note eq = "1.prems" [unfolded nat_str.simps [of m] nat_str.simps [of n]]
    show ?case
    proof (cases "m < 10")
      case True
      with eq show ?thesis by (auto simp: digit_char_inj split: if_splits)
    next
      case False
      with eq have n: "\<not> n < 10" by (auto split: if_splits)
      with eq False have "nat_str (m div 10) = nat_str (n div 10)"
        and "digit_char (m mod 10) = digit_char (n mod 10)" by simp_all
      with "1.IH" [OF False] have "m div 10 = n div 10" and "m mod 10 = n mod 10"
        by (simp_all add: digit_char_inj)
      then show ?thesis by (metis div_mult_mod_eq)
    qed
  qed
qed simp

section \<open>Strings\<close>

text \<open>
  JavaScript strings are lists of characters; a literal outside ASCII is the list of its UTF-8
  bytes. \<open>js_trim\<close> removes the ASCII white space String.prototype.trim removes.
\<close>

definition js_space :: "char \<Rightarrow> bool" where
  "js_space c \<longleftrightarrow> c = CHR 0x20 \<or> c = CHR 0x09 \<or> c = CHR 0x0A \<or> c = CHR 0x0B \<or> c = CHR 0x0C \<or> c = CHR 0x0D"

definition js_trim :: "string \<Rightarrow> string" where
  "js_trim s = rev (dropWhile js_space (rev (dropWhile js_space s)))"

definition starts_with :: "string \<Rightarrow> string \<Rightarrow> bool" where
  "starts_with p s \<longleftrightarrow> take (length p) s = p"

lemma length_js_trim: "length (js_trim s) \<le> length s"
  unfolding js_trim_def by (metis length_dropWhile_le length_rev order.trans)

lemma dropWhile_last:
  "dropWhile P (rev (dropWhile Q s)) \<noteq> [] \<Longrightarrow> last (dropWhile P (rev (dropWhile Q s))) = hd (dropWhile Q s)"
proof -
  assume "dropWhile P (rev (dropWhile Q s)) \<noteq> []"
  moreover have "\<exists>us. rev (dropWhile Q s) = us @ dropWhile P (rev (dropWhile Q s))"
    by (metis takeWhile_dropWhile_id)
  ultimately show ?thesis
    by (metis append_is_Nil_conv hd_rev last_appendR rev_rev_ident)
qed

lemma js_trim_ends:
  "js_trim s \<noteq> [] \<Longrightarrow> \<not> js_space (hd (js_trim s)) \<and> \<not> js_space (last (js_trim s))"
proof -
  assume ne: "js_trim s \<noteq> []"
  let ?t = "dropWhile js_space s"
  let ?u = "dropWhile js_space (rev ?t)"
  from ne have u: "?u \<noteq> []" by (simp add: js_trim_def)
  then have t: "?t \<noteq> []" by (metis dropWhile.simps(1) rev.simps(1))
  from u have "\<not> js_space (hd ?u)" by (rule hd_dropWhile)
  moreover from t have "\<not> js_space (hd ?t)" by (rule hd_dropWhile)
  then have "\<not> js_space (last ?u)" using dropWhile_last [OF u] by simp
  ultimately show ?thesis by (simp add: js_trim_def hd_rev last_rev)
qed

end
