(* ===== verification/Js_Number.thy ===== *)
theory Js_Number
  imports Prelude "HOL-Library.Log_Nat" Complex_Main
begin

text \<open>
  JavaScript numbers. A value of type \<open>js_num\<close> is NaN, an infinity or a finite rational (every
  finite double is one). \<open>dbl\<close> is the rounding of IEEE 754 binary64 (round to nearest, ties to
  even, 53 significant bits) on the normal range; where the source computes with fractions
  (domain/wallet-topup-fee.ts) the model rounds after every operation as the machine does.
  Sums and products of integer amounts are exact while they stay below \<open>2 ^ 53\<close>; the amounts are
  Postgres integers (32 bits), so they do.
\<close>

section \<open>Numbers and the tests the code makes on them\<close>

datatype js_num = Fin rat | NaN | Pos_Inf | Neg_Inf

abbreviation js_int :: "int \<Rightarrow> js_num" where
  "js_int n \<equiv> Fin (of_int n)"

fun is_integer :: "js_num \<Rightarrow> bool" where
  "is_integer (Fin q) = (of_int \<lfloor>q\<rfloor> = q)"
| "is_integer _ = False"

fun is_finite :: "js_num \<Rightarrow> bool" where
  "is_finite (Fin _) = True"
| "is_finite _ = False"

fun num_floor :: "js_num \<Rightarrow> int" where
  "num_floor (Fin q) = \<lfloor>q\<rfloor>"
| "num_floor _ = 0"

text \<open>Number.isInteger followed by a test against integer bounds, as a partial integer.\<close>

definition as_integer :: "js_num \<Rightarrow> int option" where
  "as_integer x = (if is_integer x then Some (num_floor x) else None)"

lemma as_integer_js_int [simp]: "as_integer (js_int n) = Some n"
  by (simp add: as_integer_def)

lemma as_integer_num [simp]:
  "as_integer (Fin (numeral k)) = Some (numeral k)"
  "as_integer (Fin 0) = Some 0"
  "as_integer (Fin 1) = Some 1"
  "as_integer NaN = None" "as_integer Pos_Inf = None" "as_integer Neg_Inf = None"
  by (simp_all add: as_integer_def)

lemma as_integer_Some: "as_integer x = Some n \<longleftrightarrow> x = js_int n"
  by (cases x) (auto simp: as_integer_def)

text \<open>Math.round rounds to the nearest integer, a half upwards.\<close>

definition math_round :: "rat \<Rightarrow> int" where
  "math_round q = \<lfloor>q + 1/2\<rfloor>"

lemma math_round_bounds: "of_int (math_round q) \<le> q + 1/2" "q - 1/2 < of_int (math_round q)"
proof -
  show "of_int (math_round q) \<le> q + 1/2" by (simp add: math_round_def)
  have "q + 1/2 < of_int \<lfloor>q + 1/2\<rfloor> + 1" by linarith
  then show "q - 1/2 < of_int (math_round q)" by (simp add: math_round_def)
qed

lemma math_round_mono: "p \<le> q \<Longrightarrow> math_round p \<le> math_round q"
  by (simp add: math_round_def floor_mono)

lemma math_round_int [simp]: "math_round (of_int n) = n" "math_round 0 = 0"
  by (simp_all add: math_round_def floor_eq_iff)

section \<open>Binary64 rounding\<close>

definition floor_log2 :: "rat \<Rightarrow> int" where
  "floor_log2 q = (let (n, d) = quotient_of q; e = bitlen n - bitlen d
     in if 2 powi e \<le> q then e else e - 1)"

definition round_half_even :: "rat \<Rightarrow> int" where
  "round_half_even q = (let f = \<lfloor>q\<rfloor>; r = q - of_int f
     in if r < 1/2 then f else if 1/2 < r then f + 1 else if even f then f else f + 1)"

definition dbl_pos :: "rat \<Rightarrow> rat" where
  "dbl_pos q = (let u = 2 powi (floor_log2 q - 52) in of_int (round_half_even (q / u)) * u)"

definition dbl :: "rat \<Rightarrow> rat" where
  "dbl q = (if q = 0 then 0 else if q < 0 then - dbl_pos (- q) else dbl_pos q)"

lemma round_half_even_error: "\<bar>of_int (round_half_even q) - q\<bar> \<le> 1/2"
proof -
  have "of_int \<lfloor>q\<rfloor> \<le> q" "q < of_int \<lfloor>q\<rfloor> + 1" by linarith+
  then show ?thesis unfolding round_half_even_def Let_def abs_if by (simp; linarith)
qed

lemma powi_bitlen: "0 < n \<Longrightarrow> (2::rat) powi (bitlen n - 1) \<le> of_int n" for n :: int
proof -
  assume n: "0 < n"
  then have "2 ^ nat (bitlen n - 1) \<le> n" by (rule bitlen_bounds [THEN conjunct1])
  then have "(of_int (2 ^ nat (bitlen n - 1)) :: rat) \<le> of_int n" by (simp only: of_int_le_iff)
  moreover from n have "0 < bitlen n"
    using bitlen_nonneg [of n] bitlen_eq_zero_iff [of n] by linarith
  ultimately show ?thesis by (simp add: power_int_def)
qed

lemma powi_bitlen_less: "0 < n \<Longrightarrow> of_int n < (2::rat) powi (bitlen n)" for n :: int
proof -
  assume n: "0 < n"
  then have "n < 2 ^ nat (bitlen n)" by (rule bitlen_bounds [THEN conjunct2])
  then have "(of_int n :: rat) < of_int (2 ^ nat (bitlen n))" by (simp only: of_int_less_iff)
  then show ?thesis by (simp add: power_int_def bitlen_nonneg)
qed

lemma floor_log2_le: "0 < q \<Longrightarrow> 2 powi floor_log2 q \<le> q"
proof -
  assume q: "0 < q"
  obtain n d where nd: "quotient_of q = (n, d)" by (cases "quotient_of q")
  then have d: "0 < d" and qeq: "q = of_int n / of_int d"
    by (auto dest: quotient_of_denom_pos quotient_of_div)
  with q have n: "0 < n" by (simp add: zero_less_divide_iff)
  have "(2::rat) powi (bitlen n - 1) \<le> of_int n" using n by (rule powi_bitlen)
  moreover have "of_int d \<le> (2::rat) powi bitlen d" using powi_bitlen_less [OF d] by simp
  ultimately have "(2::rat) powi (bitlen n - 1) / 2 powi bitlen d \<le> of_int n / of_int d"
    using d n by (intro frac_le) simp_all
  then have "(2::rat) powi (bitlen n - bitlen d - 1) \<le> q"
    by (simp add: qeq power_int_diff [symmetric] algebra_simps)
  then show ?thesis by (simp add: floor_log2_def nd Let_def)
qed

lemma floor_log2_less: "0 < q \<Longrightarrow> q < 2 powi (floor_log2 q + 1)"
proof -
  assume q: "0 < q"
  obtain n d where nd: "quotient_of q = (n, d)" by (cases "quotient_of q")
  then have d: "0 < d" and qeq: "q = of_int n / of_int d"
    by (auto dest: quotient_of_denom_pos quotient_of_div)
  with q have n: "0 < n" by (simp add: zero_less_divide_iff)
  have "of_int n < (2::rat) powi bitlen n" using n by (rule powi_bitlen_less)
  moreover have "(2::rat) powi (bitlen d - 1) \<le> of_int d" using d by (rule powi_bitlen)
  ultimately have "of_int n / of_int d < (2::rat) powi bitlen n / 2 powi (bitlen d - 1)"
    using n by (intro frac_less) simp_all
  also have "\<dots> = 2 powi (bitlen n - bitlen d + 1)"
    by (simp add: power_int_diff [symmetric] algebra_simps)
  finally have "q < 2 powi (bitlen n - bitlen d + 1)" by (simp add: qeq)
  then show ?thesis by (simp add: floor_log2_def nd Let_def)
qed

theorem dbl_pos_error: "0 < q \<Longrightarrow> \<bar>dbl_pos q - q\<bar> \<le> q / 2 ^ 53"
proof -
  assume q: "0 < q"
  define u :: rat where "u = 2 powi (floor_log2 q - 52)"
  have u: "0 < u" by (simp add: u_def)
  have "u = 2 powi floor_log2 q / 2 ^ 52" by (simp add: u_def power_int_diff)
  with floor_log2_le [OF q] have uq: "u \<le> q / 2 ^ 52" by (simp add: divide_right_mono)
  have "dbl_pos q - q = (of_int (round_half_even (q / u)) - q / u) * u"
    using u by (simp add: dbl_pos_def Let_def u_def [symmetric] left_diff_distrib)
  then have "\<bar>dbl_pos q - q\<bar> = \<bar>of_int (round_half_even (q / u)) - q / u\<bar> * u"
    using u by (simp add: abs_mult)
  also have "\<dots> \<le> 1/2 * u" using u round_half_even_error by (intro mult_right_mono) simp_all
  also have "\<dots> \<le> q / 2 ^ 53" using uq by simp
  finally show ?thesis .
qed

lemma dbl_error: "0 \<le> q \<Longrightarrow> \<bar>dbl q - q\<bar> \<le> q / 2 ^ 53"
  using dbl_pos_error by (simp add: dbl_def)

lemma dbl_lower: "0 \<le> q \<Longrightarrow> q * (1 - 1 / 2 ^ 53) \<le> dbl q"
proof -
  assume "0 \<le> q"
  then have "\<bar>dbl q - q\<bar> \<le> q / 2 ^ 53" by (rule dbl_error)
  then have "q - q / 2 ^ 53 \<le> dbl q" by linarith
  then show ?thesis by (simp add: right_diff_distrib)
qed

end
