(* ===== verification/Money.thy ===== *)
theory Money
  imports Js_Number
begin

text \<open>
  The money arithmetic of src/domain: amounts in kobo (money.ts), order pricing with the
  large-order surcharge (pricing.ts), vendor, rider and delivery settlements (settlements.ts),
  refunds (refunds.ts), promotion discounts (promotions.ts), the spoon limit (spoons.ts), the
  ordering cutoff (cutoffs.ts) and the wallet top-up and deposit fees (wallet-topup-fee.ts).
  Every RangeError and typed rejection of the source is an \<open>Inl\<close> branch.
\<close>

named_theorems money_defs \<open>the definitions of the money arithmetic\<close>

section \<open>Integer amounts\<close>

definition assert_integer_cents :: "js_num \<Rightarrow> string \<Rightarrow> exn + int" where
  "assert_integer_cents v label =
     (if \<not> is_integer v \<or> num_floor v < 0
      then Inl (Range_Error (label @ '' must be a non-negative integer amount in cents.''))
      else Inr (num_floor v))"

definition add_cents :: "js_num list \<Rightarrow> exn + int" where
  "add_cents values =
     let_ok (map_ok (\<lambda>v. assert_integer_cents v ''amount'') values) (\<lambda>ns. Inr (sum_list ns))"

definition calculate_basis_points_amount :: "js_num \<Rightarrow> js_num \<Rightarrow> exn + int" where
  "calculate_basis_points_amount amount bps =
     let_ok (assert_integer_cents amount ''amountCents'') (\<lambda>a.
       if \<not> is_integer bps \<or> num_floor bps < 0 \<or> 10000 < num_floor bps
       then Inl (Range_Error ''basisPoints must be an integer from 0 to 10000.'')
       else Inr (math_round (of_int (a * num_floor bps) / 10000)))"

lemma assert_integer_cents_int [simp]:
  "assert_integer_cents (js_int n) l =
     (if n < 0 then Inl (Range_Error (l @ '' must be a non-negative integer amount in cents.''))
      else Inr n)"
  by (simp add: assert_integer_cents_def)

lemma assert_integer_cents_Inr:
  "assert_integer_cents v l = Inr n \<longleftrightarrow> v = js_int n \<and> 0 \<le> n"
  by (cases v) (auto simp: assert_integer_cents_def)

lemma map_ok_assert:
  "map_ok (\<lambda>v. assert_integer_cents v l) vs = Inr ns \<longleftrightarrow>
     vs = map js_int ns \<and> (\<forall>n\<in>set ns. 0 \<le> n)"
  by (induction vs arbitrary: ns) (auto simp: let_ok_Inr assert_integer_cents_Inr Cons_eq_map_conv)

lemma add_cents_Inr:
  "add_cents vs = Inr t \<longleftrightarrow> (\<exists>ns. vs = map js_int ns \<and> (\<forall>n\<in>set ns. 0 \<le> n) \<and> t = sum_list ns)"
  by (auto simp: add_cents_def let_ok_Inr map_ok_assert)

lemma basis_points_Inr:
  "calculate_basis_points_amount x b = Inr r \<longleftrightarrow>
     (\<exists>a p. x = js_int a \<and> 0 \<le> a \<and> b = js_int p \<and> 0 \<le> p \<and> p \<le> 10000 \<and>
        r = math_round (of_int (a * p) / 10000))"
proof
  assume "calculate_basis_points_amount x b = Inr r"
  then obtain a where a: "x = js_int a" "0 \<le> a"
    and b: "is_integer b" "0 \<le> num_floor b" "num_floor b \<le> 10000"
    and r: "r = math_round (of_int (a * num_floor b) / 10000)"
    by (auto simp: calculate_basis_points_amount_def let_ok_Inr assert_integer_cents_Inr
        split: if_splits)
  from b(1) have "b = js_int (num_floor b)" by (cases b) auto
  with a b r show "\<exists>a p. x = js_int a \<and> 0 \<le> a \<and> b = js_int p \<and> 0 \<le> p \<and> p \<le> 10000 \<and>
        r = math_round (of_int (a * p) / 10000)" by blast
qed (auto simp: calculate_basis_points_amount_def)

lemma basis_points_range:
  assumes "0 \<le> a" "0 \<le> p" "p \<le> 10000"
  shows "0 \<le> math_round (of_int a * of_int p / 10000)"
    and "math_round (of_int a * of_int p / 10000) \<le> a"
proof -
  from assms have "math_round 0 \<le> math_round (of_int a * of_int p / 10000)"
    by (intro math_round_mono) simp
  then show "0 \<le> math_round (of_int a * of_int p / 10000)" by simp
  from assms have "(of_int a * of_int p :: rat) \<le> of_int a * 10000"
    by (intro mult_left_mono) simp_all
  then have "(of_int a * of_int p / 10000 :: rat) \<le> of_int a" by simp
  then have "math_round (of_int a * of_int p / 10000) \<le> math_round (of_int a)"
    by (rule math_round_mono)
  then show "math_round (of_int a * of_int p / 10000) \<le> a" by simp
qed

section \<open>Order pricing (pricing.ts)\<close>

record order_line =
  unit_price_cents :: js_num
  line_quantity :: js_num
  line_spoon_count :: "js_num option"

record pricing_input =
  pi_lines :: "order_line list"
  pi_delivery_fee_cents :: js_num
  pi_service_fee_cents :: "js_num option"
  pi_discount_cents :: "js_num option"
  pi_large_order_threshold_cents :: "js_num option"
  pi_large_order_surcharge_bps :: "js_num option"
  pi_large_order_surcharge_flat_cents :: "js_num option"

record order_pricing =
  subtotal_cents :: int
  delivery_fee_cents :: int
  service_fee_cents :: int
  discount_cents :: int
  large_order_surcharge_cents :: int
  exceeds_large_order_threshold :: bool
  total_cents :: int
  spoon_count :: int

definition or_zero :: "js_num option \<Rightarrow> js_num" where
  "or_zero v = (case v of None \<Rightarrow> js_int 0 | Some x \<Rightarrow> x)"

definition assert_positive_quantity :: "js_num \<Rightarrow> exn + int" where
  "assert_positive_quantity q =
     (if \<not> is_integer q \<or> num_floor q \<le> 0
      then Inl (Range_Error ''quantity must be a positive integer.'')
      else Inr (num_floor q))"

definition line_total :: "order_line \<Rightarrow> exn + int" where
  "line_total l =
     let_ok (assert_integer_cents (unit_price_cents l) ''unitPriceCents'') (\<lambda>p.
     let_ok (assert_positive_quantity (line_quantity l)) (\<lambda>q. Inr (p * q)))"

definition spoons_of_line :: "order_line \<Rightarrow> exn + int" where
  "spoons_of_line l =
     (let requested = or_zero (line_spoon_count l)
      in if \<not> is_integer requested \<or> num_floor requested < 0
         then Inl (Range_Error ''spoonCount must be a non-negative integer.'')
         else Inr (num_floor requested))"

definition calculate_large_order_surcharge :: "int \<Rightarrow> pricing_input \<Rightarrow> exn + int \<times> bool" where
  "calculate_large_order_surcharge pre input =
     (case pi_large_order_threshold_cents input of
        None \<Rightarrow> Inr (0, False)
      | Some t \<Rightarrow>
          let_ok (assert_integer_cents t ''largeOrderThresholdCents'') (\<lambda>threshold.
            if pre \<le> threshold then Inr (0, False)
            else
              let_ok (assert_integer_cents (or_zero (pi_large_order_surcharge_flat_cents input))
                        ''largeOrderSurchargeFlatCents'') (\<lambda>flat.
              let_ok (calculate_basis_points_amount (js_int pre)
                        (or_zero (pi_large_order_surcharge_bps input))) (\<lambda>amount.
                Inr (amount + flat, True)))))"

definition calculate_order_pricing :: "pricing_input \<Rightarrow> exn + order_pricing" where
  "calculate_order_pricing input =
     (if pi_lines input = [] then Inl (Range_Error ''At least one order line is required.'')
      else
        let_ok (map_ok line_total (pi_lines input)) (\<lambda>totals.
        let_ok (add_cents (map js_int totals)) (\<lambda>subtotal.
        let_ok (assert_integer_cents (pi_delivery_fee_cents input) ''deliveryFeeCents'') (\<lambda>delivery.
        let_ok (assert_integer_cents (or_zero (pi_service_fee_cents input)) ''serviceFeeCents'') (\<lambda>service.
        let_ok (assert_integer_cents (or_zero (pi_discount_cents input)) ''discountCents'') (\<lambda>discount.
          let gross = subtotal + delivery + service in
          if gross < discount
          then Inl (Range_Error ''discountCents cannot exceed the gross order amount.'')
          else
            let_ok (map_ok spoons_of_line (pi_lines input)) (\<lambda>spoons.
              let pre = gross - discount in
              let_ok (calculate_large_order_surcharge pre input) (\<lambda>(surcharge, exceeds).
                Inr \<lparr>subtotal_cents = subtotal, delivery_fee_cents = delivery,
                     service_fee_cents = service, discount_cents = discount,
                     large_order_surcharge_cents = surcharge,
                     exceeds_large_order_threshold = exceeds,
                     total_cents = pre + surcharge, spoon_count = sum_list spoons\<rparr>))))))))"

lemma surcharge_Inr:
  assumes "calculate_large_order_surcharge pre input = Inr (s, x)"
  shows "0 \<le> s" and "\<not> x \<Longrightarrow> s = 0"
    and "x \<Longrightarrow> \<exists>t. pi_large_order_threshold_cents input = Some (js_int t) \<and> 0 \<le> t \<and> t < pre"
    and "\<not> x \<Longrightarrow> pi_large_order_threshold_cents input = Some (js_int t) \<Longrightarrow> pre \<le> t"
  using assms
  by (auto simp: calculate_large_order_surcharge_def let_ok_Inr assert_integer_cents_Inr
      basis_points_Inr basis_points_range intro!: add_nonneg_nonneg split: option.splits if_splits)

lemma line_total_Inr:
  "line_total l = Inr t \<Longrightarrow>
     \<exists>p q. unit_price_cents l = js_int p \<and> line_quantity l = js_int q \<and> 0 \<le> p \<and> 0 < q \<and> t = p * q"
proof -
  assume "line_total l = Inr t"
  then obtain p where p: "unit_price_cents l = js_int p" "0 \<le> p"
    and q: "is_integer (line_quantity l)" "0 < num_floor (line_quantity l)"
      "t = p * num_floor (line_quantity l)"
    by (auto simp: line_total_def let_ok_Inr assert_integer_cents_Inr assert_positive_quantity_def
        split: if_splits)
  moreover from q(1) have "line_quantity l = js_int (num_floor (line_quantity l))"
    by (cases "line_quantity l") auto
  ultimately show ?thesis by blast
qed

lemma map_ok_line_total_nonneg: "map_ok line_total ls = Inr ts \<Longrightarrow> t \<in> set ts \<Longrightarrow> 0 \<le> t"
  by (induction ls arbitrary: ts) (auto simp: let_ok_Inr dest!: line_total_Inr)

lemma sum_list_nonneg_int: "(\<And>n. n \<in> set ns \<Longrightarrow> 0 \<le> n) \<Longrightarrow> 0 \<le> sum_list ns" for ns :: "int list"
  by (rule sum_list_nonneg) auto

text \<open>What a successful pricing is made of: each component and the line totals behind it.\<close>

lemma pricing_Inr:
  assumes "calculate_order_pricing input = Inr p"
  obtains ts sp where "map_ok line_total (pi_lines input) = Inr ts"
    and "subtotal_cents p = sum_list ts" and "\<forall>t\<in>set ts. 0 \<le> t"
    and "pi_delivery_fee_cents input = js_int (delivery_fee_cents p)" "0 \<le> delivery_fee_cents p"
    and "or_zero (pi_service_fee_cents input) = js_int (service_fee_cents p)" "0 \<le> service_fee_cents p"
    and "or_zero (pi_discount_cents input) = js_int (discount_cents p)" "0 \<le> discount_cents p"
    and "discount_cents p \<le> subtotal_cents p + delivery_fee_cents p + service_fee_cents p"
    and "calculate_large_order_surcharge
           (subtotal_cents p + delivery_fee_cents p + service_fee_cents p - discount_cents p) input
         = Inr (large_order_surcharge_cents p, exceeds_large_order_threshold p)"
    and "total_cents p = subtotal_cents p + delivery_fee_cents p + service_fee_cents p
           - discount_cents p + large_order_surcharge_cents p"
    and "map_ok spoons_of_line (pi_lines input) = Inr sp" "spoon_count p = sum_list sp"
  using assms
  by (auto simp: calculate_order_pricing_def let_ok_Inr add_cents_Inr assert_integer_cents_Inr Let_def
      inj_map_eq_map inj_on_def split: if_splits)

section \<open>Settlements (settlements.ts)\<close>

record delivery_earnings_input =
  de_base_fee_cents :: js_num
  de_per_order_fee_cents :: js_num
  de_order_count :: js_num
  de_distance_fee_cents :: "js_num option"
  de_bonus_cents :: "js_num option"
  de_penalty_cents :: "js_num option"

definition calculate_delivery_earnings :: "delivery_earnings_input \<Rightarrow> exn + int" where
  "calculate_delivery_earnings i =
     let_ok (assert_integer_cents (de_base_fee_cents i) ''baseFeeCents'') (\<lambda>base.
     let_ok (assert_integer_cents (de_per_order_fee_cents i) ''perOrderFeeCents'') (\<lambda>per_order.
     let_ok (assert_integer_cents (or_zero (de_distance_fee_cents i)) ''distanceFeeCents'') (\<lambda>distance.
     let_ok (assert_integer_cents (or_zero (de_bonus_cents i)) ''bonusCents'') (\<lambda>bonus.
     let_ok (assert_integer_cents (or_zero (de_penalty_cents i)) ''penaltyCents'') (\<lambda>penalty.
       if \<not> is_integer (de_order_count i) \<or> num_floor (de_order_count i) \<le> 0
       then Inl (Range_Error ''orderCount must be a positive integer.'')
       else Inr (max 0 (base + per_order * num_floor (de_order_count i) + distance + bonus - penalty)))))))"

record vendor_settlement_input =
  vs_food_gross_cents :: js_num
  vs_commission_basis_points :: js_num
  vs_refund_cents :: "js_num option"
  vs_adjustment_cents :: "js_num option"

record vendor_settlement =
  vs_gross :: int
  vs_commission :: int
  vs_refund :: int
  vs_adjustment :: int
  vs_net_payable :: int

definition calculate_vendor_settlement :: "vendor_settlement_input \<Rightarrow> exn + vendor_settlement" where
  "calculate_vendor_settlement i =
     let_ok (assert_integer_cents (vs_food_gross_cents i) ''foodGrossCents'') (\<lambda>gross.
     let_ok (calculate_basis_points_amount (js_int gross) (vs_commission_basis_points i)) (\<lambda>commission.
     let_ok (assert_integer_cents (or_zero (vs_refund_cents i)) ''refundCents'') (\<lambda>refund.
     let_ok (assert_integer_cents (or_zero (vs_adjustment_cents i)) ''adjustmentCents'') (\<lambda>adjustment.
       Inr \<lparr>vs_gross = gross, vs_commission = commission, vs_refund = refund,
            vs_adjustment = adjustment,
            vs_net_payable = max 0 (gross - commission - refund + adjustment)\<rparr>))))"

record rider_settlement_input =
  rs_delivery_earnings_cents :: "js_num list"
  rs_bonus_cents :: "js_num option"
  rs_penalty_cents :: "js_num option"

record rider_settlement =
  rs_gross_earnings :: int
  rs_bonus :: int
  rs_penalty :: int
  rs_net_payable :: int

definition calculate_rider_settlement :: "rider_settlement_input \<Rightarrow> exn + rider_settlement" where
  "calculate_rider_settlement i =
     let_ok (map_ok (\<lambda>v. assert_integer_cents v ''deliveryEarningsCents'') (rs_delivery_earnings_cents i)) (\<lambda>es.
     let_ok (assert_integer_cents (or_zero (rs_bonus_cents i)) ''bonusCents'') (\<lambda>bonus.
     let_ok (assert_integer_cents (or_zero (rs_penalty_cents i)) ''penaltyCents'') (\<lambda>penalty.
       Inr \<lparr>rs_gross_earnings = sum_list es, rs_bonus = bonus, rs_penalty = penalty,
            rs_net_payable = max 0 (sum_list es + bonus - penalty)\<rparr>)))"

section \<open>Refunds (refunds.ts)\<close>

record refund_input =
  rf_captured_amount_cents :: js_num
  rf_item_refund_cents :: js_num
  rf_delivery_refund_cents :: "js_num option"
  rf_service_fee_refund_cents :: "js_num option"
  rf_penalty_cents :: "js_num option"

record refund_amounts =
  rf_requested_refund :: int
  rf_penalty :: int
  rf_refundable :: int

definition calculate_refund :: "refund_input \<Rightarrow> exn + refund_amounts" where
  "calculate_refund i =
     let_ok (assert_integer_cents (rf_captured_amount_cents i) ''capturedAmountCents'') (\<lambda>captured.
     let_ok (assert_integer_cents (rf_item_refund_cents i) ''itemRefundCents'') (\<lambda>items.
     let_ok (assert_integer_cents (or_zero (rf_delivery_refund_cents i)) ''deliveryRefundCents'') (\<lambda>delivery.
     let_ok (assert_integer_cents (or_zero (rf_service_fee_refund_cents i)) ''serviceFeeRefundCents'') (\<lambda>service.
     let_ok (assert_integer_cents (or_zero (rf_penalty_cents i)) ''penaltyCents'') (\<lambda>penalty.
       let requested = items + delivery + service in
       Inr \<lparr>rf_requested_refund = requested, rf_penalty = penalty,
            rf_refundable = max 0 (min captured requested - penalty)\<rparr>)))))"

section \<open>Promotions (promotions.ts)\<close>

datatype discount_type = Fixed | Percent

datatype promotion_rejection = Inactive | Not_Started | Promo_Expired | Below_Minimum

fun rejection_str :: "promotion_rejection \<Rightarrow> string" where
  "rejection_str Inactive = ''inactive''"
| "rejection_str Not_Started = ''not_started''"
| "rejection_str Promo_Expired = ''expired''"
| "rejection_str Below_Minimum = ''below_minimum''"

record promotion =
  promo_id :: uuid
  promo_code :: string
  promo_discount_type :: discount_type
  promo_discount_value :: int
  promo_min_order_kobo :: int
  promo_max_discount_kobo :: "int option"
  promo_starts_at :: time
  promo_ends_at :: "time option"
  promo_active :: bool

definition reject_promotion :: "promotion_rejection \<Rightarrow> string \<Rightarrow> exn + 'a" where
  "reject_promotion r m = Inl (Promotion_Error (rejection_str r) m)"

definition evaluate_promotion :: "promotion \<Rightarrow> js_num \<Rightarrow> time \<Rightarrow> exn + int" where
  "evaluate_promotion promo subtotal_kobo now =
     let_ok (assert_integer_cents subtotal_kobo ''subtotalKobo'') (\<lambda>subtotal.
       if \<not> promo_active promo then reject_promotion Inactive ''Promotion code is not active.''
       else if now < promo_starts_at promo
       then reject_promotion Not_Started ''Promotion code is not yet active.''
       else if (case promo_ends_at promo of None \<Rightarrow> False | Some e \<Rightarrow> e < now)
       then reject_promotion Promo_Expired ''Promotion code has expired.''
       else if subtotal < promo_min_order_kobo promo
       then reject_promotion Below_Minimum ''Order subtotal is below the promotion minimum.''
       else
         let discount =
           (case promo_discount_type promo of
              Fixed \<Rightarrow> promo_discount_value promo
            | Percent \<Rightarrow>
                (let d = \<lfloor>of_int (subtotal * promo_discount_value promo) / (100 :: rat)\<rfloor>
                 in case promo_max_discount_kobo promo of None \<Rightarrow> d | Some m \<Rightarrow> min d m))
         in Inr (min discount subtotal))"

section \<open>Spoon limit and ordering cutoff (spoons.ts, cutoffs.ts)\<close>

record spoon_decision =
  sd_allowed :: bool
  sd_requested :: int
  sd_max :: int
  sd_reason :: "string option"

definition decide_spoon_limit :: "js_num \<Rightarrow> js_num \<Rightarrow> exn + spoon_decision" where
  "decide_spoon_limit requested max_spoons =
     (if \<not> is_integer requested \<or> num_floor requested < 0
      then Inl (Range_Error ''requestedSpoons must be a non-negative integer.'')
      else if \<not> is_integer max_spoons \<or> num_floor max_spoons < 0
      then Inl (Range_Error ''maxSpoons must be a non-negative integer.'')
      else if num_floor max_spoons < num_floor requested
      then Inr \<lparr>sd_allowed = False, sd_requested = num_floor requested,
                sd_max = num_floor max_spoons, sd_reason = Some ''SPOON_LIMIT_EXCEEDED''\<rparr>
      else Inr \<lparr>sd_allowed = True, sd_requested = num_floor requested,
                sd_max = num_floor max_spoons, sd_reason = None\<rparr>)"

record cutoff_decision =
  cd_allowed :: bool
  cd_cutoff_at :: time
  cd_now :: time
  cd_reason :: "string option"

definition calculate_ordering_cutoff :: "time \<Rightarrow> js_num \<Rightarrow> exn + time" where
  "calculate_ordering_cutoff slot_starts_at minutes =
     (if \<not> is_integer minutes \<or> num_floor minutes < 0
      then Inl (Range_Error ''cutoffMinutesBeforeSlot must be a non-negative integer.'')
      else Inr (slot_starts_at - num_floor minutes * 60000))"

definition decide_ordering_cutoff :: "time \<Rightarrow> time \<Rightarrow> js_num \<Rightarrow> exn + cutoff_decision" where
  "decide_ordering_cutoff now slot_starts_at minutes =
     let_ok (calculate_ordering_cutoff slot_starts_at minutes) (\<lambda>cutoff_at.
       if cutoff_at \<le> now
       then Inr \<lparr>cd_allowed = False, cd_cutoff_at = cutoff_at, cd_now = now,
                 cd_reason = Some ''ORDERING_CUTOFF_PASSED''\<rparr>
       else Inr \<lparr>cd_allowed = True, cd_cutoff_at = cutoff_at, cd_now = now, cd_reason = None\<rparr>)"

section \<open>Wallet top-up and deposit fees (wallet-topup-fee.ts)\<close>

definition fee_rate :: rat where "fee_rate = dbl (15 / 1000)"
definition flat_fee_kobo :: int where "flat_fee_kobo = 10000"
definition flat_fee_waived_below_kobo :: int where "flat_fee_waived_below_kobo = 250000"
definition fee_cap_kobo :: int where "fee_cap_kobo = 200000"

record topup_charge =
  tc_credit_kobo :: int
  tc_fee_kobo :: int
  tc_charge_kobo :: int

definition calculate_topup_charge :: "int \<Rightarrow> bool \<Rightarrow> topup_charge" where
  "calculate_topup_charge credit pass_fees =
     (if \<not> pass_fees then \<lparr>tc_credit_kobo = credit, tc_fee_kobo = 0, tc_charge_kobo = credit\<rparr>
      else
        let flat = (if credit < flat_fee_waived_below_kobo then 0 else flat_fee_kobo);
            applicable = dbl (dbl (of_int credit * fee_rate) + of_int flat);
            charge = (if of_int fee_cap_kobo < applicable then credit + fee_cap_kobo
                      else \<lceil>dbl (of_int (credit + flat) / dbl (1 - fee_rate))\<rceil> + 1)
        in \<lparr>tc_credit_kobo = credit, tc_fee_kobo = charge - credit, tc_charge_kobo = charge\<rparr>)"

record deposit_split =
  ds_deposit_fee_kobo :: int
  ds_credit_kobo :: int

definition split_dedicated_account_deposit :: "int \<Rightarrow> int \<Rightarrow> int option \<Rightarrow> deposit_split" where
  "split_dedicated_account_deposit amount fee_bps cap =
     (if fee_bps \<le> 0 \<or> amount \<le> 1
      then \<lparr>ds_deposit_fee_kobo = 0, ds_credit_kobo = amount\<rparr>
      else
        let uncapped = math_round (of_int (amount * fee_bps) / 10000);
            capped = (case cap of None \<Rightarrow> uncapped
                      | Some c \<Rightarrow> if 0 < c then min uncapped c else uncapped);
            fee = min capped (amount - 1)
        in \<lparr>ds_deposit_fee_kobo = fee, ds_credit_kobo = amount - fee\<rparr>)"

section \<open>Auxiliary facts\<close>

text \<open>The lines of an order as pairs of integer unit price and quantity.\<close>

definition line_amounts :: "order_line list \<Rightarrow> (int \<times> int) list \<Rightarrow> bool" where
  "line_amounts ls ps \<longleftrightarrow>
     map unit_price_cents ls = map (js_int \<circ> fst) ps \<and>
     map line_quantity ls = map (js_int \<circ> snd) ps \<and> (\<forall>(p, q)\<in>set ps. 0 \<le> p \<and> 0 < q)"

lemma map_ok_line_total:
  "map_ok line_total ls = Inr ts \<Longrightarrow>
     \<exists>ps. line_amounts ls ps \<and> ts = map (\<lambda>(p, q). p * q) ps"
proof (induction ls arbitrary: ts)
  case Nil
  then show ?case by (simp add: line_amounts_def)
next
  case (Cons l ls)
  then obtain t ts' where t: "line_total l = Inr t" and "map_ok line_total ls = Inr ts'"
    and ts: "ts = t # ts'" by (auto simp: let_ok_Inr)
  with Cons.IH obtain ps where ps: "line_amounts ls ps" "ts' = map (\<lambda>(p, q). p * q) ps" by blast
  from line_total_Inr [OF t] obtain p q where "unit_price_cents l = js_int p"
    "line_quantity l = js_int q" "0 \<le> p" "0 < q" "t = p * q" by blast
  with ps ts show ?case by (intro exI [of _ "(p, q) # ps"]) (simp add: line_amounts_def)
qed

text \<open>The two double constants of the top-up formula, and the fee Paystack publishes for a local
  card charge (the comment at the head of wallet-topup-fee.ts), the specification the gross-up
  is measured against.\<close>

lemma fee_rate_value: "fee_rate = 1080863910568919 / 72057594037927936"
  unfolding fee_rate_def by code_simp

lemma dbl_one_minus_rate: "dbl (1 - fee_rate) = 8872091265919877 / 9007199254740992"
  unfolding fee_rate_value by code_simp

definition published_card_fee :: "int \<Rightarrow> int" where
  "published_card_fee charge =
     min fee_cap_kobo
       (\<lceil>of_int (15 * charge) / (1000 :: rat)\<rceil> +
        (if charge < flat_fee_waived_below_kobo then 0 else flat_fee_kobo))"

lemma quotient_margin:
  fixes n :: int
  assumes "0 \<le> n" "n \<le> 2 ^ 40"
  shows "of_int n * 1000 / 985 - 1/2 \<le> dbl (of_int n / dbl (1 - fee_rate))"
proof -
  let ?q = "of_int n / dbl (1 - fee_rate)"
  have "of_int n * (1000/985) - 1/2 \<le> of_int n * (9007199254740992 / 8872091265919877 * (1 - 1 / 2 ^ 53) :: rat)"
    using assms by simp
  also have "\<dots> = ?q * (1 - 1 / 2 ^ 53)" by (simp add: dbl_one_minus_rate)
  also have "\<dots> \<le> dbl ?q" using assms by (intro dbl_lower) (simp add: dbl_one_minus_rate)
  finally show ?thesis by simp
qed

lemma ceiling_margin:
  fixes n x :: int
  assumes "of_int n * 1000 / 985 - 1/2 \<le> (y :: rat)" and "x = \<lceil>y\<rceil> + 1"
  shows "n \<le> x - \<lceil>of_int (15 * x) / (1000 :: rat)\<rceil>"
proof -
  have "y \<le> of_int \<lceil>y\<rceil>" by simp
  with assms(1) have "of_int n * 1000 / 985 + 1/2 \<le> (of_int \<lceil>y\<rceil> :: rat) + 1" by linarith
  with assms(2) have "of_int n * 1000 / 985 + 1/2 \<le> (of_int x :: rat)" by simp
  then have x: "(of_int n :: rat) + 985/2000 \<le> of_int x * (985/1000)" by simp
  have "of_int \<lceil>of_int (15 * x) / (1000 :: rat)\<rceil> < of_int (15 * x) / (1000 :: rat) + 1" by linarith
  then have "(of_int \<lceil>of_int (15 * x) / (1000 :: rat)\<rceil> :: rat) < of_int x * (15/1000) + 1" by simp
  with x have "(of_int (n - 1) :: rat) < of_int (x - \<lceil>of_int (15 * x) / (1000 :: rat)\<rceil>)" by simp
  then show ?thesis by (simp only: of_int_less_iff)
qed

text \<open>The charge is never below the credit, whatever the amount.\<close>

lemma topup_charge_covers_credit:
  assumes "0 \<le> credit"
  shows "credit \<le> tc_charge_kobo (calculate_topup_charge credit pass_fees)"
proof -
  define n where "n = credit + (if credit < flat_fee_waived_below_kobo then 0 else flat_fee_kobo)"
  have n: "credit \<le> n" "0 \<le> n" using assms by (auto simp: n_def flat_fee_kobo_def)
  have "of_int n \<le> of_int n / dbl (1 - fee_rate) * (1 - 1 / 2 ^ 53)"
    using n by (simp add: dbl_one_minus_rate)
  also have "\<dots> \<le> dbl (of_int n / dbl (1 - fee_rate))" using n by (intro dbl_lower) (simp add: dbl_one_minus_rate)
  finally have "n \<le> \<lceil>dbl (of_int n / dbl (1 - fee_rate))\<rceil>" by linarith
  with n show ?thesis
    by (simp add: calculate_topup_charge_def Let_def n_def [symmetric] fee_cap_kobo_def)
qed

lemma dbl_upper: "0 \<le> q \<Longrightarrow> dbl q \<le> q * (1 + 1 / 2 ^ 53)"
proof -
  assume "0 \<le> q"
  then have "\<bar>dbl q - q\<bar> \<le> q / 2 ^ 53" by (rule dbl_error)
  then have "dbl q \<le> q + q / 2 ^ 53" by linarith
  then show ?thesis by (simp add: distrib_left)
qed

lemma uncapped_band:
  fixes credit :: int
  assumes "0 \<le> credit" "credit < 250000"
  shows "dbl (dbl (of_int credit * fee_rate) + 0) \<le> 200000"
proof -
  have "dbl (of_int credit * fee_rate) \<le> of_int credit * fee_rate * (1 + 1 / 2 ^ 53)"
    using assms by (intro dbl_upper) (simp add: fee_rate_value)
  also have "\<dots> \<le> 100000" using assms by (simp add: fee_rate_value)
  finally have a: "dbl (of_int credit * fee_rate) \<le> 100000" .
  have "0 \<le> of_int credit * fee_rate * (1 - 1 / 2 ^ 53)" using assms by (simp add: fee_rate_value)
  also have "\<dots> \<le> dbl (of_int credit * fee_rate)"
    using assms by (intro dbl_lower) (simp add: fee_rate_value)
  finally have "dbl (dbl (of_int credit * fee_rate)) \<le> dbl (of_int credit * fee_rate) * (1 + 1 / 2 ^ 53)"
    by (rule dbl_upper)
  also have "\<dots> \<le> 200000" using a by simp
  finally show ?thesis by simp
qed

section \<open>Properties\<close>

text \<open>
  Property C14: a priced order's subtotal is the sum of its lines' integer price times quantity,
  its total is subtotal plus delivery fee plus service fee minus discount plus surcharge, and the
  discount never exceeds the gross, so the total is at least the surcharge and never negative.
\<close>

theorem order_pricing_total:
  assumes "calculate_order_pricing input = Inr p"
  shows "\<exists>ps. line_amounts (pi_lines input) ps \<and> subtotal_cents p = (\<Sum>(c, q)\<leftarrow>ps. c * q) \<and>
      total_cents p = subtotal_cents p + delivery_fee_cents p + service_fee_cents p
        - discount_cents p + large_order_surcharge_cents p \<and>
      discount_cents p \<le> subtotal_cents p + delivery_fee_cents p + service_fee_cents p \<and>
      0 \<le> large_order_surcharge_cents p \<and> large_order_surcharge_cents p \<le> total_cents p"
proof -
  from assms show ?thesis
  proof (rule pricing_Inr)
    fix ts sp
    assume ts: "map_ok line_total (pi_lines input) = Inr ts" "subtotal_cents p = sum_list ts"
      and d: "discount_cents p \<le> subtotal_cents p + delivery_fee_cents p + service_fee_cents p"
      and s: "calculate_large_order_surcharge
           (subtotal_cents p + delivery_fee_cents p + service_fee_cents p - discount_cents p) input
         = Inr (large_order_surcharge_cents p, exceeds_large_order_threshold p)"
      and tot: "total_cents p = subtotal_cents p + delivery_fee_cents p + service_fee_cents p
           - discount_cents p + large_order_surcharge_cents p"
    from map_ok_line_total [OF ts(1)] obtain ps where
      "line_amounts (pi_lines input) ps" "ts = map (\<lambda>(c, q). c * q) ps" by blast
    with ts(2) d tot surcharge_Inr(1) [OF s] show ?thesis by (intro exI [of _ ps]) auto
  qed
qed

theorem order_pricing_total_witness:
  "\<exists>p. calculate_order_pricing
     \<lparr>pi_lines = [\<lparr>unit_price_cents = js_int 120000, line_quantity = js_int 2, line_spoon_count = Some (js_int 2)\<rparr>],
      pi_delivery_fee_cents = js_int 30000, pi_service_fee_cents = Some (js_int 20000),
      pi_discount_cents = None, pi_large_order_threshold_cents = Some (js_int 249000),
      pi_large_order_surcharge_bps = Some (js_int 150),
      pi_large_order_surcharge_flat_cents = Some (js_int 10000)\<rparr> = Inr p \<and>
     total_cents p = 304350 \<and> large_order_surcharge_cents p \<le> total_cents p"
proof -
  let ?i = "\<lparr>pi_lines = [\<lparr>unit_price_cents = js_int 120000, line_quantity = js_int 2, line_spoon_count = Some (js_int 2)\<rparr>],
      pi_delivery_fee_cents = js_int 30000, pi_service_fee_cents = Some (js_int 20000),
      pi_discount_cents = None, pi_large_order_threshold_cents = Some (js_int 249000),
      pi_large_order_surcharge_bps = Some (js_int 150),
      pi_large_order_surcharge_flat_cents = Some (js_int 10000)\<rparr>"
  let ?p = "\<lparr>subtotal_cents = 240000, delivery_fee_cents = 30000, service_fee_cents = 20000,
      discount_cents = 0, large_order_surcharge_cents = 14350,
      exceeds_large_order_threshold = True, total_cents = 304350, spoon_count = 2\<rparr>"
  have p: "calculate_order_pricing ?i = Inr ?p" by code_simp
  from order_pricing_total [OF p] p show ?thesis by (intro exI [of _ ?p]) auto
qed

text \<open>
  Grossing up a card top-up, in the machine's own binary64 arithmetic, covers
  Paystack's published fee (1.5% rounded up, plus the flat fee from the waiver line on, capped)
  for every credit up to 2^31 kobo, unless the charge crosses the waiver line while the credit
  does not.
\<close>

theorem topup_charge_covers_fee:
  assumes "0 < credit" "credit \<le> 2 ^ 31"
    and "\<not> (credit < flat_fee_waived_below_kobo \<and>
            flat_fee_waived_below_kobo \<le> tc_charge_kobo (calculate_topup_charge credit True))"
  shows "credit \<le> tc_charge_kobo (calculate_topup_charge credit True)
           - published_card_fee (tc_charge_kobo (calculate_topup_charge credit True))"
proof -
  define flat where "flat = (if credit < flat_fee_waived_below_kobo then 0 else flat_fee_kobo)"
  let ?app = "dbl (dbl (of_int credit * fee_rate) + of_int flat)"
  let ?y = "dbl (of_int (credit + flat) / dbl (1 - fee_rate))"
  define x where "x = tc_charge_kobo (calculate_topup_charge credit True)"
  have x: "x = (if of_int fee_cap_kobo < ?app then credit + fee_cap_kobo else \<lceil>?y\<rceil> + 1)"
    by (simp add: x_def calculate_topup_charge_def Let_def flat_def)
  show ?thesis
  proof (cases "of_int fee_cap_kobo < ?app")
    case True
    then show ?thesis using x by (simp add: x_def [symmetric] published_card_fee_def)
  next
    case False
    have "0 \<le> credit + flat" "credit + flat \<le> 2 ^ 40"
      using assms(1,2) by (auto simp: flat_def flat_fee_kobo_def)
    then have "credit + flat \<le> x - \<lceil>of_int (15 * x) / (1000 :: rat)\<rceil>"
      using x False by (intro ceiling_margin [OF quotient_margin]) simp_all
    then show ?thesis using assms(3)
      unfolding x_def [symmetric] published_card_fee_def flat_def
      by (auto simp: flat_fee_kobo_def flat_fee_waived_below_kobo_def split: if_splits)
  qed
qed

theorem topup_charge_covers_fee_witness:
  "100000 \<le> tc_charge_kobo (calculate_topup_charge 100000 True)
           - published_card_fee (tc_charge_kobo (calculate_topup_charge 100000 True))"
proof -
  have "\<not> (100000 < flat_fee_waived_below_kobo \<and>
            flat_fee_waived_below_kobo \<le> tc_charge_kobo (calculate_topup_charge 100000 True))"
    by code_simp
  then show ?thesis by (intro topup_charge_covers_fee) simp_all
qed

text \<open>
  For every credit from 246249 to 249999 kobo the gross-up waives the flat fee that
  Paystack charges on the resulting amount, and what is left after Paystack's fee falls short of
  the credit by more than 9990 kobo.
\<close>

theorem topup_waiver_band_falls_short:
  assumes "246249 \<le> credit" "credit < 250000"
  shows "tc_charge_kobo (calculate_topup_charge credit True)
           - published_card_fee (tc_charge_kobo (calculate_topup_charge credit True)) < credit - 9990"
proof -
  let ?q = "of_int credit / dbl (1 - fee_rate)"
  define x where "x = tc_charge_kobo (calculate_topup_charge credit True)"
  have x: "x = \<lceil>dbl ?q\<rceil> + 1"
    using uncapped_band [of credit] assms
    by (simp add: x_def calculate_topup_charge_def Let_def flat_fee_waived_below_kobo_def fee_cap_kobo_def)
  have "dbl ?q \<le> ?q * (1 + 1 / 2 ^ 53)" using assms by (intro dbl_upper) (simp add: dbl_one_minus_rate)
  also have "\<dots> = of_int credit * (9007199254740992 / 8872091265919877 * (1 + 1 / 2 ^ 53))"
    by (simp add: dbl_one_minus_rate)
  also have "\<dots> \<le> of_int credit * (1000/985) + 1/2" using assms by simp
  finally have "of_int \<lceil>dbl ?q\<rceil> < of_int credit * (1000/985) + (3/2 :: rat)" by linarith
  with x have ub: "of_int x < of_int credit * (1000/985) + (5/2 :: rat)" by simp
  have "of_int credit * 1000 / 985 - 1/2 \<le> dbl ?q" using assms by (intro quotient_margin) simp_all
  then have "of_int credit * 1000 / 985 + 1/2 \<le> (of_int x :: rat)" unfolding x by linarith
  moreover have "(of_int 246249 :: rat) \<le> of_int credit" using assms(1) by (simp only: of_int_le_iff)
  ultimately have "(of_int 249999 :: rat) < of_int x" by simp
  then have lb: "250000 \<le> x" by (simp only: of_int_less_iff)
  define k where "k = \<lceil>of_int (15 * x) / (1000 :: rat)\<rceil>"
  have "of_int (15 * x) / 1000 \<le> (of_int k :: rat)" unfolding k_def by (rule le_of_int_ceiling)
  with ub have "(of_int (x - k) :: rat) < of_int (credit + 3)" by simp
  then have "x - k < credit + 3" by (simp only: of_int_less_iff)
  moreover have "x < 260000"
  proof -
    have "(of_int credit :: rat) \<le> of_int 249999" using assms(2) by (simp only: of_int_le_iff)
    with ub have "(of_int x :: rat) < of_int 260000" by simp
    then show ?thesis by (simp only: of_int_less_iff)
  qed
  then have "k \<le> 3900" unfolding k_def by (simp add: ceiling_le_iff)
  ultimately show ?thesis using lb
    unfolding x_def [symmetric] published_card_fee_def k_def [symmetric]
    by (simp add: flat_fee_waived_below_kobo_def flat_fee_kobo_def fee_cap_kobo_def)
qed

theorem topup_waiver_band_falls_short_witness:
  "tc_charge_kobo (calculate_topup_charge 249000 True)
     - published_card_fee (tc_charge_kobo (calculate_topup_charge 249000 True)) < 249000 - 9990"
  by (rule topup_waiver_band_falls_short) simp_all

lemma deposit_split_facts:
  assumes "0 < amount"
  shows "let s = split_dedicated_account_deposit amount fee_bps cap in
     ds_deposit_fee_kobo s + ds_credit_kobo s = amount \<and> 0 \<le> ds_deposit_fee_kobo s \<and>
     0 < ds_credit_kobo s \<and> (\<forall>c. cap = Some c \<and> 0 < c \<longrightarrow> ds_deposit_fee_kobo s \<le> c)"
proof (cases "fee_bps \<le> 0 \<or> amount \<le> 1")
  case True
  with assms show ?thesis by (auto simp: split_dedicated_account_deposit_def)
next
  case False
  then have "math_round 0 \<le> math_round (of_int (amount * fee_bps) / 10000)"
    by (intro math_round_mono) simp
  with False show ?thesis
    by (auto simp: split_dedicated_account_deposit_def Let_def split: option.splits)
qed

text \<open>
  Splitting a dedicated-account transfer of a positive amount loses nothing (fee plus
  credit is the amount), never charges a negative fee, always leaves at least one kobo to
  credit, and respects a positive cap.
\<close>

theorem deposit_split_conserves:
  assumes "0 < amount"
  shows "let s = split_dedicated_account_deposit amount fee_bps cap in
     ds_deposit_fee_kobo s + ds_credit_kobo s = amount \<and> 0 \<le> ds_deposit_fee_kobo s \<and>
     0 < ds_credit_kobo s \<and> (\<forall>c. cap = Some c \<and> 0 < c \<longrightarrow> ds_deposit_fee_kobo s \<le> c)"
  using assms by (rule deposit_split_facts)

theorem deposit_split_conserves_witness:
  "ds_deposit_fee_kobo (split_dedicated_account_deposit 5000000 100 (Some 30000)) \<le> 30000 \<and>
   ds_deposit_fee_kobo (split_dedicated_account_deposit 5000000 100 (Some 30000)) = 30000"
proof -
  have "ds_deposit_fee_kobo (split_dedicated_account_deposit 5000000 100 (Some 30000)) \<le> 30000"
    using deposit_split_conserves [of 5000000 100 "Some 30000"] by (simp add: Let_def)
  moreover have "ds_deposit_fee_kobo (split_dedicated_account_deposit 5000000 100 (Some 30000)) = 30000"
    by code_simp
  ultimately show ?thesis by simp
qed

text \<open>
  A promotion that is accepted grants at most the order subtotal; with a
  non-negative discount value and cap it grants at least zero, and a capped percentage
  promotion grants at most its cap.
\<close>

theorem promotion_discount_bounds:
  assumes "evaluate_promotion promo subtotal now = Inr d"
  shows "\<exists>n. subtotal = js_int n \<and> d \<le> n \<and> promo_active promo \<and> promo_starts_at promo \<le> now \<and>
     promo_min_order_kobo promo \<le> n \<and>
     (0 \<le> promo_discount_value promo \<and> (\<forall>m. promo_max_discount_kobo promo = Some m \<longrightarrow> 0 \<le> m)
        \<longrightarrow> 0 \<le> d) \<and>
     (promo_discount_type promo = Percent \<longrightarrow>
        (\<forall>m. promo_max_discount_kobo promo = Some m \<longrightarrow> d \<le> m))"
  using assms
  by (auto simp: evaluate_promotion_def reject_promotion_def let_ok_Inr assert_integer_cents_Inr Let_def
      split: if_splits option.splits discount_type.splits)

theorem promotion_discount_bounds_witness:
  "\<exists>d. evaluate_promotion
     \<lparr>promo_id = ''p1'', promo_code = ''HALF'', promo_discount_type = Percent,
      promo_discount_value = 50, promo_min_order_kobo = 1000, promo_max_discount_kobo = Some 40000,
      promo_starts_at = 10, promo_ends_at = Some 99, promo_active = True\<rparr> (js_int 100000) 50 = Inr d
     \<and> d \<le> 40000"
proof -
  let ?promo = "\<lparr>promo_id = ''p1'', promo_code = ''HALF'', promo_discount_type = Percent,
      promo_discount_value = 50, promo_min_order_kobo = 1000, promo_max_discount_kobo = Some 40000,
      promo_starts_at = 10, promo_ends_at = Some 99, promo_active = True\<rparr>"
  have e: "evaluate_promotion ?promo (js_int 100000) 50 = Inr 40000" by code_simp
  from promotion_discount_bounds [OF e] e show ?thesis by auto
qed

text \<open>
  A refund pays out at least zero and never more than was captured nor more than was
  requested, and the penalty comes off in full unless it would make the payout negative.
\<close>

theorem refund_bounds:
  assumes "calculate_refund ri = Inr r"
  shows "\<exists>captured. rf_captured_amount_cents ri = js_int captured \<and> 0 \<le> rf_refundable r \<and>
       rf_refundable r \<le> captured \<and> rf_refundable r \<le> rf_requested_refund r \<and>
       (0 < rf_refundable r \<longrightarrow> rf_refundable r + rf_penalty r = min captured (rf_requested_refund r))"
  using assms by (auto simp: calculate_refund_def let_ok_Inr assert_integer_cents_Inr Let_def)

theorem refund_bounds_witness:
  "\<exists>r. calculate_refund
     \<lparr>rf_captured_amount_cents = js_int 5000, rf_item_refund_cents = js_int 4500,
      rf_delivery_refund_cents = Some (js_int 1000), rf_service_fee_refund_cents = None,
      rf_penalty_cents = Some (js_int 300)\<rparr> = Inr r \<and> rf_refundable r \<le> 5000 \<and> rf_refundable r = 4700"
proof -
  let ?i = "\<lparr>rf_captured_amount_cents = js_int 5000, rf_item_refund_cents = js_int 4500,
      rf_delivery_refund_cents = Some (js_int 1000), rf_service_fee_refund_cents = None,
      rf_penalty_cents = Some (js_int 300)\<rparr>"
  have r: "calculate_refund ?i =
      Inr \<lparr>rf_requested_refund = 5500, rf_penalty = 300, rf_refundable = 4700\<rparr>" by code_simp
  from refund_bounds [OF r] r show ?thesis by auto
qed

text \<open>
  The commission of a vendor settlement lies between zero and the gross, within half
  a kobo of the exact percentage, and the net payable is never negative and never above the gross
  plus the adjustment.
\<close>

theorem vendor_settlement_bounds:
  assumes "calculate_vendor_settlement vi = Inr v"
  shows "\<exists>bps. vs_commission_basis_points vi = js_int bps \<and>
       \<bar>of_int (vs_commission v) - of_int (vs_gross v * bps) / (10000 :: rat)\<bar> \<le> 1/2 \<and>
       0 \<le> vs_commission v \<and> vs_commission v \<le> vs_gross v \<and> 0 \<le> vs_net_payable v \<and>
       vs_net_payable v \<le> vs_gross v + vs_adjustment v"
proof -
  from assms obtain g p rf ad where g: "0 \<le> g" and p: "0 \<le> p" "p \<le> 10000"
    and bps: "vs_commission_basis_points vi = js_int p" and nn: "0 \<le> rf" "0 \<le> ad"
    and v: "v = \<lparr>vs_gross = g, vs_commission = math_round (of_int g * of_int p / 10000),
                 vs_refund = rf, vs_adjustment = ad,
                 vs_net_payable = max 0 (g - math_round (of_int g * of_int p / 10000) - rf + ad)\<rparr>"
    by (auto simp: calculate_vendor_settlement_def let_ok_Inr assert_integer_cents_Inr basis_points_Inr)
  let ?c = "math_round (of_int g * of_int p / 10000)"
  have "0 \<le> ?c" "?c \<le> g" using basis_points_range [OF g p] by simp_all
  moreover have "\<bar>of_int ?c - of_int g * of_int p / (10000 :: rat)\<bar> \<le> 1/2"
    using math_round_bounds [of "of_int g * of_int p / 10000"] unfolding abs_le_iff by linarith
  ultimately show ?thesis using nn bps by (simp add: v)
qed

theorem vendor_settlement_bounds_witness:
  "\<exists>v. calculate_vendor_settlement
     \<lparr>vs_food_gross_cents = js_int 99999, vs_commission_basis_points = js_int 1250,
      vs_refund_cents = Some (js_int 499), vs_adjustment_cents = None\<rparr> = Inr v
     \<and> vs_commission v \<le> vs_gross v \<and> vs_net_payable v = 87000"
proof -
  let ?i = "\<lparr>vs_food_gross_cents = js_int 99999, vs_commission_basis_points = js_int 1250,
      vs_refund_cents = Some (js_int 499), vs_adjustment_cents = None\<rparr>"
  have v: "calculate_vendor_settlement ?i =
      Inr \<lparr>vs_gross = 99999, vs_commission = 12500, vs_refund = 499, vs_adjustment = 0,
           vs_net_payable = 87000\<rparr>" by code_simp
  from vendor_settlement_bounds [OF v] v show ?thesis by auto
qed

end
