(* ===== verification/Order_Status.thy ===== *)
theory Order_Status
  imports Prelude
begin

text \<open>
  The order life cycle: the transition matrix of src/domain/order-status.ts, the matrix inside
  public.transition_order_status (supabase/migrations), the two writers of orders.order_status
  the program has (transition_order_status, and the recovery of an expired order in
  public.mark_verified_payment_successful), as a step relation on orders with their history.
\<close>

section \<open>The matrix of the domain module\<close>

datatype order_status =
    Pending_Payment | Paid | Ready | Out_For_Delivery | Delivered
  | Administratively_Completed | Cancelled | Expired | Refunded

fun order_status_str :: "order_status \<Rightarrow> string" where
  "order_status_str Pending_Payment = ''pending_payment''"
| "order_status_str Paid = ''paid''"
| "order_status_str Ready = ''ready''"
| "order_status_str Out_For_Delivery = ''out_for_delivery''"
| "order_status_str Delivered = ''delivered''"
| "order_status_str Administratively_Completed = ''administratively_completed''"
| "order_status_str Cancelled = ''cancelled''"
| "order_status_str Expired = ''expired''"
| "order_status_str Refunded = ''refunded''"

definition order_statuses :: "order_status list" where
  "order_statuses = [Pending_Payment, Paid, Ready, Out_For_Delivery, Delivered,
     Administratively_Completed, Cancelled, Expired, Refunded]"

fun allowed_transitions :: "order_status \<Rightarrow> order_status list" where
  "allowed_transitions Pending_Payment = [Paid, Expired, Cancelled]"
| "allowed_transitions Paid = [Ready, Cancelled, Refunded]"
| "allowed_transitions Ready = [Out_For_Delivery, Cancelled]"
| "allowed_transitions Out_For_Delivery = [Delivered, Cancelled]"
| "allowed_transitions Delivered = [Administratively_Completed, Refunded]"
| "allowed_transitions Administratively_Completed = [Refunded]"
| "allowed_transitions Cancelled = []"
| "allowed_transitions Expired = []"
| "allowed_transitions Refunded = []"

definition can_transition_order_status :: "order_status \<Rightarrow> order_status \<Rightarrow> bool" where
  "can_transition_order_status from to \<longleftrightarrow> to \<in> set (allowed_transitions from)"

definition assert_allowed_order_status_transition :: "order_status \<Rightarrow> order_status \<Rightarrow> exn + unit" where
  "assert_allowed_order_status_transition from to =
     (if \<not> can_transition_order_status from to
      then Inl (Plain_Error (''Order cannot transition from '' @ order_status_str from @ '' to '' @
                             order_status_str to @ ''.''))
      else Inr ())"

section \<open>The database function\<close>

record order_row =
  ord_id :: uuid
  ord_number :: string
  ord_customer :: uuid
  ord_campus :: uuid
  ord_status :: order_status
  ord_paid_at :: "time option"
  ord_ready_at :: "time option"
  ord_delivered_at :: "time option"
  ord_confirmed_at :: "time option"
  ord_cancelled_at :: "time option"
  ord_cancellation_reason :: "string option"
  ord_rider_confirmed_ready :: "bool option"
  ord_reservation_expires_at :: "time option"

record history_row =
  hist_order :: uuid
  hist_from :: "order_status option"
  hist_to :: order_status
  hist_reason :: "string option"

record event_row =
  ev_type :: string
  ev_aggregate_type :: string
  ev_aggregate_id :: uuid

record order_db =
  odb_now :: time
  odb_orders :: "order_row list"
  odb_history :: "history_row list"
  odb_outbox :: "event_row list"

definition sql_transition_allowed :: "order_status \<Rightarrow> order_status \<Rightarrow> bool" where
  "sql_transition_allowed f t \<longleftrightarrow>
     (f = Pending_Payment \<and> t \<in> {Paid, Expired, Cancelled}) \<or>
     (f = Paid \<and> t \<in> {Ready, Cancelled, Refunded}) \<or>
     (f = Ready \<and> t \<in> {Out_For_Delivery, Cancelled}) \<or>
     (f = Out_For_Delivery \<and> t \<in> {Delivered, Cancelled}) \<or>
     (f = Delivered \<and> t \<in> {Administratively_Completed, Refunded}) \<or>
     (f = Administratively_Completed \<and> t = Refunded)"

definition stamp_transition :: "time \<Rightarrow> order_status \<Rightarrow> string option \<Rightarrow> bool \<Rightarrow> order_row \<Rightarrow> order_row" where
  "stamp_transition now to reason food_was_ready r =
     r\<lparr>ord_status := to,
       ord_delivered_at := (if to = Delivered then Some now else ord_delivered_at r),
       ord_confirmed_at := (if to = Administratively_Completed then Some now else ord_confirmed_at r),
       ord_cancelled_at := (if to \<in> {Cancelled, Expired} then Some now else ord_cancelled_at r),
       ord_cancellation_reason := (if to \<in> {Cancelled, Expired} then reason else ord_cancellation_reason r),
       ord_ready_at := (if to = Ready then Some now else ord_ready_at r),
       ord_rider_confirmed_ready := (if to = Out_For_Delivery then Some food_was_ready
                                     else ord_rider_confirmed_ready r)\<rparr>"

definition transition_order_status ::
  "uuid \<Rightarrow> order_status \<Rightarrow> string option \<Rightarrow> bool \<Rightarrow> ('z order_db_scheme, order_status) prog" where
  "transition_order_status oid to reason food_was_ready =
     bindM (gets (\<lambda>s. lookup_by ord_id oid (odb_orders s))) (\<lambda>found.
       case found of
         None \<Rightarrow> raise (Database_Error (Some ''P0002'') (''order '' @ oid @ '' not found'') None)
       | Some r \<Rightarrow>
           if ord_status r = to then ret to
           else if \<not> sql_transition_allowed (ord_status r) to
           then raise (Database_Error (Some ''23514'')
                  (''invalid order status transition from '' @ order_status_str (ord_status r) @
                   '' to '' @ order_status_str to) None)
           else
             thenM (modify (\<lambda>s. s\<lparr>odb_orders := update_where (\<lambda>x. ord_id x = oid)
                       (stamp_transition (odb_now s) to reason food_was_ready) (odb_orders s)\<rparr>))
            (thenM (modify (\<lambda>s. s\<lparr>odb_history := odb_history s @
                       [\<lparr>hist_order = oid, hist_from = Some (ord_status r), hist_to = to, hist_reason = reason\<rparr>]\<rparr>))
            (thenM (modify (\<lambda>s. s\<lparr>odb_outbox := odb_outbox s @
                       [\<lparr>ev_type = ''order.'' @ order_status_str to, ev_aggregate_type = ''order'',
                         ev_aggregate_id = oid\<rparr>]\<rparr>))
             (ret to))))"

definition em_dash :: string where
  "em_dash = [CHR 0xE2, CHR 0x80, CHR 0x94]"

text \<open>
  The order part of mark_verified_payment_successful: a captured payment turns a pending or an
  expired order into a paid one and writes the history row itself; any other order is left
  alone and reported with a payment.successful_unresolved event.
\<close>

definition mark_order_paid :: "uuid \<Rightarrow> ('z order_db_scheme, bool) prog" where
  "mark_order_paid oid =
     bindM (gets (\<lambda>s. lookup_by ord_id oid (odb_orders s))) (\<lambda>found.
       case found of
         None \<Rightarrow> ret False
       | Some r \<Rightarrow>
           if ord_status r \<notin> {Pending_Payment, Expired}
           then thenM (modify (\<lambda>s. s\<lparr>odb_outbox := odb_outbox s @
                  [\<lparr>ev_type = ''payment.successful_unresolved'', ev_aggregate_type = ''order'',
                    ev_aggregate_id = oid\<rparr>]\<rparr>)) (ret False)
           else
             thenM (modify (\<lambda>s. s\<lparr>odb_orders := update_where (\<lambda>x. ord_id x = oid)
                  (\<lambda>x. x\<lparr>ord_status := Paid, ord_paid_at := Some (odb_now s),
                         ord_cancelled_at := None, ord_cancellation_reason := None\<rparr>) (odb_orders s)\<rparr>))
            (thenM (modify (\<lambda>s. s\<lparr>odb_history := odb_history s @
                  [\<lparr>hist_order = oid, hist_from = Some (ord_status r), hist_to = Paid,
                    hist_reason = Some (if ord_status r = Expired
                      then ''payment confirmed after reservation expiry '' @ em_dash @ '' auto-recovered''
                      else ''verified provider payment'')\<rparr>]\<rparr>))
            (thenM (modify (\<lambda>s. s\<lparr>odb_outbox := odb_outbox s @
                  [\<lparr>ev_type = ''payment.successful'', ev_aggregate_type = ''order'',
                    ev_aggregate_id = oid\<rparr>]\<rparr>))
             (ret True))))"

text \<open>
  Creation: create_pending_order_and_reserve_inventory inserts the order as pending_payment with a
  reservation deadline, create_paid_order_from_wallet inserts it as paid; both write a first
  history row without a from-status. \<open>gen_random_uuid()\<close> gives an id no row has.
\<close>

definition insert_order ::
  "uuid \<Rightarrow> string \<Rightarrow> uuid \<Rightarrow> uuid \<Rightarrow> order_status \<Rightarrow> time option \<Rightarrow> string \<Rightarrow>
   'z order_db_scheme \<Rightarrow> 'z order_db_scheme" where
  "insert_order oid number customer campus st expires reason s =
     s\<lparr>odb_orders := odb_orders s @
         [\<lparr>ord_id = oid, ord_number = number, ord_customer = customer, ord_campus = campus,
           ord_status = st,
           ord_paid_at = (if st = Paid then Some (odb_now s) else None),
           ord_ready_at = None, ord_delivered_at = None, ord_confirmed_at = None,
           ord_cancelled_at = None, ord_cancellation_reason = None,
           ord_rider_confirmed_ready = None, ord_reservation_expires_at = expires\<rparr>],
       odb_history := odb_history s @
         [\<lparr>hist_order = oid, hist_from = None, hist_to = st, hist_reason = Some reason\<rparr>]\<rparr>"

text \<open>The order part of release_expired_reservations, for one order and for the whole sweep.\<close>

definition reservation_expired :: "time \<Rightarrow> order_row \<Rightarrow> bool" where
  "reservation_expired now r \<longleftrightarrow>
     ord_status r = Pending_Payment \<and>
     (case ord_reservation_expires_at r of None \<Rightarrow> False | Some t \<Rightarrow> t < now)"

definition expire_order :: "uuid \<Rightarrow> 'z order_db_scheme \<Rightarrow> 'z order_db_scheme" where
  "expire_order oid s =
     s\<lparr>odb_orders := update_where (\<lambda>x. ord_id x = oid)
          (\<lambda>x. x\<lparr>ord_status := Expired, ord_cancelled_at := Some (odb_now s),
                 ord_cancellation_reason := Some ''payment reservation expired''\<rparr>) (odb_orders s),
       odb_history := odb_history s @
          [\<lparr>hist_order = oid, hist_from = Some Pending_Payment, hist_to = Expired,
            hist_reason = Some ''payment reservation expired''\<rparr>]\<rparr>"

definition release_expired_reservations :: "('z order_db_scheme, nat) prog" where
  "release_expired_reservations = (\<lambda>s.
     let due = map ord_id (filter (reservation_expired (odb_now s)) (odb_orders s))
     in (Inr (length due), fold expire_order due s))"

section \<open>Runs\<close>

text \<open>
  A step of the database: one of the writers of orders.order_status, the creation of an order, or
  time passing.
\<close>

inductive order_step :: "order_db \<Rightarrow> order_db \<Rightarrow> bool" where
  transition: "order_step s (snd (transition_order_status oid to reason ready s))"
| verified_payment: "order_step s (snd (mark_order_paid oid s))"
| release: "order_step s (snd (release_expired_reservations s))"
| create:
    "oid \<notin> ord_id ` set (odb_orders s) \<Longrightarrow> oid \<notin> hist_order ` set (odb_history s) \<Longrightarrow>
     st = Pending_Payment \<or> st = Paid \<Longrightarrow>
     order_step s (insert_order oid number customer campus st expires reason s)"
| clock: "odb_now s \<le> t \<Longrightarrow> order_step s (s\<lparr>odb_now := t\<rparr>)"

inductive order_reachable :: "order_db \<Rightarrow> bool" where
  start: "order_reachable \<lparr>odb_now = t, odb_orders = [], odb_history = [], odb_outbox = []\<rparr>"
| step: "order_reachable s \<Longrightarrow> order_step s s' \<Longrightarrow> order_reachable s'"

text \<open>
  The status a history leads to: every row must start where the one before ended, and take a
  transition of the domain matrix, the creation of an order, or the recovery of an expired order.
\<close>

fun legal_move :: "order_status option \<Rightarrow> order_status \<Rightarrow> bool" where
  "legal_move None to = (to = Pending_Payment \<or> to = Paid)"
| "legal_move (Some from) to = (can_transition_order_status from to \<or> from = Expired \<and> to = Paid)"

fun replay :: "uuid \<Rightarrow> order_status option \<Rightarrow> history_row list \<Rightarrow> order_status option option" where
  "replay oid st [] = Some st"
| "replay oid st (h # hs) =
     (if hist_order h \<noteq> oid then replay oid st hs
      else if hist_from h = st \<and> legal_move st (hist_to h) then replay oid (Some (hist_to h)) hs
      else None)"

lemma replay_append:
  "replay oid st (hs @ hs') = (case replay oid st hs of None \<Rightarrow> None | Some st' \<Rightarrow> replay oid st' hs')"
  by (induction hs arbitrary: st) auto

lemma replay_other: "oid \<notin> hist_order ` set hs \<Longrightarrow> replay oid st hs = Some st"
  by (induction hs arbitrary: st) auto

definition order_inv :: "'z order_db_scheme \<Rightarrow> bool" where
  "order_inv s \<longleftrightarrow> distinct (map ord_id (odb_orders s)) \<and>
     (\<forall>r\<in>set (odb_orders s). replay (ord_id r) None (odb_history s) = Some (Some (ord_status r)))"

lemma matrix_agrees: "sql_transition_allowed f t \<longleftrightarrow> can_transition_order_status f t"
  by (cases f; cases t) (simp_all add: sql_transition_allowed_def can_transition_order_status_def)

text \<open>One writer: the status of one order moves legally and the move is appended to the history.\<close>

lemma order_inv_move:
  assumes inv: "order_inv s" and r: "lookup_by ord_id oid (odb_orders s) = Some r"
    and legal: "legal_move (Some (ord_status r)) to"
    and f: "\<And>x. ord_id (f x) = ord_id x" "\<And>x. ord_status (f x) = to"
    and h: "hist_order h = oid" "hist_from h = Some (ord_status r)" "hist_to h = to"
  shows "order_inv (s\<lparr>odb_orders := update_where (\<lambda>x. ord_id x = oid) f (odb_orders s),
                      odb_history := odb_history s @ [h]\<rparr>)"
proof -
  from r have rin: "r \<in> set (odb_orders s)" "ord_id r = oid" by (auto dest: lookup_by_Some)
  { fix x assume x: "x \<in> set (odb_orders s)" "ord_id x = oid"
    with inv r have "x = r" using lookup_by_member [of ord_id "odb_orders s" x]
      by (simp add: order_inv_def) }
  note only = this
  have "replay oid None (odb_history s) = Some (Some (ord_status r))"
    using inv rin by (auto simp: order_inv_def)
  with legal h have moved: "replay oid None (odb_history s @ [h]) = Some (Some to)"
    by (simp add: replay_append)
  { fix x assume "x \<in> set (odb_orders s)" "ord_id x \<noteq> oid"
    with inv h have "replay (ord_id x) None (odb_history s @ [h]) = Some (Some (ord_status x))"
      by (simp add: order_inv_def replay_append) }
  with moved inv show ?thesis
    using f by (auto simp: order_inv_def map_update_where set_update_where)
qed

lemma order_inv_frame:
  "order_inv s \<Longrightarrow> order_inv (s\<lparr>odb_outbox := out\<rparr>)" "order_inv s \<Longrightarrow> order_inv (s\<lparr>odb_now := t\<rparr>)"
  by (simp_all add: order_inv_def)

lemma transition_inv: "order_inv s \<Longrightarrow> order_inv (snd (transition_order_status oid to reason ready s))"
proof (cases "lookup_by ord_id oid (odb_orders s)")
  case (Some r)
  assume inv: "order_inv s"
  show ?thesis
  proof (cases "ord_status r \<noteq> to \<and> sql_transition_allowed (ord_status r) to")
    case True
    then have "legal_move (Some (ord_status r)) to" by (simp add: matrix_agrees)
    from order_inv_move [OF inv Some this, of "stamp_transition (odb_now s) to reason ready"
        "\<lparr>hist_order = oid, hist_from = Some (ord_status r), hist_to = to, hist_reason = reason\<rparr>"]
    show ?thesis using Some True
      by (simp add: transition_order_status_def prog_simps stamp_transition_def order_inv_frame(1))
  qed (use Some inv in \<open>auto simp: transition_order_status_def prog_simps\<close>)
qed (simp add: transition_order_status_def prog_simps)

lemma mark_order_paid_inv: "order_inv s \<Longrightarrow> order_inv (snd (mark_order_paid oid s))"
proof (cases "lookup_by ord_id oid (odb_orders s)")
  case (Some r)
  assume inv: "order_inv s"
  show ?thesis
  proof (cases "ord_status r \<in> {Pending_Payment, Expired}")
    case True
    then have "legal_move (Some (ord_status r)) Paid" by (auto simp: can_transition_order_status_def)
    from order_inv_move [OF inv Some this, of
        "\<lambda>x. x\<lparr>ord_status := Paid, ord_paid_at := Some (odb_now s), ord_cancelled_at := None,
              ord_cancellation_reason := None\<rparr>"
        "\<lparr>hist_order = oid, hist_from = Some (ord_status r), hist_to = Paid,
          hist_reason = Some (if ord_status r = Expired
                      then ''payment confirmed after reservation expiry '' @ em_dash @ '' auto-recovered''
                      else ''verified provider payment'')\<rparr>"]
    show ?thesis using Some True by (simp add: mark_order_paid_def prog_simps order_inv_frame(1))
  qed (use Some inv in \<open>auto simp: mark_order_paid_def prog_simps order_inv_frame(1)\<close>)
qed (simp add: mark_order_paid_def prog_simps)

lemma expire_order_inv:
  assumes "order_inv s" and "lookup_by ord_id oid (odb_orders s) = Some r"
    and "ord_status r = Pending_Payment"
  shows "order_inv (expire_order oid s)"
  unfolding expire_order_def using assms
  by (intro order_inv_move) (auto simp: can_transition_order_status_def)

lemma fold_expire_inv:
  "order_inv s \<Longrightarrow> distinct ids \<Longrightarrow>
   (\<forall>oid\<in>set ids. \<exists>r. lookup_by ord_id oid (odb_orders s) = Some r \<and> ord_status r = Pending_Payment) \<Longrightarrow>
   order_inv (fold expire_order ids s)"
proof (induction ids arbitrary: s)
  case (Cons i ids)
  let ?s = "expire_order i s"
  have "lookup_by ord_id oid (odb_orders ?s) =
      map_option (\<lambda>r. if ord_id r = i then r\<lparr>ord_status := Expired, ord_cancelled_at := Some (odb_now s),
                 ord_cancellation_reason := Some ''payment reservation expired''\<rparr> else r)
        (lookup_by ord_id oid (odb_orders s))" for oid
    by (simp add: expire_order_def lookup_update_where)
  then have "\<forall>oid\<in>set ids. \<exists>r. lookup_by ord_id oid (odb_orders ?s) = Some r \<and> ord_status r = Pending_Payment"
    using Cons.prems(2,3) by (fastforce dest: lookup_by_Some)
  moreover from Cons.prems have "order_inv ?s" by (auto intro: expire_order_inv)
  ultimately show ?case using Cons.prems(2) Cons.IH by simp
qed simp

lemma release_inv: "order_inv s \<Longrightarrow> order_inv (snd (release_expired_reservations s))"
proof -
  assume inv: "order_inv s"
  let ?due = "map ord_id (filter (reservation_expired (odb_now s)) (odb_orders s))"
  have "distinct ?due" using inv by (simp add: order_inv_def distinct_map_filter)
  moreover have "\<forall>oid\<in>set ?due. \<exists>r. lookup_by ord_id oid (odb_orders s) = Some r \<and> ord_status r = Pending_Payment"
    using inv by (auto simp: order_inv_def reservation_expired_def lookup_by_member)
  ultimately show ?thesis using inv by (simp add: release_expired_reservations_def Let_def fold_expire_inv)
qed

lemma insert_order_inv:
  "order_inv s \<Longrightarrow> oid \<notin> ord_id ` set (odb_orders s) \<Longrightarrow> oid \<notin> hist_order ` set (odb_history s) \<Longrightarrow>
   st = Pending_Payment \<or> st = Paid \<Longrightarrow> order_inv (insert_order oid number customer campus st expires reason s)"
  by (auto simp: order_inv_def insert_order_def replay_append replay_other)

lemma order_step_inv: "order_step s s' \<Longrightarrow> order_inv s \<Longrightarrow> order_inv s'"
  by (induction rule: order_step.induct)
    (auto intro: transition_inv mark_order_paid_inv release_inv insert_order_inv order_inv_frame)

lemma order_reachable_inv: "order_reachable s \<Longrightarrow> order_inv s"
  by (induction rule: order_reachable.induct) (simp add: order_inv_def, blast intro: order_step_inv)

text \<open>A history that ends beyond payment has a row that reached paid.\<close>

definition beyond_payment :: "order_status \<Rightarrow> bool" where
  "beyond_payment st \<longleftrightarrow> st \<in> {Paid, Ready, Out_For_Delivery, Delivered, Administratively_Completed, Refunded}"

lemma legal_move_beyond:
  "legal_move st to \<Longrightarrow> beyond_payment to \<Longrightarrow> to = Paid \<or> (\<exists>f. st = Some f \<and> beyond_payment f)"
  (is "_ \<Longrightarrow> _ \<Longrightarrow> ?thesis")
proof (cases st)
  case (Some f)
  then show "legal_move st to \<Longrightarrow> beyond_payment to \<Longrightarrow> ?thesis"
    by (cases f; cases to) (simp_all add: beyond_payment_def can_transition_order_status_def)
qed (auto simp: beyond_payment_def)

lemma replay_beyond:
  "replay oid st hs = Some (Some to) \<Longrightarrow> beyond_payment to \<Longrightarrow>
   (\<forall>f. st = Some f \<longrightarrow> \<not> beyond_payment f) \<Longrightarrow>
   \<exists>h\<in>set hs. hist_order h = oid \<and> hist_to h = Paid"
proof (induction hs arbitrary: st)
  case (Cons h hs)
  show ?case
  proof (cases "hist_order h = oid \<and> hist_to h \<noteq> Paid")
    case True
    with Cons.prems have m: "legal_move st (hist_to h)" "replay oid (Some (hist_to h)) hs = Some (Some to)"
      by (auto split: if_splits)
    with True Cons.prems(3) have "\<not> beyond_payment (hist_to h)" by (auto dest: legal_move_beyond)
    with Cons.IH [OF m(2) Cons.prems(2)] show ?thesis by auto
  qed (use Cons in \<open>auto split: if_splits\<close>)
qed simp

section \<open>Properties\<close>

text \<open>
  Property C36: the transition check of the domain module accepts exactly the moves the matrix in
  the database function transition_order_status accepts.
\<close>

theorem domain_matrix_is_database_matrix:
  "assert_allowed_order_status_transition from to = Inr () \<longleftrightarrow> sql_transition_allowed from to"
  by (simp add: assert_allowed_order_status_transition_def matrix_agrees)

text \<open>
  Property C13: in every reachable database the append-only history of an order replays, by moves
  of the matrix, creation and the recovery of an expired order, to exactly the status the order
  has.
\<close>

theorem history_replays_to_status:
  assumes "order_reachable s" and "r \<in> set (odb_orders s)"
  shows "replay (ord_id r) None (odb_history s) = Some (Some (ord_status r))"
  using order_reachable_inv [OF assms(1)] assms(2) by (simp add: order_inv_def)

text \<open>
  Property C3: no order of a reachable database is ready, out for delivery, delivered, completed or
  refunded without a history row that took it to paid.
\<close>

theorem no_fulfilment_without_payment:
  assumes "order_reachable s" and "r \<in> set (odb_orders s)"
    and "ord_status r \<in> {Paid, Ready, Out_For_Delivery, Delivered, Administratively_Completed, Refunded}"
  shows "\<exists>h\<in>set (odb_history s). hist_order h = ord_id r \<and> hist_to h = Paid"
proof -
  have "replay (ord_id r) None (odb_history s) = Some (Some (ord_status r))"
    using order_reachable_inv [OF assms(1)] assms(2) by (simp add: order_inv_def)
  from replay_beyond [OF this] assms(3) show ?thesis by (simp add: beyond_payment_def)
qed

text \<open>A run used by the witnesses: a checkout order is created, expires, is paid late, and made ready.\<close>

definition run_start :: order_db where
  "run_start = \<lparr>odb_now = 1000, odb_orders = [], odb_history = [], odb_outbox = []\<rparr>"

definition run_created :: order_db where
  "run_created = insert_order ''o1'' ''MD-1'' ''u1'' ''c1'' Pending_Payment (Some 1500) ''order created'' run_start"

definition run_expired :: order_db where
  "run_expired = snd (release_expired_reservations (run_created\<lparr>odb_now := 2000\<rparr>))"

definition run_paid :: order_db where
  "run_paid = snd (mark_order_paid ''o1'' run_expired)"

definition run_ready :: order_db where
  "run_ready = snd (transition_order_status ''o1'' Ready None True run_paid)"

lemma run_created_reachable: "order_reachable run_created"
proof -
  have "order_reachable run_start" unfolding run_start_def by (rule order_reachable.start)
  then show ?thesis
    unfolding run_created_def
    by (rule order_reachable.step) (rule order_step.create; simp add: run_start_def)
qed

lemma run_expired_reachable: "order_reachable run_expired"
proof -
  have "order_reachable (run_created\<lparr>odb_now := 2000\<rparr>)"
    using run_created_reachable
    by (rule order_reachable.step)
      (rule order_step.clock, simp add: run_created_def insert_order_def run_start_def)
  then show ?thesis unfolding run_expired_def by (rule order_reachable.step) (rule order_step.release)
qed

lemma run_ready_reachable: "order_reachable run_ready"
proof -
  have "order_reachable run_paid"
    unfolding run_paid_def using run_expired_reachable
    by (rule order_reachable.step) (rule order_step.verified_payment)
  then show ?thesis unfolding run_ready_def by (rule order_reachable.step) (rule order_step.transition)
qed

lemma run_ready_order: "map ord_status (odb_orders run_ready) = [Ready] \<and> map ord_id (odb_orders run_ready) = [''o1'']"
  by code_simp

lemma run_expired_order: "map ord_status (odb_orders run_expired) = [Expired]"
  by code_simp

lemma run_paid_order: "map ord_status (odb_orders run_paid) = [Paid]"
  by code_simp

lemma run_ready_row: "\<exists>r\<in>set (odb_orders run_ready). ord_id r = ''o1'' \<and> ord_status r = Ready"
  using run_ready_order by (auto simp: map_eq_Cons_conv)

theorem history_replays_to_status_witness:
  "\<exists>r\<in>set (odb_orders run_ready). ord_status r = Ready \<and>
     replay ''o1'' None (odb_history run_ready) = Some (Some Ready)"
proof -
  from run_ready_row obtain r where r: "r \<in> set (odb_orders run_ready)" "ord_id r = ''o1''" "ord_status r = Ready"
    by blast
  from history_replays_to_status [OF run_ready_reachable r(1)] r show ?thesis by auto
qed

theorem no_fulfilment_without_payment_witness:
  "\<exists>h\<in>set (odb_history run_ready). hist_order h = ''o1'' \<and> hist_to h = Paid"
proof -
  from run_ready_row obtain r where r: "r \<in> set (odb_orders run_ready)" "ord_id r = ''o1''" "ord_status r = Ready"
    by blast
  from no_fulfilment_without_payment [OF run_ready_reachable r(1)] r show ?thesis by simp
qed

text \<open>
  The domain module lists expired as terminal, but a reachable database takes an
  expired order to paid when the provider confirms the payment late.
\<close>

theorem expired_is_not_terminal:
  "allowed_transitions Expired = [] \<and>
   (\<exists>s s'. order_reachable s \<and> order_step s s' \<and>
      map ord_status (odb_orders s) = [Expired] \<and> map ord_status (odb_orders s') = [Paid])"
proof -
  have "order_step run_expired run_paid" unfolding run_paid_def by (rule order_step.verified_payment)
  with run_expired_reachable run_expired_order run_paid_order
  have "\<exists>s s'. order_reachable s \<and> order_step s s' \<and>
      map ord_status (odb_orders s) = [Expired] \<and> map ord_status (odb_orders s') = [Paid]"
    by (intro exI [of _ run_expired] exI [of _ run_paid] conjI)
  then show ?thesis by simp
qed

end
