(* ===== verification/Json.thy ===== *)
theory Json
  imports Js_Number
begin

text \<open>
  JSON values and JSON.parse, which the program applies to webhook metadata, wallet shortfall
  details and list cursors. Strings are byte lists (UTF-8); an escape \<open>\uXXXX\<close> yields the UTF-8
  bytes of its code point. Objects keep one value per key, the last one written. Numbers are
  exact rationals. Undefined is \<open>None\<close>. \<open>js_to_number\<close> is the coercion Number(value).
\<close>

datatype json =
    JNull
  | JBool bool
  | JNum js_num
  | JStr string
  | JArr "json list"
  | JObj "(string \<times> json) list"

definition obj_put :: "string \<Rightarrow> json \<Rightarrow> (string \<times> json) list \<Rightarrow> (string \<times> json) list" where
  "obj_put k v kvs = (if k \<in> fst ` set kvs then map (\<lambda>(k', v'). (k', if k' = k then v else v')) kvs
                      else kvs @ [(k, v)])"

fun json_field :: "string \<Rightarrow> json \<Rightarrow> json option" where
  "json_field k (JObj kvs) = map_of kvs k"
| "json_field k _ = None"

section \<open>Strings\<close>

definition hex_digit :: "char \<Rightarrow> nat option" where
  "hex_digit c = (let n = of_char c :: nat in
     if 48 \<le> n \<and> n \<le> 57 then Some (n - 48)
     else if 97 \<le> n \<and> n \<le> 102 then Some (n - 87)
     else if 65 \<le> n \<and> n \<le> 70 then Some (n - 55)
     else None)"

definition hex4 :: "char \<Rightarrow> char \<Rightarrow> char \<Rightarrow> char \<Rightarrow> nat option" where
  "hex4 a b c d =
     (case (hex_digit a, hex_digit b, hex_digit c, hex_digit d) of
        (Some w, Some x, Some y, Some z) \<Rightarrow> Some (((w * 16 + x) * 16 + y) * 16 + z)
      | _ \<Rightarrow> None)"

definition utf8 :: "nat \<Rightarrow> string" where
  "utf8 n =
     (if n < 128 then [char_of n]
      else if n < 2048 then [char_of (192 + n div 64), char_of (128 + n mod 64)]
      else if n < 65536
      then [char_of (224 + n div 4096), char_of (128 + n div 64 mod 64), char_of (128 + n mod 64)]
      else [char_of (240 + n div 262144), char_of (128 + n div 4096 mod 64),
            char_of (128 + n div 64 mod 64), char_of (128 + n mod 64)])"

definition simple_escape :: "char \<Rightarrow> char option" where
  "simple_escape c =
     (if c = CHR 0x22 then Some (CHR 0x22) else if c = CHR 0x5C then Some (CHR 0x5C)
      else if c = CHR ''/'' then Some (CHR ''/'') else if c = CHR ''b'' then Some (CHR 0x08)
      else if c = CHR ''f'' then Some (CHR 0x0C) else if c = CHR ''n'' then Some (CHR 0x0A)
      else if c = CHR ''r'' then Some (CHR 0x0D) else if c = CHR ''t'' then Some (CHR 0x09) else None)"

text \<open>
  \<open>parse_string acc s\<close> reads the rest of a string literal after its opening quote; a high
  surrogate waits in \<open>hi\<close> for the low one that follows it. A lone surrogate, which no UTF-8
  text holds, becomes the replacement character, as Buffer.from(text, 'utf8') writes it.
\<close>

definition flush_surrogate :: "nat option \<Rightarrow> string \<Rightarrow> string" where
  "flush_surrogate hi acc = (case hi of None \<Rightarrow> acc | Some _ \<Rightarrow> rev (utf8 65533) @ acc)"

fun parse_string :: "string \<Rightarrow> nat option \<Rightarrow> string \<Rightarrow> (string \<times> string) option" where
  "parse_string acc hi [] = None"
| "parse_string acc hi (c # cs) =
     (if c = CHR 0x22 then Some (rev (flush_surrogate hi acc), cs)
      else if c = CHR 0x5C then
        (case cs of
           [] \<Rightarrow> None
         | e # es \<Rightarrow>
             if e = CHR ''u'' then
               (case es of
                  a # b # d # f # rest \<Rightarrow>
                    (case hex4 a b d f of
                       None \<Rightarrow> None
                     | Some n \<Rightarrow>
                         if hi \<noteq> None \<and> 56320 \<le> n \<and> n < 57344
                         then parse_string
                                (rev (utf8 (65536 + (the hi - 55296) * 1024 + (n - 56320))) @ acc) None rest
                         else if 55296 \<le> n \<and> n < 56320
                         then parse_string (flush_surrogate hi acc) (Some n) rest
                         else if 56320 \<le> n \<and> n < 57344
                         then parse_string (rev (utf8 65533) @ flush_surrogate hi acc) None rest
                         else parse_string (rev (utf8 n) @ flush_surrogate hi acc) None rest)
                | _ \<Rightarrow> None)
             else (case simple_escape e of
                     None \<Rightarrow> None
                   | Some x \<Rightarrow> parse_string (x # flush_surrogate hi acc) None es))
      else if (of_char c :: nat) < 32 then None
      else parse_string (c # flush_surrogate hi acc) None cs)"

section \<open>Numbers\<close>

definition is_digit :: "char \<Rightarrow> bool" where
  "is_digit c \<longleftrightarrow> c \<in> set ''0123456789''"

definition digits_value :: "string \<Rightarrow> int" where
  "digits_value ds = foldl (\<lambda>n c. 10 * n + int (of_char c - 48)) 0 ds"

definition parse_exponent :: "string \<Rightarrow> (int \<times> string) option" where
  "parse_exponent s =
     (case s of
        e # rest \<Rightarrow>
          if e = CHR ''e'' \<or> e = CHR ''E'' then
            let (sign, body) = (case rest of
                  c # r \<Rightarrow> if c = CHR ''-'' then (-1, r) else if c = CHR ''+'' then (1, r) else (1, rest)
                | [] \<Rightarrow> (1, rest));
                ds = takeWhile is_digit body
            in if ds = [] then None else Some (sign * digits_value ds, dropWhile is_digit body)
          else Some (0, s)
      | [] \<Rightarrow> Some (0, s))"

definition parse_fraction :: "string \<Rightarrow> (string \<times> string) option" where
  "parse_fraction s =
     (case s of
        d # rest \<Rightarrow>
          if d = CHR ''.'' then
            let ds = takeWhile is_digit rest
            in if ds = [] then None else Some (ds, dropWhile is_digit rest)
          else Some ([], s)
      | [] \<Rightarrow> Some ([], s))"

definition decimal_value :: "string \<Rightarrow> string \<Rightarrow> int \<Rightarrow> rat" where
  "decimal_value ds fs e = of_int (digits_value (ds @ fs)) * 10 powi (e - int (length fs))"

definition parse_unsigned :: "string \<Rightarrow> (rat \<times> string) option" where
  "parse_unsigned s =
     (let ds = takeWhile is_digit s; rest = dropWhile is_digit s in
      if ds = [] \<or> (hd ds = CHR ''0'' \<and> length ds \<noteq> 1) then None
      else case parse_fraction rest of
             None \<Rightarrow> None
           | Some (fs, rest') \<Rightarrow>
               (case parse_exponent rest' of
                  None \<Rightarrow> None
                | Some (e, rest'') \<Rightarrow> Some (decimal_value ds fs e, rest'')))"

definition parse_number :: "string \<Rightarrow> (rat \<times> string) option" where
  "parse_number s =
     (case s of
        c # cs \<Rightarrow>
          if c = CHR ''-'' then map_option (\<lambda>(q, r). (- q, r)) (parse_unsigned cs) else parse_unsigned s
      | [] \<Rightarrow> None)"

section \<open>Values\<close>

definition skip_ws :: "string \<Rightarrow> string" where
  "skip_ws = dropWhile (\<lambda>c. c = CHR 0x20 \<or> c = CHR 0x09 \<or> c = CHR 0x0A \<or> c = CHR 0x0D)"

text \<open>The fuel bounds the nesting and the number of elements; the length of the text is enough.\<close>

fun parse_value :: "nat \<Rightarrow> string \<Rightarrow> (json \<times> string) option"
  and parse_elements :: "nat \<Rightarrow> json list \<Rightarrow> string \<Rightarrow> (json list \<times> string) option"
  and parse_members :: "nat \<Rightarrow> (string \<times> json) list \<Rightarrow> string \<Rightarrow> ((string \<times> json) list \<times> string) option"
where
  "parse_value 0 s = None"
| "parse_value (Suc n) s =
     (let t = skip_ws s in
      if starts_with ''null'' t then Some (JNull, drop 4 t)
      else if starts_with ''true'' t then Some (JBool True, drop 4 t)
      else if starts_with ''false'' t then Some (JBool False, drop 5 t)
      else case t of
             [] \<Rightarrow> None
           | c # cs \<Rightarrow>
               if c = CHR 0x22 then map_option (\<lambda>(x, r). (JStr x, r)) (parse_string [] None cs)
               else if c = CHR ''['' then
                 (case skip_ws cs of
                    d # ds \<Rightarrow> if d = CHR '']'' then Some (JArr [], ds)
                              else map_option (\<lambda>(x, r). (JArr x, r)) (parse_elements n [] cs)
                  | [] \<Rightarrow> None)
               else if c = CHR 0x7B then
                 (case skip_ws cs of
                    d # ds \<Rightarrow> if d = CHR 0x7D then Some (JObj [], ds)
                              else map_option (\<lambda>(x, r). (JObj x, r)) (parse_members n [] cs)
                  | [] \<Rightarrow> None)
               else map_option (\<lambda>(q, r). (JNum (Fin q), r)) (parse_number t))"
| "parse_elements 0 acc s = None"
| "parse_elements (Suc n) acc s =
     (case parse_value n s of
        None \<Rightarrow> None
      | Some (v, r) \<Rightarrow>
          (case skip_ws r of
             [] \<Rightarrow> None
           | c # cs \<Rightarrow> if c = CHR '','' then parse_elements n (acc @ [v]) cs
                       else if c = CHR '']'' then Some (acc @ [v], cs) else None))"
| "parse_members 0 acc s = None"
| "parse_members (Suc n) acc s =
     (case skip_ws s of
        [] \<Rightarrow> None
      | q # qs \<Rightarrow>
          if q \<noteq> CHR 0x22 then None
          else (case parse_string [] None qs of
                  None \<Rightarrow> None
                | Some (k, r) \<Rightarrow>
                    (case skip_ws r of
                       [] \<Rightarrow> None
                     | c # cs \<Rightarrow>
                         if c \<noteq> CHR '':'' then None
                         else (case parse_value n cs of
                                 None \<Rightarrow> None
                               | Some (v, r') \<Rightarrow>
                                   (case skip_ws r' of
                                      [] \<Rightarrow> None
                                    | d # ds \<Rightarrow>
                                        if d = CHR '','' then parse_members n (obj_put k v acc) ds
                                        else if d = CHR 0x7D then Some (obj_put k v acc, ds)
                                        else None)))))"

definition json_parse :: "string \<Rightarrow> json option" where
  "json_parse s =
     (case parse_value (Suc (length s)) s of
        None \<Rightarrow> None
      | Some (v, r) \<Rightarrow> if skip_ws r = [] then Some v else None)"

section \<open>Number(value)\<close>

definition parse_decimal_literal :: "string \<Rightarrow> js_num" where
  "parse_decimal_literal s =
     (let ds = takeWhile is_digit s; rest = dropWhile is_digit s;
          (fs, rest') = (case rest of
             d # r \<Rightarrow> if d = CHR ''.'' then (takeWhile is_digit r, dropWhile is_digit r) else ([], rest)
           | [] \<Rightarrow> ([], rest))
      in if ds = [] \<and> fs = [] then NaN
         else case parse_exponent rest' of
                Some (e, []) \<Rightarrow> Fin (decimal_value ds fs e)
              | _ \<Rightarrow> NaN)"

definition radix_value :: "nat \<Rightarrow> string \<Rightarrow> js_num" where
  "radix_value b ds =
     (if ds = [] \<or> (\<exists>c\<in>set ds. case hex_digit c of None \<Rightarrow> True | Some d \<Rightarrow> b \<le> d) then NaN
      else js_int (foldl (\<lambda>n c. int b * n + int (the (hex_digit c))) 0 ds))"

fun num_neg :: "js_num \<Rightarrow> js_num" where
  "num_neg (Fin q) = Fin (- q)"
| "num_neg Pos_Inf = Neg_Inf"
| "num_neg Neg_Inf = Pos_Inf"
| "num_neg NaN = NaN"

definition string_to_number :: "string \<Rightarrow> js_num" where
  "string_to_number str =
     (let s = js_trim str in
      if s = [] then js_int 0
      else if starts_with ''0x'' s \<or> starts_with ''0X'' s then radix_value 16 (drop 2 s)
      else if starts_with ''0o'' s \<or> starts_with ''0O'' s then radix_value 8 (drop 2 s)
      else if starts_with ''0b'' s \<or> starts_with ''0B'' s then radix_value 2 (drop 2 s)
      else
        let (neg, body) = (if hd s = CHR ''-'' then (True, tl s)
                           else if hd s = CHR ''+'' then (False, tl s) else (False, s));
            v = (if body = ''Infinity'' then Pos_Inf else parse_decimal_literal body)
        in if neg then num_neg v else v)"

fun js_to_number :: "json \<Rightarrow> js_num" where
  "js_to_number JNull = js_int 0"
| "js_to_number (JBool b) = (if b then js_int 1 else js_int 0)"
| "js_to_number (JNum n) = n"
| "js_to_number (JStr s) = string_to_number s"
| "js_to_number (JArr []) = js_int 0"
| "js_to_number (JArr [JBool b]) = NaN"
| "js_to_number (JArr [v]) = js_to_number v"
| "js_to_number (JArr (v # w # vs)) = NaN"
| "js_to_number (JObj kvs) = NaN"

end
