(* ===== verification/Access.thy ===== *)
theory Access
  imports Json
begin

text \<open>
  Who may do what: actors and the resource checks of domain/authorization.ts, the granular admin
  permissions of domain/admin-permissions.ts, the role and permission guards and the token
  handling of modules/auth, the operations guard, and the campus and vendor scoping the services
  share. Verifying a JWT's signature is jose's work: the verified claims are an argument.
\<close>

section \<open>Actors (domain/authorization.ts, auth/actor-context.ts)\<close>

datatype actor_role = Customer | Vendor | Rider | Campus_Admin | Super_Admin

fun role_str :: "actor_role \<Rightarrow> string" where
  "role_str Customer = ''customer''"
| "role_str Vendor = ''vendor''"
| "role_str Rider = ''rider''"
| "role_str Campus_Admin = ''campus_admin''"
| "role_str Super_Admin = ''super_admin''"

definition actor_roles :: "actor_role list" where
  "actor_roles = [Customer, Vendor, Rider, Campus_Admin, Super_Admin]"

record actor =
  user_id :: uuid
  role :: actor_role
  email :: "string option"
  campus_id :: "uuid option"
  vendor_id :: "uuid option"
  rider_id :: "uuid option"

definition parse_actor_role :: "json option \<Rightarrow> actor_role option" where
  "parse_actor_role v =
     (case v of Some (JStr s) \<Rightarrow> find (\<lambda>r. role_str r = s) actor_roles | _ \<Rightarrow> None)"

record order_access_target =
  oat_customer_id :: uuid
  oat_campus_id :: uuid
  oat_vendor_id :: uuid
  oat_rider_id :: "uuid option"

record settlement_access_target =
  sat_campus_id :: uuid
  sat_vendor_id :: uuid

definition can_read_order :: "actor \<Rightarrow> order_access_target \<Rightarrow> bool" where
  "can_read_order a t =
     (if role a = Super_Admin then True
      else if role a = Campus_Admin then campus_id a = Some (oat_campus_id t)
      else if role a = Vendor then vendor_id a = Some (oat_vendor_id t)
      else if role a = Rider then rider_id a \<noteq> None \<and> rider_id a = oat_rider_id t
      else user_id a = oat_customer_id t)"

definition can_manage_admin :: "actor \<Rightarrow> uuid option \<Rightarrow> bool" where
  "can_manage_admin a target =
     (if role a = Super_Admin then True
      else role a = Campus_Admin \<and> target \<noteq> None \<and> campus_id a = target)"

definition can_access_vendor_settlement :: "actor \<Rightarrow> settlement_access_target \<Rightarrow> bool" where
  "can_access_vendor_settlement a t =
     (if role a = Super_Admin then True
      else if role a = Campus_Admin then campus_id a = Some (sat_campus_id t)
      else role a = Vendor \<and> vendor_id a = Some (sat_vendor_id t))"

section \<open>Admin permissions (domain/admin-permissions.ts)\<close>

datatype membership_role =
    M_Super_Admin | M_Campus_Admin | M_Finance_Admin | M_Operations_Admin | M_Support_Admin | M_Readonly_Admin

fun membership_role_str :: "membership_role \<Rightarrow> string" where
  "membership_role_str M_Super_Admin = ''super_admin''"
| "membership_role_str M_Campus_Admin = ''campus_admin''"
| "membership_role_str M_Finance_Admin = ''finance_admin''"
| "membership_role_str M_Operations_Admin = ''operations_admin''"
| "membership_role_str M_Support_Admin = ''support_admin''"
| "membership_role_str M_Readonly_Admin = ''readonly_admin''"

definition admin_membership_roles :: "membership_role list" where
  "admin_membership_roles = [M_Super_Admin, M_Campus_Admin, M_Finance_Admin, M_Operations_Admin,
     M_Support_Admin, M_Readonly_Admin]"

definition is_admin_membership_role :: "json \<Rightarrow> bool" where
  "is_admin_membership_role v =
     (case v of JStr s \<Rightarrow> s \<in> membership_role_str ` set admin_membership_roles | _ \<Rightarrow> False)"

datatype permission =
    P_Read | P_Payments_Verify | P_Refunds_Manage | P_Wallets_Manage | P_Settlements_Manage
  | P_Payouts_Manage | P_Reconciliation_Manage | P_Vendors_Manage | P_Riders_Manage
  | P_Users_Manage | P_Admin_Manage

definition admin_permissions :: "permission list" where
  "admin_permissions = [P_Read, P_Payments_Verify, P_Refunds_Manage, P_Wallets_Manage,
     P_Settlements_Manage, P_Payouts_Manage, P_Reconciliation_Manage, P_Vendors_Manage,
     P_Riders_Manage, P_Users_Manage, P_Admin_Manage]"

fun permission_str :: "permission \<Rightarrow> string" where
  "permission_str P_Read = ''read''"
| "permission_str P_Payments_Verify = ''payments:verify''"
| "permission_str P_Refunds_Manage = ''refunds:manage''"
| "permission_str P_Wallets_Manage = ''wallets:manage''"
| "permission_str P_Settlements_Manage = ''settlements:manage''"
| "permission_str P_Payouts_Manage = ''payouts:manage''"
| "permission_str P_Reconciliation_Manage = ''reconciliation:manage''"
| "permission_str P_Vendors_Manage = ''vendors:manage''"
| "permission_str P_Riders_Manage = ''riders:manage''"
| "permission_str P_Users_Manage = ''users:manage''"
| "permission_str P_Admin_Manage = ''admin:manage''"

fun admin_role_permissions :: "membership_role \<Rightarrow> permission list" where
  "admin_role_permissions M_Super_Admin = admin_permissions"
| "admin_role_permissions M_Campus_Admin =
     [P_Read, P_Payments_Verify, P_Refunds_Manage, P_Wallets_Manage, P_Settlements_Manage,
      P_Payouts_Manage, P_Reconciliation_Manage, P_Vendors_Manage, P_Riders_Manage, P_Users_Manage]"
| "admin_role_permissions M_Finance_Admin =
     [P_Read, P_Payments_Verify, P_Refunds_Manage, P_Wallets_Manage, P_Settlements_Manage,
      P_Payouts_Manage, P_Reconciliation_Manage]"
| "admin_role_permissions M_Operations_Admin = [P_Read, P_Vendors_Manage, P_Riders_Manage]"
| "admin_role_permissions M_Support_Admin = [P_Read]"
| "admin_role_permissions M_Readonly_Admin = [P_Read]"

text \<open>The JWT role handed in is super_admin or campus_admin: \<open>jwt_is_super\<close> says which.\<close>

definition resolve_admin_permissions :: "membership_role list \<Rightarrow> bool \<Rightarrow> permission set" where
  "resolve_admin_permissions roles jwt_is_super =
     (if jwt_is_super \<or> M_Super_Admin \<in> set roles then set admin_permissions
      else
        let effective = (if roles \<noteq> [] then roles else [M_Campus_Admin])
        in fold (\<lambda>r ps. ps \<union> set (admin_role_permissions r)) effective {P_Read})"

section \<open>Guards (roles.guard.ts, permissions.guard.ts, internal-operations.guard.ts)\<close>

definition forbidden :: "string \<Rightarrow> exn" where
  "forbidden m = Http_Error 403 ''FORBIDDEN'' m"
definition bad_request :: "string \<Rightarrow> exn" where
  "bad_request m = Http_Error 400 ''VALIDATION_FAILED'' m"
definition not_found :: "string \<Rightarrow> exn" where
  "not_found m = Http_Error 404 ''NOT_FOUND'' m"
definition unauthorized :: "string \<Rightarrow> exn" where
  "unauthorized m = Http_Error 401 ''UNAUTHORIZED'' m"
definition conflict :: "string \<Rightarrow> exn" where
  "conflict m = Http_Error 409 ''CONFLICT'' m"

lemma http_exn [simp]:
  "is_http (forbidden m)" "is_http (bad_request m)" "is_http (not_found m)"
  "is_http (unauthorized m)" "is_http (conflict m)"
  by (simp_all add: forbidden_def bad_request_def not_found_def unauthorized_def conflict_def)

definition roles_guard :: "actor_role list \<Rightarrow> actor option \<Rightarrow> exn + bool" where
  "roles_guard required a =
     (if required = [] then Inr True
      else if (case a of None \<Rightarrow> False | Some x \<Rightarrow> role x \<in> set required) then Inr True
      else Inl (forbidden ''Insufficient permissions.''))"

text \<open>\<open>lookup\<close> is the answer of the membership table for the actor: the active roles, or a throw.\<close>

definition permissions_guard ::
  "permission option \<Rightarrow> actor option \<Rightarrow> (uuid \<Rightarrow> exn + membership_role list) \<Rightarrow> exn + bool" where
  "permissions_guard required a lookup =
     (case required of
        None \<Rightarrow> Inr True
      | Some p \<Rightarrow>
          (case a of
             None \<Rightarrow> Inl (forbidden ''Authentication is required.'')
           | Some x \<Rightarrow>
               if role x \<noteq> Super_Admin \<and> role x \<noteq> Campus_Admin
               then Inl (forbidden ''Admin access is required.'')
               else if role x = Super_Admin then Inr True
               else
                 let roles = (case lookup (user_id x) of Inl _ \<Rightarrow> [] | Inr rs \<Rightarrow> rs) in
                 if p \<in> resolve_admin_permissions roles False then Inr True
                 else Inl (forbidden (''Missing required admin permission: '' @ permission_str p))))"

definition internal_operations_guard :: "string option \<Rightarrow> string option \<Rightarrow> exn + bool" where
  "internal_operations_guard expected header =
     (case expected of
        None \<Rightarrow> Inl (Http_Error 401 ''OPERATIONS_AUTH_REQUIRED'' ''Operations endpoint is not configured.'')
      | Some e \<Rightarrow>
          let token = (case header of None \<Rightarrow> None
             | Some h \<Rightarrow> if starts_with ''Bearer '' h then Some (drop (length ''Bearer '') h) else None)
          in if token = None \<or> the token \<noteq> e
             then Inl (Http_Error 401 ''OPERATIONS_AUTH_REQUIRED'' ''Valid operations credentials are required.'')
             else Inr True)"

section \<open>Tokens (jwt-auth.guard.ts, supabase-jwt.service.ts)\<close>

definition extract_bearer_token :: "string option \<Rightarrow> exn + string" where
  "extract_bearer_token header =
     (case header of
        None \<Rightarrow> Inl (unauthorized ''Bearer token is required.'')
      | Some h \<Rightarrow>
          if \<not> starts_with ''Bearer '' h then Inl (unauthorized ''Bearer token is required.'')
          else let token = js_trim (drop (length ''Bearer '') h)
               in if token = [] then Inl (unauthorized ''Bearer token is required.'') else Inr token)"

definition self_service_roles :: "actor_role list" where
  "self_service_roles = [Customer, Vendor, Rider]"

definition object_value :: "json option \<Rightarrow> json" where
  "object_value v = (case v of Some (JObj kvs) \<Rightarrow> JObj kvs | _ \<Rightarrow> JObj [])"

definition string_value :: "json option \<Rightarrow> string option" where
  "string_value v = (case v of Some (JStr s) \<Rightarrow> if s = [] then None else Some s | _ \<Rightarrow> None)"

text \<open>The operator ??: the right side when the left one is undefined or null.\<close>

definition nullish :: "json option \<Rightarrow> json option \<Rightarrow> json option" where
  "nullish a b = (if a = None \<or> a = Some JNull then b else a)"

definition resolve_role :: "json \<Rightarrow> json \<Rightarrow> bool \<Rightarrow> actor_role" where
  "resolve_role app_metadata user_metadata allow_fallback =
     (case parse_actor_role (nullish (json_field ''meal_direct_role'' app_metadata)
                                     (json_field ''role'' app_metadata)) of
        Some r \<Rightarrow> r
      | None \<Rightarrow>
          if allow_fallback then
            (case parse_actor_role (json_field ''meal_direct_role'' user_metadata) of
               Some r \<Rightarrow> if r \<in> set self_service_roles then r else Customer
             | None \<Rightarrow> Customer)
          else Customer)"

record jwt_claims =
  claim_sub :: "string option"
  claim_email :: "json option"
  claim_app_metadata :: "json option"
  claim_user_metadata :: "json option"

definition to_actor :: "bool \<Rightarrow> jwt_claims \<Rightarrow> exn + actor" where
  "to_actor allow_fallback c =
     (if claim_sub c = None \<or> claim_sub c = Some []
      then Inl (unauthorized ''Token subject is missing.'')
      else
        let app = object_value (claim_app_metadata c);
            usr = object_value (claim_user_metadata c)
        in Inr \<lparr>user_id = the (claim_sub c), role = resolve_role app usr allow_fallback,
                email = string_value (claim_email c),
                campus_id = string_value (json_field ''campus_id'' app),
                vendor_id = string_value (json_field ''vendor_id'' app),
                rider_id = string_value (json_field ''rider_id'' app)\<rparr>)"

text \<open>
  verifyToken with the two key sources: \<open>jwks_verify\<close> and \<open>secret_verify\<close> are jose's jwtVerify
  under the configured key set or secret, issuer and audience. Everything thrown inside the try
  block, the missing subject included, leaves as the generic answer.
\<close>

definition verify_token ::
  "bool \<Rightarrow> (string \<Rightarrow> exn + jwt_claims) option \<Rightarrow> (string \<Rightarrow> exn + jwt_claims) option \<Rightarrow> string \<Rightarrow> exn + actor" where
  "verify_token allow_fallback jwks_verify secret_verify token =
     (let attempt = (\<lambda>verify. case let_ok (verify token) (to_actor allow_fallback) of
            Inl _ \<Rightarrow> Inl (unauthorized ''Invalid or expired bearer token.'')
          | Inr a \<Rightarrow> Inr a)
      in case jwks_verify of
           Some v \<Rightarrow> attempt v
         | None \<Rightarrow>
             (case secret_verify of
                None \<Rightarrow> Inl (unauthorized ''JWT verification is not configured.'')
              | Some v \<Rightarrow> attempt v))"

definition jwt_auth_guard ::
  "bool \<Rightarrow> (string \<Rightarrow> exn + jwt_claims) option \<Rightarrow> (string \<Rightarrow> exn + jwt_claims) option \<Rightarrow> string option \<Rightarrow> exn + actor" where
  "jwt_auth_guard allow_fallback jwks secret header =
     let_ok (extract_bearer_token header) (verify_token allow_fallback jwks secret)"

section \<open>Scopes the services share\<close>

text \<open>
  adminCampusScope of the payments, refunds and reconciliation services: \<open>None\<close> (undefined) is
  every campus.
\<close>

definition admin_campus_scope :: "actor \<Rightarrow> exn + uuid option" where
  "admin_campus_scope a =
     (if role a = Super_Admin then Inr None
      else if role a = Campus_Admin \<and> campus_id a \<noteq> None then Inr (campus_id a)
      else Inl (forbidden ''Admin access is required.''))"

definition in_scope :: "uuid option \<Rightarrow> uuid \<Rightarrow> bool" where
  "in_scope scope campus = (case scope of None \<Rightarrow> True | Some c \<Rightarrow> c = campus)"

definition assert_and_get_vendor_id :: "actor \<Rightarrow> exn + uuid" where
  "assert_and_get_vendor_id a =
     (if role a \<noteq> Vendor \<or> vendor_id a = None \<or> vendor_id a = Some []
      then Inl (forbidden ''Vendor access is required.'')
      else Inr (the (vendor_id a)))"

section \<open>Properties\<close>

lemma self_service_not_admin: "r \<in> set self_service_roles \<Longrightarrow> r \<noteq> Campus_Admin \<and> r \<noteq> Super_Admin"
  by (auto simp: self_service_roles_def)

lemma parse_actor_role_Some: "parse_actor_role v = Some r \<longleftrightarrow> v = Some (JStr (role_str r))"
proof -
  have "find (\<lambda>r. role_str r = s) actor_roles = Some r \<longleftrightarrow> s = role_str r" for s
    by (cases r) (auto simp: actor_roles_def split: if_splits)
  then show ?thesis by (auto simp: parse_actor_role_def split: option.splits json.splits)
qed

definition app_metadata_role :: "jwt_claims \<Rightarrow> json option" where
  "app_metadata_role c =
     nullish (json_field ''meal_direct_role'' (object_value (claim_app_metadata c)))
             (json_field ''role'' (object_value (claim_app_metadata c)))"

lemma resolve_role_admin:
  assumes "resolve_role app usr fb = r" and "r = Campus_Admin \<or> r = Super_Admin"
  shows "nullish (json_field ''meal_direct_role'' app) (json_field ''role'' app) = Some (JStr (role_str r))"
proof (cases "parse_actor_role (nullish (json_field ''meal_direct_role'' app) (json_field ''role'' app))")
  case None
  from assms self_service_not_admin show ?thesis
    by (auto simp: resolve_role_def None split: option.splits if_splits)
next
  case (Some q)
  with assms show ?thesis by (simp add: resolve_role_def parse_actor_role_Some)
qed

lemma to_actor_admin:
  "to_actor fb c = Inr a \<Longrightarrow> role a = Campus_Admin \<or> role a = Super_Admin \<Longrightarrow>
   app_metadata_role c = Some (JStr (role_str (role a)))"
  by (auto simp: to_actor_def Let_def app_metadata_role_def resolve_role_admin split: if_splits)

lemma verify_token_verified:
  "verify_token fb jwks sec t = Inr a \<Longrightarrow>
   \<exists>verify c. (jwks = Some verify \<or> jwks = None \<and> sec = Some verify) \<and>
     verify t = Inr c \<and> to_actor fb c = Inr a"
  by (auto simp: verify_token_def Let_def let_ok_Inr split: option.splits sum.splits)

text \<open>
  Property C39: an actor the JWT guard lets through as campus_admin or super_admin carries a token
  the configured verifier accepted and whose service-controlled app_metadata names that role; the
  user-editable user_metadata never makes an admin, whatever the fallback setting.
\<close>

theorem admin_role_comes_from_app_metadata:
  assumes "jwt_auth_guard fallback jwks secret header = Inr a"
    and "role a = Campus_Admin \<or> role a = Super_Admin"
  shows "\<exists>verify token claims. (jwks = Some verify \<or> jwks = None \<and> secret = Some verify) \<and>
           extract_bearer_token header = Inr token \<and> verify token = Inr claims \<and>
           claim_sub claims = Some (user_id a) \<and>
           app_metadata_role claims = Some (JStr (role_str (role a)))"
proof -
  from assms(1) obtain token where t: "extract_bearer_token header = Inr token"
    "verify_token fallback jwks secret token = Inr a"
    by (auto simp: jwt_auth_guard_def let_ok_Inr)
  from verify_token_verified [OF t(2)] obtain verify c
    where v: "jwks = Some verify \<or> jwks = None \<and> secret = Some verify" "verify token = Inr c"
      "to_actor fallback c = Inr a" by blast
  moreover from v(3) have "claim_sub c = Some (user_id a)"
    by (auto simp: to_actor_def Let_def split: if_splits)
  moreover from v(3) assms(2) have "app_metadata_role c = Some (JStr (role_str (role a)))"
    by (rule to_actor_admin)
  ultimately show ?thesis using t(1) by blast
qed

definition sample_claims :: "jwt_claims" where
  "sample_claims = \<lparr>claim_sub = Some ''u1'', claim_email = Some (JStr ''a@x''),
     claim_app_metadata = Some (JObj [(''meal_direct_role'', JStr ''campus_admin''), (''campus_id'', JStr ''c1'')]),
     claim_user_metadata = Some (JObj [(''meal_direct_role'', JStr ''super_admin'')])\<rparr>"

definition sample_admin :: actor where
  "sample_admin = \<lparr>user_id = ''u1'', role = Campus_Admin, email = Some ''a@x'',
     campus_id = Some ''c1'', vendor_id = None, rider_id = None\<rparr>"

definition sample_verify :: "string \<Rightarrow> exn + jwt_claims" where
  "sample_verify t = Inr sample_claims"

theorem admin_role_comes_from_app_metadata_witness:
  "\<exists>verify token claims. (None = Some verify \<or> (None :: (string \<Rightarrow> exn + jwt_claims) option) = None \<and> Some sample_verify = Some verify) \<and>
     extract_bearer_token (Some ''Bearer t'') = Inr token \<and> verify token = Inr claims \<and>
     claim_sub claims = Some (user_id sample_admin) \<and>
     app_metadata_role claims = Some (JStr (role_str (role sample_admin)))"
proof (rule admin_role_comes_from_app_metadata)
  show "jwt_auth_guard True None (Some sample_verify) (Some ''Bearer t'') = Inr sample_admin"
    by code_simp
qed (simp add: sample_admin_def)

lemma fold_union: "fold (\<lambda>r ps. ps \<union> f r) rs acc = acc \<union> (\<Union>r\<in>set rs. f r)"
  by (induction rs arbitrary: acc) auto

lemma resolve_admin_permissions_iff:
  "p \<in> resolve_admin_permissions rs jwt_super \<longleftrightarrow>
     jwt_super \<or> M_Super_Admin \<in> set rs \<or> p = P_Read \<or>
     (\<exists>r\<in>set (if rs = [] then [M_Campus_Admin] else rs). p \<in> set (admin_role_permissions r))"
proof -
  have "p \<in> set admin_permissions" by (cases p) (simp_all add: admin_permissions_def)
  then show ?thesis by (auto simp: resolve_admin_permissions_def Let_def fold_union)
qed

text \<open>
  The permission guard hands admin:manage to nobody but a super_admin token or a
  campus_admin token with an active super_admin membership row; an empty or failing membership
  lookup never grants it.
\<close>

theorem admin_manage_only_for_super_admins:
  "permissions_guard (Some P_Admin_Manage) (Some a) lookup = Inr True \<longleftrightarrow>
     role a = Super_Admin \<or>
     (role a = Campus_Admin \<and> (\<exists>rs. lookup (user_id a) = Inr rs \<and> M_Super_Admin \<in> set rs))"
proof -
  have others: "P_Admin_Manage \<in> set (admin_role_permissions r) \<longleftrightarrow> r = M_Super_Admin" for r
    by (cases r) (simp_all add: admin_permissions_def)
  then have "P_Admin_Manage \<in> resolve_admin_permissions rs False \<longleftrightarrow> M_Super_Admin \<in> set rs" for rs
    by (auto simp: resolve_admin_permissions_iff)
  then show ?thesis
    by (cases "lookup (user_id a)") (auto simp: permissions_guard_def Let_def)
qed

text \<open>
  A failing membership lookup widens what a restricted admin may do: an admin whose
  rows are only readonly_admin is refused every permission but read while the table answers, and
  is granted all of them but admin:manage while it does not.
\<close>

theorem failed_lookup_escalates_readonly_admin:
  "(permissions_guard (Some p) (Some sample_admin) (\<lambda>_. Inr [M_Readonly_Admin]) = Inr True \<longleftrightarrow> p = P_Read) \<and>
   (permissions_guard (Some p) (Some sample_admin) (\<lambda>_. Inl e) = Inr True \<longleftrightarrow> p \<noteq> P_Admin_Manage)"
  by (cases p; simp add: permissions_guard_def sample_admin_def resolve_admin_permissions_iff)

end
