(* ===== verification/Interfaces.thy ===== *)
theory Interfaces
  imports Prelude
begin

text \<open>
  The contracts one component relies on another for, as locales. \<open>topup_store\<close> is what the webhook
  and the deposit sweep need of the wallet functions: a credit is keyed by the provider's reference
  and either books its amount under a new reference, or finds the reference booked and moves no
  money, or throws, and then its transaction leaves nothing behind. The clients' lemma is about a
  sequence of deliveries in which any reference may come again.
\<close>

fun deliver_all ::
  "('r \<Rightarrow> 'c \<Rightarrow> ('s, 'e option) prog) \<Rightarrow> ('r \<times> 'c) list \<Rightarrow> 's \<Rightarrow> ('r \<times> 'c) list \<times> 's" where
  "deliver_all credit [] s = ([], s)"
| "deliver_all credit ((r, c) # ds) s =
     (case transaction (credit r c) s of
        (Inr (Some e), t) \<Rightarrow> (case deliver_all credit ds t of (acc, u) \<Rightarrow> ((r, c) # acc, u))
      | (Inr None, t) \<Rightarrow> deliver_all credit ds t
      | (Inl e, t) \<Rightarrow> deliver_all credit ds t)"

locale topup_store =
  fixes credit :: "'r \<Rightarrow> 'c \<Rightarrow> ('s, 'e option) prog"
    and seen :: "'s \<Rightarrow> 'r set"
    and funds :: "'s \<Rightarrow> int"
    and value_of :: "'c \<Rightarrow> int"
    and ok :: "'s \<Rightarrow> bool"
  assumes booked: "ok s \<Longrightarrow> credit r c s = (Inr (Some e), t) \<Longrightarrow>
      ok t \<and> r \<notin> seen s \<and> seen t = insert r (seen s) \<and> funds t = funds s + value_of c"
    and repeated: "ok s \<Longrightarrow> credit r c s = (Inr None, t) \<Longrightarrow>
      ok t \<and> r \<in> seen s \<and> seen t = seen s \<and> funds t = funds s"
begin

lemma delivery_cases:
  assumes "ok s" and "transaction (credit r c) s = (v, t)"
  shows "(\<exists>e. v = Inl e) \<and> t = s \<or>
    (\<exists>e. v = Inr (Some e)) \<and> ok t \<and> r \<notin> seen s \<and> seen t = insert r (seen s) \<and> funds t = funds s + value_of c \<or>
    v = Inr None \<and> ok t \<and> r \<in> seen s \<and> seen t = seen s \<and> funds t = funds s"
proof (cases "credit r c s")
  case (Pair v' t')
  show ?thesis
  proof (cases v')
    case (Inl e)
    with Pair assms(2) show ?thesis by (auto simp: transaction_app)
  next
    case (Inr o')
    with Pair assms(2) have "v = Inr o'" "t = t'" by (simp_all add: transaction_app)
    with Pair Inr booked [OF assms(1)] repeated [OF assms(1)] show ?thesis
      by (cases o') auto
  qed
qed

lemma each_reference_once:
  "ok s \<Longrightarrow> deliver_all credit ds s = (acc, t) \<Longrightarrow>
   ok t \<and> set acc \<subseteq> set ds \<and> distinct (map fst acc) \<and> fst ` set acc \<inter> seen s = {} \<and>
   seen t = seen s \<union> fst ` set acc \<and> funds t = funds s + (\<Sum>(r, c)\<leftarrow>acc. value_of c)"
proof (induction ds arbitrary: s acc)
  case (Cons d ds)
  obtain r c where d: "d = (r, c)" by force
  obtain v u where tr: "transaction (credit r c) s = (v, u)" by force
  from delivery_cases [OF Cons.prems(1) tr]
  consider (thrown) e where "v = Inl e" "u = s"
    | (new) e where "v = Inr (Some e)" "ok u" "r \<notin> seen s" "seen u = insert r (seen s)" "funds u = funds s + value_of c"
    | (old) "v = Inr None" "ok u" "r \<in> seen s" "seen u = seen s" "funds u = funds s"
    by blast
  then show ?case
  proof cases
    case thrown
    with Cons.prems tr d have "deliver_all credit ds s = (acc, t)" by simp
    with Cons.IH [OF Cons.prems(1) this] show ?thesis by auto
  next
    case new
    with Cons.prems(2) tr d obtain acc' where rest: "deliver_all credit ds u = (acc', t)" "acc = (r, c) # acc'"
      by (auto split: prod.splits)
    with Cons.IH [OF new(2) rest(1)] new show ?thesis by (auto simp: d)
  next
    case old
    with Cons.prems tr d have "deliver_all credit ds u = (acc, t)" by simp
    with Cons.IH [OF old(2) this] old show ?thesis by auto
  qed
qed simp

end

end
