(* ===== verification/Wallet_Ledger.thy ===== *)
theory Wallet_Ledger
  imports Json Order_Status Interfaces
begin

text \<open>
  The wallet tables and the database functions that write them (supabase/migrations, wallets and
  wallet administration): ensure_customer_wallet, append_wallet_ledger_entry, credit_wallet_topup,
  admin_adjust_wallet, set_wallet_status, refund_order_to_wallet, the wallet leg of
  create_paid_order_from_wallet, detect_wallet_balance_drift and the reconciliation issue table they
  file into. The state extends the order tables; every function is polymorphic in further tables.

  A function runs with its row locks held, so it is one step; a raise inside it is an \<open>Inl\<close> that
  the calling transaction rolls back. gen_random_uuid() is the supply \<open>db_uuid\<close> read at
  \<open>db_drawn\<close>; its documented uniqueness is the injectivity the runs start with.
\<close>

section \<open>Tables\<close>

datatype wallet_status = Wallet_Active | Wallet_Frozen

datatype entry_type = Topup | Order_Payment | Order_Refund | Adjustment | Reversal

datatype dva_status = Dva_Pending | Dva_Active | Dva_Failed | Dva_Deactivated

record wallet =
  w_id :: uuid
  w_user :: uuid
  w_balance :: int
  w_currency :: string
  w_status :: wallet_status
  w_created :: time
  w_updated :: time

record ledger_entry =
  le_id :: uuid
  le_wallet :: uuid
  le_type :: entry_type
  le_amount :: int
  le_balance_after :: int
  le_order :: "uuid option"
  le_reference :: "string option"
  le_actor :: "uuid option"
  le_reason :: "string option"
  le_metadata :: json
  le_created :: time

record dedicated_account =
  da_wallet :: uuid
  da_customer_code :: string
  da_number :: string
  da_name :: string
  da_bank :: string
  da_slug :: string
  da_status :: dva_status
  da_payload :: json

record setting_row =
  set_key :: string
  set_value :: json
  set_updated_by :: "uuid option"

record profile =
  prof_id :: uuid
  prof_email :: "string option"
  prof_name :: "string option"
  prof_phone :: "string option"

datatype payment_provider = Paystack | Wallet_Funds

datatype payment_status = Pay_Initialized | Pay_Pending | Pay_Successful | Pay_Failed | Pay_Abandoned

record payment =
  pay_id :: uuid
  pay_order :: uuid
  pay_provider :: payment_provider
  pay_reference :: string
  pay_transaction :: "string option"
  pay_status :: payment_status
  pay_expected :: int
  pay_paid :: "int option"
  pay_currency :: string
  pay_verified_at :: "time option"
  pay_paid_at :: "time option"
  pay_created :: time
  pay_payload :: json

record issue =
  iss_key :: string
  iss_type :: string
  iss_severity :: string
  iss_payment :: "uuid option"
  iss_order :: "uuid option"
  iss_refund :: "uuid option"
  iss_campus :: "uuid option"
  iss_reference :: "string option"
  iss_detail :: json
  iss_status :: string
  iss_last_detected :: time

record money_db = order_db +
  db_uuid :: "nat \<Rightarrow> uuid"
  db_drawn :: nat
  wallets :: "wallet list"
  ledger :: "ledger_entry list"
  accounts :: "dedicated_account list"
  settings :: "setting_row list"
  profiles :: "profile list"
  payments :: "payment list"
  issues :: "issue list"

section \<open>Database errors and integers\<close>

definition pg_error :: "string \<Rightarrow> string \<Rightarrow> exn" where
  "pg_error code m = Database_Error (Some code) m None"

text \<open>A 32-bit integer column or parameter; a value outside raises numeric_value_out_of_range.\<close>

definition int4 :: "int \<Rightarrow> bool" where
  "int4 n \<longleftrightarrow> - (2 ^ 31) \<le> n \<and> n < 2 ^ 31"

definition to_int4 :: "int \<Rightarrow> ('s, int) prog" where
  "to_int4 n = (if int4 n then ret n else raise (pg_error ''22003'' ''integer out of range''))"

definition numeric_to_int :: "rat \<Rightarrow> int" where
  "numeric_to_int q = (if 0 \<le> q then \<lfloor>q + 1/2\<rfloor> else - \<lfloor>- q + 1/2\<rfloor>)"

definition btrim :: "string \<Rightarrow> string" where
  "btrim s = rev (dropWhile (\<lambda>c. c = CHR 0x20) (rev (dropWhile (\<lambda>c. c = CHR 0x20) s)))"

definition draw_uuid :: "('z money_db_scheme, uuid) prog" where
  "draw_uuid = (\<lambda>s. (Inr (db_uuid s (db_drawn s)), s\<lparr>db_drawn := Suc (db_drawn s)\<rparr>))"

definition emit :: "string \<Rightarrow> string \<Rightarrow> uuid \<Rightarrow> ('z order_db_scheme, unit) prog" where
  "emit ty agg aid = modify (\<lambda>s. s\<lparr>odb_outbox := odb_outbox s @
     [\<lparr>ev_type = ty, ev_aggregate_type = agg, ev_aggregate_id = aid\<rparr>]\<rparr>)"

text \<open>platform_setting_int: a JSON number, rounded, or the default.\<close>

definition platform_setting_int :: "string \<Rightarrow> int \<Rightarrow> ('z money_db_scheme, int) prog" where
  "platform_setting_int key fallback =
     bindM (gets (\<lambda>s. map_option set_value (lookup_by set_key key (settings s)))) (\<lambda>v.
       case v of
         Some (JNum (Fin q)) \<Rightarrow> to_int4 (numeric_to_int q)
       | _ \<Rightarrow> ret fallback)"

section \<open>Reconciliation issues\<close>

definition issue_campus :: "uuid option \<Rightarrow> uuid option \<Rightarrow> 'z money_db_scheme \<Rightarrow> uuid option" where
  "issue_campus pid oid s =
     (let target = (case oid of Some x \<Rightarrow> Some x
        | None \<Rightarrow> Option.bind pid (\<lambda>p. map_option pay_order (lookup_by pay_id p (payments s))))
      in Option.bind target (\<lambda>x. map_option ord_campus (lookup_by ord_id x (odb_orders s))))"

definition upsert_issue ::
  "string \<Rightarrow> string \<Rightarrow> string \<Rightarrow> uuid option \<Rightarrow> uuid option \<Rightarrow> string option \<Rightarrow> json \<Rightarrow> uuid option \<Rightarrow>
   ('z money_db_scheme, unit) prog" where
  "upsert_issue key ty severity pid oid reference detail rid =
     modify (\<lambda>s. s\<lparr>issues :=
       (if key \<in> iss_key ` set (issues s)
        then update_where (\<lambda>i. iss_key i = key)
               (\<lambda>i. i\<lparr>iss_last_detected := odb_now s, iss_severity := severity, iss_detail := detail\<rparr>) (issues s)
        else issues s @
          [\<lparr>iss_key = key, iss_type = ty, iss_severity = severity, iss_payment = pid, iss_order = oid,
            iss_refund = rid, iss_campus = issue_campus pid oid s, iss_reference = reference,
            iss_detail = detail, iss_status = ''open'', iss_last_detected = odb_now s\<rparr>])\<rparr>)"

lemma upsert_files:
  "\<exists>iss. upsert_issue key ty severity pid oid reference detail rid s = (Inr (), s\<lparr>issues := iss\<rparr>) \<and>
     key \<in> iss_key ` set iss"
proof (cases "key \<in> iss_key ` set (issues s)")
  case True
  let ?iss = "update_where (\<lambda>i. iss_key i = key)
      (\<lambda>i. i\<lparr>iss_last_detected := odb_now s, iss_severity := severity, iss_detail := detail\<rparr>) (issues s)"
  have "map iss_key ?iss = map iss_key (issues s)" by (simp add: map_update_where)
  then have "key \<in> iss_key ` set ?iss" using True by (metis list.set_map)
  moreover have "upsert_issue key ty severity pid oid reference detail rid s = (Inr (), s\<lparr>issues := ?iss\<rparr>)"
    using True by (simp add: upsert_issue_def prog_simps)
  ultimately show ?thesis by blast
next
  case False
  then show ?thesis
    by (intro exI [of _ "issues (snd (upsert_issue key ty severity pid oid reference detail rid s))"])
      (simp add: upsert_issue_def prog_simps)
qed

section \<open>Wallet functions\<close>

definition find_wallet :: "uuid \<Rightarrow> 'z money_db_scheme \<Rightarrow> wallet option" where
  "find_wallet wid s = lookup_by w_id wid (wallets s)"

definition new_wallet :: "uuid \<Rightarrow> uuid \<Rightarrow> time \<Rightarrow> wallet" where
  "new_wallet wid user now =
     \<lparr>w_id = wid, w_user = user, w_balance = 0, w_currency = ''NGN'', w_status = Wallet_Active,
      w_created = now, w_updated = now\<rparr>"

definition ensure_customer_wallet :: "uuid \<Rightarrow> ('z money_db_scheme, uuid) prog" where
  "ensure_customer_wallet user =
     bindM (gets (\<lambda>s. lookup_by w_user user (wallets s))) (\<lambda>found.
       case found of
         Some w \<Rightarrow> ret (w_id w)
       | None \<Rightarrow>
           bindM (gets (\<lambda>s. lookup_by prof_id user (profiles s))) (\<lambda>p.
             if p = None
             then raise (pg_error ''23503'' ''insert or update on table wallets violates foreign key constraint'')
             else bindM draw_uuid (\<lambda>wid.
               thenM (modify (\<lambda>s. s\<lparr>wallets := wallets s @ [new_wallet wid user (odb_now s)]\<rparr>))
              (thenM (emit ''wallet.dva_requested'' ''wallet'' wid)
               (ret wid)))))"

definition topup_recorded :: "string option \<Rightarrow> 'z money_db_scheme \<Rightarrow> bool" where
  "topup_recorded reference s \<longleftrightarrow>
     reference \<noteq> None \<and> (\<exists>e\<in>set (ledger s). le_type e = Topup \<and> le_reference e = reference)"

definition append_wallet_ledger_entry ::
  "uuid \<Rightarrow> entry_type \<Rightarrow> int \<Rightarrow> uuid option \<Rightarrow> string option \<Rightarrow> uuid option \<Rightarrow> string option \<Rightarrow> json \<Rightarrow>
   ('z money_db_scheme, uuid) prog" where
  "append_wallet_ledger_entry wid ty amount oid reference actor_id reason metadata =
     (if amount = 0 then raise (pg_error ''23514'' ''wallet ledger amount must be non-zero'')
      else bindM (gets (find_wallet wid)) (\<lambda>found.
        case found of
          None \<Rightarrow> raise (pg_error ''P0002'' (''wallet '' @ wid @ '' not found''))
        | Some w \<Rightarrow> bindM (to_int4 (w_balance w + amount)) (\<lambda>balance.
            if balance < 0 then raise (pg_error ''23514'' ''wallet balance cannot go negative'')
            else bindM (gets (\<lambda>s. ty = Topup \<and> topup_recorded reference s)) (\<lambda>dup.
              if dup then raise (pg_error ''23505'' ''duplicate key value violates unique constraint wallet_ledger_entries_topup_reference_idx'')
              else bindM draw_uuid (\<lambda>eid.
                thenM (modify (\<lambda>s. s\<lparr>ledger := ledger s @
                   [\<lparr>le_id = eid, le_wallet = wid, le_type = ty, le_amount = amount,
                     le_balance_after = balance, le_order = oid, le_reference = reference,
                     le_actor = actor_id, le_reason = reason, le_metadata = metadata,
                     le_created = odb_now s\<rparr>]\<rparr>))
               (thenM (modify (\<lambda>s. s\<lparr>wallets := update_where (\<lambda>x. w_id x = wid)
                   (\<lambda>x. x\<lparr>w_balance := balance, w_updated := odb_now s\<rparr>) (wallets s)\<rparr>))
                (ret eid)))))))"

definition topup_metadata :: "string option \<Rightarrow> string option \<Rightarrow> json \<Rightarrow> json" where
  "topup_metadata sender account payload =
     (let text = (\<lambda>v. case v of None \<Rightarrow> JNull | Some x \<Rightarrow> JStr x)
      in JObj [(''sender_name'', text sender), (''account_number'', text account),
               (''provider_payload'', payload)])"

definition default_max_balance_kobo :: int where
  "default_max_balance_kobo = 5000000"

definition topup_wallet :: "string option \<Rightarrow> uuid option \<Rightarrow> ('z money_db_scheme, uuid) prog" where
  "topup_wallet account user =
     bindM (gets (\<lambda>s. Option.bind account (\<lambda>n. map_option da_wallet (lookup_by da_number n (accounts s))))) (\<lambda>by_account.
       case (by_account, user) of
         (Some wid, _) \<Rightarrow> ret wid
       | (None, Some u) \<Rightarrow> ensure_customer_wallet u
       | (None, None) \<Rightarrow> raise (pg_error ''P0002'' ''no wallet matches account number or user''))"

definition flag_over_cap :: "uuid \<Rightarrow> string \<Rightarrow> ('z money_db_scheme, unit) prog" where
  "flag_over_cap wid reference =
     bindM (gets (\<lambda>s. map_option w_balance (find_wallet wid s))) (\<lambda>balance.
     bindM (platform_setting_int ''wallet_max_balance_kobo'' default_max_balance_kobo) (\<lambda>cap.
       whenM (case balance of None \<Rightarrow> False | Some b \<Rightarrow> cap < b)
         (upsert_issue (''wallet_balance_cap_exceeded:'' @ wid) ''wallet_balance_cap_exceeded''
            ''warning'' None None (Some reference)
            (JObj [(''walletId'', JStr wid), (''balanceKobo'', JNum (js_int (the balance))),
                   (''capKobo'', JNum (js_int cap))]) None)))"

definition credit_wallet_topup ::
  "string \<Rightarrow> string option \<Rightarrow> uuid option \<Rightarrow> int \<Rightarrow> string option \<Rightarrow> json \<Rightarrow>
   ('z money_db_scheme, uuid option) prog" where
  "credit_wallet_topup reference account user amount sender payload =
     (if amount \<le> 0 then raise (pg_error ''23514'' ''top-up amount must be positive'')
      else bindM (topup_wallet account user) (\<lambda>wid.
        bindM (gets (topup_recorded (Some reference))) (\<lambda>seen.
          if seen then ret None
          else bindM (catchM
                 (bindM (transaction (append_wallet_ledger_entry wid Topup amount None (Some reference) None
                     (Some ''inbound transfer credited'') (topup_metadata sender account payload))) (\<lambda>e. ret (Some e)))
                 (\<lambda>e. case e of Database_Error (Some code) m d \<Rightarrow>
                        if code = ''23505'' then ret None else raise e
                      | _ \<Rightarrow> raise e)) (\<lambda>entry.
            case entry of
              None \<Rightarrow> ret None
            | Some eid \<Rightarrow> thenM (flag_over_cap wid reference) (ret (Some eid))))))"

definition admin_adjust_wallet :: "uuid \<Rightarrow> int \<Rightarrow> string option \<Rightarrow> uuid \<Rightarrow> ('z money_db_scheme, uuid) prog" where
  "admin_adjust_wallet wid amount reason actor_id =
     (let trimmed = btrim (case reason of None \<Rightarrow> [] | Some r \<Rightarrow> r) in
      if trimmed = [] then raise (pg_error ''23514'' ''a reason is required for a wallet adjustment'')
      else append_wallet_ledger_entry wid Adjustment amount None None (Some actor_id) (Some trimmed)
             (JObj [(''source'', JStr ''admin_adjustment'')]))"

definition set_wallet_status :: "uuid \<Rightarrow> wallet_status \<Rightarrow> ('z money_db_scheme, wallet_status) prog" where
  "set_wallet_status wid st =
     bindM (gets (find_wallet wid)) (\<lambda>found.
       if found = None then raise (pg_error ''P0002'' (''wallet '' @ wid @ '' not found''))
       else thenM (modify (\<lambda>s. s\<lparr>wallets := update_where (\<lambda>x. w_id x = wid)
                     (\<lambda>x. x\<lparr>w_status := st, w_updated := odb_now s\<rparr>) (wallets s)\<rparr>))
             (ret st))"

definition refund_order_to_wallet ::
  "uuid \<Rightarrow> int \<Rightarrow> string option \<Rightarrow> uuid option \<Rightarrow> ('z money_db_scheme, uuid) prog" where
  "refund_order_to_wallet oid amount reason actor_id =
     bindM (gets (\<lambda>s. lookup_by ord_id oid (odb_orders s))) (\<lambda>found.
       case found of
         None \<Rightarrow> raise (pg_error ''P0002'' (''order '' @ oid @ '' not found''))
       | Some r \<Rightarrow>
           if amount \<le> 0 then raise (pg_error ''23514'' ''refund amount must be positive'')
           else bindM (ensure_customer_wallet (ord_customer r)) (\<lambda>wid.
             let trimmed = btrim (case reason of None \<Rightarrow> [] | Some x \<Rightarrow> x)
             in append_wallet_ledger_entry wid Order_Refund amount (Some oid) None actor_id
                  (Some (if trimmed = [] then ''order refunded to wallet'' else trimmed))
                  (JObj [(''source'', JStr ''order_refund'')])))"

text \<open>
  The wallet leg of create_paid_order_from_wallet: lines 674 to 721 and 765 to 787 of the function,
  with the total, cutoff and campus that its pricing part computed as arguments.
\<close>

definition shortfall_detail :: "int \<Rightarrow> int \<Rightarrow> string" where
  "shortfall_detail balance due =
     [CHR 0x7B, CHR 0x22] @ ''balanceKobo'' @ [CHR 0x22] @ '': '' @ int_str balance @ '', '' @
     [CHR 0x22] @ ''requiredKobo'' @ [CHR 0x22] @ '': '' @ int_str due @ '', '' @
     [CHR 0x22] @ ''shortfallKobo'' @ [CHR 0x22] @ '': '' @ int_str (due - balance) @ [CHR 0x7D]"

definition pay_order_from_wallet ::
  "uuid \<Rightarrow> uuid \<Rightarrow> string \<Rightarrow> int \<Rightarrow> time \<Rightarrow> ('z money_db_scheme, uuid) prog" where
  "pay_order_from_wallet customer campus number due cutoff =
     bindM (ensure_customer_wallet customer) (\<lambda>wid.
     bindM (gets (find_wallet wid)) (\<lambda>found.
       if map_option w_status found = Some Wallet_Frozen
       then raise (pg_error ''23514'' ''wallet is frozen and cannot pay for orders'')
       else if (case found of None \<Rightarrow> False | Some w \<Rightarrow> w_balance w < due)
       then raise (Database_Error (Some ''MDW01'') ''wallet balance is insufficient for this order''
              (Some (shortfall_detail (w_balance (the found)) due)))
       else bindM draw_uuid (\<lambda>oid.
         thenM (modify (insert_order oid number customer campus Paid (Some cutoff) ''order paid from wallet balance''))
        (thenM (bindM (append_wallet_ledger_entry wid Order_Payment (- due) (Some oid) (Some number)
                  (Some customer) (Some ''order paid from wallet balance'')
                  (JObj [(''order_number'', JStr number)])) (\<lambda>_. ret ()))
        (bindM draw_uuid (\<lambda>pid.
         thenM (modify (\<lambda>s. s\<lparr>payments := payments s @
           [\<lparr>pay_id = pid, pay_order = oid, pay_provider = Wallet_Funds, pay_reference = number,
             pay_transaction = Some number, pay_status = Pay_Successful, pay_expected = due,
             pay_paid = Some due, pay_currency = ''NGN'', pay_verified_at = Some (odb_now s),
             pay_paid_at = Some (odb_now s), pay_created = odb_now s, pay_payload = JObj []\<rparr>]\<rparr>))
        (thenM (emit ''payment.successful'' ''order'' oid)
         (ret oid))))))))"

definition ledger_total :: "uuid \<Rightarrow> ledger_entry list \<Rightarrow> int" where
  "ledger_total wid es = (\<Sum>e\<leftarrow>filter (\<lambda>e. le_wallet e = wid) es. le_amount e)"

definition drift_rows :: "'z money_db_scheme \<Rightarrow> wallet list" where
  "drift_rows s = filter (\<lambda>w. w_balance w \<noteq> ledger_total (w_id w) (ledger s)) (wallets s)"

definition file_drift :: "wallet \<Rightarrow> ('z money_db_scheme, unit) prog" where
  "file_drift w =
     bindM (gets (\<lambda>s. ledger_total (w_id w) (ledger s))) (\<lambda>summed.
       upsert_issue (''wallet_balance_drift:'' @ w_id w) ''wallet_balance_drift'' ''critical'' None None None
         (JObj [(''walletId'', JStr (w_id w)), (''userId'', JStr (w_user w)),
                (''cachedBalanceKobo'', JNum (js_int (w_balance w))),
                (''ledgerTotalKobo'', JNum (js_int summed)),
                (''driftKobo'', JNum (js_int (w_balance w - summed)))]) None)"

definition detect_wallet_balance_drift :: "('z money_db_scheme, nat) prog" where
  "detect_wallet_balance_drift =
     bindM (gets drift_rows) (\<lambda>rows. thenM (for_each file_drift rows) (ret (length rows)))"

section \<open>The books\<close>

definition drawn_ids :: "'z money_db_scheme \<Rightarrow> uuid set" where
  "drawn_ids s = db_uuid s ` {..<db_drawn s}"

definition topup_refs :: "ledger_entry list \<Rightarrow> string list" where
  "topup_refs es = map (\<lambda>e. the (le_reference e)) (filter (\<lambda>e. le_type e = Topup \<and> le_reference e \<noteq> None) es)"

text \<open>Every entry's balance snapshot continues the running balance of its wallet.\<close>

fun snapshots_from :: "(uuid \<Rightarrow> int) \<Rightarrow> ledger_entry list \<Rightarrow> bool" where
  "snapshots_from f [] = True"
| "snapshots_from f (e # es) =
     (le_balance_after e = f (le_wallet e) + le_amount e \<and> 0 \<le> le_balance_after e \<and>
      snapshots_from (f(le_wallet e := le_balance_after e)) es)"

definition wallets_ok :: "'z money_db_scheme \<Rightarrow> bool" where
  "wallets_ok s \<longleftrightarrow> inj (db_uuid s) \<and> w_id ` set (wallets s) \<subseteq> drawn_ids s \<and>
     distinct (map w_id (wallets s)) \<and> distinct (map w_user (wallets s)) \<and>
     le_wallet ` set (ledger s) \<subseteq> w_id ` set (wallets s)"

definition books_ok :: "'z money_db_scheme \<Rightarrow> bool" where
  "books_ok s \<longleftrightarrow> (\<forall>w\<in>set (wallets s). w_balance w = ledger_total (w_id w) (ledger s) \<and> 0 \<le> w_balance w) \<and>
     distinct (topup_refs (ledger s)) \<and> snapshots_from (\<lambda>_. 0) (ledger s)"

definition money_inv :: "'z money_db_scheme \<Rightarrow> bool" where
  "money_inv s \<longleftrightarrow> wallets_ok s \<and> books_ok s"

lemmas money_inv_defs = money_inv_def wallets_ok_def books_ok_def

lemma ledger_total_append [simp]: "ledger_total wid (es @ es') = ledger_total wid es + ledger_total wid es'"
  by (simp add: ledger_total_def)

lemma ledger_total_single [simp]:
  "ledger_total wid [e] = (if le_wallet e = wid then le_amount e else 0)"
  by (simp add: ledger_total_def)

lemma ledger_total_Cons:
  "ledger_total wid (e # es) = (if le_wallet e = wid then le_amount e else 0) + ledger_total wid es"
  by (simp add: ledger_total_def)

lemma ledger_total_Nil [simp]: "ledger_total wid [] = 0"
  by (simp add: ledger_total_def)

lemma ledger_total_absent: "wid \<notin> le_wallet ` set es \<Longrightarrow> ledger_total wid es = 0"
  by (induction es) (auto simp: ledger_total_Cons)

lemma topup_refs_append [simp]: "topup_refs (es @ es') = topup_refs es @ topup_refs es'"
  by (simp add: topup_refs_def)

lemma topup_refs_single:
  "topup_refs [e] = (if le_type e = Topup \<and> le_reference e \<noteq> None then [the (le_reference e)] else [])"
  by (simp add: topup_refs_def)

lemma topup_recorded_iff: "topup_recorded (Some r) s \<longleftrightarrow> r \<in> set (topup_refs (ledger s))"
  by (force simp: topup_recorded_def topup_refs_def)

lemma snapshots_append:
  "snapshots_from f (es @ [e]) \<longleftrightarrow> snapshots_from f es \<and>
     le_balance_after e = f (le_wallet e) + ledger_total (le_wallet e) es + le_amount e \<and> 0 \<le> le_balance_after e"
  by (induction es arbitrary: f) (auto simp: ledger_total_Cons)

lemma fresh_uuid:
  "wallets_ok s \<Longrightarrow> db_uuid s (db_drawn s) \<notin> w_id ` set (wallets s)"
proof
  assume ok: "wallets_ok s" and "db_uuid s (db_drawn s) \<in> w_id ` set (wallets s)"
  then have "db_uuid s (db_drawn s) \<in> db_uuid s ` {..<db_drawn s}"
    by (auto simp: wallets_ok_def drawn_ids_def)
  moreover from ok have "inj (db_uuid s)" by (simp add: wallets_ok_def)
  ultimately show False by (simp add: inj_image_mem_iff)
qed

lemma drawn_ids_mono:
  "db_uuid t = db_uuid s \<Longrightarrow> db_drawn s \<le> db_drawn t \<Longrightarrow> drawn_ids s \<subseteq> drawn_ids t"
  by (auto simp: drawn_ids_def)

text \<open>Only wallets, the ledger and the id supply matter to the books.\<close>

lemma money_inv_frame:
  assumes "wallets t = wallets s" "ledger t = ledger s" "db_uuid t = db_uuid s" "db_drawn s \<le> db_drawn t"
    and "money_inv s"
  shows "money_inv t"
  using assms drawn_ids_mono [OF assms(3,4)] by (auto simp: money_inv_defs)

section \<open>Effects of the functions\<close>

lemma to_int4_app: "to_int4 n s = ((if int4 n then Inr n else Inl (pg_error ''22003'' ''integer out of range'')), s)"
  by (simp add: to_int4_def prog_simps)

lemma platform_setting_state: "snd (platform_setting_int key fallback s) = s"
proof (cases "lookup_by set_key key (settings s)")
  case (Some r)
  then show ?thesis
    by (cases "set_value r"; simp add: platform_setting_int_def prog_simps to_int4_app split: js_num.split)
qed (simp add: platform_setting_int_def prog_simps)

lemma platform_setting_app:
  obtains (reads) n where "platform_setting_int key fallback s = (Inr n, s)"
  | (raises) e where "platform_setting_int key fallback s = (Inl e, s)"
  using platform_setting_state [of key fallback s]
  by (cases "platform_setting_int key fallback s"; cases "fst (platform_setting_int key fallback s)") auto

lemma ensure_app:
  "ensure_customer_wallet user s =
     (case lookup_by w_user user (wallets s) of
        Some w \<Rightarrow> (Inr (w_id w), s)
      | None \<Rightarrow>
          if lookup_by prof_id user (profiles s) = None
          then (Inl (pg_error ''23503'' ''insert or update on table wallets violates foreign key constraint''), s)
          else (Inr (db_uuid s (db_drawn s)),
                s\<lparr>db_drawn := Suc (db_drawn s),
                  wallets := wallets s @ [new_wallet (db_uuid s (db_drawn s)) user (odb_now s)],
                  odb_outbox := odb_outbox s @ [\<lparr>ev_type = ''wallet.dva_requested'', ev_aggregate_type = ''wallet'',
                     ev_aggregate_id = db_uuid s (db_drawn s)\<rparr>]\<rparr>))"
  by (simp add: ensure_customer_wallet_def prog_simps draw_uuid_def emit_def split: option.split)

lemma ensure_inv: "preserves money_inv (ensure_customer_wallet user)"
proof (rule preservesI)
  fix s :: "'a money_db_scheme" assume inv: "money_inv s"
  let ?id = "db_uuid s (db_drawn s)"
  from inv have fresh: "?id \<notin> w_id ` set (wallets s)" by (simp add: money_inv_def fresh_uuid)
  with inv have unused: "?id \<notin> le_wallet ` set (ledger s)" by (auto simp: money_inv_defs)
  have sub: "drawn_ids s \<subseteq> db_uuid s ` {..<Suc (db_drawn s)}" by (auto simp: drawn_ids_def)
  show "money_inv (snd (ensure_customer_wallet user s))"
  proof (cases "lookup_by w_user user (wallets s) = None \<and> lookup_by prof_id user (profiles s) \<noteq> None")
    case True
    then have "user \<notin> w_user ` set (wallets s)" by (simp add: lookup_by_None)
    with inv fresh unused sub True show ?thesis
      by (auto simp: ensure_app money_inv_defs new_wallet_def drawn_ids_def ledger_total_absent)
  qed (use inv in \<open>auto simp: ensure_app split: option.split\<close>)
qed

definition post_entry :: "ledger_entry \<Rightarrow> 'z money_db_scheme \<Rightarrow> 'z money_db_scheme" where
  "post_entry e s = s\<lparr>db_drawn := Suc (db_drawn s), ledger := ledger s @ [e],
     wallets := update_where (\<lambda>x. w_id x = le_wallet e)
        (\<lambda>x. x\<lparr>w_balance := le_balance_after e, w_updated := odb_now s\<rparr>) (wallets s)\<rparr>"

text \<open>
  The only two outcomes of the single writer: it raises and changes nothing, or it posts one entry
  whose snapshot is the old balance plus the amount.
\<close>

lemma append_app:
  obtains (raises) e where "append_wallet_ledger_entry wid ty amount oid reference act reason md s = (Inl e, s)"
  | (posts) w e where "append_wallet_ledger_entry wid ty amount oid reference act reason md s = (Inr (le_id e), post_entry e s)"
      and "find_wallet wid s = Some w" and "le_wallet e = wid" and "le_amount e = amount" and "amount \<noteq> 0"
      and "le_balance_after e = w_balance w + amount" and "0 \<le> le_balance_after e"
      and "le_type e = ty" and "le_reference e = reference" and "le_order e = oid"
      and "\<not> (ty = Topup \<and> topup_recorded reference s)"
      and "le_id e = db_uuid s (db_drawn s)" and "int4 (w_balance w + amount)"
proof (cases "find_wallet wid s")
  case None
  then have "\<exists>e. append_wallet_ledger_entry wid ty amount oid reference act reason md s = (Inl e, s)"
    by (simp add: append_wallet_ledger_entry_def prog_simps)
  then show ?thesis using raises by blast
next
  case (Some w)
  let ?e = "\<lparr>le_id = db_uuid s (db_drawn s), le_wallet = wid, le_type = ty, le_amount = amount,
              le_balance_after = w_balance w + amount, le_order = oid, le_reference = reference,
              le_actor = act, le_reason = reason, le_metadata = md, le_created = odb_now s\<rparr>"
  show ?thesis
  proof (cases "amount \<noteq> 0 \<and> int4 (w_balance w + amount) \<and> 0 \<le> w_balance w + amount \<and>
                \<not> (ty = Topup \<and> topup_recorded reference s)")
    case True
    then have "append_wallet_ledger_entry wid ty amount oid reference act reason md s = (Inr (le_id ?e), post_entry ?e s)"
      using Some by (simp add: append_wallet_ledger_entry_def prog_simps to_int4_app draw_uuid_def post_entry_def)
    then show ?thesis by (rule posts) (use True Some in auto)
  next
    case False
    with Some have "\<exists>e. append_wallet_ledger_entry wid ty amount oid reference act reason md s = (Inl e, s)"
      by (auto simp: append_wallet_ledger_entry_def prog_simps to_int4_app)
    then show ?thesis using raises by blast
  qed
qed

lemma post_entry_inv:
  assumes inv: "money_inv s" and w: "find_wallet (le_wallet e) s = Some w"
    and b: "le_balance_after e = w_balance w + le_amount e" "0 \<le> le_balance_after e"
    and new: "\<not> (le_type e = Topup \<and> topup_recorded (le_reference e) s)"
  shows "money_inv (post_entry e s)"
proof -
  from w have win: "w \<in> set (wallets s)" "w_id w = le_wallet e"
    by (auto simp: find_wallet_def dest: lookup_by_Some)
  from win have member: "le_wallet e \<in> w_id ` set (wallets s)" by force
  from inv win have bal: "w_balance w = ledger_total (le_wallet e) (ledger s)" by (auto simp: money_inv_defs)
  let ?f = "\<lambda>x. x\<lparr>w_balance := le_balance_after e, w_updated := odb_now s\<rparr>"
  have ids: "map w_id (update_where (\<lambda>x. w_id x = le_wallet e) ?f (wallets s)) = map w_id (wallets s)"
    "map w_user (update_where (\<lambda>x. w_id x = le_wallet e) ?f (wallets s)) = map w_user (wallets s)"
    by (simp_all add: map_update_where)
  have set_ids: "w_id ` set (update_where (\<lambda>x. w_id x = le_wallet e) ?f (wallets s)) = w_id ` set (wallets s)"
    by (metis ids(1) list.set_map)
  have "wallets_ok (post_entry e s)"
    using inv member ids set_ids by (auto simp: post_entry_def money_inv_defs drawn_ids_def)
  moreover have "distinct (topup_refs (ledger s @ [e]))"
  proof (cases "le_type e = Topup \<and> le_reference e \<noteq> None")
    case True
    then obtain r where "le_reference e = Some r" by blast
    with True new inv show ?thesis by (simp add: topup_refs_single money_inv_defs topup_recorded_iff)
  qed (use inv in \<open>auto simp: topup_refs_single money_inv_defs\<close>)
  moreover have "snapshots_from (\<lambda>_. 0) (ledger s @ [e])"
    using inv b bal by (simp add: snapshots_append money_inv_defs)
  moreover have "\<forall>x\<in>set (update_where (\<lambda>x. w_id x = le_wallet e) ?f (wallets s)).
      w_balance x = ledger_total (w_id x) (ledger s @ [e]) \<and> 0 \<le> w_balance x"
    using inv b bal by (auto simp: set_update_where money_inv_defs)
  ultimately show ?thesis
    unfolding money_inv_def books_ok_def post_entry_def by (simp del: ledger_total_append topup_refs_append) metis
qed

lemma append_inv: "preserves money_inv (append_wallet_ledger_entry wid ty amount oid reference act reason md)"
proof (rule preservesI)
  fix s :: "'a money_db_scheme" assume inv: "money_inv s"
  show "money_inv (snd (append_wallet_ledger_entry wid ty amount oid reference act reason md s))"
    by (rule append_app [of wid ty amount oid reference act reason md s])
      (use inv in \<open>auto intro: post_entry_inv\<close>)
qed

section \<open>Every function keeps the books\<close>

lemma keeps_books_modify:
  "(\<And>s. wallets (f s) = wallets s \<and> ledger (f s) = ledger s \<and> db_uuid (f s) = db_uuid s \<and> db_drawn s \<le> db_drawn (f s)) \<Longrightarrow>
   preserves money_inv (modify f)"
  by (rule preserves_modify) (metis money_inv_frame)

lemma upsert_issue_inv: "preserves money_inv (upsert_issue key ty severity pid oid reference detail rid)"
  unfolding upsert_issue_def by (rule keeps_books_modify) simp

lemma emit_inv: "preserves money_inv (emit ty agg aid :: ('z money_db_scheme, unit) prog)"
  unfolding emit_def by (rule keeps_books_modify) simp

lemma to_int4_inv: "preserves I (to_int4 n)"
  by (simp add: to_int4_def preserves_basic)

lemma platform_setting_int_inv: "preserves I (platform_setting_int key fallback)"
  unfolding platform_setting_int_def
  by (auto intro!: preserves_bindM preserves_basic to_int4_inv split: option.split json.split js_num.split)

lemma draw_then_inv:
  assumes "\<And>wid. preserves money_inv (k wid)"
  shows "preserves money_inv (bindM draw_uuid k)"
proof (rule preservesI)
  fix s :: "'a money_db_scheme" assume inv: "money_inv s"
  let ?s = "s\<lparr>db_drawn := Suc (db_drawn s)\<rparr>"
  have "money_inv ?s" by (rule money_inv_frame [OF _ _ _ _ inv]) simp_all
  with assms show "money_inv (snd (bindM draw_uuid k s))"
    by (simp add: bindM_app draw_uuid_def preservesD)
qed

lemmas ledger_intros =
  ensure_inv append_inv upsert_issue_inv emit_inv to_int4_inv platform_setting_int_inv draw_then_inv

lemma topup_inv: "preserves money_inv (credit_wallet_topup reference account user amount sender payload)"
  unfolding credit_wallet_topup_def topup_wallet_def flag_over_cap_def
  by (auto intro!: preserves_intros ledger_intros split: option.split exn.split)

lemma adjust_inv: "preserves money_inv (admin_adjust_wallet wid amount reason act)"
  unfolding admin_adjust_wallet_def Let_def by (intro preserves_intros ledger_intros)

lemma refund_inv: "preserves money_inv (refund_order_to_wallet oid amount reason act)"
  unfolding refund_order_to_wallet_def Let_def
  by (auto intro!: preserves_intros ledger_intros split: option.split)

lemma set_status_inv: "preserves money_inv (set_wallet_status wid st)"
proof (rule preservesI)
  fix s :: "'a money_db_scheme" assume inv: "money_inv s"
  let ?ws = "update_where (\<lambda>x. w_id x = wid) (\<lambda>x. x\<lparr>w_status := st, w_updated := odb_now s\<rparr>) (wallets s)"
  have maps: "map w_id ?ws = map w_id (wallets s)" "map w_user ?ws = map w_user (wallets s)"
    by (simp_all add: map_update_where)
  moreover have "w_id ` set ?ws = w_id ` set (wallets s)" by (metis maps(1) list.set_map)
  ultimately have "money_inv (s\<lparr>wallets := ?ws\<rparr>)"
    using inv by (auto simp: money_inv_defs set_update_where drawn_ids_def)
  with inv show "money_inv (snd (set_wallet_status wid st s))"
    by (simp add: set_wallet_status_def prog_simps)
qed

lemma pay_inv: "preserves money_inv (pay_order_from_wallet customer campus number due cutoff)"
  unfolding pay_order_from_wallet_def
  by (intro preserves_intros ledger_intros keeps_books_modify) (simp_all add: insert_order_def)

lemma drift_inv: "preserves money_inv detect_wallet_balance_drift"
  unfolding detect_wallet_balance_drift_def file_drift_def
  by (intro preserves_intros ledger_intros)

section \<open>Runs\<close>

text \<open>
  A step is any of the functions with any arguments, or a step of another component: one that
  leaves the wallet tables alone and draws identifiers from the supply.
\<close>

inductive money_step :: "'z money_db_scheme \<Rightarrow> 'z money_db_scheme \<Rightarrow> bool" where
  ensure: "money_step s (snd (ensure_customer_wallet user s))"
| topup: "money_step s (snd (credit_wallet_topup reference account user amount sender payload s))"
| adjust: "money_step s (snd (admin_adjust_wallet wid amount reason act s))"
| status: "money_step s (snd (set_wallet_status wid st s))"
| refund: "money_step s (snd (refund_order_to_wallet oid amount reason act_opt s))"
| pay: "money_step s (snd (pay_order_from_wallet customer campus number due cutoff s))"
| drift: "money_step s (snd (detect_wallet_balance_drift s))"
| other: "wallets t = wallets s \<Longrightarrow> ledger t = ledger s \<Longrightarrow> db_uuid t = db_uuid s \<Longrightarrow>
    db_drawn s \<le> db_drawn t \<Longrightarrow> money_step s t"

inductive money_reachable :: "'z money_db_scheme \<Rightarrow> bool" where
  start: "wallets s = [] \<Longrightarrow> ledger s = [] \<Longrightarrow> inj (db_uuid s) \<Longrightarrow> money_reachable s"
| step: "money_reachable s \<Longrightarrow> money_step s t \<Longrightarrow> money_reachable t"

lemma money_step_inv: "money_step s t \<Longrightarrow> money_inv s \<Longrightarrow> money_inv t"
  by (induction rule: money_step.induct)
    (auto intro: preservesD [OF ensure_inv] preservesD [OF topup_inv] preservesD [OF adjust_inv]
      preservesD [OF set_status_inv] preservesD [OF refund_inv] preservesD [OF pay_inv]
      preservesD [OF drift_inv] intro: money_inv_frame)

lemma money_reachable_inv: "money_reachable s \<Longrightarrow> money_inv s"
  by (induction rule: money_reachable.induct)
    (simp add: money_inv_defs topup_refs_def, blast intro: money_step_inv)

section \<open>The ledger only grows\<close>

definition extends_ledger :: "ledger_entry list \<Rightarrow> 'z money_db_scheme \<Rightarrow> bool" where
  "extends_ledger es s \<longleftrightarrow> (\<exists>more. ledger s = es @ more)"

lemma extends_modify:
  "(\<And>s. ledger (f s) = ledger s) \<Longrightarrow> preserves (extends_ledger es) (modify f)"
  by (rule preserves_modify) (simp add: extends_ledger_def)

lemma extends_ensure: "preserves (extends_ledger es) (ensure_customer_wallet user)"
  by (rule preservesI) (simp add: ensure_app extends_ledger_def split: option.split)

lemma extends_draw: "preserves (extends_ledger es) draw_uuid"
  by (rule preservesI) (simp add: draw_uuid_def extends_ledger_def)

lemma extends_append: "preserves (extends_ledger es) (append_wallet_ledger_entry wid ty amount oid reference act reason md)"
proof (rule preservesI)
  fix s :: "'a money_db_scheme" assume ext: "extends_ledger es s"
  show "extends_ledger es (snd (append_wallet_ledger_entry wid ty amount oid reference act reason md s))"
    by (rule append_app [of wid ty amount oid reference act reason md s])
      (use ext in \<open>auto simp: post_entry_def extends_ledger_def\<close>)
qed

lemma extends_issue: "preserves (extends_ledger es) (upsert_issue key ty severity pid oid reference detail rid)"
  unfolding upsert_issue_def by (rule extends_modify) simp

lemma extends_emit: "preserves (extends_ledger es) (emit ty agg aid :: ('z money_db_scheme, unit) prog)"
  unfolding emit_def by (rule extends_modify) simp

lemmas extends_intros =
  preserves_intros extends_modify extends_ensure extends_draw extends_append extends_issue extends_emit
  to_int4_inv platform_setting_int_inv

lemma extends_topup: "preserves (extends_ledger es) (credit_wallet_topup reference account user amount sender payload)"
  unfolding credit_wallet_topup_def topup_wallet_def flag_over_cap_def
  by (auto intro!: extends_intros split: option.split exn.split)

lemma extends_result:
  assumes "\<And>es. preserves (extends_ledger es) m"
  shows "\<exists>more. ledger (snd (m s)) = ledger s @ more"
  using preservesD [OF assms, of "ledger s" s] by (simp add: extends_ledger_def)

lemma extends_step: "money_step s t \<Longrightarrow> \<exists>more. ledger t = ledger s @ more"
proof (induction rule: money_step.induct)
  case ensure
  show ?case by (rule extends_result) (rule extends_ensure)
next
  case topup
  show ?case by (rule extends_result) (rule extends_topup)
next
  case adjust
  show ?case unfolding admin_adjust_wallet_def Let_def by (rule extends_result) (intro extends_intros)
next
  case status
  show ?case unfolding set_wallet_status_def by (rule extends_result) (intro extends_intros, simp)
next
  case refund
  show ?case unfolding refund_order_to_wallet_def Let_def
    by (rule extends_result) (auto intro!: extends_intros split: option.split)
next
  case pay
  show ?case unfolding pay_order_from_wallet_def
    by (rule extends_result) (intro extends_intros; simp add: insert_order_def)
next
  case drift
  show ?case unfolding detect_wallet_balance_drift_def file_drift_def
    by (rule extends_result) (intro extends_intros)
next
  case other
  then show ?case by simp
qed

lemma extends_steps: "money_step\<^sup>*\<^sup>* s t \<Longrightarrow> \<exists>more. ledger t = ledger s @ more"
  by (induction rule: rtranclp_induct) (auto dest!: extends_step)

section \<open>What a top-up does\<close>

lemma topup_amount: "credit_wallet_topup reference account user amount sender payload s = (Inr v, t) \<Longrightarrow> 0 < amount"
  by (cases "amount \<le> 0") (simp_all add: credit_wallet_topup_def prog_simps)

lemma topup_wallet_keeps:
  assumes "topup_wallet account user s = (r, t)"
  shows "ledger t = ledger s \<and> (\<forall>w\<in>set (wallets s). w \<in> set (wallets t))"
  using assms
  by (auto simp: topup_wallet_def prog_simps ensure_app split: option.splits if_splits)

lemma flag_keeps:
  "flag_over_cap wid reference s = (r, t) \<Longrightarrow> ledger t = ledger s \<and> wallets t = wallets s"
  by (auto simp: flag_over_cap_def platform_setting_int_def prog_simps to_int4_app upsert_issue_def
      split: option.splits json.splits js_num.splits if_splits)

text \<open>A top-up that returns either posted one entry under a new reference or found it recorded.\<close>

lemma topup_cases:
  assumes "credit_wallet_topup reference account user amount sender payload s = (Inr v, t)"
  obtains (booked) e where "v = Some (le_id e)" "ledger t = ledger s @ [e]" "le_type e = Topup"
      "le_reference e = Some reference" "le_amount e = amount" "reference \<notin> set (topup_refs (ledger s))"
  | (repeated) "v = None" "ledger t = ledger s" "reference \<in> set (topup_refs (ledger s))"
proof -
  from topup_amount [OF assms] have pos: "\<not> amount \<le> 0" by simp
  obtain r1 s1 where w: "topup_wallet account user s = (r1, s1)" by force
  from topup_wallet_keeps [OF w] have led: "ledger s1 = ledger s" by simp
  from assms pos w obtain wid where r1: "r1 = Inr wid"
    by (cases r1) (simp_all add: credit_wallet_topup_def prog_simps)
  show thesis
  proof (cases "topup_recorded (Some reference) s1")
    case True
    with assms pos w r1 have "v = None" "t = s1" by (simp_all add: credit_wallet_topup_def prog_simps)
    with True led show thesis by (intro repeated) (simp_all add: topup_recorded_iff)
  next
    case False
    with led have new: "reference \<notin> set (topup_refs (ledger s))" by (simp add: topup_recorded_iff)
    let ?ap = "append_wallet_ledger_entry wid Topup amount None (Some reference) None
        (Some ''inbound transfer credited'') (topup_metadata sender account payload)"
    show thesis
    proof (rule append_app [of wid Topup amount None "Some reference" None "Some ''inbound transfer credited''"
          "topup_metadata sender account payload" s1])
      fix e assume "?ap s1 = (Inl e, s1)"
      moreover from this False have "\<not> (\<exists>m d. e = Database_Error (Some ''23505'') m d)"
        by (auto simp: append_wallet_ledger_entry_def prog_simps to_int4_app pg_error_def draw_uuid_def
            split: if_splits option.splits)
      ultimately show thesis using assms pos w r1 False
        by (auto simp: credit_wallet_topup_def prog_simps split: exn.splits option.splits if_splits)
    next
      fix x e assume ap: "?ap s1 = (Inr (le_id e), post_entry e s1)"
        and e: "le_amount e = amount" "le_type e = Topup" "le_reference e = Some reference"
      obtain r3 s3 where fl: "flag_over_cap wid reference (post_entry e s1) = (r3, s3)" by force
      from flag_keeps [OF fl] have "ledger s3 = ledger s @ [e]" by (simp add: post_entry_def led)
      moreover from assms pos w r1 False ap fl have "v = Some (le_id e)" "t = s3"
        by (auto simp: credit_wallet_topup_def prog_simps split: sum.splits)
      ultimately show thesis using e new by (intro booked) simp_all
    qed
  qed
qed

definition topups_total :: "ledger_entry list \<Rightarrow> int" where
  "topups_total es = (\<Sum>e\<leftarrow>filter (\<lambda>e. le_type e = Topup) es. le_amount e)"

text \<open>The wallet functions as a provider of the top-up contract.\<close>

definition topup_request ::
  "string \<Rightarrow> string option \<times> uuid option \<times> int \<times> string option \<times> json \<Rightarrow> ('z money_db_scheme, uuid option) prog" where
  "topup_request reference c =
     (case c of (account, user, amount, sender, payload) \<Rightarrow>
        credit_wallet_topup reference account user amount sender payload)"

interpretation wallet_topups: topup_store topup_request "\<lambda>s. set (topup_refs (ledger s))"
  "\<lambda>s. topups_total (ledger s)" "\<lambda>(_, _, amount, _, _). amount" money_inv
proof unfold_locales
  fix s t :: "'a money_db_scheme" and r c e
  assume inv: "money_inv s" and run: "topup_request r c s = (Inr (Some e), t)"
  obtain account user amount sender payload where c: "c = (account, user, amount, sender, payload)"
    using prod_cases5 by blast
  from run have run': "credit_wallet_topup r account user amount sender payload s = (Inr (Some e), t)"
    by (simp add: topup_request_def c)
  from topup_inv inv run' have "money_inv t" by (rule preserves_result)
  then show "money_inv t \<and> r \<notin> set (topup_refs (ledger s)) \<and>
      set (topup_refs (ledger t)) = insert r (set (topup_refs (ledger s))) \<and>
      topups_total (ledger t) = topups_total (ledger s) + (case c of (_, _, amount, _, _) \<Rightarrow> amount)"
    by (cases rule: topup_cases [OF run'])
      (simp_all add: c topup_refs_def topups_total_def)
next
  fix s t :: "'a money_db_scheme" and r c
  assume inv: "money_inv s" and run: "topup_request r c s = (Inr None, t)"
  obtain account user amount sender payload where c: "c = (account, user, amount, sender, payload)"
    using prod_cases5 by blast
  from run have run': "credit_wallet_topup r account user amount sender payload s = (Inr None, t)"
    by (simp add: topup_request_def c)
  from topup_inv inv run' have "money_inv t" by (rule preserves_result)
  then show "money_inv t \<and> r \<in> set (topup_refs (ledger s)) \<and>
      set (topup_refs (ledger t)) = set (topup_refs (ledger s)) \<and>
      topups_total (ledger t) = topups_total (ledger s)"
    by (cases rule: topup_cases [OF run']) simp_all
qed

section \<open>What paying an order from the wallet does\<close>

lemma ensure_wallet_found:
  assumes "ensure_customer_wallet user s = (Inr wid, t)" and "money_inv s"
  shows "\<exists>w. find_wallet wid t = Some w \<and> w_user w = user"
    and "ledger t = ledger s" and "odb_orders t = odb_orders s"
proof -
  show "ledger t = ledger s" "odb_orders t = odb_orders s"
    using assms(1) by (auto simp: ensure_app split: option.splits if_splits)
  show "\<exists>w. find_wallet wid t = Some w \<and> w_user w = user"
  proof (cases "lookup_by w_user user (wallets s)")
    case (Some w)
    with assms(1) have "wid = w_id w" "t = s" by (simp_all add: ensure_app)
    moreover from Some have "w \<in> set (wallets s)" "w_user w = user" by (auto dest: lookup_by_Some)
    moreover from assms(2) have "distinct (map w_id (wallets s))" by (simp add: money_inv_defs)
    ultimately show ?thesis by (auto simp: find_wallet_def lookup_by_member)
  next
    case None
    from assms(2) have "lookup_by w_id (db_uuid s (db_drawn s)) (wallets s) = None"
      by (simp add: lookup_by_None fresh_uuid money_inv_def)
    with None assms(1) show ?thesis
      by (auto simp: ensure_app find_wallet_def table_simps new_wallet_def split: if_splits)
  qed
qed

lemma wallet_pay_cases:
  assumes run: "pay_order_from_wallet customer campus number due cutoff s = (Inr oid, t)" and inv: "money_inv s"
  obtains w :: wallet and e :: ledger_entry where "w_user w = customer" "w_status w = Wallet_Active" "due \<le> w_balance w" "due \<noteq> 0"
    "ledger t = ledger s @ [e]" "le_wallet e = w_id w" "le_amount e = - due" "le_type e = Order_Payment"
    "le_order e = Some oid" "le_balance_after e = w_balance w - due"
    "map ord_status (filter (\<lambda>r. ord_id r = oid) (odb_orders t)) =
     map ord_status (filter (\<lambda>r. ord_id r = oid) (odb_orders s)) @ [Paid]"
proof -
  obtain r1 s1 where en: "ensure_customer_wallet customer s = (r1, s1)" by force
  with run obtain wid where r1: "r1 = Inr wid" by (cases r1) (simp_all add: pay_order_from_wallet_def prog_simps)
  with en have en': "ensure_customer_wallet customer s = (Inr wid, s1)" by simp
  from ensure_wallet_found [OF en' inv] obtain w where w: "find_wallet wid s1 = Some w" "w_user w = customer"
    and led: "ledger s1 = ledger s" and ords: "odb_orders s1 = odb_orders s" by blast
  then have wid: "w_id w = wid" by (auto simp: find_wallet_def dest: lookup_by_Some)
  from run en' w have st: "w_status w \<noteq> Wallet_Frozen" and bal: "due \<le> w_balance w"
    by (auto simp: pay_order_from_wallet_def prog_simps split: if_splits)
  let ?s2 = "insert_order (db_uuid s1 (db_drawn s1)) number customer campus Paid (Some cutoff)
      ''order paid from wallet balance'' (s1\<lparr>db_drawn := Suc (db_drawn s1)\<rparr>)"
  let ?ap = "append_wallet_ledger_entry wid Order_Payment (- due) (Some (db_uuid s1 (db_drawn s1)))
      (Some number) (Some customer) (Some ''order paid from wallet balance'') (JObj [(''order_number'', JStr number)])"
  have w2: "find_wallet wid ?s2 = Some w" using w by (simp add: find_wallet_def insert_order_def)
  show thesis
  proof (rule append_app [of wid Order_Payment "- due" "Some (db_uuid s1 (db_drawn s1))" "Some number" "Some customer"
        "Some ''order paid from wallet balance''" "JObj [(''order_number'', JStr number)]" ?s2])
    fix e assume "?ap ?s2 = (Inl e, ?s2)"
    with run en' w st bal show thesis
      by (simp add: pay_order_from_wallet_def prog_simps draw_uuid_def)
  next
    fix x e assume ap: "?ap ?s2 = (Inr (le_id e), post_entry e ?s2)" and x: "find_wallet wid ?s2 = Some x"
      and e: "le_wallet e = wid" "le_amount e = - due" "- due \<noteq> 0" "le_balance_after e = w_balance x + - due"
        "le_type e = Order_Payment" "le_order e = Some (db_uuid s1 (db_drawn s1))"
    from x w2 have xw: "x = w" by simp
    from run en' w st bal ap
    have t: "ledger t = ledger ?s2 @ [e]" "odb_orders t = odb_orders ?s2" "oid = db_uuid s1 (db_drawn s1)"
      by (auto simp: pay_order_from_wallet_def prog_simps draw_uuid_def post_entry_def emit_def)
    show thesis
    proof (rule that [of w e])
      show "w_status w = Wallet_Active" using st by (cases "w_status w") simp_all
      show "map ord_status (filter (\<lambda>r. ord_id r = oid) (odb_orders t)) =
          map ord_status (filter (\<lambda>r. ord_id r = oid) (odb_orders s)) @ [Paid]"
        using t ords by (simp add: insert_order_def)
    qed (use w bal e xw t led wid in \<open>simp_all add: insert_order_def\<close>)
  qed
qed

section \<open>Properties\<close>

text \<open>
  A run for the witnesses: two customers, a top-up by user id that creates a wallet, an order paid
  from it.
\<close>

definition sample_db :: money_db where
  "sample_db = \<lparr>odb_now = 1000, odb_orders = [], odb_history = [], odb_outbox = [],
     db_uuid = (\<lambda>n. ''id-'' @ nat_str n), db_drawn = 0, wallets = [], ledger = [], accounts = [],
     settings = [], profiles = [\<lparr>prof_id = ''u1'', prof_email = None, prof_name = None, prof_phone = None\<rparr>,
                 \<lparr>prof_id = ''u2'', prof_email = None, prof_name = None, prof_phone = None\<rparr>],
     payments = [], issues = []\<rparr>"

definition sample_topup :: "(exn + uuid option) \<times> money_db" where
  "sample_topup = credit_wallet_topup ''R1'' None (Some ''u1'') 5000 None (JObj []) sample_db"

definition sample_paid :: "(exn + uuid) \<times> money_db" where
  "sample_paid = pay_order_from_wallet ''u1'' ''c1'' ''MD-7'' 3000 2000 (snd sample_topup)"

lemma sample_db_reachable: "money_reachable sample_db"
  by (rule money_reachable.start) (simp_all add: sample_db_def inj_def nat_str_inj)

lemma sample_topup_reachable: "money_reachable (snd sample_topup)"
  unfolding sample_topup_def using sample_db_reachable
  by (rule money_reachable.step) (rule money_step.topup)

lemma sample_paid_reachable: "money_reachable (snd sample_paid)"
  unfolding sample_paid_def using sample_topup_reachable
  by (rule money_reachable.step) (rule money_step.pay)

lemma sample_topup_result: "fst sample_topup = Inr (Some ''id-1'')"
  by code_simp

lemma sample_paid_result: "fst sample_paid = Inr ''id-2''"
  by code_simp

lemma sample_paid_wallet: "map (\<lambda>w. (w_id w, w_balance w)) (wallets (snd sample_paid)) = [(''id-0'', 2000)]"
  by code_simp

text \<open>
  Property C1: in every state the wallet functions and any other component can reach, the cached
  balance of a wallet is the sum of its ledger entries and not negative, and the nightly drift
  scan finds nothing and files nothing.
\<close>

theorem wallet_books_balance:
  assumes "money_reachable s" and "w \<in> set (wallets s)"
  shows "w_balance w = ledger_total (w_id w) (ledger s) \<and> 0 \<le> w_balance w \<and>
         detect_wallet_balance_drift s = (Inr 0, s)"
proof -
  from money_reachable_inv [OF assms(1)] have inv: "books_ok s" by (simp add: money_inv_def)
  then have "drift_rows s = []" by (simp add: books_ok_def drift_rows_def filter_empty_conv)
  then have "detect_wallet_balance_drift s = (Inr 0, s)"
    by (simp add: detect_wallet_balance_drift_def prog_simps)
  with inv assms(2) show ?thesis by (metis books_ok_def)
qed

theorem wallet_books_balance_witness:
  "\<exists>w\<in>set (wallets (snd sample_paid)). w_balance w = 2000 \<and>
     ledger_total ''id-0'' (ledger (snd sample_paid)) = 2000 \<and>
     detect_wallet_balance_drift (snd sample_paid) = (Inr 0, snd sample_paid)"
proof -
  from sample_paid_wallet obtain w where w: "w \<in> set (wallets (snd sample_paid))" "w_id w = ''id-0''" "w_balance w = 2000"
    by (auto simp: map_eq_Cons_conv)
  from wallet_books_balance [OF sample_paid_reachable w(1)] w show ?thesis by auto
qed

text \<open>
  Property C29: the ledger is append-only, and every entry's balance snapshot is the running balance
  of its wallet at that point, never negative, from any reachable state onwards.
\<close>

theorem ledger_is_append_only:
  assumes "money_reachable s" and "money_step\<^sup>*\<^sup>* s t"
  shows "(\<exists>more. ledger t = ledger s @ more) \<and> snapshots_from (\<lambda>_. 0) (ledger t)"
proof -
  from assms(2,1) have "money_reachable t"
    by (induction rule: rtranclp_induct) (auto intro: money_reachable.step)
  with extends_steps [OF assms(2)] show ?thesis
    by (simp add: money_reachable_inv [unfolded money_inv_def books_ok_def])
qed

theorem ledger_is_append_only_witness:
  "(\<exists>more. ledger (snd sample_paid) = ledger (snd sample_topup) @ more) \<and>
   snapshots_from (\<lambda>_. 0) (ledger (snd sample_paid))"
  by (rule ledger_is_append_only [OF sample_topup_reachable])
    (simp add: sample_paid_def money_step.pay r_into_rtranclp)

text \<open>
  Once a top-up under a provider reference is booked, no later delivery of that
  reference books anything, whatever its account, user, amount or payload and whatever happened in
  between: the ledger stays as it is and no entry id is returned.
\<close>

theorem topup_redelivery_moves_no_money:
  assumes "credit_wallet_topup reference account user amount sender payload s = (Inr (Some eid), t)"
    and "money_step\<^sup>*\<^sup>* t u"
    and "credit_wallet_topup reference account' user' amount' sender' payload' u = (r, v)"
  shows "ledger v = ledger u \<and> (r = Inr None \<or> (\<exists>e. r = Inl e))"
proof -
  from assms(1) have "reference \<in> set (topup_refs (ledger t))"
    by (cases rule: topup_cases [OF assms(1)]) (simp_all add: topup_refs_def)
  with extends_steps [OF assms(2)] have seen: "reference \<in> set (topup_refs (ledger u))" by auto
  obtain r1 s1 where w: "topup_wallet account' user' u = (r1, s1)" by force
  from topup_wallet_keeps [OF w] have led: "ledger s1 = ledger u" by simp
  with seen have "topup_recorded (Some reference) s1" by (simp add: topup_recorded_iff)
  with assms(3) w led show ?thesis
    by (cases r1) (auto simp: credit_wallet_topup_def prog_simps split: if_splits)
qed

theorem topup_redelivery_moves_no_money_witness:
  "ledger (snd (credit_wallet_topup ''R1'' None (Some ''u2'') 9999 None JNull (snd sample_paid))) = ledger (snd sample_paid)"
proof -
  have first: "credit_wallet_topup ''R1'' None (Some ''u1'') 5000 None (JObj []) sample_db = (Inr (Some ''id-1''), snd sample_topup)"
    using sample_topup_result by (metis prod.collapse sample_topup_def)
  have later: "money_step\<^sup>*\<^sup>* (snd sample_topup) (snd sample_paid)"
    by (simp add: sample_paid_def money_step.pay r_into_rtranclp)
  show ?thesis
    using topup_redelivery_moves_no_money [OF first later
        surjective_pairing [of "credit_wallet_topup ''R1'' None (Some ''u2'') 9999 None JNull (snd sample_paid)"]]
    by blast
qed

text \<open>
  Property C16: over any sequence of deliveries, each in its own transaction and with any repeats,
  the accepted ones carry distinct references, none of them booked before, and the money credited
  grows by exactly the sum of the accepted amounts.
\<close>

theorem deliveries_credit_each_reference_once:
  assumes "money_reachable s" and "deliver_all topup_request ds s = (acc, t)"
  shows "distinct (map fst acc) \<and> fst ` set acc \<inter> set (topup_refs (ledger s)) = {} \<and> set acc \<subseteq> set ds \<and>
     set (topup_refs (ledger t)) = set (topup_refs (ledger s)) \<union> fst ` set acc \<and>
     topups_total (ledger t) = topups_total (ledger s) + (\<Sum>(r, _, _, amount, _, _)\<leftarrow>acc. amount)"
  using wallet_topups.each_reference_once [OF money_reachable_inv [OF assms(1)] assms(2)]
  by (simp add: case_prod_unfold)

definition sample_deliveries ::
  "(string \<times> string option \<times> uuid option \<times> int \<times> string option \<times> json) list" where
  "sample_deliveries =
     [(''R1'', None, Some ''u1'', 5000, None, JNull), (''R1'', None, Some ''u1'', 5000, None, JNull),
      (''R2'', None, Some ''nobody'', 100, None, JNull), (''R3'', None, Some ''u2'', 700, None, JNull)]"

theorem deliveries_credit_each_reference_once_witness:
  "topups_total (ledger (snd (deliver_all topup_request sample_deliveries sample_db))) = 5700"
proof -
  have acc: "fst (deliver_all topup_request sample_deliveries sample_db) =
      [(''R1'', None, Some ''u1'', 5000, None, JNull), (''R3'', None, Some ''u2'', 700, None, JNull)]"
    by code_simp
  from deliveries_credit_each_reference_once [OF sample_db_reachable
      surjective_pairing [of "deliver_all topup_request sample_deliveries sample_db"]]
  show ?thesis by (simp add: acc) (simp add: sample_db_def topups_total_def)
qed

text \<open>
  An order is paid from a wallet only when the customer's own wallet is active and
  holds the total, and then exactly one entry is posted, for minus the total, linked to the new
  order, which is created as paid; an order with a zero total is never accepted.
\<close>

theorem wallet_order_debits_its_total:
  assumes "money_reachable s"
    and "pay_order_from_wallet customer campus number due cutoff s = (Inr oid, t)"
  shows "\<exists>(w :: wallet) (e :: ledger_entry). w_user w = customer \<and> w_status w = Wallet_Active \<and> due \<le> w_balance w \<and> due \<noteq> 0 \<and>
     ledger t = ledger s @ [e] \<and> le_wallet e = w_id w \<and> le_amount e = - due \<and>
     le_type e = Order_Payment \<and> le_order e = Some oid \<and> le_balance_after e = w_balance w - due \<and>
     Paid \<in> set (map ord_status (filter (\<lambda>r. ord_id r = oid) (odb_orders t)))"
proof (rule wallet_pay_cases [OF assms(2) money_reachable_inv [OF assms(1)]])
  fix w :: wallet and e :: ledger_entry
  assume "w_user w = customer" "w_status w = Wallet_Active" "due \<le> w_balance w" "due \<noteq> 0"
    "ledger t = ledger s @ [e]" "le_wallet e = w_id w" "le_amount e = - due" "le_type e = Order_Payment"
    "le_order e = Some oid" "le_balance_after e = w_balance w - due"
    "map ord_status (filter (\<lambda>r. ord_id r = oid) (odb_orders t)) =
     map ord_status (filter (\<lambda>r. ord_id r = oid) (odb_orders s)) @ [Paid]"
  then show ?thesis by (intro exI [of _ w] exI [of _ e]) simp
qed

theorem wallet_order_debits_its_total_witness:
  "\<exists>e. ledger (snd sample_paid) = ledger (snd sample_topup) @ [e] \<and> le_amount e = - 3000 \<and>
     le_order e = Some ''id-2''"
proof -
  have "pay_order_from_wallet ''u1'' ''c1'' ''MD-7'' 3000 2000 (snd sample_topup) = (Inr ''id-2'', snd sample_paid)"
    using sample_paid_result by (metis prod.collapse sample_paid_def)
  from wallet_order_debits_its_total [OF sample_topup_reachable this] show ?thesis by blast
qed

end
