(* ===== verification/Paystack_Event.thy ===== *)
theory Paystack_Event
  imports Json
begin

text \<open>
  domain/payments.ts: the Paystack webhook event, the domain event it is mapped to, and
  domain/wallet.ts's reading of a wallet shortfall. Amounts are integers of kobo, as Paystack
  documents them. The metadata is any JSON value, the object the checkout sent or its text.
\<close>

section \<open>The webhook event\<close>

datatype paystack_id = Id_Text string | Id_Number int

fun paystack_id_str :: "paystack_id \<Rightarrow> string" where
  "paystack_id_str (Id_Text t) = t"
| "paystack_id_str (Id_Number n) = int_str n"

record paystack_authorization =
  auth_channel :: "string option"
  auth_receiver :: "string option"
  auth_sender :: "string option"

record paystack_data =
  pd_id :: "paystack_id option"
  pd_reference :: "string option"
  pd_amount :: "int option"
  pd_currency :: "string option"
  pd_status :: "string option"
  pd_receiver :: "string option"
  pd_metadata :: "json option"
  pd_authorization :: "paystack_authorization option"

record paystack_event =
  pe_event :: string
  pe_data :: "paystack_data option"

datatype transfer_outcome = Tr_Success | Tr_Failed | Tr_Reversed

datatype ignore_reason = Unmapped_Event | Missing_Reference

datatype domain_event =
    Payment_Succeeded string int "string option"
  | Payment_Failed string "int option"
  | Refund_Succeeded string "int option"
  | Transfer_Reconciled string transfer_outcome
  | Wallet_Topup_Succeeded string int "string option" "string option" "int option" "string option" "string option"
  | Ignored ignore_reason string

section \<open>The mapping\<close>

definition wallet_topup_purpose :: string where
  "wallet_topup_purpose = ''wallet_topup''"

definition metadata_record :: "json option \<Rightarrow> json option" where
  "metadata_record m =
     (case m of
        Some (JStr text) \<Rightarrow>
          (case json_parse text of Some (JObj kvs) \<Rightarrow> Some (JObj kvs) | _ \<Rightarrow> None)
      | Some JNull \<Rightarrow> None
      | _ \<Rightarrow> m)"

definition metadata_field :: "string \<Rightarrow> json option \<Rightarrow> json option" where
  "metadata_field k m = Option.bind m (json_field k)"

text \<open>A checkout top-up: the purpose and a non-empty user id in the metadata.\<close>

definition topup_user :: "json option \<Rightarrow> string option" where
  "topup_user m =
     (if metadata_field ''purpose'' m = Some (JStr wallet_topup_purpose) then
        (case metadata_field ''userId'' m of
           Some (JStr u) \<Rightarrow> if u = [] then None else Some u
         | _ \<Rightarrow> None)
      else None)"

definition credit_of_metadata :: "json option \<Rightarrow> int option" where
  "credit_of_metadata m =
     (let credit = (case metadata_field ''creditKobo'' m of None \<Rightarrow> NaN | Some v \<Rightarrow> js_to_number v)
      in case as_integer credit of None \<Rightarrow> None | Some n \<Rightarrow> if 0 < n then Some n else None)"

definition transfer_status :: "string \<Rightarrow> transfer_outcome option" where
  "transfer_status ev = map_of [(''transfer.success'', Tr_Success), (''transfer.failed'', Tr_Failed),
     (''transfer.reversed'', Tr_Reversed)] ev"

definition map_paystack_event :: "paystack_event \<Rightarrow> domain_event" where
  "map_paystack_event input =
     (case Option.bind (pe_data input) pd_reference of
        None \<Rightarrow> Ignored Missing_Reference (pe_event input)
      | Some reference \<Rightarrow>
          if reference = [] then Ignored Missing_Reference (pe_event input)
          else
            let d = the (pe_data input);
                amount = (case pd_amount d of None \<Rightarrow> 0 | Some a \<Rightarrow> a);
                metadata = metadata_record (pd_metadata d)
            in if pe_event input = ''charge.success'' \<and>
                  Option.bind (pd_authorization d) auth_channel = Some ''dedicated_nuban''
               then let auth = the (pd_authorization d)
                    in Wallet_Topup_Succeeded reference amount
                         (if auth_receiver auth = None then pd_receiver d else auth_receiver auth)
                         None None (auth_sender auth) (pd_currency d)
               else if pe_event input = ''charge.success'' \<and> topup_user metadata \<noteq> None
               then Wallet_Topup_Succeeded reference amount None (topup_user metadata)
                      (credit_of_metadata metadata) None (pd_currency d)
               else if pe_event input = ''charge.success''
               then Payment_Succeeded reference amount (pd_currency d)
               else if pe_event input = ''charge.failed''
               then Payment_Failed reference (pd_amount d)
               else if pe_event input = ''refund.processed''
               then Refund_Succeeded reference (pd_amount d)
               else case transfer_status (pe_event input) of
                      Some st \<Rightarrow> Transfer_Reconciled reference st
                    | None \<Rightarrow> Ignored Unmapped_Event (pe_event input))"

section \<open>Wallet shortfall (domain/wallet.ts)\<close>

record wallet_shortfall =
  ws_balance :: js_num
  ws_required :: js_num
  ws_shortfall :: js_num

definition parse_wallet_shortfall :: "string option \<Rightarrow> wallet_shortfall option" where
  "parse_wallet_shortfall detail =
     (case detail of
        None \<Rightarrow> None
      | Some text \<Rightarrow>
          if text = [] then None
          else case json_parse text of
                 None \<Rightarrow> None
               | Some v \<Rightarrow>
                   (case (json_field ''balanceKobo'' v, json_field ''requiredKobo'' v, json_field ''shortfallKobo'' v) of
                      (Some (JNum b), Some (JNum r), Some (JNum d)) \<Rightarrow>
                        Some \<lparr>ws_balance = b, ws_required = r, ws_shortfall = d\<rparr>
                    | _ \<Rightarrow> None))"

section \<open>Reading back a printed amount\<close>

lemma digits_value_snoc: "digits_value (ds @ [c]) = 10 * digits_value ds + int (of_char c - 48)"
  by (simp add: digits_value_def)

lemma digit_char_value: "d < 10 \<Longrightarrow> (of_char (digit_char d) :: nat) - 48 = d"
proof -
  assume "d < 10"
  then have "d \<in> {0, 1, 2, 3, 4, 5, 6, 7, 8, 9}" by auto
  then show ?thesis by (auto simp: digit_char_def)
qed

lemma digits_value_nat_str: "digits_value (nat_str n) = int n"
proof (induction n rule: nat_str.induct)
  case (1 n)
  show ?case
  proof (cases "n < 10")
    case True
    then show ?thesis by (subst nat_str.simps) (simp add: digits_value_def digit_char_value)
  next
    case False
    have "digits_value (nat_str n) = 10 * int (n div 10) + int (n mod 10)"
      using "1.IH" [OF False] False
      by (subst nat_str.simps) (simp add: digits_value_snoc digit_char_value del: of_nat_mod of_nat_div)
    also have "\<dots> = int n" by presburger
    finally show ?thesis .
  qed
qed

lemma is_digit_nat_str: "c \<in> set (nat_str n) \<Longrightarrow> is_digit c"
  unfolding is_digit_def by (rule subsetD [OF nat_str_digits])

lemma nat_str_span: "takeWhile is_digit (nat_str n) = nat_str n" "dropWhile is_digit (nat_str n) = []"
  by (simp_all add: takeWhile_eq_all_conv dropWhile_eq_Nil_conv is_digit_nat_str)

lemma parse_nat_str: "parse_decimal_literal (nat_str n) = js_int (int n)"
  by (simp add: parse_decimal_literal_def nat_str_span parse_exponent_def decimal_value_def digits_value_nat_str)

lemma js_trim_id: "\<forall>c\<in>set s. \<not> js_space c \<Longrightarrow> js_trim s = s"
proof -
  assume "\<forall>c\<in>set s. \<not> js_space c"
  then have "dropWhile js_space s = s" "dropWhile js_space (rev s) = rev s"
    by (cases s; simp) (cases "rev s"; use \<open>\<forall>c\<in>set s. \<not> js_space c\<close> in \<open>auto simp: dropWhile_eq_self_iff hd_rev\<close>)
  then show ?thesis by (simp add: js_trim_def)
qed

lemma digit_not_space: "is_digit c \<Longrightarrow> \<not> js_space c"
  by (auto simp: is_digit_def js_space_def)

lemma starts_with_member: "starts_with p s \<Longrightarrow> c \<in> set p \<Longrightarrow> c \<in> set s"
  unfolding starts_with_def by (metis in_set_takeD)

lemma string_to_number_digits: "string_to_number (nat_str n) = js_int (int n)"
proof -
  have trim: "js_trim (nat_str n) = nat_str n"
    using is_digit_nat_str digit_not_space by (intro js_trim_id ballI) simp
  have not_letter: "\<not> starts_with (CHR ''0'' # [c]) (nat_str n)" if "\<not> is_digit c" for c
    using that starts_with_member [of "CHR ''0'' # [c]" "nat_str n" c] is_digit_nat_str by auto
  have letters: "\<not> is_digit CHR ''x''" "\<not> is_digit CHR ''X''" "\<not> is_digit CHR ''o''" "\<not> is_digit CHR ''O''"
    "\<not> is_digit CHR ''b''" "\<not> is_digit CHR ''B''" "\<not> is_digit CHR ''-''" "\<not> is_digit CHR ''+''" "\<not> is_digit CHR ''I''"
    by (simp_all add: is_digit_def)
  have hd: "is_digit (hd (nat_str n))"
    by (rule is_digit_nat_str, rule hd_in_set) simp
  with letters have "hd (nat_str n) \<noteq> CHR ''-''" "hd (nat_str n) \<noteq> CHR ''+''" "nat_str n \<noteq> ''Infinity''"
    by auto
  with not_letter letters trim show ?thesis
    by (simp add: string_to_number_def Let_def parse_nat_str)
qed

lemma credit_of_printed: "0 < n \<Longrightarrow> int_str n = nat_str (nat n)"
  by (simp add: int_str_def)

section \<open>The metadata of a wallet checkout\<close>

text \<open>What POST /wallet/topup stamps on its checkout (WalletsService.initializeTopup).\<close>

definition topup_metadata_sent :: "uuid \<Rightarrow> uuid \<Rightarrow> int \<Rightarrow> json" where
  "topup_metadata_sent user wid amount =
     JObj [(''purpose'', JStr wallet_topup_purpose), (''userId'', JStr user), (''walletId'', JStr wid),
           (''creditKobo'', JStr (int_str amount))]"

lemma topup_metadata_read:
  assumes "0 < amount" and "user \<noteq> []"
  shows "metadata_record (Some (topup_metadata_sent user wid amount)) = Some (topup_metadata_sent user wid amount)"
    and "topup_user (Some (topup_metadata_sent user wid amount)) = Some user"
    and "credit_of_metadata (Some (topup_metadata_sent user wid amount)) = Some amount"
  using assms
  by (simp_all add: metadata_record_def topup_user_def metadata_field_def topup_metadata_sent_def
      credit_of_metadata_def credit_of_printed string_to_number_digits)

section \<open>Properties\<close>

text \<open>
  A successful charge that carries the metadata of the wallet checkout is mapped to a
  top-up of exactly that user by exactly the amount the checkout was started for, whatever the
  charged amount, and never to an order payment.
\<close>

theorem checkout_topup_round_trip:
  assumes "0 < amount" and "user \<noteq> []" and "pd_reference d = Some reference" and "reference \<noteq> []"
    and "pd_metadata d = Some (topup_metadata_sent user wid amount)"
    and "Option.bind (pd_authorization d) auth_channel \<noteq> Some ''dedicated_nuban''"
  shows "map_paystack_event \<lparr>pe_event = ''charge.success'', pe_data = Some d\<rparr> =
    Wallet_Topup_Succeeded reference (case pd_amount d of None \<Rightarrow> 0 | Some a \<Rightarrow> a) None (Some user)
      (Some amount) None (pd_currency d)"
  using assms by (simp add: map_paystack_event_def topup_metadata_read Let_def)

theorem checkout_topup_round_trip_witness:
  "map_paystack_event \<lparr>pe_event = ''charge.success'', pe_data = Some
      \<lparr>pd_id = None, pd_reference = Some ''WTU-1'', pd_amount = Some 513706, pd_currency = Some ''NGN'',
       pd_status = None, pd_receiver = None, pd_metadata = Some (topup_metadata_sent ''u1'' ''w1'' 500000),
       pd_authorization = None\<rparr>\<rparr> =
   Wallet_Topup_Succeeded ''WTU-1'' 513706 None (Some ''u1'') (Some 500000) None (Some ''NGN'')"
  using checkout_topup_round_trip [of 500000 "''u1''" "\<lparr>pd_id = None, pd_reference = Some ''WTU-1'',
       pd_amount = Some 513706, pd_currency = Some ''NGN'', pd_status = None, pd_receiver = None,
       pd_metadata = Some (topup_metadata_sent ''u1'' ''w1'' 500000), pd_authorization = None\<rparr>" "''WTU-1''" "''w1''"]
  by simp

end
