(* ===== verification/Audit_Log.thy ===== *)
theory Audit_Log
  imports Wallet_Ledger Access
begin

text \<open>
  The audit log (common/audit/audit.service.ts) over the money tables: what the administrator
  operations of the payments, refunds, wallets and settings modules record.
\<close>

section \<open>State\<close>

record audit_row =
  au_actor :: uuid
  au_actor_type :: string
  au_campus :: "uuid option"
  au_action :: string
  au_entity_type :: string
  au_entity_id :: "uuid option"
  au_before :: "json option"
  au_after :: "json option"
  au_metadata :: json

text \<open>\<open>audit_fault\<close>: the audit inserts the database refuses.\<close>

record audited_db = money_db +
  audit_logs :: "audit_row list"
  audit_fault :: "audit_row \<Rightarrow> bool"

section \<open>Recording\<close>

fun actor_type_for_role :: "actor_role \<Rightarrow> string" where
  "actor_type_for_role Super_Admin = ''admin''"
| "actor_type_for_role Campus_Admin = ''admin''"
| "actor_type_for_role r = role_str r"

text \<open>A refused insert is logged and swallowed: the audited action never fails for it.\<close>

definition record_audit :: "audit_row \<Rightarrow> ('z audited_db_scheme, unit) prog" where
  "record_audit e = bindM (gets (\<lambda>s. audit_fault s e)) (\<lambda>refused.
     whenM (\<not> refused) (modify (\<lambda>s. s\<lparr>audit_logs := audit_logs s @ [e]\<rparr>)))"

end
