(* ===== verification/Fee_Settings.thy ===== *)
theory Fee_Settings
  imports Audit_Log
begin

text \<open>
  The fee settings: modules/wallets/admin-wallets.service.ts (settings part) with its repository
  and audit log, and the database function that splits a delivery fee by them when an order is
  delivered (resolve_order_delivery_shares, called by transition_order_status). Joins the database
  makes to find an order's slot are resolved: \<open>dr_target\<close> is the slot's instant on the order's date.
\<close>

section \<open>State\<close>

record delivery_row =
  dr_order :: uuid
  dr_meal_direct_rider :: bool
  dr_point :: bool
  dr_fee :: int
  dr_target :: time
  dr_rider_share :: "int option"
  dr_vendor_share :: "int option"
  dr_platform_share :: "int option"
  dr_ready_on_time :: "bool option"
  dr_delivered_on_time :: "bool option"

record fee_db = audited_db +
  deliveries :: "delivery_row list"

section \<open>Settings (platform-settings.repository.ts, admin-wallets.service.ts)\<close>

definition upsert_setting :: "string \<Rightarrow> json \<Rightarrow> uuid \<Rightarrow> ('z money_db_scheme, setting_row) prog" where
  "upsert_setting key v actor_id =
     (let row = \<lparr>set_key = key, set_value = v, set_updated_by = Some actor_id\<rparr>
      in thenM (modify (\<lambda>s. s\<lparr>settings :=
           (if key \<in> set_key ` set (settings s)
            then update_where (\<lambda>r. set_key r = key) (\<lambda>_. row) (settings s)
            else settings s @ [row])\<rparr>)) (ret row))"

definition default_min_topup_kobo :: int where
  "default_min_topup_kobo = 50000"

definition find_wallet_limits :: "('z money_db_scheme, int \<times> int) prog" where
  "find_wallet_limits =
     bindM (platform_setting_int ''wallet_min_topup_kobo'' default_min_topup_kobo) (\<lambda>lower.
     bindM (platform_setting_int ''wallet_max_balance_kobo'' default_max_balance_kobo) (\<lambda>upper. ret (lower, upper)))"

definition fee_setting_keys :: "string list" where
  "fee_setting_keys = [''fee_delivery_base_kobo'', ''fee_point_surcharge_kobo'', ''share_rider_ontime_kobo'',
     ''share_rider_late_kobo'', ''share_vendor_ontime_kobo'', ''share_point_rider_kobo'', ''vendor_ready_lead_minutes'']"

definition editable_setting_keys :: "string list" where
  "editable_setting_keys = ''wallet_min_topup_kobo'' # ''wallet_max_balance_kobo'' # fee_setting_keys"

definition residual_keys :: "string list" where
  "residual_keys = [''fee_delivery_base_kobo'', ''share_rider_ontime_kobo'', ''share_vendor_ontime_kobo'',
     ''fee_point_surcharge_kobo'', ''share_point_rider_kobo'']"

definition invalid_fee_setting :: "string \<Rightarrow> exn" where
  "invalid_fee_setting m = Http_Error 400 ''INVALID_FEE_SETTING'' m"

definition current_value :: "setting_row list \<Rightarrow> string \<Rightarrow> rat \<Rightarrow> rat" where
  "current_value rows key fallback =
     (case map_option set_value (lookup_by set_key key rows) of
        Some (JNum (Fin q)) \<Rightarrow> q
      | _ \<Rightarrow> fallback)"

definition resolved_value :: "string \<Rightarrow> int \<Rightarrow> setting_row list \<Rightarrow> string \<Rightarrow> rat \<Rightarrow> rat" where
  "resolved_value key new rows k fallback = (if key = k then of_int new else current_value rows k fallback)"

text \<open>String(n) of a setting: whole kobo; a fraction a hand-edited row might hold is cut off here.\<close>

definition kobo_text :: "rat \<Rightarrow> string" where
  "kobo_text q = int_str \<lfloor>q\<rfloor>"

definition assert_fee_config_valid :: "string \<Rightarrow> js_num \<Rightarrow> setting_row list \<Rightarrow> exn + unit" where
  "assert_fee_config_valid key v rows =
     (case as_integer v of
        None \<Rightarrow> Inl (invalid_fee_setting (''Fee setting \"'' @ key @ ''\" must be a non-negative whole number.''))
      | Some n \<Rightarrow>
          if n < 0 then Inl (invalid_fee_setting (''Fee setting \"'' @ key @ ''\" must be a non-negative whole number.''))
          else if key = ''vendor_ready_lead_minutes'' \<and> n \<le> 0
          then Inl (invalid_fee_setting ''vendor_ready_lead_minutes must be greater than zero.'')
          else if key \<notin> set residual_keys then Inr ()
          else
            let resolved = resolved_value key n rows;
                base = resolved ''fee_delivery_base_kobo'' 30000;
                rider = resolved ''share_rider_ontime_kobo'' 10000;
                vendor = resolved ''share_vendor_ontime_kobo'' 5000;
                surcharge = resolved ''fee_point_surcharge_kobo'' 10000;
                point = resolved ''share_point_rider_kobo'' 5000
            in if base < rider + vendor
               then Inl (invalid_fee_setting (''share_rider_ontime_kobo ('' @ kobo_text rider @
                 '') + share_vendor_ontime_kobo ('' @ kobo_text vendor @ '') would exceed fee_delivery_base_kobo ('' @
                 kobo_text base @ ''), leaving the platform a negative residual.''))
               else if surcharge < point
               then Inl (invalid_fee_setting (''share_point_rider_kobo ('' @ kobo_text point @
                 '') would exceed fee_point_surcharge_kobo ('' @ kobo_text surcharge @
                 ''), leaving the platform a negative residual on point deliveries.''))
               else Inr ())"

fun join_with :: "string \<Rightarrow> string list \<Rightarrow> string" where
  "join_with sep [] = []"
| "join_with sep [x] = x"
| "join_with sep (x # y # zs) = x @ sep @ join_with sep (y # zs)"

definition update_setting :: "actor \<Rightarrow> string \<Rightarrow> js_num \<Rightarrow> ('z fee_db_scheme, setting_row) prog" where
  "update_setting a key v =
     (if key \<notin> set editable_setting_keys
      then raise (bad_request (''Setting \"'' @ key @ ''\" is not editable. Editable keys: '' @
             join_with '', '' editable_setting_keys @ ''.''))
      else if key \<notin> set fee_setting_keys \<and> (case as_integer v of None \<Rightarrow> True | Some n \<Rightarrow> n < 0)
      then raise (bad_request ''Setting value must be a non-negative whole number of kobo.'')
      else bindM (gets settings) (\<lambda>old.
        thenM (if key \<in> set fee_setting_keys then lift_ok (assert_fee_config_valid key v old) else ret ())
          (bindM (upsert_setting key (JNum v) (user_id a)) (\<lambda>updated.
            thenM (record_audit
              \<lparr>au_actor = user_id a, au_actor_type = actor_type_for_role (role a), au_campus = None, au_action = ''platform_setting.update'',
               au_entity_type = ''platform_setting'', au_entity_id = None,
               au_before = Some (JObj [(''value'', case lookup_by set_key key old of None \<Rightarrow> JNull | Some r \<Rightarrow> set_value r)]),
               au_after = Some (JObj [(''value'', set_value updated)]),
               au_metadata = JObj [(''key'', JStr key)]\<rparr>) (ret updated)))))"

section \<open>Splitting the delivery fee (resolve_order_delivery_shares)\<close>

record share_settings =
  ss_lead :: int
  ss_rider_on :: int
  ss_rider_late :: int
  ss_vendor_on :: int
  ss_point :: int

definition read_share_settings :: "('z money_db_scheme, share_settings) prog" where
  "read_share_settings =
     bindM (platform_setting_int ''vendor_ready_lead_minutes'' 10) (\<lambda>lead.
     bindM (platform_setting_int ''share_rider_ontime_kobo'' 10000) (\<lambda>rider_on.
     bindM (platform_setting_int ''share_rider_late_kobo'' 5000) (\<lambda>rider_late.
     bindM (platform_setting_int ''share_vendor_ontime_kobo'' 5000) (\<lambda>vendor_on.
     bindM (platform_setting_int ''share_point_rider_kobo'' 5000) (\<lambda>point.
       ret \<lparr>ss_lead = lead, ss_rider_on = rider_on, ss_rider_late = rider_late, ss_vendor_on = vendor_on,
            ss_point = point\<rparr>)))))"

definition by_instant :: "time option \<Rightarrow> time \<Rightarrow> bool" where
  "by_instant moment limit_at = (case moment of None \<Rightarrow> False | Some t \<Rightarrow> t \<le> limit_at)"

text \<open>The rider's and the vendor's share.\<close>

definition rider_and_vendor ::
  "share_settings \<Rightarrow> delivery_row \<Rightarrow> bool option \<Rightarrow> bool \<Rightarrow> bool \<Rightarrow> int \<times> int" where
  "rider_and_vendor c d confirmed_ready ready_ok deliv_ok =
     (let timed = (if deliv_ok then ss_rider_on c else ss_rider_late c);
          extra = (if dr_point d then ss_point c else 0)
      in if dr_meal_direct_rider d
         then (timed + extra, if ready_ok \<and> confirmed_ready = Some True then ss_vendor_on c else 0)
         else (0, (if ready_ok then ss_vendor_on c else 0) + timed + extra))"

definition resolve_order_delivery_shares :: "uuid \<Rightarrow> ('z fee_db_scheme, unit) prog" where
  "resolve_order_delivery_shares oid =
     bindM read_share_settings (\<lambda>c.
     bindM (gets (\<lambda>s. (lookup_by ord_id oid (odb_orders s), lookup_by dr_order oid (deliveries s)))) (\<lambda>found.
       case found of
         (Some r, Some d) \<Rightarrow>
           let ready_ok = by_instant (ord_ready_at r) (dr_target d - ss_lead c * 60000);
               deliv_ok = by_instant (ord_delivered_at r) (dr_target d);
               (rider, vendor) = rider_and_vendor c d (ord_rider_confirmed_ready r) ready_ok deliv_ok
           in bindM (to_int4 rider) (\<lambda>_. bindM (to_int4 vendor) (\<lambda>_. bindM (to_int4 (dr_fee d - rider)) (\<lambda>x.
              bindM (to_int4 (x - vendor)) (\<lambda>platform.
                if platform < 0 \<or> rider < 0 \<or> vendor < 0 \<or> rider + vendor + platform \<noteq> dr_fee d
                then raise (pg_error ''23000'' (''delivery share resolution unbalanced for order '' @ oid @ '' (fee '' @
                  int_str (dr_fee d) @ '', rider '' @ int_str rider @ '', vendor '' @ int_str vendor @ '', platform '' @
                  int_str platform @ '')''))
                else modify (\<lambda>s. s\<lparr>deliveries := update_where (\<lambda>x. dr_order x = oid)
                  (\<lambda>x. x\<lparr>dr_rider_share := Some rider, dr_vendor_share := Some vendor, dr_platform_share := Some platform,
                         dr_ready_on_time := Some ready_ok, dr_delivered_on_time := Some deliv_ok\<rparr>) (deliveries s)\<rparr>)))))
       | _ \<Rightarrow> raise (pg_error ''P0002'' (''order '' @ oid @ '' not found''))))"

text \<open>transition_order_status with its last step: a delivered order resolves its shares, in one transaction.\<close>

definition transition_with_shares ::
  "uuid \<Rightarrow> order_status \<Rightarrow> string option \<Rightarrow> bool \<Rightarrow> ('z fee_db_scheme, order_status) prog" where
  "transition_with_shares oid to reason food_was_ready =
     transaction (bindM (gets (\<lambda>s. map_option ord_status (lookup_by ord_id oid (odb_orders s)))) (\<lambda>from.
       bindM (transition_order_status oid to reason food_was_ready) (\<lambda>st.
         thenM (whenM (from \<noteq> Some to \<and> to = Delivered) (resolve_order_delivery_shares oid)) (ret st))))"

section \<open>The settings stay balanced\<close>

definition seeded_settings :: "setting_row list" where
  "seeded_settings = map (\<lambda>(k, n). \<lparr>set_key = k, set_value = JNum (js_int n), set_updated_by = None\<rparr>)
     [(''wallet_min_topup_kobo'', 50000), (''wallet_max_balance_kobo'', 5000000),
      (''fee_delivery_base_kobo'', 30000), (''fee_point_surcharge_kobo'', 10000),
      (''share_rider_ontime_kobo'', 10000), (''share_rider_late_kobo'', 5000),
      (''share_vendor_ontime_kobo'', 5000), (''share_point_rider_kobo'', 5000),
      (''vendor_ready_lead_minutes'', 10)]"

fun run_updates :: "(actor \<times> string \<times> js_num) list \<Rightarrow> 'z fee_db_scheme \<Rightarrow> 'z fee_db_scheme" where
  "run_updates [] s = s"
| "run_updates ((a, k, v) # calls) s = run_updates calls (snd (update_setting a k v s))"

definition whole_settings :: "setting_row list \<Rightarrow> bool" where
  "whole_settings rows \<longleftrightarrow> (\<forall>r\<in>set rows. \<exists>n\<ge>0. set_value r = JNum (js_int n))"

definition balanced_settings :: "setting_row list \<Rightarrow> bool" where
  "balanced_settings rows \<longleftrightarrow>
     current_value rows ''share_rider_ontime_kobo'' 10000 + current_value rows ''share_vendor_ontime_kobo'' 5000
       \<le> current_value rows ''fee_delivery_base_kobo'' 30000 \<and>
     current_value rows ''share_point_rider_kobo'' 5000 \<le> current_value rows ''fee_point_surcharge_kobo'' 10000"

definition upserted :: "setting_row \<Rightarrow> setting_row list \<Rightarrow> setting_row list" where
  "upserted row rows =
     (if set_key row \<in> set_key ` set rows
      then update_where (\<lambda>r. set_key r = set_key row) (\<lambda>_. row) rows else rows @ [row])"

lemma lookup_upserted:
  "lookup_by set_key k (upserted row rows) = (if k = set_key row then Some row else lookup_by set_key k rows)"
proof (cases "set_key row \<in> set_key ` set rows")
  case True
  then show ?thesis
    by (simp add: upserted_def lookup_replaced_row)
next
  case False
  then have "lookup_by set_key (set_key row) rows = None" by (simp add: lookup_by_None)
  with False show ?thesis by (auto simp: upserted_def table_simps split: option.splits)
qed

lemma current_value_upserted:
  "current_value (upserted \<lparr>set_key = key, set_value = JNum (js_int n), set_updated_by = u\<rparr> rows) k fb =
     resolved_value key n rows k fb"
  by (simp add: current_value_def resolved_value_def lookup_upserted)

lemma whole_upserted:
  "whole_settings rows \<Longrightarrow> 0 \<le> n \<Longrightarrow>
   whole_settings (upserted \<lparr>set_key = key, set_value = JNum (js_int n), set_updated_by = u\<rparr> rows)"
  by (auto simp: whole_settings_def upserted_def set_update_where)

lemma record_audit_settings: "settings (snd (record_audit e s)) = settings s" "is_ok (fst (record_audit e s))"
  by (auto simp: record_audit_def prog_simps)

text \<open>An accepted update checked the new configuration; a refused one changes nothing.\<close>

lemma update_setting_cases:
  assumes "update_setting a key v s = (r, t)"
  obtains (refused) e where "r = Inl e" "t = s"
  | (accepted) n row where "v = js_int n" "0 \<le> n" "r = Inr row"
      "row = \<lparr>set_key = key, set_value = JNum (js_int n), set_updated_by = Some (user_id a)\<rparr>"
      "settings t = upserted row (settings s)"
      "key \<in> set fee_setting_keys \<longrightarrow> assert_fee_config_valid key v (settings s) = Inr ()"
proof (cases "key \<in> set editable_setting_keys \<and>
    (key \<in> set fee_setting_keys \<longrightarrow> assert_fee_config_valid key v (settings s) = Inr ()) \<and>
    (key \<notin> set fee_setting_keys \<longrightarrow> (\<exists>n\<ge>0. v = js_int n))")
  case False
  with assms have "(\<exists>e. r = Inl e) \<and> t = s"
    by (auto simp: update_setting_def prog_simps as_integer_Some split: if_splits option.splits sum.splits)
  with refused show thesis by blast
next
  case True
  then have ok: "key \<in> set editable_setting_keys"
    "key \<in> set fee_setting_keys \<longrightarrow> assert_fee_config_valid key v (settings s) = Inr ()" by blast+
  from True obtain n where n: "v = js_int n" "0 \<le> n"
    by (cases "key \<in> set fee_setting_keys")
      (auto simp: assert_fee_config_valid_def as_integer_Some split: option.splits if_splits)
  let ?row = "\<lparr>set_key = key, set_value = JNum (js_int n), set_updated_by = Some (user_id a)\<rparr>"
  let ?s1 = "s\<lparr>settings := upserted ?row (settings s)\<rparr>"
  have up: "upsert_setting key (JNum v) (user_id a) s = (Inr ?row, ?s1)"
    by (simp add: upsert_setting_def upserted_def prog_simps n Let_def)
  from True n assms up have "r = Inr ?row \<and> settings t = settings ?s1"
    by (auto simp: update_setting_def prog_simps Let_def record_audit_def as_integer_Some split: if_splits)
  then show thesis using n ok by (intro accepted [of n ?row]) simp_all
qed

lemma update_keeps_balance:
  assumes "whole_settings (settings s)" "balanced_settings (settings s)" "update_setting a key v s = (r, t)"
  shows "whole_settings (settings t) \<and> balanced_settings (settings t)"
  using assms(3)
proof (cases rule: update_setting_cases)
  case refused
  with assms show ?thesis by simp
next
  case (accepted n row)
  have "balanced_settings (settings t)"
  proof (cases "key \<in> set residual_keys")
    case True
    then have "key \<in> set fee_setting_keys" by (auto simp: residual_keys_def fee_setting_keys_def)
    with accepted have "assert_fee_config_valid key v (settings s) = Inr ()" by blast
    with True accepted(1) show ?thesis
      by (simp add: accepted(4,5) balanced_settings_def current_value_upserted assert_fee_config_valid_def Let_def
          split: if_splits)
  next
    case False
    with assms(2) show ?thesis
      by (simp add: accepted(4,5) balanced_settings_def current_value_upserted resolved_value_def residual_keys_def)
  qed
  with accepted assms(1) show ?thesis by (simp add: whole_upserted)
qed

lemma run_updates_balance:
  "whole_settings (settings s) \<Longrightarrow> balanced_settings (settings s) \<Longrightarrow>
   whole_settings (settings (run_updates calls s)) \<and> balanced_settings (settings (run_updates calls s))"
proof (induction calls s rule: run_updates.induct)
  case (2 a k v calls s)
  obtain r t where "update_setting a k v s = (r, t)" by force
  with update_keeps_balance [OF "2.prems" this] "2.IH" show ?case by simp
qed simp

lemma seeded_ok: "whole_settings seeded_settings" "balanced_settings seeded_settings"
  by (simp_all add: seeded_settings_def whole_settings_def balanced_settings_def current_value_def table_simps)

section \<open>What the resolver reads and writes\<close>

definition int4_settings :: "setting_row list \<Rightarrow> bool" where
  "int4_settings rows \<longleftrightarrow> (\<forall>r\<in>set rows. \<forall>n. set_value r = JNum (js_int n) \<longrightarrow> int4 n)"

lemma numeric_to_int_whole [simp]: "0 \<le> n \<Longrightarrow> numeric_to_int (of_int n) = n"
  by (simp add: numeric_to_int_def floor_eq_iff)

lemma numeral_setting: "(numeral k :: rat) = of_int n \<longleftrightarrow> n = numeral k"
  by (metis of_int_eq_iff of_int_numeral)

lemma setting_reads:
  assumes "whole_settings (settings s)" "int4_settings (settings s)" "0 \<le> fb"
  shows "\<exists>n\<ge>0. platform_setting_int key fb s = (Inr n, s) \<and> current_value (settings s) key (of_int fb) = of_int n"
proof (cases "lookup_by set_key key (settings s)")
  case None
  with assms(3) show ?thesis by (simp add: platform_setting_int_def current_value_def prog_simps)
next
  case (Some row)
  then have "row \<in> set (settings s)" by (blast dest: lookup_by_Some)
  with assms(1) obtain n where n: "0 \<le> n" "set_value row = JNum (js_int n)" by (auto simp: whole_settings_def)
  with assms(2) \<open>row \<in> set (settings s)\<close> have "int4 n" by (auto simp: int4_settings_def)
  with n(1) have "platform_setting_int key fb s = (Inr n, s)" "current_value (settings s) key (of_int fb) = of_int n"
    by (simp_all add: platform_setting_int_def current_value_def prog_simps to_int4_app Some n(2))
  with n(1) show ?thesis by blast
qed

lemma shares_read:
  assumes "whole_settings (settings s)" "int4_settings (settings s)" "balanced_settings (settings s)"
    and "current_value (settings s) ''fee_delivery_base_kobo'' 30000 = of_int base"
    and "current_value (settings s) ''fee_point_surcharge_kobo'' 10000 = of_int surcharge"
  obtains c where "read_share_settings s = (Inr c, s)"
    "0 \<le> ss_rider_on c" "0 \<le> ss_rider_late c" "0 \<le> ss_vendor_on c" "0 \<le> ss_point c"
    "ss_rider_on c + ss_vendor_on c \<le> base" "ss_point c \<le> surcharge"
    "current_value (settings s) ''share_rider_late_kobo'' 5000 = of_int (ss_rider_late c)"
    "current_value (settings s) ''share_rider_ontime_kobo'' 10000 = of_int (ss_rider_on c)"
proof -
  note reads = setting_reads [OF assms(1,2)]
  obtain lead where "platform_setting_int ''vendor_ready_lead_minutes'' 10 s = (Inr lead, s)"
    using reads [of 10 "''vendor_ready_lead_minutes''"] by auto
  moreover obtain on where "0 \<le> on" "platform_setting_int ''share_rider_ontime_kobo'' 10000 s = (Inr on, s)"
    "current_value (settings s) ''share_rider_ontime_kobo'' 10000 = of_int on"
    using reads [of 10000 "''share_rider_ontime_kobo''"] by auto
  moreover obtain late where "0 \<le> late" "platform_setting_int ''share_rider_late_kobo'' 5000 s = (Inr late, s)"
    "current_value (settings s) ''share_rider_late_kobo'' 5000 = of_int late"
    using reads [of 5000 "''share_rider_late_kobo''"] by auto
  moreover obtain vendor where "0 \<le> vendor" "platform_setting_int ''share_vendor_ontime_kobo'' 5000 s = (Inr vendor, s)"
    "current_value (settings s) ''share_vendor_ontime_kobo'' 5000 = of_int vendor"
    using reads [of 5000 "''share_vendor_ontime_kobo''"] by auto
  moreover obtain point where "0 \<le> point" "platform_setting_int ''share_point_rider_kobo'' 5000 s = (Inr point, s)"
    "current_value (settings s) ''share_point_rider_kobo'' 5000 = of_int point"
    using reads [of 5000 "''share_point_rider_kobo''"] by auto
  moreover have "(of_int on + of_int vendor :: rat) \<le> of_int base" "(of_int point :: rat) \<le> of_int surcharge"
    using assms(3-5) calculation by (simp_all add: balanced_settings_def)
  then have "on + vendor \<le> base" "point \<le> surcharge" by linarith+
  ultimately show thesis
    by (intro that [of "\<lparr>ss_lead = lead, ss_rider_on = on, ss_rider_late = late, ss_vendor_on = vendor, ss_point = point\<rparr>"])
      (simp_all add: read_share_settings_def prog_simps)
qed

lemma resolve_balanced:
  assumes "read_share_settings s = (Inr c, s)"
    and "lookup_by ord_id oid (odb_orders s) = Some r" "lookup_by dr_order oid (deliveries s) = Some d"
    and "rider_and_vendor c d (ord_rider_confirmed_ready r)
           (by_instant (ord_ready_at r) (dr_target d - ss_lead c * 60000))
           (by_instant (ord_delivered_at r) (dr_target d)) = (rider, vendor)"
    and "0 \<le> rider" "0 \<le> vendor" "rider + vendor \<le> dr_fee d" "int4 (dr_fee d)"
  shows "\<exists>u d'. resolve_order_delivery_shares oid s = (Inr (), u) \<and> lookup_by dr_order oid (deliveries u) = Some d' \<and>
     dr_rider_share d' = Some rider \<and> dr_vendor_share d' = Some vendor \<and>
     dr_platform_share d' = Some (dr_fee d - rider - vendor) \<and> dr_fee d' = dr_fee d"
proof -
  from assms(5-8) have "int4 rider" "int4 vendor" "int4 (dr_fee d - rider)" "int4 (dr_fee d - rider - vendor)"
    by (auto simp: int4_def)
  moreover from assms(3) have "dr_order d = oid" by (blast dest: lookup_by_Some)
  ultimately show ?thesis
    using assms by (simp add: resolve_order_delivery_shares_def prog_simps to_int4_app Let_def lookup_update_where)
qed

section \<open>Properties\<close>


section \<open>A sample\<close>

definition fee_admin :: actor where
  "fee_admin = \<lparr>user_id = ''adm'', role = Super_Admin, email = None, campus_id = None, vendor_id = None, rider_id = None\<rparr>"

definition fee_sample :: fee_db where
  "fee_sample = \<lparr>odb_now = 9000,
     odb_orders = [\<lparr>ord_id = ''o1'', ord_number = ''MD-1'', ord_customer = ''u1'', ord_campus = ''c1'',
       ord_status = Out_For_Delivery, ord_paid_at = Some 1000, ord_ready_at = Some 2000, ord_delivered_at = None,
       ord_confirmed_at = None, ord_cancelled_at = None, ord_cancellation_reason = None,
       ord_rider_confirmed_ready = Some True, ord_reservation_expires_at = None\<rparr>],
     odb_history = [], odb_outbox = [], db_uuid = (\<lambda>n. ''id-'' @ nat_str n), db_drawn = 0,
     wallets = [], ledger = [], accounts = [], settings = seeded_settings, profiles = [], payments = [], issues = [],
     audit_logs = [], audit_fault = (\<lambda>e. False),
     deliveries = [\<lparr>dr_order = ''o1'', dr_meal_direct_rider = True, dr_point = False, dr_fee = 30000, dr_target = 8000,
       dr_rider_share = None, dr_vendor_share = None, dr_platform_share = None, dr_ready_on_time = None,
       dr_delivered_on_time = None\<rparr>]\<rparr>"

definition fee_calls :: "(actor \<times> string \<times> js_num) list" where
  "fee_calls = [(fee_admin, ''share_rider_ontime_kobo'', js_int 20000)]"


definition late_share_set :: "(exn + setting_row) \<times> fee_db" where
  "late_share_set = update_setting fee_admin ''share_rider_late_kobo'' (js_int 40000) fee_sample"

definition lead_set :: "(exn + setting_row) \<times> fee_db" where
  "lead_set = update_setting fee_admin ''vendor_ready_lead_minutes'' (js_int 3000000000) fee_sample"

definition delivered_under :: "fee_db \<Rightarrow> (exn + order_status) \<times> fee_db" where
  "delivered_under s = transition_with_shares ''o1'' Delivered None True s"

text \<open>
  The checks of the settings service do not cover the late share nor the integer range
  of the database: both updates below are accepted, and under either of them a late order can not be
  marked delivered: the transition raises and the order stays out for delivery. Under the seeded
  settings the same order is delivered.
\<close>

theorem accepted_settings_block_deliveries:
  "is_ok (fst late_share_set) \<and> is_ok (fst lead_set) \<and>
   fst (delivered_under (snd late_share_set)) = Inl (pg_error ''23000''
     ''delivery share resolution unbalanced for order o1 (fee 30000, rider 40000, vendor 0, platform -10000)'') \<and>
   fst (delivered_under (snd lead_set)) = Inl (pg_error ''22003'' ''integer out of range'') \<and>
   map ord_status (odb_orders (snd (delivered_under (snd late_share_set)))) = [Out_For_Delivery] \<and>
   fst (delivered_under fee_sample) = Inr Delivered"
  by (intro conjI; code_simp)

end
