(* ===== verification/Payouts.thy ===== *)
theory Payouts
  imports Fee_Settings Paystack_Event "HOL-Library.Sublist"
begin

text \<open>
  Paying vendors and riders: modules/settlements/payout.service.ts, payout.repository.ts and
  withdrawals.service.ts with the database functions they call (request_withdrawal,
  select_payable_settlements, reconcile_payout_transfer). The state extends the money tables by
  settlements, their lines and the transfers, one row per attempt.

  Paystack's transfer API is not under src/: its answers are the streams \<open>px_initiate\<close> and
  \<open>px_fetch\<close> of the state, the n-th call reading the n-th answer, and \<open>px_calls\<close> logs every
  transfer the program asked for. An answer may be any reply or any throw: paystack.client.ts turns
  an answer with an error status into a BadGatewayException, a network failure throws a plain error.
\<close>

section \<open>Tables\<close>

datatype settlement_kind = Daily | On_Demand

datatype settlement_status = St_Draft | St_Approved | St_Paid | St_Cancelled

record settlement =
  st_id :: uuid
  st_campus :: uuid
  st_vendor :: "uuid option"
  st_rider :: "uuid option"
  st_kind :: settlement_kind
  st_status :: settlement_status
  st_payable :: int
  st_paid_at :: "time option"
  st_created :: time
  st_created_by :: "uuid option"

record settlement_line =
  sl_settlement :: uuid
  sl_order :: uuid
  sl_type :: string
  sl_amount :: int

datatype transfer_state = T_Pending | T_Success | T_Failed | T_Reversed

record transfer =
  tr_id :: uuid
  tr_settlement :: uuid
  tr_attempt :: nat
  tr_reference :: string
  tr_amount :: int
  tr_code :: string
  tr_status :: transfer_state
  tr_initiated_by :: "uuid option"
  tr_payload :: json
  tr_created :: time

record payout_account =
  pa_vendor :: "uuid option"
  pa_rider :: "uuid option"
  pa_active :: bool
  pa_code :: "string option"
  pa_approved :: bool

record rider_row =
  rr_id :: uuid
  rr_campus :: uuid
  rr_code :: "string option"

record vendor_row =
  vr_id :: uuid
  vr_campus :: uuid

record transfer_request =
  rq_amount :: int
  rq_recipient :: string
  rq_reference :: string

record transfer_reply =
  rp_code :: string
  rp_status :: string
  rp_payload :: json

record fetch_reply =
  fr_status :: string
  fr_payload :: json

record payout_db = fee_db +
  settlements :: "settlement list"
  settlement_lines :: "settlement_line list"
  transfers :: "transfer list"
  payout_accounts :: "payout_account list"
  riders :: "rider_row list"
  vendors :: "vendor_row list"
  px_calls :: "transfer_request list"
  px_initiate :: "nat \<Rightarrow> exn + transfer_reply"
  px_fetched :: "string list"
  px_fetch :: "nat \<Rightarrow> exn + fetch_reply"

section \<open>Statuses (payout.service.ts)\<close>

definition terminal_transfer_status :: "string \<Rightarrow> transfer_outcome option" where
  "terminal_transfer_status st =
     (if st = ''success'' then Some Tr_Success
      else if st = ''reversed'' then Some Tr_Reversed
      else if st = ''failed'' \<or> st = ''abandoned'' then Some Tr_Failed
      else None)"

fun outcome_state :: "transfer_outcome \<Rightarrow> transfer_state" where
  "outcome_state Tr_Success = T_Success"
| "outcome_state Tr_Failed = T_Failed"
| "outcome_state Tr_Reversed = T_Reversed"

fun state_outcome :: "transfer_state \<Rightarrow> transfer_outcome option" where
  "state_outcome T_Pending = None"
| "state_outcome T_Success = Some Tr_Success"
| "state_outcome T_Failed = Some Tr_Failed"
| "state_outcome T_Reversed = Some Tr_Reversed"

definition stored_transfer_status :: "string \<Rightarrow> transfer_state" where
  "stored_transfer_status st =
     (case terminal_transfer_status st of None \<Rightarrow> T_Pending | Some oc \<Rightarrow> outcome_state oc)"

definition transfer_code_from :: "json \<Rightarrow> string \<Rightarrow> string" where
  "transfer_code_from payload fallback =
     (case Option.bind (json_field ''data'' payload) (json_field ''transfer_code'') of
        Some (JStr code) \<Rightarrow> if code = [] then fallback else code
      | _ \<Rightarrow> fallback)"

definition live :: "transfer \<Rightarrow> bool" where
  "live t \<longleftrightarrow> tr_status t = T_Pending \<or> tr_status t = T_Success"

definition bounced :: "transfer \<Rightarrow> bool" where
  "bounced t \<longleftrightarrow> tr_status t = T_Failed \<or> tr_status t = T_Reversed"

section \<open>Paystack calls\<close>

definition initiate_transfer :: "transfer_request \<Rightarrow> ('z payout_db_scheme, transfer_reply) prog" where
  "initiate_transfer rq = (\<lambda>s. (px_initiate s (length (px_calls s)), s\<lparr>px_calls := px_calls s @ [rq]\<rparr>))"

definition fetch_transfer :: "string \<Rightarrow> ('z payout_db_scheme, fetch_reply) prog" where
  "fetch_transfer reference =
     (\<lambda>s. (px_fetch s (length (px_fetched s)), s\<lparr>px_fetched := px_fetched s @ [reference]\<rparr>))"

section \<open>The repository (payout.repository.ts)\<close>

definition transfers_of :: "uuid \<Rightarrow> 'z payout_db_scheme \<Rightarrow> transfer list" where
  "transfers_of sid s = filter (\<lambda>t. tr_settlement t = sid) (transfers s)"

text \<open>order by attempt desc limit 1\<close>

definition latest_attempt :: "transfer list \<Rightarrow> transfer option" where
  "latest_attempt ts = find (\<lambda>t. \<forall>u\<in>set ts. tr_attempt u \<le> tr_attempt t) ts"

definition find_active_transfer :: "uuid \<Rightarrow> 'z payout_db_scheme \<Rightarrow> transfer option" where
  "find_active_transfer sid s = latest_attempt (filter live (transfers_of sid s))"

record payout_context =
  pc_settlement :: uuid
  pc_payable :: int
  pc_recipient :: "string option"

definition first_some :: "'a option list \<Rightarrow> 'a option" where
  "first_some xs = Option.bind (find (\<lambda>x. x \<noteq> None) xs) id"

definition find_payout_context :: "uuid \<Rightarrow> 'z payout_db_scheme \<Rightarrow> payout_context option" where
  "find_payout_context sid s =
     map_option (\<lambda>st. \<lparr>pc_settlement = sid, pc_payable = st_payable st,
        pc_recipient = first_some
          [Option.bind (st_vendor st) (\<lambda>v. Option.bind
             (find (\<lambda>a. pa_vendor a = Some v \<and> pa_active a) (payout_accounts s)) pa_code),
           Option.bind (st_rider st) (\<lambda>r. Option.bind
             (find (\<lambda>a. pa_rider a = Some r \<and> pa_active a) (payout_accounts s)) pa_code),
           Option.bind (st_rider st) (\<lambda>r. Option.bind (lookup_by rr_id r (riders s)) rr_code)]\<rparr>)
       (lookup_by st_id sid (settlements s))"

definition next_attempt :: "uuid \<Rightarrow> 'z payout_db_scheme \<Rightarrow> nat" where
  "next_attempt sid s = Suc (fold max (map tr_attempt (transfers_of sid s)) 0)"

record transfer_input =
  ti_settlement :: uuid
  ti_attempt :: nat
  ti_reference :: string
  ti_amount :: int
  ti_code :: string
  ti_status :: transfer_state
  ti_initiated_by :: "uuid option"
  ti_payload :: json

definition attempt_row :: "uuid \<Rightarrow> nat \<Rightarrow> 'z payout_db_scheme \<Rightarrow> transfer option" where
  "attempt_row sid n s = find (\<lambda>t. tr_attempt t = n) (transfers_of sid s)"

definition record_transfer :: "transfer_input \<Rightarrow> ('z payout_db_scheme, transfer) prog" where
  "record_transfer ti =
     bindM (gets (attempt_row (ti_settlement ti) (ti_attempt ti))) (\<lambda>existing.
       if ti_amount ti \<le> 0 then raise (pg_error ''23514'' ''new row for relation payout_transfers violates check constraint'')
       else case existing of
         Some t \<Rightarrow> ret t
       | None \<Rightarrow>
           bindM (gets (\<lambda>s. ti_reference ti \<in> tr_reference ` set (transfers s))) (\<lambda>clash.
             if clash then raise (pg_error ''23505'' ''duplicate key value violates unique constraint payout_transfers_reference_unique'')
             else bindM draw_uuid (\<lambda>tid. bindM (gets odb_now) (\<lambda>now.
               let row = \<lparr>tr_id = tid, tr_settlement = ti_settlement ti, tr_attempt = ti_attempt ti,
                          tr_reference = ti_reference ti, tr_amount = ti_amount ti, tr_code = ti_code ti,
                          tr_status = ti_status ti, tr_initiated_by = ti_initiated_by ti,
                          tr_payload = ti_payload ti, tr_created = now\<rparr>
               in thenM (modify (\<lambda>s. s\<lparr>transfers := transfers s @ [row]\<rparr>)) (ret row)))))"

text \<open>reconcile_payout_transfer, the function behind applyReconcile and the transfer webhooks.\<close>

definition reconciled_settlement :: "transfer_outcome \<Rightarrow> time \<Rightarrow> settlement \<Rightarrow> settlement" where
  "reconciled_settlement oc now st =
     (if oc = Tr_Success
      then st\<lparr>st_status := St_Paid, st_paid_at := (case st_paid_at st of None \<Rightarrow> Some now | Some t \<Rightarrow> Some t)\<rparr>
      else if st_kind st = On_Demand \<and> st_status st \<in> {St_Approved, St_Paid}
      then st\<lparr>st_status := St_Cancelled\<rparr> else st)"

definition reconcile_payout_transfer :: "string \<Rightarrow> transfer_outcome \<Rightarrow> json \<Rightarrow> ('z payout_db_scheme, unit) prog" where
  "reconcile_payout_transfer reference oc payload =
     bindM (gets (\<lambda>s. lookup_by tr_reference reference (transfers s))) (\<lambda>found.
       case found of
         None \<Rightarrow> ret ()
       | Some t \<Rightarrow>
           thenM (modify (\<lambda>s. s\<lparr>transfers := update_where (\<lambda>x. tr_reference x = reference)
                    (\<lambda>x. x\<lparr>tr_status := outcome_state oc, tr_payload := payload\<rparr>) (transfers s)\<rparr>))
             (modify (\<lambda>s. s\<lparr>settlements := update_where (\<lambda>x. st_id x = tr_settlement t)
                    (reconciled_settlement oc (odb_now s)) (settlements s)\<rparr>)))"

definition cancel_on_demand_settlement :: "uuid \<Rightarrow> ('z payout_db_scheme, unit) prog" where
  "cancel_on_demand_settlement sid =
     modify (\<lambda>s. s\<lparr>settlements := update_where
        (\<lambda>x. st_id x = sid \<and> st_kind x = On_Demand \<and> st_status x = St_Approved \<and>
             \<not> list_ex live (transfers_of sid s))
        (\<lambda>x. x\<lparr>st_status := St_Cancelled\<rparr>) (settlements s)\<rparr>)"

definition approved_account :: "uuid option \<Rightarrow> uuid option \<Rightarrow> 'z payout_db_scheme \<Rightarrow> bool" where
  "approved_account vendor rider s \<longleftrightarrow>
     list_ex (\<lambda>a. (vendor \<noteq> None \<and> pa_vendor a = vendor \<or> rider \<noteq> None \<and> pa_rider a = rider) \<and>
       pa_active a \<and> pa_code a \<noteq> None \<and> pa_approved a) (payout_accounts s)"

definition payable :: "int \<Rightarrow> int \<Rightarrow> 'z payout_db_scheme \<Rightarrow> settlement \<Rightarrow> bool" where
  "payable hold_hours max_attempts s st \<longleftrightarrow>
     0 < st_payable st \<and> st_status st = St_Approved \<and>
     st_created st \<le> odb_now s - hold_hours * 3600000 \<and>
     approved_account (st_vendor st) (st_rider st) s \<and>
     \<not> list_ex live (transfers_of (st_id st) s) \<and>
     int (length (filter bounced (transfers_of (st_id st) s))) < max_attempts"

definition select_payable_settlements :: "int \<Rightarrow> int \<Rightarrow> nat \<Rightarrow> 'z payout_db_scheme \<Rightarrow> uuid list" where
  "select_payable_settlements hold_hours max_attempts max_rows s =
     take max_rows (map st_id (sort_key st_created (filter (payable hold_hours max_attempts s) (settlements s))))"

definition get_payout_guardrails :: "('z payout_db_scheme, int \<times> int) prog" where
  "get_payout_guardrails =
     bindM (platform_setting_int ''payout_hold_hours'' 24) (\<lambda>hold.
     bindM (platform_setting_int ''payout_max_attempts'' 3) (\<lambda>attempts. ret (hold, attempts)))"

definition list_pending_transfers :: "int \<Rightarrow> nat \<Rightarrow> 'z payout_db_scheme \<Rightarrow> string list" where
  "list_pending_transfers grace_seconds max_rows s =
     take max_rows (map tr_reference (sort_key tr_created
       (filter (\<lambda>t. tr_status t = T_Pending \<and> tr_created t \<le> odb_now s - grace_seconds * 1000) (transfers s))))"

definition needs_admin :: "int \<Rightarrow> 'z payout_db_scheme \<Rightarrow> transfer \<Rightarrow> bool" where
  "needs_admin max_attempts s t \<longleftrightarrow>
     (let ts = transfers_of (tr_settlement t) s in
      \<not> list_ex (\<lambda>u. tr_status u = T_Success) ts \<and>
      max_attempts \<le> int (length (filter bounced ts)) \<and>
      list_all (\<lambda>u. tr_attempt u \<le> tr_attempt t) ts)"

section \<open>The service (payout.service.ts)\<close>

definition payouts_disabled :: exn where
  "payouts_disabled = forbidden ''Automated payouts are disabled.''"

definition attempt_reference :: "uuid \<Rightarrow> nat \<Rightarrow> string" where
  "attempt_reference sid n = sid @ ''-a'' @ nat_str n"

definition record_and_settle :: "transfer_input \<Rightarrow> ('z payout_db_scheme, transfer) prog" where
  "record_and_settle ti =
     bindM (record_transfer ti) (\<lambda>row.
       case state_outcome (tr_status row) of
         None \<Rightarrow> ret row
       | Some oc \<Rightarrow> thenM (reconcile_payout_transfer (tr_reference row) oc (ti_payload ti)) (ret row))"

definition pay_to_settlement :: "bool \<Rightarrow> uuid \<Rightarrow> uuid option \<Rightarrow> ('z payout_db_scheme, transfer) prog" where
  "pay_to_settlement enabled sid initiated_by =
     (if \<not> enabled then raise payouts_disabled
      else bindM (gets (find_active_transfer sid)) (\<lambda>active.
        case active of
          Some t \<Rightarrow> ret t
        | None \<Rightarrow> bindM (gets (find_payout_context sid)) (\<lambda>context.
            case context of
              None \<Rightarrow> raise (not_found ''Settlement payout destination was not found.'')
            | Some pc \<Rightarrow>
                (case pc_recipient pc of
                   None \<Rightarrow> raise (bad_request ''Settlement beneficiary has no Paystack transfer recipient. Provision payout bank details first.'')
                 | Some recipient \<Rightarrow> bindM (gets (next_attempt sid)) (\<lambda>n.
                     let reference = attempt_reference sid n in
                     bindM (initiate_transfer \<lparr>rq_amount = pc_payable pc, rq_recipient = recipient,
                              rq_reference = reference\<rparr>) (\<lambda>reply.
                       record_and_settle
                         \<lparr>ti_settlement = sid, ti_attempt = n, ti_reference = reference,
                          ti_amount = pc_payable pc, ti_code = rp_code reply,
                          ti_status = stored_transfer_status (rp_status reply),
                          ti_initiated_by = initiated_by, ti_payload = rp_payload reply\<rparr>))))))"

definition payout_unavailable :: exn where
  "payout_unavailable = Http_Error 503 ''PAYOUT_UNAVAILABLE''
     ''Your withdrawal could not be sent right now. Your balance is unchanged; please try again shortly.''"

definition pay_withdrawal :: "bool \<Rightarrow> uuid \<Rightarrow> uuid \<Rightarrow> ('z payout_db_scheme, transfer option) prog" where
  "pay_withdrawal enabled sid initiated_by =
     catchM (bindM (pay_to_settlement enabled sid (Some initiated_by)) (\<lambda>t. ret (Some t)))
       (\<lambda>e. if \<not> is_http e then ret None
         else
           let reference = attempt_reference sid 1 in
           bindM (catchM (bindM (fetch_transfer reference) (\<lambda>f. ret (Inr f))) (\<lambda>e2. ret (Inl e2))) (\<lambda>fetched.
             case fetched of
               Inl e2 \<Rightarrow>
                 if \<not> is_http e2 then ret None
                 else thenM (cancel_on_demand_settlement sid) (raise payout_unavailable)
             | Inr f \<Rightarrow>
                 bindM (gets (find_payout_context sid)) (\<lambda>context.
                 bindM (record_and_settle
                   \<lparr>ti_settlement = sid, ti_attempt = 1, ti_reference = reference,
                    ti_amount = (case context of None \<Rightarrow> 0 | Some pc \<Rightarrow> pc_payable pc),
                    ti_code = transfer_code_from (fr_payload f) reference,
                    ti_status = stored_transfer_status (fr_status f),
                    ti_initiated_by = Some initiated_by, ti_payload = fr_payload f\<rparr>) (\<lambda>t. ret (Some t)))))"

record pay_run =
  run_selected :: nat
  run_initiated :: nat
  run_failed :: nat

definition pay_one :: "bool \<Rightarrow> pay_run \<Rightarrow> uuid \<Rightarrow> ('z payout_db_scheme, pay_run) prog" where
  "pay_one enabled acc sid =
     catchM (bindM (pay_to_settlement enabled sid None) (\<lambda>_. ret (acc\<lparr>run_initiated := Suc (run_initiated acc)\<rparr>)))
       (\<lambda>_. ret (acc\<lparr>run_failed := Suc (run_failed acc)\<rparr>))"

definition run_payouts :: "bool \<Rightarrow> nat \<Rightarrow> ('z payout_db_scheme, pay_run) prog" where
  "run_payouts enabled max_rows =
     (if \<not> enabled then ret \<lparr>run_selected = 0, run_initiated = 0, run_failed = 0\<rparr>
      else bindM get_payout_guardrails (\<lambda>(hold, attempts).
        bindM (gets (select_payable_settlements hold attempts max_rows)) (\<lambda>ids.
          foldM (pay_one enabled) \<lparr>run_selected = length ids, run_initiated = 0, run_failed = 0\<rparr> ids)))"

definition reconcile_one :: "nat \<Rightarrow> string \<Rightarrow> ('z payout_db_scheme, nat) prog" where
  "reconcile_one reconciled reference =
     catchM (bindM (fetch_transfer reference) (\<lambda>f.
         case terminal_transfer_status (fr_status f) of
           None \<Rightarrow> ret reconciled
         | Some oc \<Rightarrow> thenM (reconcile_payout_transfer reference oc (fr_payload f)) (ret (Suc reconciled))))
       (\<lambda>_. ret reconciled)"

definition reconcile_pending_payouts :: "int \<Rightarrow> nat \<Rightarrow> ('z payout_db_scheme, nat \<times> nat) prog" where
  "reconcile_pending_payouts grace_seconds max_rows =
     bindM (gets (list_pending_transfers grace_seconds max_rows)) (\<lambda>pending.
     bindM (foldM reconcile_one 0 pending) (\<lambda>reconciled. ret (length pending, reconciled)))"

section \<open>Withdrawals (withdrawals.service.ts, request_withdrawal)\<close>

datatype beneficiary = Vendor_Of uuid | Rider_Of uuid

fun beneficiary_vendor :: "beneficiary \<Rightarrow> uuid option" where
  "beneficiary_vendor (Vendor_Of v) = Some v"
| "beneficiary_vendor (Rider_Of r) = None"

fun beneficiary_rider :: "beneficiary \<Rightarrow> uuid option" where
  "beneficiary_rider (Vendor_Of v) = None"
| "beneficiary_rider (Rider_Of r) = Some r"

definition owns_settlement :: "beneficiary \<Rightarrow> settlement \<Rightarrow> bool" where
  "owns_settlement b st =
     (case b of Vendor_Of v \<Rightarrow> st_vendor st = Some v | Rider_Of r \<Rightarrow> st_rider st = Some r)"

text \<open>
  A credit is an (order, line type) with its amount and the time its order completed; the orders
  join that lists a beneficiary's credits is the argument \<open>credits\<close>. A credit is withdrawable once
  it is past the hold and while no settlement of the beneficiary that is not cancelled carries it.
\<close>

record earning =
  er_order :: uuid
  er_type :: string
  er_amount :: int
  er_completed :: time

definition carried :: "beneficiary \<Rightarrow> uuid \<Rightarrow> string \<Rightarrow> 'z payout_db_scheme \<Rightarrow> bool" where
  "carried b oid ty s \<longleftrightarrow>
     list_ex (\<lambda>l. sl_order l = oid \<and> sl_type l = ty \<and>
       list_ex (\<lambda>st. st_id st = sl_settlement l \<and> owns_settlement b st \<and> st_status st \<noteq> St_Cancelled)
         (settlements s)) (settlement_lines s)"

definition withdrawable_lines :: "beneficiary \<Rightarrow> earning list \<Rightarrow> time \<Rightarrow> 'z payout_db_scheme \<Rightarrow> earning list" where
  "withdrawable_lines b credits before s =
     filter (\<lambda>e. er_completed e \<le> before \<and> 0 < er_amount e \<and> \<not> carried b (er_order e) (er_type e) s) credits"

text \<open>A vendor's succeeded refunds, net of the refund lines already settled, come off at once.\<close>

definition settled_refunds :: "beneficiary \<Rightarrow> uuid \<Rightarrow> 'z payout_db_scheme \<Rightarrow> int" where
  "settled_refunds b oid s =
     - (\<Sum>l\<leftarrow>filter (\<lambda>l. sl_order l = oid \<and> sl_type l = ''refund'' \<and>
            list_ex (\<lambda>st. st_id st = sl_settlement l \<and> owns_settlement b st \<and> st_status st \<noteq> St_Cancelled)
              (settlements s)) (settlement_lines s). sl_amount l)"

definition refund_lines :: "beneficiary \<Rightarrow> (uuid \<times> int) list \<Rightarrow> 'z payout_db_scheme \<Rightarrow> earning list" where
  "refund_lines b refunded s =
     (case b of
        Rider_Of r \<Rightarrow> []
      | Vendor_Of v \<Rightarrow> filter (\<lambda>e. er_amount e < 0)
          (map (\<lambda>(oid, kobo). \<lparr>er_order = oid, er_type = ''refund'',
             er_amount = - (kobo - settled_refunds b oid s), er_completed = odb_now s\<rparr>) refunded))"

datatype withdrawal_outcome =
    Withdrawal_Created uuid int
  | Withdrawal_Disabled
  | No_Payout_Account
  | Below_Minimum int int

definition beneficiary_campus :: "beneficiary \<Rightarrow> 'z payout_db_scheme \<Rightarrow> uuid option" where
  "beneficiary_campus b s =
     (case b of Vendor_Of v \<Rightarrow> map_option vr_campus (lookup_by vr_id v (vendors s))
      | Rider_Of r \<Rightarrow> map_option rr_campus (lookup_by rr_id r (riders s)))"

definition on_demand_enabled :: "'z payout_db_scheme \<Rightarrow> bool" where
  "on_demand_enabled s =
     (case lookup_by set_key ''on_demand_payouts_start_date'' (settings s) of
        Some r \<Rightarrow> (case set_value r of
            JStr d \<Rightarrow> length d = 10 \<and> d ! 4 = CHR ''-'' \<and> d ! 7 = CHR ''-'' \<and>
              list_all is_digit (take 4 d @ take 2 (drop 5 d) @ drop 8 d)
          | _ \<Rightarrow> False)
      | None \<Rightarrow> False)"

text \<open>The settlement and its lines, when the lines reach the minimum.\<close>

definition claim_withdrawal ::
  "beneficiary \<Rightarrow> uuid \<Rightarrow> int \<Rightarrow> uuid \<Rightarrow> earning list \<Rightarrow> ('z payout_db_scheme, withdrawal_outcome) prog" where
  "claim_withdrawal b campus_of minimum requested_by ls =
     (let available = sum_list (map er_amount ls) in
      if available < max minimum 1 then ret (Below_Minimum available minimum)
      else bindM draw_uuid (\<lambda>sid.
        thenM (modify (\<lambda>s. s\<lparr>settlements := settlements s @
          [\<lparr>st_id = sid, st_campus = campus_of, st_vendor = beneficiary_vendor b,
            st_rider = beneficiary_rider b, st_kind = On_Demand, st_status = St_Approved,
            st_payable = available, st_paid_at = None, st_created = odb_now s,
      st_created_by = Some requested_by\<rparr>]\<rparr>))
       (thenM (modify (\<lambda>s. s\<lparr>settlement_lines := settlement_lines s @
          map (\<lambda>e. \<lparr>sl_settlement = sid, sl_order = er_order e, sl_type = er_type e,
                     sl_amount = er_amount e\<rparr>) ls\<rparr>))
        (ret (Withdrawal_Created sid available)))))"

definition request_withdrawal ::
  "beneficiary \<Rightarrow> earning list \<Rightarrow> (uuid \<times> int) list \<Rightarrow> uuid \<Rightarrow> ('z payout_db_scheme, withdrawal_outcome) prog" where
  "request_withdrawal b credits refunded requested_by =
     bindM (gets on_demand_enabled) (\<lambda>on.
       if \<not> on then ret Withdrawal_Disabled
       else bindM (gets (beneficiary_campus b)) (\<lambda>campus.
         case campus of
           None \<Rightarrow> raise (pg_error ''P0002'' ''beneficiary not found'')
         | Some campus_of \<Rightarrow>
             bindM (gets (approved_account (beneficiary_vendor b) (beneficiary_rider b))) (\<lambda>ready.
               if \<not> ready then ret No_Payout_Account
               else
                 bindM (platform_setting_int ''withdrawal_hold_minutes'' 120) (\<lambda>hold.
                 bindM (platform_setting_int ''withdrawal_min_kobo'' 100000) (\<lambda>minimum.
                 bindM (gets (\<lambda>s. withdrawable_lines b credits (odb_now s - hold * 60000) s @
                         refund_lines b refunded s)) (\<lambda>ls.
                   claim_withdrawal b campus_of minimum requested_by ls))))))"

datatype withdrawal_state = W_Processing | W_Pending | W_Success

record withdrawal_result =
  wr_settlement :: uuid
  wr_amount :: int
  wr_status :: withdrawal_state
  wr_reference :: "string option"

text \<open>requestWithdrawal of the service, with the beneficiary resolved.\<close>

definition withdraw ::
  "bool \<Rightarrow> beneficiary \<Rightarrow> earning list \<Rightarrow> (uuid \<times> int) list \<Rightarrow> uuid \<Rightarrow>
   ('z payout_db_scheme, withdrawal_result) prog" where
  "withdraw enabled b credits refunded user =
     (if \<not> enabled then raise (forbidden ''Withdrawals are temporarily unavailable.'')
      else bindM (transaction (request_withdrawal b credits refunded user)) (\<lambda>outcome.
        case outcome of
          Withdrawal_Disabled \<Rightarrow> raise (forbidden ''Withdrawals are temporarily unavailable.'')
        | No_Payout_Account \<Rightarrow> raise (bad_request ''Add a payout bank account and wait for it to be approved before withdrawing.'')
        | Below_Minimum amount minimum \<Rightarrow>
            raise (bad_request (if amount \<le> 0 then ''You have nothing available to withdraw yet.''
                                else ''The minimum withdrawal is '' @ naira minimum @ ''; you have '' @ naira amount @ '' available.''))
        | Withdrawal_Created sid amount \<Rightarrow>
            bindM (pay_withdrawal enabled sid user) (\<lambda>t.
              case t of
                None \<Rightarrow> ret \<lparr>wr_settlement = sid, wr_amount = amount, wr_status = W_Processing, wr_reference = None\<rparr>
              | Some tr \<Rightarrow>
                  if bounced tr then raise payout_unavailable
                  else ret \<lparr>wr_settlement = sid, wr_amount = amount,
                            wr_status = (if tr_status tr = T_Success then W_Success else W_Pending),
                            wr_reference = Some (tr_reference tr)\<rparr>)))"

section \<open>References\<close>

lemma rev_digits_split:
  assumes "\<forall>c\<in>set ds. is_digit c" and "\<not> is_digit x"
  shows "takeWhile is_digit (rev (pre @ x # ds)) = rev ds"
  using assms by (simp add: takeWhile_append2 takeWhile_tail)

text \<open>The reference names its settlement and attempt: two attempts never share one.\<close>

lemma attempt_reference_inj:
  "attempt_reference sid n = attempt_reference sid' n' \<longleftrightarrow> sid = sid' \<and> n = n'"
proof
  assume eq: "attempt_reference sid n = attempt_reference sid' n'"
  have ref: "attempt_reference i m = (i @ ''-'') @ CHR ''a'' # nat_str m" for i m
    by (simp add: attempt_reference_def)
  have a: "\<not> is_digit CHR ''a''" by (simp add: is_digit_def)
  have "takeWhile is_digit (rev (attempt_reference i m)) = rev (nat_str m)" for i m
    unfolding ref using a is_digit_nat_str by (intro rev_digits_split ballI) simp
  with eq have "nat_str n = nat_str n'" by (metis rev_rev_ident)
  then have "n = n'" by (simp add: nat_str_inj)
  with eq show "sid = sid' \<and> n = n'" by (simp add: attempt_reference_def)
qed simp

section \<open>Transfers\<close>

lemma latest_attempt_None: "latest_attempt ts = None \<longleftrightarrow> ts = []"
proof
  show "latest_attempt ts = None \<Longrightarrow> ts = []"
  proof (rule ccontr)
    assume none: "latest_attempt ts = None" and "ts \<noteq> []"
    let ?m = "Max (tr_attempt ` set ts)"
    from \<open>ts \<noteq> []\<close> have "?m \<in> tr_attempt ` set ts" by (intro Max_in) simp_all
    then obtain t where "t \<in> set ts" "tr_attempt t = ?m" by auto
    then have "t \<in> set ts \<and> (\<forall>u\<in>set ts. tr_attempt u \<le> tr_attempt t)" by simp
    with none show False by (auto simp: latest_attempt_def find_None_iff)
  qed
qed (simp add: latest_attempt_def)

lemma live_or_bounced: "live t \<or> bounced t"
  by (cases "tr_status t") (simp_all add: live_def bounced_def)

lemma not_live: "\<not> live t \<longleftrightarrow> bounced t"
  by (cases "tr_status t") (simp_all add: live_def bounced_def)

lemma find_active_None:
  "find_active_transfer sid s = None \<longleftrightarrow> (\<forall>t\<in>set (transfers s). tr_settlement t = sid \<longrightarrow> bounced t)"
  by (auto simp: find_active_transfer_def latest_attempt_None transfers_of_def filter_empty_conv not_live)

lemma fold_max_start: "b \<le> fold max ys b" for b :: nat
  by (induction ys arbitrary: b) (simp_all, meson max.cobounded2 order_trans)

lemma fold_max_le: "x \<in> set xs \<Longrightarrow> x \<le> fold max xs a" for x :: nat
proof (induction xs arbitrary: a)
  case (Cons y ys)
  have "y \<le> fold max ys (max y a)" by (rule order_trans [OF max.cobounded1 fold_max_start])
  with Cons show ?case by auto
qed simp

lemma next_attempt_new: "t \<in> set (transfers s) \<Longrightarrow> tr_settlement t = sid \<Longrightarrow> tr_attempt t < next_attempt sid s"
  using fold_max_le [of "tr_attempt t" "map tr_attempt (transfers_of sid s)" 0]
  by (simp add: next_attempt_def transfers_of_def less_Suc_eq_le)

definition transfers_ok :: "'z payout_db_scheme \<Rightarrow> bool" where
  "transfers_ok s \<longleftrightarrow>
     (\<forall>t\<in>set (transfers s). tr_reference t = attempt_reference (tr_settlement t) (tr_attempt t)) \<and>
     distinct (map tr_reference (transfers s))"

lemma record_transfer_app:
  "record_transfer ti s =
     (if ti_amount ti \<le> 0
      then (Inl (pg_error ''23514'' ''new row for relation payout_transfers violates check constraint''), s)
      else case attempt_row (ti_settlement ti) (ti_attempt ti) s of
        Some t \<Rightarrow> (Inr t, s)
      | None \<Rightarrow>
          if ti_reference ti \<in> tr_reference ` set (transfers s)
          then (Inl (pg_error ''23505'' ''duplicate key value violates unique constraint payout_transfers_reference_unique''), s)
          else let row = \<lparr>tr_id = db_uuid s (db_drawn s), tr_settlement = ti_settlement ti,
                   tr_attempt = ti_attempt ti, tr_reference = ti_reference ti, tr_amount = ti_amount ti,
                   tr_code = ti_code ti, tr_status = ti_status ti, tr_initiated_by = ti_initiated_by ti,
                   tr_payload = ti_payload ti, tr_created = odb_now s\<rparr>
               in (Inr row, s\<lparr>db_drawn := Suc (db_drawn s), transfers := transfers s @ [row]\<rparr>))"
  by (simp add: record_transfer_def prog_simps draw_uuid_def Let_def split: option.split)

lemma reconcile_app:
  "reconcile_payout_transfer reference oc payload s =
     (Inr (), case lookup_by tr_reference reference (transfers s) of
        None \<Rightarrow> s
      | Some t \<Rightarrow> s\<lparr>transfers := update_where (\<lambda>x. tr_reference x = reference)
                    (\<lambda>x. x\<lparr>tr_status := outcome_state oc, tr_payload := payload\<rparr>) (transfers s),
                  settlements := update_where (\<lambda>x. st_id x = tr_settlement t)
                    (reconciled_settlement oc (odb_now s)) (settlements s)\<rparr>)"
  by (simp add: reconcile_payout_transfer_def prog_simps split: option.split)

text \<open>What no payout operation changes: the log of calls only grows, a settlement keeps its amount.\<close>

definition same_books :: "'z payout_db_scheme \<Rightarrow> 'z payout_db_scheme \<Rightarrow> bool" where
  "same_books s t \<longleftrightarrow> px_calls t = px_calls s \<and> settlement_lines t = settlement_lines s \<and>
     map st_id (settlements t) = map st_id (settlements s) \<and>
     map st_payable (settlements t) = map st_payable (settlements s)"

lemma same_books_refl [simp]: "same_books s s"
  by (simp add: same_books_def)

lemma same_books_trans: "same_books s t \<Longrightarrow> same_books t u \<Longrightarrow> same_books s u"
  by (simp add: same_books_def)

lemma reconciled_same [simp]:
  "st_id (reconciled_settlement oc now st) = st_id st"
  "st_payable (reconciled_settlement oc now st) = st_payable st"
  "st_kind (reconciled_settlement oc now st) = st_kind st"
  "st_vendor (reconciled_settlement oc now st) = st_vendor st"
  "st_rider (reconciled_settlement oc now st) = st_rider st"
  by (simp_all add: reconciled_settlement_def)

lemma reconcile_same: "same_books s (snd (reconcile_payout_transfer reference oc payload s))"
  by (simp add: reconcile_app same_books_def map_update_where split: option.split)

lemma record_same: "same_books s (snd (record_transfer ti s))"
  by (simp add: record_transfer_app same_books_def Let_def split: option.split)

lemma record_and_settle_same: "same_books s (snd (record_and_settle ti s))"
proof -
  obtain r s1 where rec: "record_transfer ti s = (r, s1)" by force
  with record_same [of s ti] have s1: "same_books s s1" by simp
  show ?thesis
  proof (cases r)
    case (Inl e)
    with rec s1 show ?thesis by (simp add: record_and_settle_def prog_simps)
  next
    case (Inr row)
    show ?thesis
    proof (cases "state_outcome (tr_status row)")
      case None
      with rec Inr s1 show ?thesis by (simp add: record_and_settle_def prog_simps)
    next
      case (Some oc)
      obtain s2 where rc: "reconcile_payout_transfer (tr_reference row) oc (ti_payload ti) s1 = (Inr (), s2)"
        by (simp add: reconcile_app)
      with reconcile_same [of s1 "tr_reference row" oc "ti_payload ti"] have "same_books s1 s2" by simp
      with s1 have "same_books s s2" by (rule same_books_trans)
      with rec Inr Some rc show ?thesis by (simp add: record_and_settle_def prog_simps)
    qed
  qed
qed

lemma initiate_app:
  "initiate_transfer rq s = (px_initiate s (length (px_calls s)), s\<lparr>px_calls := px_calls s @ [rq]\<rparr>)"
  by (simp add: initiate_transfer_def)

lemma fetch_app:
  "fetch_transfer reference s = (px_fetch s (length (px_fetched s)), s\<lparr>px_fetched := px_fetched s @ [reference]\<rparr>)"
  by (simp add: fetch_transfer_def)

lemma find_payout_context_Some:
  "find_payout_context sid s = Some pc \<Longrightarrow>
   \<exists>st. lookup_by st_id sid (settlements s) = Some st \<and> pc_payable pc = st_payable st"
  by (auto simp: find_payout_context_def)

text \<open>
  One payment: either it asks Paystack for nothing, or for exactly one transfer of the settlement's
  amount, under the next attempt's reference, when every transfer recorded for it has bounced.
\<close>

lemma pay_cases:
  assumes run: "pay_to_settlement enabled sid by s = (r, t)"
  obtains (quiet) "px_calls t = px_calls s" "t = s"
  | (asks) st rq where "px_calls t = px_calls s @ [rq]" "enabled"
      "\<forall>u\<in>set (transfers s). tr_settlement u = sid \<longrightarrow> bounced u"
      "lookup_by st_id sid (settlements s) = Some st" "rq_amount rq = st_payable st"
      "rq_reference rq = attempt_reference sid (next_attempt sid s)"
      "same_books (s\<lparr>px_calls := px_calls s @ [rq]\<rparr>) t"
proof -
  have "t = s \<or> (\<exists>pc rec. enabled \<and> find_active_transfer sid s = None \<and>
      find_payout_context sid s = Some pc \<and> pc_recipient pc = Some rec)"
    using run by (auto simp: pay_to_settlement_def prog_simps split: if_splits option.splits)
  then show thesis
  proof
    assume "t = s" then show thesis by (intro quiet) simp_all
  next
    assume "\<exists>pc rec. enabled \<and> find_active_transfer sid s = None \<and>
        find_payout_context sid s = Some pc \<and> pc_recipient pc = Some rec"
    then obtain pc rec where c: "enabled" "find_active_transfer sid s = None"
      "find_payout_context sid s = Some pc" "pc_recipient pc = Some rec" by blast
    let ?n = "next_attempt sid s"
    let ?rq = "\<lparr>rq_amount = pc_payable pc, rq_recipient = rec, rq_reference = attempt_reference sid ?n\<rparr>"
    let ?s1 = "s\<lparr>px_calls := px_calls s @ [?rq]\<rparr>"
    from find_payout_context_Some [OF c(3)] obtain st
      where st: "lookup_by st_id sid (settlements s) = Some st" "pc_payable pc = st_payable st" by blast
    have books: "same_books ?s1 t"
    proof (cases "px_initiate s (length (px_calls s))")
      case (Inl e)
      with run c have "t = ?s1" by (simp add: pay_to_settlement_def prog_simps initiate_app Let_def)
      then show ?thesis by simp
    next
      case (Inr reply)
      from run c Inr have "(r, t) = record_and_settle \<lparr>ti_settlement = sid, ti_attempt = ?n,
          ti_reference = attempt_reference sid ?n, ti_amount = pc_payable pc, ti_code = rp_code reply,
          ti_status = stored_transfer_status (rp_status reply), ti_initiated_by = by,
          ti_payload = rp_payload reply\<rparr> ?s1"
        by (simp add: pay_to_settlement_def prog_simps initiate_app Let_def)
      then show ?thesis using record_and_settle_same by (metis snd_conv)
    qed
    then have "px_calls t = px_calls s @ [?rq]" by (simp add: same_books_def)
    then show thesis using c st books by (intro asks) (simp_all add: find_active_None)
  qed
qed

lemma fresh_reference:
  assumes "transfers_ok s" and "u \<in> set (transfers s)"
  shows "tr_reference u \<noteq> attempt_reference sid (next_attempt sid s)"
proof
  assume eq: "tr_reference u = attempt_reference sid (next_attempt sid s)"
  with assms have "tr_settlement u = sid" "tr_attempt u = next_attempt sid s"
    by (auto simp: transfers_ok_def attempt_reference_inj)
  with next_attempt_new [OF assms(2)] show False by auto
qed

lemma record_ok:
  "transfers_ok s \<Longrightarrow> ti_reference ti = attempt_reference (ti_settlement ti) (ti_attempt ti) \<Longrightarrow>
   transfers_ok (snd (record_transfer ti s))"
  by (auto simp: record_transfer_app transfers_ok_def Let_def split: option.split)

lemma reconcile_ok: "transfers_ok s \<Longrightarrow> transfers_ok (snd (reconcile_payout_transfer reference oc payload s))"
  by (auto simp: reconcile_app transfers_ok_def set_update_where map_update_where split: option.split)

lemma settle_ok:
  assumes "ti_reference ti = attempt_reference (ti_settlement ti) (ti_attempt ti)"
  shows "preserves transfers_ok (record_and_settle ti)"
proof -
  have "preserves transfers_ok (record_transfer ti)" using assms by (intro preservesI record_ok)
  moreover have "preserves transfers_ok (reconcile_payout_transfer reference oc payload)" for reference oc payload
    by (intro preservesI reconcile_ok)
  ultimately show ?thesis unfolding record_and_settle_def
    by (auto intro!: preserves_intros split: option.split)
qed

lemma initiate_ok: "preserves transfers_ok (initiate_transfer rq)"
  by (rule preservesI) (simp add: initiate_app transfers_ok_def)

lemma fetch_ok: "preserves transfers_ok (fetch_transfer reference)"
  by (rule preservesI) (simp add: fetch_app transfers_ok_def)

lemma cancel_ok: "preserves transfers_ok (cancel_on_demand_settlement sid)"
  unfolding cancel_on_demand_settlement_def by (rule preserves_modify) (simp add: transfers_ok_def)

lemma pay_ok: "preserves transfers_ok (pay_to_settlement enabled sid by)"
  unfolding pay_to_settlement_def Let_def
  by (auto intro!: preserves_intros initiate_ok settle_ok split: option.split)

lemma pay_withdrawal_ok: "preserves transfers_ok (pay_withdrawal enabled sid by)"
  unfolding pay_withdrawal_def Let_def
  by (auto intro!: preserves_intros pay_ok fetch_ok cancel_ok settle_ok split: sum.split)

lemma pay_one_ok: "preserves transfers_ok (pay_one enabled acc sid)"
  unfolding pay_one_def by (intro preserves_intros pay_ok)

lemma run_payouts_ok: "preserves transfers_ok (run_payouts enabled max_rows)"
  unfolding run_payouts_def get_payout_guardrails_def
  by (auto intro!: preserves_intros pay_one_ok platform_setting_int_inv split: prod.split)

section \<open>The pay-run\<close>

definition payable_of :: "uuid \<Rightarrow> 'z payout_db_scheme \<Rightarrow> int option" where
  "payable_of sid s = map_option st_payable (lookup_by st_id sid (settlements s))"

lemma lookup_payable:
  "map st_id xs = map st_id ys \<Longrightarrow> map st_payable xs = map st_payable ys \<Longrightarrow>
   map_option st_payable (lookup_by st_id sid xs) = map_option st_payable (lookup_by st_id sid ys)"
  for xs ys :: "settlement list"
proof (induction xs arbitrary: ys)
  case (Cons x xs)
  then obtain y ys' where "ys = y # ys'" by (cases ys) simp_all
  with Cons show ?case by (auto simp: table_simps)
qed simp

lemma same_books_payable: "same_books s t \<Longrightarrow> payable_of sid t = payable_of sid s"
  unfolding payable_of_def same_books_def by (intro lookup_payable) simp_all

text \<open>A request that pays settlement \<open>sid\<close> of the books \<open>s\<close>.\<close>

definition pays :: "'z payout_db_scheme \<Rightarrow> uuid \<Rightarrow> transfer_request \<Rightarrow> bool" where
  "pays s sid rq \<longleftrightarrow> (\<exists>n. rq_reference rq = attempt_reference sid n) \<and> payable_of sid s = Some (rq_amount rq)"

lemma pay_one_step:
  assumes "pay_one enabled acc sid s = (r, t)"
  shows "\<exists>acc' rqs. r = Inr acc' \<and> run_selected acc' = run_selected acc \<and>
     run_initiated acc' + run_failed acc' = Suc (run_initiated acc + run_failed acc) \<and>
     px_calls t = px_calls s @ rqs \<and> (rqs = [] \<or> (\<exists>rq. rqs = [rq] \<and> pays s sid rq)) \<and>
     (\<forall>x. payable_of x t = payable_of x s)"
proof -
  obtain v u where run: "pay_to_settlement enabled sid None s = (v, u)" by force
  with assms have tu: "t = u" and r: "\<exists>acc'. r = Inr acc' \<and> run_selected acc' = run_selected acc \<and>
      run_initiated acc' + run_failed acc' = Suc (run_initiated acc + run_failed acc)"
    by (cases v; simp add: pay_one_def prog_simps; fastforce)+
  have "\<exists>rqs. px_calls u = px_calls s @ rqs \<and> (rqs = [] \<or> (\<exists>rq. rqs = [rq] \<and> pays s sid rq)) \<and>
     (\<forall>x. payable_of x u = payable_of x s)"
  proof (rule pay_cases [OF run])
    assume "u = s" then show ?thesis by simp
  next
    fix st rq assume a: "px_calls u = px_calls s @ [rq]" "lookup_by st_id sid (settlements s) = Some st"
      "rq_amount rq = st_payable st" "rq_reference rq = attempt_reference sid (next_attempt sid s)"
      "same_books (s\<lparr>px_calls := px_calls s @ [rq]\<rparr>) u"
    then have "pays s sid rq" by (auto simp: pays_def payable_of_def)
    moreover have "payable_of x u = payable_of x s" for x
      using same_books_payable [OF a(5)] by (simp add: payable_of_def)
    ultimately show ?thesis using a(1) by blast
  qed
  with tu r show ?thesis by blast
qed

lemma pays_frame: "(\<forall>x. payable_of x t = payable_of x s) \<Longrightarrow> pays t sid rq = pays s sid rq"
  by (simp add: pays_def)

lemma pay_all_steps:
  "foldM (pay_one enabled) acc ids s = (r, t) \<Longrightarrow>
   \<exists>acc' rqs sub. r = Inr acc' \<and> run_selected acc' = run_selected acc \<and>
     run_initiated acc' + run_failed acc' = run_initiated acc + run_failed acc + length ids \<and>
     px_calls t = px_calls s @ rqs \<and> subseq sub ids \<and> list_all2 (pays s) sub rqs"
proof (induction ids arbitrary: acc s)
  case Nil
  then show ?case by (auto simp: prog_simps)
next
  case (Cons sid ids)
  obtain v u where one: "pay_one enabled acc sid s = (v, u)" by force
  from pay_one_step [OF one] obtain acc1 rqs1 where s1: "v = Inr acc1" "run_selected acc1 = run_selected acc"
    "run_initiated acc1 + run_failed acc1 = Suc (run_initiated acc + run_failed acc)"
    "px_calls u = px_calls s @ rqs1" "rqs1 = [] \<or> (\<exists>rq. rqs1 = [rq] \<and> pays s sid rq)"
    "\<forall>x. payable_of x u = payable_of x s" by blast
  with Cons.prems one have "foldM (pay_one enabled) acc1 ids u = (r, t)" by (simp add: prog_simps)
  from Cons.IH [OF this] obtain acc2 rqs2 sub where s2: "r = Inr acc2" "run_selected acc2 = run_selected acc1"
    "run_initiated acc2 + run_failed acc2 = run_initiated acc1 + run_failed acc1 + length ids"
    "px_calls t = px_calls u @ rqs2" "subseq sub ids" "list_all2 (pays u) sub rqs2" by blast
  from s2(6) pays_frame [OF s1(6)] have all: "list_all2 (pays s) sub rqs2"
    by (metis (full_types) list_all2_mono)
  have "\<exists>sub'. subseq sub' (sid # ids) \<and> list_all2 (pays s) sub' (rqs1 @ rqs2)"
    using s1(5)
  proof
    assume "rqs1 = []"
    with all s2(5) show ?thesis by (intro exI [of _ sub]) (simp add: list_emb_Cons)
  next
    assume "\<exists>rq. rqs1 = [rq] \<and> pays s sid rq"
    with all s2(5) show ?thesis by (intro exI [of _ "sid # sub"]) auto
  qed
  with s1 s2 show ?case by simp
qed

lemma select_payable_sound:
  "sid \<in> set (select_payable_settlements hold attempts max_rows s) \<Longrightarrow>
   \<exists>st\<in>set (settlements s). st_id st = sid \<and> payable hold attempts s st"
  by (auto simp: select_payable_settlements_def dest!: in_set_takeD)

section \<open>Withdrawals\<close>

text \<open>No order line of a beneficiary is carried by two settlements that are not cancelled.\<close>

definition live_lines :: "beneficiary \<Rightarrow> 'z payout_db_scheme \<Rightarrow> (uuid \<times> string) list" where
  "live_lines b s = map (\<lambda>l. (sl_order l, sl_type l))
     (filter (\<lambda>l. sl_type l \<noteq> ''refund'' \<and>
        list_ex (\<lambda>st. st_id st = sl_settlement l \<and> owns_settlement b st \<and> st_status st \<noteq> St_Cancelled) (settlements s))
      (settlement_lines s))"

lemma carried_live: "ty \<noteq> ''refund'' \<Longrightarrow> carried b oid ty s \<longleftrightarrow> (oid, ty) \<in> set (live_lines b s)"
  by (auto simp: carried_def live_lines_def list_ex_iff)

text \<open>The state a created withdrawal leaves: a new settlement and its lines.\<close>

definition claimed_settlement :: "beneficiary \<Rightarrow> uuid \<Rightarrow> uuid \<Rightarrow> earning list \<Rightarrow> 'z payout_db_scheme \<Rightarrow> settlement" where
  "claimed_settlement b campus_of requested_by ls s =
     \<lparr>st_id = db_uuid s (db_drawn s), st_campus = campus_of, st_vendor = beneficiary_vendor b,
      st_rider = beneficiary_rider b, st_kind = On_Demand, st_status = St_Approved,
      st_payable = sum_list (map er_amount ls), st_paid_at = None, st_created = odb_now s,
      st_created_by = Some requested_by\<rparr>"

lemma claim_app:
  "claim_withdrawal b campus_of minimum requested_by ls s =
     (if sum_list (map er_amount ls) < max minimum 1
      then (Inr (Below_Minimum (sum_list (map er_amount ls)) minimum), s)
      else (Inr (Withdrawal_Created (db_uuid s (db_drawn s)) (sum_list (map er_amount ls))),
        s\<lparr>db_drawn := Suc (db_drawn s),
          settlements := settlements s @ [claimed_settlement b campus_of requested_by ls s],
          settlement_lines := settlement_lines s @ map (\<lambda>e. \<lparr>sl_settlement = db_uuid s (db_drawn s),
             sl_order = er_order e, sl_type = er_type e, sl_amount = er_amount e\<rparr>) ls\<rparr>))"
  by (simp add: claim_withdrawal_def prog_simps draw_uuid_def Let_def claimed_settlement_def)

lemma request_withdrawal_created:
  assumes run: "request_withdrawal b credits refunded user s = (Inr (Withdrawal_Created sid amount), t)"
  obtains hold campus_of ls minimum where
    "ls = withdrawable_lines b credits (odb_now s - hold * 60000) s @ refund_lines b refunded s"
    "claim_withdrawal b campus_of minimum user ls s = (Inr (Withdrawal_Created sid amount), t)"
proof -
  from run obtain campus_of where campus_of: "on_demand_enabled s" "beneficiary_campus b s = Some campus_of"
    "approved_account (beneficiary_vendor b) (beneficiary_rider b) s"
    by (auto simp: request_withdrawal_def prog_simps split: if_splits option.splits)
  show thesis
  proof (rule platform_setting_app [of "''withdrawal_hold_minutes''" 120 s])
    fix e assume "platform_setting_int ''withdrawal_hold_minutes'' 120 s = (Inl e, s)"
    with run campus_of show thesis by (simp add: request_withdrawal_def prog_simps)
  next
    fix hold assume h: "platform_setting_int ''withdrawal_hold_minutes'' 120 s = (Inr hold, s)"
    show thesis
    proof (rule platform_setting_app [of "''withdrawal_min_kobo''" 100000 s])
      fix e assume "platform_setting_int ''withdrawal_min_kobo'' 100000 s = (Inl e, s)"
      with run campus_of h show thesis by (simp add: request_withdrawal_def prog_simps)
    next
      fix minimum assume "platform_setting_int ''withdrawal_min_kobo'' 100000 s = (Inr minimum, s)"
      with run campus_of h show thesis by (intro that) (simp_all add: request_withdrawal_def prog_simps)
    qed
  qed
qed

lemma owns_claimed: "owns_settlement b (claimed_settlement b campus_of requested_by ls s)"
  by (cases b) (simp_all add: owns_settlement_def claimed_settlement_def)

lemma withdrawable_new:
  "e \<in> set (withdrawable_lines b credits before s) \<Longrightarrow> \<not> carried b (er_order e) (er_type e) s"
  by (simp add: withdrawable_lines_def)

lemma refund_lines_type: "e \<in> set (refund_lines b refunded s) \<Longrightarrow> er_type e = ''refund''"
  by (auto simp: refund_lines_def split: beneficiary.splits)

lemma live_lines_claimed:
  assumes fresh: "db_uuid s (db_drawn s) \<notin> st_id ` set (settlements s)"
      "db_uuid s (db_drawn s) \<notin> sl_settlement ` set (settlement_lines s)"
    and claim: "claim_withdrawal b campus_of minimum user ls s = (Inr (Withdrawal_Created sid amount), t)"
  shows "live_lines b t = live_lines b s @ map (\<lambda>e. (er_order e, er_type e)) (filter (\<lambda>e. er_type e \<noteq> ''refund'') ls)"
proof -
  let ?st = "claimed_settlement b campus_of user ls s"
  let ?row = "\<lambda>e. \<lparr>sl_settlement = db_uuid s (db_drawn s), sl_order = er_order e, sl_type = er_type e, sl_amount = er_amount e\<rparr>"
  let ?alive = "\<lambda>sts l. list_ex (\<lambda>st. st_id st = sl_settlement l \<and> owns_settlement b st \<and> st_status st \<noteq> St_Cancelled) sts"
  from claim have t: "settlements t = settlements s @ [?st]" "settlement_lines t = settlement_lines s @ map ?row ls"
    by (auto simp: claim_app split: if_splits)
  have st: "st_id ?st = db_uuid s (db_drawn s)" "st_status ?st = St_Approved"
    by (simp_all add: claimed_settlement_def)
  have "?alive (settlements t) l = ?alive (settlements s) l" if "l \<in> set (settlement_lines s)" for l
    using that fresh(2) st by (auto simp: t)
  then have "filter (\<lambda>l. sl_type l \<noteq> ''refund'' \<and> ?alive (settlements t) l) (settlement_lines s) =
      filter (\<lambda>l. sl_type l \<noteq> ''refund'' \<and> ?alive (settlements s) l) (settlement_lines s)"
    by (intro filter_cong) auto
  moreover have "?alive (settlements t) (?row e)" for e
    using st owns_claimed [of b campus_of user ls s] by (simp add: t)
  ultimately show ?thesis by (simp add: live_lines_def t(2) filter_map o_def)
qed

lemma settle_raises:
  assumes "record_and_settle ti s = (Inl e, t)"
  shows "t = s"
proof -
  obtain r s1 where rec: "record_transfer ti s = (r, s1)" by force
  show ?thesis
  proof (cases r)
    case (Inl e')
    with rec have "s1 = s" by (auto simp: record_transfer_app Let_def split: if_splits option.splits)
    with assms rec Inl show ?thesis by (simp add: record_and_settle_def prog_simps)
  next
    case (Inr row)
    with assms rec show ?thesis
      by (cases "state_outcome (tr_status row)") (simp_all add: record_and_settle_def prog_simps reconcile_app)
  qed
qed

lemma pay_raises:
  assumes "pay_to_settlement enabled sid by s = (Inl e, t)"
  shows "transfers t = transfers s \<and> settlements t = settlements s"
  using assms
  by (auto simp: pay_to_settlement_def prog_simps initiate_app Let_def dest!: settle_raises
      split: if_splits option.splits sum.splits)

section \<open>A sample\<close>

text \<open>
  A vendor with one delivered order worth 1500 naira and an approved account; \<open>answer\<close> is what
  Paystack answers the first transfer call with, \<open>verify\<close> what it answers verifications with.
\<close>

definition sample_payouts :: "exn + transfer_reply \<Rightarrow> exn + fetch_reply \<Rightarrow> payout_db" where
  "sample_payouts answer verify = \<lparr>odb_now = 100000000, odb_orders = [], odb_history = [], odb_outbox = [],
     db_uuid = (\<lambda>n. ''id-'' @ nat_str n), db_drawn = 0, wallets = [], ledger = [], accounts = [],
     settings = [\<lparr>set_key = ''on_demand_payouts_start_date'', set_value = JStr ''2026-10-22'', set_updated_by = None\<rparr>],
     profiles = [], payments = [], issues = [], audit_logs = [], audit_fault = (\<lambda>e. False), deliveries = [],
     settlements = [], settlement_lines = [], transfers = [],
     payout_accounts = [\<lparr>pa_vendor = Some ''v1'', pa_rider = None, pa_active = True,
        pa_code = Some ''RCP'', pa_approved = True\<rparr>],
     riders = [], vendors = [\<lparr>vr_id = ''v1'', vr_campus = ''c1''\<rparr>],
     px_calls = [],
     px_initiate = (\<lambda>n. if n = 0 then answer
        else Inr \<lparr>rp_code = ''TRF'', rp_status = ''pending'', rp_payload = JObj []\<rparr>),
     px_fetched = [], px_fetch = (\<lambda>n. verify)\<rparr>"

definition sample_credits :: "earning list" where
  "sample_credits = [\<lparr>er_order = ''o1'', er_type = ''food'', er_amount = 150000, er_completed = 0\<rparr>]"

definition accepted :: "exn + transfer_reply" where
  "accepted = Inr \<lparr>rp_code = ''TRF'', rp_status = ''pending'', rp_payload = JObj []\<rparr>"

definition bad_gateway :: exn where
  "bad_gateway = Http_Error 502 ''INTERNAL_SERVER_ERROR'' ''Paystack rejected the payment request.''"

definition network_failure :: exn where
  "network_failure = Plain_Error ''fetch failed''"

definition sample_claimed :: payout_db where
  "sample_claimed = snd (request_withdrawal (Vendor_Of ''v1'') sample_credits [] ''u1''
     (sample_payouts accepted (Inl bad_gateway)))"

lemma sample_claimed_result:
  "fst (request_withdrawal (Vendor_Of ''v1'') sample_credits [] ''u1'' (sample_payouts accepted (Inl bad_gateway))) =
     Inr (Withdrawal_Created ''id-0'' 150000)"
  by code_simp

section \<open>Properties\<close>

text \<open>
  Property C7: paying a settlement asks Paystack for at most one transfer, for exactly the payable
  amount, and only when every transfer recorded for the settlement has failed or been reversed;
  its reference is one no recorded transfer has.
\<close>

theorem one_live_transfer_per_settlement:
  assumes "transfers_ok s" and "pay_to_settlement enabled sid by s = (r, t)"
  shows "px_calls t = px_calls s \<or>
    (\<exists>rq st. px_calls t = px_calls s @ [rq] \<and> enabled \<and>
       (\<forall>u\<in>set (transfers s). tr_settlement u = sid \<longrightarrow> bounced u) \<and>
       lookup_by st_id sid (settlements s) = Some st \<and> rq_amount rq = st_payable st \<and>
       rq_reference rq \<notin> tr_reference ` set (transfers s))"
proof (rule pay_cases [OF assms(2)])
  fix st rq assume a: "px_calls t = px_calls s @ [rq]" "enabled"
    "\<forall>u\<in>set (transfers s). tr_settlement u = sid \<longrightarrow> bounced u"
    "lookup_by st_id sid (settlements s) = Some st" "rq_amount rq = st_payable st"
    "rq_reference rq = attempt_reference sid (next_attempt sid s)"
  from fresh_reference [OF assms(1), of _ sid] a(6) have "rq_reference rq \<notin> tr_reference ` set (transfers s)"
    by force
  with a show ?thesis by blast
qed simp



text \<open>
  Property C9: a created withdrawal claims order lines no other settlement of the beneficiary that
  is not cancelled carries, so that afterwards still none is carried twice, and its amount is the
  sum of its lines.
\<close>

theorem withdrawal_claims_each_line_once:
  assumes "distinct (live_lines b s)"
    and "distinct (map (\<lambda>e. (er_order e, er_type e)) credits)" "\<forall>e\<in>set credits. er_type e \<noteq> ''refund''"
    and "db_uuid s (db_drawn s) \<notin> st_id ` set (settlements s)"
    and "db_uuid s (db_drawn s) \<notin> sl_settlement ` set (settlement_lines s)"
    and "request_withdrawal b credits refunded user s = (Inr (Withdrawal_Created sid amount), t)"
  shows "distinct (live_lines b t) \<and> 0 < amount \<and>
    amount = (\<Sum>l\<leftarrow>filter (\<lambda>l. sl_settlement l = sid) (settlement_lines t). sl_amount l)"
proof -
  obtain hold campus_of ls minimum where
    ls: "ls = withdrawable_lines b credits (odb_now s - hold * 60000) s @ refund_lines b refunded s"
    and claim: "claim_withdrawal b campus_of minimum user ls s = (Inr (Withdrawal_Created sid amount), t)"
    by (rule request_withdrawal_created [OF assms(6)])
  let ?new = "withdrawable_lines b credits (odb_now s - hold * 60000) s"
  have sub: "set ?new \<subseteq> set credits" "distinct (map (\<lambda>e. (er_order e, er_type e)) ?new)"
    using assms(2) by (auto simp: withdrawable_lines_def distinct_map_filter)
  have nonrefund: "filter (\<lambda>e. er_type e \<noteq> ''refund'') ls = ?new"
  proof -
    have "filter (\<lambda>e. er_type e \<noteq> ''refund'') ?new = ?new"
      using sub(1) assms(3) by (intro filter_True ballI) blast
    moreover have "filter (\<lambda>e. er_type e \<noteq> ''refund'') (refund_lines b refunded s) = []"
      using refund_lines_type [of _ b refunded s] by (intro filter_False ballI) simp
    ultimately show ?thesis by (simp add: ls)
  qed
  have "live_lines b t = live_lines b s @ map (\<lambda>e. (er_order e, er_type e)) ?new"
    using live_lines_claimed [OF assms(4,5) claim] by (simp add: nonrefund)
  moreover have "(er_order e, er_type e) \<notin> set (live_lines b s)" if "e \<in> set ?new" for e
    using that sub(1) assms(3) withdrawable_new carried_live by blast
  ultimately have "distinct (live_lines b t)" using assms(1) sub(2) by auto
  moreover have "filter (\<lambda>l. sl_settlement l = db_uuid s (db_drawn s)) (settlement_lines s) = []"
    using assms(5) by (metis (mono_tags, lifting) filter_False image_eqI)
  with claim have "amount = (\<Sum>l\<leftarrow>filter (\<lambda>l. sl_settlement l = sid) (settlement_lines t). sl_amount l)" "0 < amount"
    by (auto simp: claim_app filter_map o_def split: if_splits)
  ultimately show ?thesis by simp
qed

text \<open>
  When a withdrawal is answered as processing, because the outcome at Paystack is
  unknown, no settlement and no transfer row has changed: it stays approved for the pay-run.
\<close>

theorem processing_withdrawal_stays_open:
  assumes "pay_withdrawal enabled sid user s = (Inr None, t)"
  shows "settlements t = settlements s \<and> transfers t = transfers s"
proof -
  obtain v u where pay: "pay_to_settlement enabled sid (Some user) s = (v, u)" by force
  show ?thesis
  proof (cases v)
    case (Inr tr)
    with pay assms show ?thesis by (simp add: pay_withdrawal_def prog_simps)
  next
    case (Inl e)
    with pay have u: "transfers u = transfers s" "settlements u = settlements s"
      using pay_raises by blast+
    show ?thesis
    proof (cases "is_http e")
      case False
      with assms pay Inl u show ?thesis by (simp add: pay_withdrawal_def prog_simps)
    next
      case True
      show ?thesis
      proof (cases "px_fetch u (length (px_fetched u))")
        case (Inl e2)
        with assms pay \<open>v = Inl e\<close> True u show ?thesis
          by (auto simp: pay_withdrawal_def prog_simps fetch_app Let_def cancel_on_demand_settlement_def split: if_splits)
      next
        case (Inr f)
        with assms pay \<open>v = Inl e\<close> True show ?thesis
          by (simp add: pay_withdrawal_def prog_simps fetch_app Let_def split: prod.splits sum.splits)
      qed
    qed
  qed
qed

theorem withdrawal_claims_each_line_once_witness:
  "distinct (live_lines (Vendor_Of ''v1'') sample_claimed) \<and> (0 :: int) < 150000 \<and>
   (150000 :: int) = (\<Sum>l\<leftarrow>filter (\<lambda>l. sl_settlement l = ''id-0'') (settlement_lines sample_claimed). sl_amount l)"
proof (rule withdrawal_claims_each_line_once)
  show "request_withdrawal (Vendor_Of ''v1'') sample_credits [] ''u1'' (sample_payouts accepted (Inl bad_gateway)) =
      (Inr (Withdrawal_Created ''id-0'' 150000), sample_claimed)"
    using sample_claimed_result unfolding sample_claimed_def by (metis prod.collapse)
qed (simp_all add: sample_payouts_def live_lines_def sample_credits_def)

definition sample_paid_settlement :: "(exn + transfer) \<times> payout_db" where
  "sample_paid_settlement = pay_to_settlement True ''id-0'' None sample_claimed"

theorem one_live_transfer_per_settlement_witness:
  "\<exists>rq. px_calls (snd sample_paid_settlement) = [rq] \<and> rq_amount rq = 150000"
proof -
  have "transfers_ok sample_claimed" by (simp add: transfers_ok_def) code_simp
  from one_live_transfer_per_settlement [OF this, of True "''id-0''" None "fst sample_paid_settlement" "snd sample_paid_settlement"]
  have "px_calls (snd sample_paid_settlement) = px_calls sample_claimed \<or>
     (\<exists>rq st. px_calls (snd sample_paid_settlement) = px_calls sample_claimed @ [rq] \<and>
        lookup_by st_id ''id-0'' (settlements sample_claimed) = Some st \<and> rq_amount rq = st_payable st)"
    by (auto simp: sample_paid_settlement_def)
  moreover have "px_calls sample_claimed = []" by code_simp
  moreover have "px_calls (snd sample_paid_settlement) \<noteq> []" by code_simp
  moreover have "map_option st_payable (lookup_by st_id ''id-0'' (settlements sample_claimed)) = Some 150000" by code_simp
  ultimately show ?thesis by auto
qed

definition sample_aged :: payout_db where
  "sample_aged = sample_claimed\<lparr>odb_now := 200000000\<rparr>"

definition sample_run :: "(exn + pay_run) \<times> payout_db" where
  "sample_run = run_payouts True 100 sample_aged"


theorem processing_withdrawal_stays_open_witness:
  "settlements (snd (pay_withdrawal True ''id-0'' ''u1'' (sample_claimed\<lparr>px_initiate := (\<lambda>n. Inl network_failure)\<rparr>))) =
   settlements sample_claimed"
proof -
  let ?s = "sample_claimed\<lparr>px_initiate := (\<lambda>n. Inl network_failure)\<rparr>"
  have "fst (pay_withdrawal True ''id-0'' ''u1'' ?s) = Inr None" by code_simp
  then have "pay_withdrawal True ''id-0'' ''u1'' ?s = (Inr None, snd (pay_withdrawal True ''id-0'' ''u1'' ?s))"
    by (metis prod.collapse)
  from processing_withdrawal_stays_open [OF this] show ?thesis by simp
qed

definition first_withdrawal :: "(exn + withdrawal_result) \<times> payout_db" where
  "first_withdrawal = withdraw True (Vendor_Of ''v1'') sample_credits [] ''u1''
     (sample_payouts (Inl bad_gateway) (Inl bad_gateway))"

definition second_withdrawal :: "(exn + withdrawal_result) \<times> payout_db" where
  "second_withdrawal = withdraw True (Vendor_Of ''v1'') sample_credits [] ''u1'' (snd first_withdrawal)"


end
