(* ===== verification/Webhook.thy ===== *)
theory Webhook
  imports Payouts Money
begin

text \<open>
  modules/payments/paystack-webhook.service.ts and dva-topup-sweep.service.ts: signature check,
  event inbox, the handlers of the mapped events, each delivery in one transaction, and the sweep
  that credits dedicated-account transfers whose webhook never came.

  The HMAC and the hash of node:crypto are arguments (\<open>hmac\<close> of the secret and the raw body in hex,
  \<open>sha256\<close> of the raw body), as is JSON.stringify for payloads the program builds itself. A
  delivery carries the raw body, its parsed JSON and the typed view of it.
\<close>

section \<open>State and configuration\<close>

record payment_event_row =
  pev_fingerprint :: string
  pev_type :: string
  pev_reference :: string
  pev_payload :: json

record webhook_db = payout_db +
  payment_events :: "payment_event_row list"
  processed_keys :: "string list"

record webhook_config =
  wc_secret :: "string option"
  wc_database_inbox :: bool
  wc_fee_bps :: int
  wc_fee_cap :: int

record delivery =
  dl_raw :: string
  dl_body :: json
  dl_event :: paystack_event

datatype webhook_result =
    Wh_Accepted domain_event
  | Wh_Duplicate string
  | Wh_Ignored ignore_reason

section \<open>Signature\<close>

text \<open>Buffer.from(text, 'hex') decodes pairs of digits up to the first that is not one.\<close>

fun hex_bytes :: "string \<Rightarrow> nat list" where
  "hex_bytes (a # b # cs) =
     (case (hex_digit a, hex_digit b) of
        (Some x, Some y) \<Rightarrow> (16 * x + y) # hex_bytes cs
      | _ \<Rightarrow> [])"
| "hex_bytes _ = []"

definition safe_compare :: "string \<Rightarrow> string \<Rightarrow> bool" where
  "safe_compare left right \<longleftrightarrow>
     length (hex_bytes left) = length (hex_bytes right) \<and> hex_bytes left = hex_bytes right"

definition assert_valid_signature ::
  "webhook_config \<Rightarrow> (string \<Rightarrow> string \<Rightarrow> string) \<Rightarrow> string \<Rightarrow> string option \<Rightarrow> exn + unit" where
  "assert_valid_signature cfg hmac raw signature =
     (case wc_secret cfg of
        None \<Rightarrow> Inl (unauthorized ''Paystack webhook verification is not configured.'')
      | Some secret \<Rightarrow>
          (case signature of
             None \<Rightarrow> Inl (unauthorized ''Paystack signature is required.'')
           | Some sig \<Rightarrow>
               if sig = [] then Inl (unauthorized ''Paystack signature is required.'')
               else if \<not> safe_compare sig (hmac secret raw)
               then Inl (unauthorized ''Paystack signature is invalid.'')
               else Inr ()))"

section \<open>Payments (mark_verified_payment_successful)\<close>

definition find_payment :: "payment_provider \<Rightarrow> string \<Rightarrow> 'z money_db_scheme \<Rightarrow> payment option" where
  "find_payment provider reference s =
     find (\<lambda>p. pay_provider p = provider \<and> pay_reference p = reference) (payments s)"

definition mark_verified_payment_successful ::
  "payment_provider \<Rightarrow> string \<Rightarrow> string option \<Rightarrow> int \<Rightarrow> json \<Rightarrow> ('z money_db_scheme, uuid) prog" where
  "mark_verified_payment_successful provider reference txid paid body =
     bindM (gets (find_payment provider reference)) (\<lambda>found.
       case found of
         None \<Rightarrow> raise (pg_error ''P0002'' (''payment reference '' @ reference @ '' not found''))
       | Some p \<Rightarrow>
           if pay_status p = Pay_Successful then ret (pay_order p)
           else if paid \<noteq> pay_expected p
           then raise (pg_error ''23514'' ''paid amount does not match expected amount'')
           else bindM (mark_order_paid (pay_order p)) (\<lambda>resolved.
             thenM (whenM resolved (modify (\<lambda>s. s\<lparr>payments := update_where (\<lambda>x. pay_id x = pay_id p)
                (\<lambda>x. x\<lparr>pay_status := Pay_Successful, pay_transaction := txid, pay_paid := Some paid,
                       pay_verified_at := Some (odb_now s), pay_paid_at := Some (odb_now s),
                       pay_payload := body\<rparr>) (payments s)\<rparr>)))
             (ret (pay_order p))))"

section \<open>Handlers\<close>

definition record_payment_event ::
  "(string \<Rightarrow> string) \<Rightarrow> string \<Rightarrow> json \<Rightarrow> string \<Rightarrow> string \<Rightarrow> ('z webhook_db_scheme, bool) prog" where
  "record_payment_event sha256 raw body event reference =
     bindM (gets (\<lambda>s. sha256 raw \<in> pev_fingerprint ` set (payment_events s))) (\<lambda>known.
       if known then ret False
       else thenM (modify (\<lambda>s. s\<lparr>payment_events := payment_events s @
              [\<lparr>pev_fingerprint = sha256 raw, pev_type = event, pev_reference = reference, pev_payload = body\<rparr>]\<rparr>))
            (ret True))"

definition num_json :: "int \<Rightarrow> json" where
  "num_json n = JNum (js_int n)"

definition apply_verified_payment ::
  "json \<Rightarrow> paystack_event \<Rightarrow> string \<Rightarrow> int \<Rightarrow> string option \<Rightarrow> ('z webhook_db_scheme, unit) prog" where
  "apply_verified_payment body payload reference amount currency =
     bindM (gets (find_payment Paystack reference)) (\<lambda>found.
       case found of
         None \<Rightarrow>
           upsert_issue (''provider_success_not_local:'' @ reference) ''provider_success_not_local'' ''critical''
             None None (Some reference) (JObj [(''webhookAmountKobo'', num_json amount)]) None
       | Some p \<Rightarrow>
           if amount \<noteq> pay_expected p then
             upsert_issue (''amount_mismatch:'' @ pay_id p) ''amount_mismatch'' ''critical''
               (Some (pay_id p)) (Some (pay_order p)) (Some reference)
               (JObj [(''expectedAmountKobo'', num_json (pay_expected p)), (''webhookAmountKobo'', num_json amount)]) None
           else if currency \<noteq> None \<and> currency \<noteq> Some (pay_currency p) then
             upsert_issue (''currency_mismatch:'' @ pay_id p) ''currency_mismatch'' ''critical''
               (Some (pay_id p)) (Some (pay_order p)) (Some reference)
               (JObj [(''expectedCurrency'', JStr (pay_currency p)), (''webhookCurrency'', JStr (the currency))]) None
           else
             let txid = (case Option.bind (pe_data payload) pd_id of None \<Rightarrow> reference | Some i \<Rightarrow> paystack_id_str i)
             in bindM (mark_verified_payment_successful Paystack reference (Some txid) amount body) (\<lambda>_. ret ()))"

text \<open>postgresUuidPattern of common/validation.ts.\<close>

definition uuid_pattern :: "string \<Rightarrow> bool" where
  "uuid_pattern u \<longleftrightarrow> length u = 36 \<and>
     (\<forall>i<36. if i \<in> {8, 13, 18, 23} then u ! i = CHR ''-'' else hex_digit (u ! i) \<noteq> None)"

definition with_deposit_fee :: "json \<Rightarrow> int \<Rightarrow> int \<Rightarrow> json" where
  "with_deposit_fee body gross fee =
     (let d = JObj [(''gross_kobo'', num_json gross), (''fee_kobo'', num_json fee)]
      in case body of JObj kvs \<Rightarrow> JObj (obj_put ''deposit_fee'' d kvs) | _ \<Rightarrow> JObj [(''deposit_fee'', d)])"

text \<open>What is credited, and what the ledger keeps of the payload, for a paid amount.\<close>

definition topup_split :: "webhook_config \<Rightarrow> int \<Rightarrow> string option \<Rightarrow> deposit_split option" where
  "topup_split cfg amount account =
     (if account \<noteq> None
      then Some (split_dedicated_account_deposit amount (wc_fee_bps cfg) (Some (wc_fee_cap cfg))) else None)"

definition topup_credit :: "webhook_config \<Rightarrow> int \<Rightarrow> string option \<Rightarrow> int option \<Rightarrow> int" where
  "topup_credit cfg amount account credit =
     (case topup_split cfg amount account of
        Some d \<Rightarrow> ds_credit_kobo d
      | None \<Rightarrow> (case credit of Some c \<Rightarrow> if c \<le> amount then c else amount | None \<Rightarrow> amount))"

definition topup_payload :: "webhook_config \<Rightarrow> json \<Rightarrow> int \<Rightarrow> string option \<Rightarrow> json" where
  "topup_payload cfg body amount account =
     (case topup_split cfg amount account of None \<Rightarrow> body
      | Some d \<Rightarrow> with_deposit_fee body amount (ds_deposit_fee_kobo d))"

definition credit_wallet_from_event ::
  "webhook_config \<Rightarrow> json \<Rightarrow> string \<Rightarrow> int \<Rightarrow> string option \<Rightarrow> string option \<Rightarrow> int option \<Rightarrow> string option \<Rightarrow>
   string option \<Rightarrow> ('z webhook_db_scheme, unit) prog" where
  "credit_wallet_from_event cfg body reference amount account user_raw credit sender currency =
     (let user = (case user_raw of Some u \<Rightarrow> if uuid_pattern u then Some u else None | None \<Rightarrow> None) in
      if account = None \<and> user = None then
        upsert_issue (''wallet_topup_unattributable:'' @ reference) ''provider_success_not_local'' ''critical''
          None None (Some reference)
          (JObj [(''reason'', JStr (if user_raw = None
             then ''dedicated_nuban charge carried no receiver account number''
             else ''wallet top-up metadata carried an invalid user id''))]) None
      else if currency \<noteq> None \<and> currency \<noteq> Some ''NGN'' then
        upsert_issue (''wallet_topup_currency_mismatch:'' @ reference) ''provider_success_not_local'' ''critical''
          None None (Some reference)
          (JObj [(''reason'', JStr (''wallet top-up arrived in '' @ the currency @ ''; wallets hold NGN only''))]) None
      else
        bindM (to_int4 (topup_credit cfg amount account credit)) (\<lambda>c.
          bindM (credit_wallet_topup reference account user c sender (topup_payload cfg body amount account)) (\<lambda>_. ret ())))"

definition run_webhook_transaction ::
  "webhook_config \<Rightarrow> (string \<Rightarrow> string) \<Rightarrow> delivery \<Rightarrow> domain_event \<Rightarrow> string \<Rightarrow> ('z webhook_db_scheme, webhook_result) prog" where
  "run_webhook_transaction cfg sha256 d event reference =
     transaction (bindM (record_payment_event sha256 (dl_raw d) (dl_body d) (pe_event (dl_event d)) reference) (\<lambda>inserted.
       if \<not> inserted then ret (Wh_Duplicate reference)
       else thenM (case event of
           Payment_Succeeded r amount currency \<Rightarrow> apply_verified_payment (dl_body d) (dl_event d) r amount currency
         | Transfer_Reconciled r oc \<Rightarrow> reconcile_payout_transfer r oc (dl_body d)
         | Wallet_Topup_Succeeded r amount account user credit sender currency \<Rightarrow>
             credit_wallet_from_event cfg (dl_body d) r amount account user credit sender currency
         | _ \<Rightarrow> ret ())
         (ret (Wh_Accepted event))))"

definition record_processing_failure :: "string \<Rightarrow> exn \<Rightarrow> ('z webhook_db_scheme, unit) prog" where
  "record_processing_failure reference e =
     upsert_issue (''webhook_processing_failed:'' @ reference) ''webhook_processing_failed'' ''critical''
       None None (Some reference) (JObj [(''error'', JStr (error_message e))]) None"

definition process_with_database ::
  "webhook_config \<Rightarrow> (string \<Rightarrow> string) \<Rightarrow> delivery \<Rightarrow> domain_event \<Rightarrow> string \<Rightarrow> ('z webhook_db_scheme, webhook_result) prog" where
  "process_with_database cfg sha256 d event reference =
     catchM (run_webhook_transaction cfg sha256 d event reference)
       (\<lambda>e. thenM (catchM (record_processing_failure reference e) (\<lambda>_. ret ())) (raise e))"

fun event_reference :: "domain_event \<Rightarrow> string option" where
  "event_reference (Payment_Succeeded r _ _) = Some r"
| "event_reference (Payment_Failed r _) = Some r"
| "event_reference (Refund_Succeeded r _) = Some r"
| "event_reference (Transfer_Reconciled r _) = Some r"
| "event_reference (Wallet_Topup_Succeeded r _ _ _ _ _ _) = Some r"
| "event_reference (Ignored _ _) = None"

definition process_webhook ::
  "webhook_config \<Rightarrow> (string \<Rightarrow> string \<Rightarrow> string) \<Rightarrow> (string \<Rightarrow> string) \<Rightarrow> string option \<Rightarrow> delivery \<Rightarrow>
   ('z webhook_db_scheme, webhook_result) prog" where
  "process_webhook cfg hmac sha256 signature d =
     bindM (lift_ok (assert_valid_signature cfg hmac (dl_raw d) signature)) (\<lambda>_.
       let event = map_paystack_event (dl_event d) in
       case event of
         Ignored why _ \<Rightarrow> ret (Wh_Ignored why)
       | _ \<Rightarrow>
           let reference = the (event_reference event) in
           if wc_database_inbox cfg then process_with_database cfg sha256 d event reference
           else
             let key = pe_event (dl_event d) @ '':'' @ reference in
             bindM (gets (\<lambda>s. key \<in> set (processed_keys s))) (\<lambda>seen.
               if seen then ret (Wh_Duplicate reference)
               else thenM (modify (\<lambda>s. s\<lparr>processed_keys := processed_keys s @ [key]\<rparr>)) (ret (Wh_Accepted event))))"

fun event_type_str :: "domain_event \<Rightarrow> string" where
  "event_type_str (Payment_Succeeded _ _ _) = ''PAYMENT_SUCCEEDED''"
| "event_type_str (Payment_Failed _ _) = ''PAYMENT_FAILED''"
| "event_type_str (Refund_Succeeded _ _) = ''REFUND_SUCCEEDED''"
| "event_type_str (Transfer_Reconciled _ _) = ''TRANSFER_RECONCILED''"
| "event_type_str (Wallet_Topup_Succeeded _ _ _ _ _ _ _) = ''WALLET_TOPUP_SUCCEEDED''"
| "event_type_str (Ignored _ _) = ''IGNORED''"

text \<open>creditVerifiedWalletTopup: a transaction fetched from the verify API, no signature.\<close>

definition credit_verified_wallet_topup ::
  "webhook_config \<Rightarrow> (string \<Rightarrow> string) \<Rightarrow> (json \<Rightarrow> string) \<Rightarrow> json \<Rightarrow> paystack_event \<Rightarrow>
   ('z webhook_db_scheme, webhook_result) prog" where
  "credit_verified_wallet_topup cfg sha256 stringify body payload =
     (case map_paystack_event payload of
        Wallet_Topup_Succeeded r a ac u c sn cu \<Rightarrow>
          process_with_database cfg sha256 \<lparr>dl_raw = stringify body, dl_body = body, dl_event = payload\<rparr>
            (Wallet_Topup_Succeeded r a ac u c sn cu) r
      | _ \<Rightarrow> raise (Plain_Error (''Transaction is not a successful wallet top-up (mapped to '' @
               event_type_str (map_paystack_event payload) @ '').'')))"

section \<open>The sweep (dva-topup-sweep.service.ts)\<close>

record listed_transaction =
  lt_channel :: "string option"
  lt_reference :: "string option"

record verify_reply =
  vf_status :: string
  vf_data :: "paystack_data option"
  vf_json :: json

record sweep_result =
  sw_seen :: nat
  sw_missing :: nat
  sw_credited :: nat
  sw_failed :: nat

definition max_pages :: nat where
  "max_pages = 10"

definition dedicated_references :: "listed_transaction list \<Rightarrow> string list" where
  "dedicated_references ts =
     map (\<lambda>t. the (lt_reference t))
       (filter (\<lambda>t. lt_channel t = Some ''dedicated_nuban'' \<and> lt_reference t \<noteq> None) ts)"

text \<open>
  The page loop: pages 1 to \<open>max_pages\<close>, until the page count Paystack reports is reached.
  \<open>pages\<close> is listSuccessfulTransactions, \<open>verify\<close> is verifyTransaction.
\<close>

fun collect_references ::
  "(nat \<Rightarrow> exn + listed_transaction list \<times> nat) \<Rightarrow> nat \<Rightarrow> nat \<Rightarrow> exn + string list" where
  "collect_references pages page 0 = Inr []"
| "collect_references pages page (Suc left) =
     let_ok (pages page) (\<lambda>(ts, count).
       if count \<le> page then Inr (dedicated_references ts)
       else let_ok (collect_references pages (Suc page) left) (\<lambda>rest. Inr (dedicated_references ts @ rest)))"

definition sweep_one ::
  "webhook_config \<Rightarrow> (string \<Rightarrow> string) \<Rightarrow> (json \<Rightarrow> string) \<Rightarrow> (string \<Rightarrow> exn + verify_reply) \<Rightarrow>
   sweep_result \<Rightarrow> string \<Rightarrow> ('z webhook_db_scheme, sweep_result) prog" where
  "sweep_one cfg sha256 stringify verify acc reference =
     catchM (bindM (lift_ok (verify reference)) (\<lambda>v.
         if vf_status v \<noteq> ''success'' then ret acc
         else bindM (credit_verified_wallet_topup cfg sha256 stringify
                (JObj [(''event'', JStr ''charge.success''), (''data'', vf_json v)])
                \<lparr>pe_event = ''charge.success'', pe_data = vf_data v\<rparr>) (\<lambda>result.
              case result of
                Wh_Accepted _ \<Rightarrow> ret (acc\<lparr>sw_credited := Suc (sw_credited acc)\<rparr>)
              | _ \<Rightarrow> ret acc)))
       (\<lambda>_. ret (acc\<lparr>sw_failed := Suc (sw_failed acc)\<rparr>))"

definition sweep ::
  "webhook_config \<Rightarrow> (string \<Rightarrow> string) \<Rightarrow> (json \<Rightarrow> string) \<Rightarrow> (nat \<Rightarrow> exn + listed_transaction list \<times> nat) \<Rightarrow>
   (string \<Rightarrow> exn + verify_reply) \<Rightarrow> ('z webhook_db_scheme, sweep_result) prog" where
  "sweep cfg sha256 stringify pages verify =
     bindM (lift_ok (collect_references pages 1 max_pages)) (\<lambda>references.
       if references = [] then ret \<lparr>sw_seen = 0, sw_missing = 0, sw_credited = 0, sw_failed = 0\<rparr>
       else bindM (gets (\<lambda>s. filter (\<lambda>r. \<not> topup_recorded (Some r) s) references)) (\<lambda>missing.
         foldM (sweep_one cfg sha256 stringify verify)
           \<lparr>sw_seen = length references, sw_missing = length missing, sw_credited = 0, sw_failed = 0\<rparr> missing))"

section \<open>What a delivery does to the money\<close>

lemma upsert_app:
  "\<exists>iss. upsert_issue key ty severity pid oid reference detail rid s = (Inr (), s\<lparr>issues := iss\<rparr>)"
  by (auto simp: upsert_issue_def prog_simps)

lemma mark_order_paid_app:
  "\<exists>r os hs out. mark_order_paid oid s =
     (Inr r, s\<lparr>odb_orders := os, odb_history := hs, odb_outbox := out\<rparr>) \<and> (\<not> r \<longrightarrow> os = odb_orders s)"
proof (cases "lookup_by ord_id oid (odb_orders s)")
  case None
  then have "mark_order_paid oid s = (Inr False, s\<lparr>odb_orders := odb_orders s, odb_history := odb_history s, odb_outbox := odb_outbox s\<rparr>)"
    by (simp add: mark_order_paid_def prog_simps)
  then show ?thesis by blast
next
  case (Some r)
  show ?thesis
  proof (cases "ord_status r \<in> {Pending_Payment, Expired}")
    case True
    with Some show ?thesis by (auto simp: mark_order_paid_def prog_simps)
  next
    case False
    then have "mark_order_paid oid s = (Inr False, s\<lparr>odb_orders := odb_orders s, odb_history := odb_history s,
        odb_outbox := odb_outbox s @ [\<lparr>ev_type = ''payment.successful_unresolved'', ev_aggregate_type = ''order'',
                    ev_aggregate_id = oid\<rparr>]\<rparr>)"
      using Some by (simp add: mark_order_paid_def prog_simps)
    then show ?thesis by blast
  qed
qed

definition credited_by :: "domain_event \<Rightarrow> 'z money_db_scheme \<Rightarrow> 'z money_db_scheme \<Rightarrow> bool" where
  "credited_by event s t \<longleftrightarrow> ledger t = ledger s \<or>
     (\<exists>r amount account user credit sender currency e.
        event = Wallet_Topup_Succeeded r amount account user credit sender currency \<and>
        ledger t = ledger s @ [e] \<and> le_type e = Topup \<and> le_reference e = Some r \<and>
        0 < le_amount e \<and> le_amount e \<le> amount \<and> r \<notin> set (topup_refs (ledger s)) \<and>
        (currency = None \<or> currency = Some ''NGN''))"

lemma apply_payment_ledger:
  "apply_verified_payment body payload reference amount currency s = (Inr u, t) \<Longrightarrow> ledger t = ledger s"
proof (cases "find_payment Paystack reference s")
  case None
  then show "apply_verified_payment body payload reference amount currency s = (Inr u, t) \<Longrightarrow> ledger t = ledger s"
    by (auto simp: apply_verified_payment_def prog_simps upsert_issue_def)
next
  case (Some p)
  obtain r os hs out where mo: "mark_order_paid (pay_order p) s = (Inr r, s\<lparr>odb_orders := os, odb_history := hs, odb_outbox := out\<rparr>)"
    using mark_order_paid_app by blast
  with Some show "apply_verified_payment body payload reference amount currency s = (Inr u, t) \<Longrightarrow> ledger t = ledger s"
    by (auto simp: apply_verified_payment_def mark_verified_payment_successful_def prog_simps upsert_issue_def Let_def
        split: if_splits)
qed

lemma credited_amount:
  "0 < ds_credit_kobo (split_dedicated_account_deposit amount bps cap) \<Longrightarrow>
   ds_credit_kobo (split_dedicated_account_deposit amount bps cap) \<le> amount"
proof (cases "0 < amount")
  case True
  then show ?thesis using deposit_split_facts [OF True, of bps cap] by (simp add: Let_def)
qed (auto simp: split_dedicated_account_deposit_def)

lemma topup_credit_bound: "0 < topup_credit cfg amount account credit \<Longrightarrow> topup_credit cfg amount account credit \<le> amount"
  by (cases account)
    (auto simp: topup_credit_def topup_split_def credited_amount split: option.splits if_splits)

lemma credit_event_ledger:
  assumes run: "credit_wallet_from_event cfg body r amount account user_raw credit sender currency s = (Inr u, t)"
  shows "credited_by (Wallet_Topup_Succeeded r amount account user_raw credit sender currency) s t"
proof (cases "ledger t = ledger s")
  case False
  define user where "user = (case user_raw of Some u \<Rightarrow> if uuid_pattern u then Some u else None | None \<Rightarrow> None)"
  let ?c = "topup_credit cfg amount account credit"
  from run False have top: "\<not> (account = None \<and> user = None)" "currency = None \<or> currency = Some ''NGN''"
    by (auto simp: credit_wallet_from_event_def user_def [symmetric] Let_def upsert_issue_def prog_simps split: if_splits)
  with run obtain v where cr: "credit_wallet_topup r account user ?c sender (topup_payload cfg body amount account) s = (Inr v, t)"
    by (auto simp: credit_wallet_from_event_def user_def [symmetric] Let_def prog_simps to_int4_app
        split: if_splits prod.splits sum.splits)
  from topup_amount [OF cr] topup_credit_bound have bound: "0 < ?c" "?c \<le> amount" by blast+
  show ?thesis
  proof (rule topup_cases [OF cr])
    fix e assume "ledger t = ledger s @ [e]" "le_type e = Topup" "le_reference e = Some r" "le_amount e = ?c"
      "r \<notin> set (topup_refs (ledger s))"
    with bound top(2) show ?thesis by (auto simp: credited_by_def)
  next
    assume "ledger t = ledger s"
    with False show ?thesis by simp
  qed
qed (simp add: credited_by_def)

lemma record_event_app:
  "record_payment_event sha256 raw body event reference s =
     (if sha256 raw \<in> pev_fingerprint ` set (payment_events s) then (Inr False, s)
      else (Inr True, s\<lparr>payment_events := payment_events s @
              [\<lparr>pev_fingerprint = sha256 raw, pev_type = event, pev_reference = reference, pev_payload = body\<rparr>]\<rparr>))"
  by (simp add: record_payment_event_def prog_simps)

text \<open>The one transaction of a delivery: refused as a duplicate, rolled back, or applied.\<close>

lemma transaction_cases:
  assumes "run_webhook_transaction cfg sha256 d event reference s = (r, t)"
  obtains (duplicate) "sha256 (dl_raw d) \<in> pev_fingerprint ` set (payment_events s)" "r = Inr (Wh_Duplicate reference)" "t = s"
  | (rolled_back) e where "r = Inl e" "t = s"
  | (applied) s1 u where "sha256 (dl_raw d) \<notin> pev_fingerprint ` set (payment_events s)" "r = Inr (Wh_Accepted event)"
      "s1 = s\<lparr>payment_events := payment_events s @ [\<lparr>pev_fingerprint = sha256 (dl_raw d), pev_type = pe_event (dl_event d),
           pev_reference = reference, pev_payload = dl_body d\<rparr>]\<rparr>"
      "(case event of
           Payment_Succeeded r amount currency \<Rightarrow> apply_verified_payment (dl_body d) (dl_event d) r amount currency
         | Transfer_Reconciled r oc \<Rightarrow> reconcile_payout_transfer r oc (dl_body d)
         | Wallet_Topup_Succeeded r amount account user credit sender currency \<Rightarrow>
             credit_wallet_from_event cfg (dl_body d) r amount account user credit sender currency
         | _ \<Rightarrow> ret ()) s1 = (Inr u, t)"
proof (cases "sha256 (dl_raw d) \<in> pev_fingerprint ` set (payment_events s)")
  case True
  with assms show thesis
    by (intro duplicate) (auto simp: run_webhook_transaction_def prog_simps record_event_app)
next
  case False
  let ?s1 = "s\<lparr>payment_events := payment_events s @ [\<lparr>pev_fingerprint = sha256 (dl_raw d), pev_type = pe_event (dl_event d),
           pev_reference = reference, pev_payload = dl_body d\<rparr>]\<rparr>"
  let ?h = "case event of
           Payment_Succeeded r amount currency \<Rightarrow> apply_verified_payment (dl_body d) (dl_event d) r amount currency
         | Transfer_Reconciled r oc \<Rightarrow> reconcile_payout_transfer r oc (dl_body d)
         | Wallet_Topup_Succeeded r amount account user credit sender currency \<Rightarrow>
             credit_wallet_from_event cfg (dl_body d) r amount account user credit sender currency
         | _ \<Rightarrow> ret ()"
  obtain v u where h: "?h ?s1 = (v, u)" by force
  show thesis
  proof (cases v)
    case (Inl e)
    with assms False h show thesis
      by (intro rolled_back [of e]) (auto simp: run_webhook_transaction_def prog_simps record_event_app)
  next
    case (Inr x)
    with assms False h show thesis
      by (intro applied [of ?s1 x]) (auto simp: run_webhook_transaction_def prog_simps record_event_app)
  qed
qed

lemma transaction_ledger:
  assumes "run_webhook_transaction cfg sha256 d event reference s = (r, t)"
  shows "credited_by event s t \<and> (ledger t \<noteq> ledger s \<longrightarrow> r = Inr (Wh_Accepted event))"
proof (rule transaction_cases [OF assms])
  fix s1 u
  assume r: "r = Inr (Wh_Accepted event)" and s1: "s1 = s\<lparr>payment_events := payment_events s @ [\<lparr>pev_fingerprint = sha256 (dl_raw d), pev_type = pe_event (dl_event d),
           pev_reference = reference, pev_payload = dl_body d\<rparr>]\<rparr>"
    and h: "(case event of
           Payment_Succeeded r amount currency \<Rightarrow> apply_verified_payment (dl_body d) (dl_event d) r amount currency
         | Transfer_Reconciled r oc \<Rightarrow> reconcile_payout_transfer r oc (dl_body d)
         | Wallet_Topup_Succeeded r amount account user credit sender currency \<Rightarrow>
             credit_wallet_from_event cfg (dl_body d) r amount account user credit sender currency
         | _ \<Rightarrow> ret ()) s1 = (Inr u, t)"
  have "credited_by event s1 t"
  proof (cases "\<exists>r amount account user credit sender currency.
      event = Wallet_Topup_Succeeded r amount account user credit sender currency")
    case True
    with h credit_event_ledger show ?thesis by auto
  next
    case False
    with h have "ledger t = ledger s1"
      by (cases event) (auto simp: prog_simps reconcile_app dest: apply_payment_ledger split: option.splits)
    then show ?thesis by (simp add: credited_by_def)
  qed
  with r s1 show ?thesis by (simp add: credited_by_def)
qed (simp_all add: credited_by_def)

section \<open>What a delivery does to payments\<close>

lemma payments_append:
  "preserves (\<lambda>s. payments s = ps) (append_wallet_ledger_entry wid ty amount oid reference act reason md)"
proof (rule preservesI)
  fix s :: "'a money_db_scheme" assume "payments s = ps"
  then show "payments (snd (append_wallet_ledger_entry wid ty amount oid reference act reason md s)) = ps"
    by (cases rule: append_app [of wid ty amount oid reference act reason md s]) (simp_all add: post_entry_def)
qed

lemma payments_topup: "preserves (\<lambda>s. payments s = ps) (credit_wallet_topup reference account user amount sender payload)"
proof -
  have "preserves (\<lambda>s. payments s = ps) (ensure_customer_wallet u)" for u
    by (rule preservesI) (simp add: ensure_app split: option.split)
  moreover note payments_append
  moreover have "preserves (\<lambda>s. payments s = ps) (upsert_issue key ty severity pid oid reference detail rid)"
    for key ty severity pid oid reference detail rid
    by (rule preservesI) (simp add: upsert_issue_def prog_simps)
  ultimately show ?thesis
    unfolding credit_wallet_topup_def topup_wallet_def flag_over_cap_def
    by (auto intro!: preserves_intros platform_setting_int_inv split: option.split exn.split)
qed

lemma credit_event_payments:
  "credit_wallet_from_event cfg body r amount account user_raw credit sender currency s = (v, t) \<Longrightarrow> payments t = payments s"
proof -
  have "preserves (\<lambda>x. payments x = payments s) (credit_wallet_from_event cfg body r amount account user_raw credit sender currency)"
    unfolding credit_wallet_from_event_def Let_def upsert_issue_def
    by (intro preserves_intros payments_topup to_int4_inv preserves_modify) simp_all
  then show "credit_wallet_from_event cfg body r amount account user_raw credit sender currency s = (v, t) \<Longrightarrow> payments t = payments s"
    by (metis (mono_tags) preserves_result)
qed

lemma apply_payment_cases:
  assumes "apply_verified_payment body payload reference amount currency s = (Inr u, t)"
  shows "payments t = payments s \<or>
    (\<exists>p f. find_payment Paystack reference s = Some p \<and> amount = pay_expected p \<and>
       (currency = None \<or> currency = Some (pay_currency p)) \<and> pay_status p \<noteq> Pay_Successful \<and>
       payments t = update_where (\<lambda>x. pay_id x = pay_id p) f (payments s) \<and> (\<forall>x. pay_id (f x) = pay_id x) \<and>
       fst (mark_order_paid (pay_order p) s) = Inr True)"
proof (cases "find_payment Paystack reference s")
  case None
  with assms have "payments t = payments s"
    by (auto simp: apply_verified_payment_def prog_simps upsert_issue_def)
  then show ?thesis ..
next
  case (Some p)
  obtain r os hs out where mo: "mark_order_paid (pay_order p) s = (Inr r, s\<lparr>odb_orders := os, odb_history := hs, odb_outbox := out\<rparr>)"
    using mark_order_paid_app by blast
  show ?thesis
  proof (cases "amount = pay_expected p \<and> (currency = None \<or> currency = Some (pay_currency p)) \<and>
      pay_status p \<noteq> Pay_Successful \<and> r")
    case False
    with assms Some mo have "payments t = payments s"
      by (auto simp: apply_verified_payment_def mark_verified_payment_successful_def prog_simps upsert_issue_def Let_def
          split: if_splits)
    then show ?thesis ..
  next
    case True
    let ?txid = "case Option.bind (pe_data payload) pd_id of None \<Rightarrow> reference | Some i \<Rightarrow> paystack_id_str i"
    let ?f = "\<lambda>x. x\<lparr>pay_status := Pay_Successful, pay_transaction := Some ?txid, pay_paid := Some amount,
          pay_verified_at := Some (odb_now s), pay_paid_at := Some (odb_now s), pay_payload := body\<rparr>"
    from True Some mo assms
    have "payments t = update_where (\<lambda>x. pay_id x = pay_id p) ?f (payments s)"
      by (auto simp: apply_verified_payment_def mark_verified_payment_successful_def prog_simps Let_def)
    with True Some mo show ?thesis by (intro disjI2 exI [of _ p] exI [of _ ?f]) auto
  qed
qed

lemma transaction_payments:
  assumes "run_webhook_transaction cfg sha256 d event reference s = (r, t)"
    and "payments t \<noteq> payments s"
  shows "\<exists>ref amount currency p f. event = Payment_Succeeded ref amount currency \<and>
       find_payment Paystack ref s = Some p \<and> amount = pay_expected p \<and>
       (currency = None \<or> currency = Some (pay_currency p)) \<and> pay_status p \<noteq> Pay_Successful \<and>
       payments t = update_where (\<lambda>x. pay_id x = pay_id p) f (payments s) \<and> (\<forall>x. pay_id (f x) = pay_id x)"
proof (rule transaction_cases [OF assms(1)])
  fix s1 u
  assume s1: "s1 = s\<lparr>payment_events := payment_events s @ [\<lparr>pev_fingerprint = sha256 (dl_raw d), pev_type = pe_event (dl_event d),
           pev_reference = reference, pev_payload = dl_body d\<rparr>]\<rparr>"
    and h: "(case event of
           Payment_Succeeded r amount currency \<Rightarrow> apply_verified_payment (dl_body d) (dl_event d) r amount currency
         | Transfer_Reconciled r oc \<Rightarrow> reconcile_payout_transfer r oc (dl_body d)
         | Wallet_Topup_Succeeded r amount account user credit sender currency \<Rightarrow>
             credit_wallet_from_event cfg (dl_body d) r amount account user credit sender currency
         | _ \<Rightarrow> ret ()) s1 = (Inr u, t)"
  have same: "payments s1 = payments s" "find_payment Paystack x s1 = find_payment Paystack x s" for x
    by (simp_all add: s1 find_payment_def)
  show ?thesis
  proof (cases "\<exists>ref amount currency. event = Payment_Succeeded ref amount currency")
    case True
    then obtain ref amount currency where ev: "event = Payment_Succeeded ref amount currency" by blast
    with h have "apply_verified_payment (dl_body d) (dl_event d) ref amount currency s1 = (Inr u, t)" by simp
    from apply_payment_cases [OF this] ev assms(2) same show ?thesis by auto
  next
    case False
    with h have "payments t = payments s1"
      by (cases event) (auto simp: prog_simps reconcile_app dest: credit_event_payments split: option.splits)
    with same assms(2) show ?thesis by simp
  qed
qed (use assms(2) in simp_all)

section \<open>The whole handler\<close>

lemma with_database_cases:
  assumes "process_with_database cfg sha256 d event reference s = (r, t)"
  obtains (finished) res where "r = Inr res" "run_webhook_transaction cfg sha256 d event reference s = (Inr res, t)"
  | (failed) e iss where "r = Inl e" "run_webhook_transaction cfg sha256 d event reference s = (Inl e, s)"
      "t = s\<lparr>issues := iss\<rparr>" "''webhook_processing_failed:'' @ reference \<in> iss_key ` set iss"
proof -
  obtain v u where run: "run_webhook_transaction cfg sha256 d event reference s = (v, u)" by force
  show thesis
  proof (cases v)
    case (Inr res)
    with assms run show thesis by (intro finished [of res]) (auto simp: process_with_database_def prog_simps)
  next
    case (Inl e)
    from run Inl have u: "u = s" by (cases rule: transaction_cases [OF run]) simp_all
    obtain iss where up: "record_processing_failure reference e s = (Inr (), s\<lparr>issues := iss\<rparr>)"
      "''webhook_processing_failed:'' @ reference \<in> iss_key ` set iss"
      unfolding record_processing_failure_def using upsert_files by blast
    with assms run Inl u show thesis
      by (intro failed [of e iss]) (simp_all add: process_with_database_def prog_simps)
  qed
qed

lemma process_cases:
  assumes "wc_database_inbox cfg" and "process_webhook cfg hmac sha256 signature d s = (r, t)"
  obtains (refused) e where "r = Inl e" "t = s" "assert_valid_signature cfg hmac (dl_raw d) signature = Inl e"
  | (ignored) why ev where "r = Inr (Wh_Ignored why)" "t = s" "map_paystack_event (dl_event d) = Ignored why ev"
  | (handled) reference where "assert_valid_signature cfg hmac (dl_raw d) signature = Inr ()"
      "event_reference (map_paystack_event (dl_event d)) = Some reference"
      "process_with_database cfg sha256 d (map_paystack_event (dl_event d)) reference s = (r, t)"
proof (cases "assert_valid_signature cfg hmac (dl_raw d) signature")
  case (Inl e)
  with assms show thesis by (intro refused) (auto simp: process_webhook_def prog_simps)
next
  case (Inr u)
  show thesis
  proof (cases "event_reference (map_paystack_event (dl_event d))")
    case None
    then obtain why ev where "map_paystack_event (dl_event d) = Ignored why ev"
      by (cases "map_paystack_event (dl_event d)") simp_all
    with assms Inr show thesis by (intro ignored) (auto simp: process_webhook_def prog_simps)
  next
    case (Some reference)
    with assms Inr have "process_with_database cfg sha256 d (map_paystack_event (dl_event d)) reference s = (r, t)"
      by (cases "map_paystack_event (dl_event d)") (simp_all add: process_webhook_def prog_simps)
    with Some Inr show thesis by (intro handled) simp_all
  qed
qed

lemma process_ledger:
  assumes "wc_database_inbox cfg" and "process_webhook cfg hmac sha256 signature d s = (r, t)"
  shows "credited_by (map_paystack_event (dl_event d)) s t"
proof (rule process_cases [OF assms])
  fix reference
  assume run: "process_with_database cfg sha256 d (map_paystack_event (dl_event d)) reference s = (r, t)"
  show ?thesis
  proof (rule with_database_cases [OF run])
    fix res assume "run_webhook_transaction cfg sha256 d (map_paystack_event (dl_event d)) reference s = (Inr res, t)"
    from transaction_ledger [OF this] show ?thesis by blast
  qed (simp add: credited_by_def)
qed (simp_all add: credited_by_def)

text \<open>The handlers change only the money tables: a top-up keeps every further column of the state.\<close>

lemma events_append:
  "preserves (\<lambda>s. payment_events s = evs) (append_wallet_ledger_entry wid ty amount oid reference act reason md)"
proof (rule preservesI)
  fix s :: "'a webhook_db_scheme" assume "payment_events s = evs"
  then show "payment_events (snd (append_wallet_ledger_entry wid ty amount oid reference act reason md s)) = evs"
    by (cases rule: append_app [of wid ty amount oid reference act reason md s]) (simp_all add: post_entry_def)
qed

lemma events_credit:
  "preserves (\<lambda>s. payment_events s = evs) (credit_wallet_from_event cfg body r amount account user_raw credit sender currency)"
proof -
  have "preserves (\<lambda>s. payment_events s = evs) (ensure_customer_wallet u)" for u
    by (rule preservesI) (simp add: ensure_app split: option.split)
  moreover note events_append
  moreover have "preserves (\<lambda>s. payment_events s = evs) (upsert_issue key ty severity pid oid reference detail rid)"
    for key ty severity pid oid reference detail rid
    by (rule preservesI) (simp add: upsert_issue_def prog_simps)
  ultimately show ?thesis
    unfolding credit_wallet_from_event_def Let_def credit_wallet_topup_def topup_wallet_def flag_over_cap_def
    by (auto intro!: preserves_intros platform_setting_int_inv to_int4_inv split: option.split exn.split)
qed

lemma events_payment:
  assumes "apply_verified_payment body payload reference amount currency s = (v, t)"
  shows "payment_events t = payment_events s"
proof (cases "find_payment Paystack reference s")
  case None
  with assms show ?thesis by (auto simp: apply_verified_payment_def prog_simps upsert_issue_def)
next
  case (Some p)
  obtain r os hs out where "mark_order_paid (pay_order p) s = (Inr r, s\<lparr>odb_orders := os, odb_history := hs, odb_outbox := out\<rparr>)"
    using mark_order_paid_app by blast
  with Some assms show ?thesis
    by (auto simp: apply_verified_payment_def mark_verified_payment_successful_def prog_simps upsert_issue_def Let_def
        split: if_splits)
qed

lemma inbox_records:
  assumes "run_webhook_transaction cfg sha256 d event reference s = (Inr (Wh_Accepted event'), t)"
  shows "sha256 (dl_raw d) \<in> pev_fingerprint ` set (payment_events t)"
proof (rule transaction_cases [OF assms])
  fix s1 u
  assume s1: "s1 = s\<lparr>payment_events := payment_events s @ [\<lparr>pev_fingerprint = sha256 (dl_raw d), pev_type = pe_event (dl_event d),
           pev_reference = reference, pev_payload = dl_body d\<rparr>]\<rparr>"
    and h: "(case event of
           Payment_Succeeded r amount currency \<Rightarrow> apply_verified_payment (dl_body d) (dl_event d) r amount currency
         | Transfer_Reconciled r oc \<Rightarrow> reconcile_payout_transfer r oc (dl_body d)
         | Wallet_Topup_Succeeded r amount account user credit sender currency \<Rightarrow>
             credit_wallet_from_event cfg (dl_body d) r amount account user credit sender currency
         | _ \<Rightarrow> ret ()) s1 = (Inr u, t)"
  have "payment_events t = payment_events s1"
  proof (cases event)
    case (Wallet_Topup_Succeeded r amount account user credit sender currency)
    with h have "credit_wallet_from_event cfg (dl_body d) r amount account user credit sender currency s1 = (Inr u, t)" by simp
    with events_credit show ?thesis by (metis (mono_tags) preserves_result)
  qed (use h in \<open>auto simp: prog_simps reconcile_app dest: events_payment split: option.splits\<close>)
  then show ?thesis by (simp add: s1)
qed simp_all

section \<open>Properties\<close>

text \<open>
  Property C12: a delivery that is answered or changes anything carried a signature whose bytes are
  the configured secret's HMAC of the raw body; without a configured secret nothing is accepted.
\<close>

theorem webhook_needs_valid_signature:
  assumes "process_webhook cfg hmac sha256 signature d s = (r, t)" and "t \<noteq> s \<or> (\<exists>res. r = Inr res)"
  shows "\<exists>secret sig. wc_secret cfg = Some secret \<and> signature = Some sig \<and> sig \<noteq> [] \<and>
     hex_bytes sig = hex_bytes (hmac secret (dl_raw d))"
proof (cases "assert_valid_signature cfg hmac (dl_raw d) signature")
  case (Inl e)
  with assms show ?thesis by (auto simp: process_webhook_def prog_simps)
next
  case (Inr u)
  then show ?thesis
    by (auto simp: assert_valid_signature_def safe_compare_def split: option.splits if_splits)
qed


text \<open>
  No delivery, whatever its signature, credits a wallet for anything but a top-up, nor
  more than one entry, nor more than the amount paid, nor a reference credited before.
\<close>

theorem webhook_credits_at_most_the_amount_paid:
  assumes "wc_database_inbox cfg" and "process_webhook cfg hmac sha256 signature d s = (r, t)"
    and "ledger t \<noteq> ledger s"
  shows "\<exists>reference amount account user credit sender currency e.
     map_paystack_event (dl_event d) = Wallet_Topup_Succeeded reference amount account user credit sender currency \<and>
     ledger t = ledger s @ [e] \<and> le_type e = Topup \<and> le_reference e = Some reference \<and>
     0 < le_amount e \<and> le_amount e \<le> amount \<and> reference \<notin> set (topup_refs (ledger s))"
  using process_ledger [OF assms(1,2)] assms(3) unfolding credited_by_def by blast

text \<open>
  A delivery that was accepted is answered as a duplicate, and changes nothing, when
  the same raw body comes again, whatever happened to the database in between: the inbox only grows.
\<close>

theorem webhook_redelivery_is_a_duplicate:
  assumes "wc_database_inbox cfg"
    and "process_webhook cfg hmac sha256 signature d s = (Inr (Wh_Accepted event), t)"
    and "payment_events u = payment_events t @ later"
  shows "\<exists>reference. process_webhook cfg hmac sha256 signature d u = (Inr (Wh_Duplicate reference), u)"
proof (rule process_cases [OF assms(1,2)])
  fix reference
  assume sig: "assert_valid_signature cfg hmac (dl_raw d) signature = Inr ()"
    and ref: "event_reference (map_paystack_event (dl_event d)) = Some reference"
    and run: "process_with_database cfg sha256 d (map_paystack_event (dl_event d)) reference s = (Inr (Wh_Accepted event), t)"
  have "run_webhook_transaction cfg sha256 d (map_paystack_event (dl_event d)) reference s = (Inr (Wh_Accepted event), t)"
    by (rule with_database_cases [OF run]) auto
  then have "sha256 (dl_raw d) \<in> pev_fingerprint ` set (payment_events t)"
    by (rule inbox_records)
  with assms(3) have "sha256 (dl_raw d) \<in> pev_fingerprint ` set (payment_events u)" by auto
  then have "run_webhook_transaction cfg sha256 d (map_paystack_event (dl_event d)) reference u = (Inr (Wh_Duplicate reference), u)"
    by (simp add: run_webhook_transaction_def prog_simps record_event_app)
  with sig ref assms(1) show ?thesis
    by (cases "map_paystack_event (dl_event d)") (simp_all add: process_webhook_def process_with_database_def prog_simps)
qed simp_all

text \<open>
  A delivery whose handler throws leaves the database as it was, its inbox row
  included, except for one reconciliation issue keyed by the provider reference, so Paystack's
  retry is processed again.
\<close>

theorem failed_delivery_leaves_only_an_issue:
  assumes "wc_database_inbox cfg"
    and "process_webhook cfg hmac sha256 signature d s = (Inl e, t)"
    and "assert_valid_signature cfg hmac (dl_raw d) signature = Inr ()"
  shows "\<exists>iss reference. t = s\<lparr>issues := iss\<rparr> \<and>
     event_reference (map_paystack_event (dl_event d)) = Some reference \<and>
     ''webhook_processing_failed:'' @ reference \<in> iss_key ` set iss"
proof (rule process_cases [OF assms(1,2)])
  fix reference
  assume ref: "event_reference (map_paystack_event (dl_event d)) = Some reference"
    and run: "process_with_database cfg sha256 d (map_paystack_event (dl_event d)) reference s = (Inl e, t)"
  show ?thesis by (rule with_database_cases [OF run]) (use ref in auto)
qed (use assms(3) in simp_all)

section \<open>A sample\<close>

text \<open>
  One customer with a pending payment of 2500 naira for an order, and three deliveries: that
  charge, a wallet top-up, and a top-up whose amount does not fit the ledger's integer column. The
  concrete hash is the text itself.
\<close>

definition webhook_user :: uuid where
  "webhook_user = ''00000000-0000-4000-8000-0000000000a1''"

definition webhook_sample :: webhook_db where
  "webhook_sample = \<lparr>odb_now = 5000,
     odb_orders = [\<lparr>ord_id = ''o1'', ord_number = ''MD-1'', ord_customer = webhook_user, ord_campus = ''c1'',
       ord_status = Pending_Payment, ord_paid_at = None, ord_ready_at = None, ord_delivered_at = None,
       ord_confirmed_at = None, ord_cancelled_at = None, ord_cancellation_reason = None,
       ord_rider_confirmed_ready = None, ord_reservation_expires_at = Some 9000\<rparr>],
     odb_history = [], odb_outbox = [], db_uuid = (\<lambda>n. ''id-'' @ nat_str n), db_drawn = 0,
     wallets = [], ledger = [], accounts = [], settings = [],
     profiles = [\<lparr>prof_id = webhook_user, prof_email = None, prof_name = None, prof_phone = None\<rparr>],
     payments = [\<lparr>pay_id = ''p1'', pay_order = ''o1'', pay_provider = Paystack, pay_reference = ''PS-1'',
       pay_transaction = None, pay_status = Pay_Initialized, pay_expected = 250000, pay_paid = None,
       pay_currency = ''NGN'', pay_verified_at = None, pay_paid_at = None, pay_created = 4000,
       pay_payload = JNull\<rparr>],
     issues = [], audit_logs = [], audit_fault = (\<lambda>e. False), deliveries = [], settlements = [], settlement_lines = [], transfers = [], payout_accounts = [],
     riders = [], vendors = [], px_calls = [], px_initiate = (\<lambda>n. Inl network_failure),
     px_fetched = [], px_fetch = (\<lambda>n. Inl network_failure),
     payment_events = [], processed_keys = []\<rparr>"

definition webhook_cfg :: webhook_config where
  "webhook_cfg = \<lparr>wc_secret = Some ''sk'', wc_database_inbox = True, wc_fee_bps = 100, wc_fee_cap = 30000\<rparr>"

definition sample_hmac :: "string \<Rightarrow> string \<Rightarrow> string" where
  "sample_hmac secret raw = ''c0de'' @ nat_str (10 + length raw)"

definition sample_data :: "string \<Rightarrow> int \<Rightarrow> json option \<Rightarrow> paystack_data" where
  "sample_data reference amount metadata =
     \<lparr>pd_id = Some (Id_Number 77), pd_reference = Some reference, pd_amount = Some amount, pd_currency = Some ''NGN'',
      pd_status = Some ''success'', pd_receiver = None, pd_metadata = metadata, pd_authorization = None\<rparr>"

definition charge_delivery :: "string \<Rightarrow> string \<Rightarrow> int \<Rightarrow> json option \<Rightarrow> delivery" where
  "charge_delivery raw reference amount metadata =
     \<lparr>dl_raw = raw, dl_body = JObj [(''event'', JStr ''charge.success'')],
      dl_event = \<lparr>pe_event = ''charge.success'', pe_data = Some (sample_data reference amount metadata)\<rparr>\<rparr>"

definition paid_delivery :: delivery where
  "paid_delivery = charge_delivery ''raw-1'' ''PS-1'' 250000 None"

definition checkout_metadata :: json where
  "checkout_metadata = JObj [(''purpose'', JStr wallet_topup_purpose), (''userId'', JStr webhook_user)]"

definition topup_delivery :: delivery where
  "topup_delivery = charge_delivery ''raw-2'' ''WTU-1'' 513706 (Some checkout_metadata)"

definition overflow_delivery :: delivery where
  "overflow_delivery = charge_delivery ''raw-3'' ''WTU-2'' 3000000000 (Some checkout_metadata)"

definition after_delivery :: "delivery \<Rightarrow> (exn + webhook_result) \<times> webhook_db" where
  "after_delivery d = process_webhook webhook_cfg sample_hmac id (Some (sample_hmac ''sk'' (dl_raw d))) d webhook_sample"

lemma after_delivery_run:
  "process_webhook webhook_cfg sample_hmac id (Some (sample_hmac ''sk'' (dl_raw d))) d webhook_sample =
     (fst (after_delivery d), snd (after_delivery d))"
  by (simp add: after_delivery_def)

lemma webhook_cfg_inbox: "wc_database_inbox webhook_cfg"
  by (simp add: webhook_cfg_def)

theorem webhook_needs_valid_signature_witness:
  "hex_bytes (sample_hmac ''sk'' ''raw-2'') \<noteq> [] \<and>
   (\<exists>sig. Some (sample_hmac ''sk'' ''raw-2'') = Some sig \<and> hex_bytes sig = hex_bytes (sample_hmac ''sk'' ''raw-2''))"
proof -
  have changed: "\<exists>res. fst (after_delivery topup_delivery) = Inr res"
  proof -
    have "(case fst (after_delivery topup_delivery) of Inl e \<Rightarrow> False | Inr res \<Rightarrow> True)" by code_simp
    then show ?thesis by (simp split: sum.splits)
  qed
  from webhook_needs_valid_signature [OF after_delivery_run [of topup_delivery] disjI2 [OF changed]]
  obtain secret sig where "wc_secret webhook_cfg = Some secret" "Some (sample_hmac ''sk'' (dl_raw topup_delivery)) = Some sig"
    "hex_bytes sig = hex_bytes (sample_hmac secret (dl_raw topup_delivery))" by blast
  moreover have "hex_bytes (sample_hmac ''sk'' ''raw-2'') \<noteq> []" by code_simp
  moreover have "dl_raw topup_delivery = ''raw-2''" by code_simp
  ultimately show ?thesis by (simp add: webhook_cfg_def)
qed


theorem webhook_credits_at_most_the_amount_paid_witness:
  "\<exists>e. ledger (snd (after_delivery topup_delivery)) = [e] \<and> le_reference e = Some ''WTU-1'' \<and> 0 < le_amount e \<and> le_amount e \<le> 513706"
proof -
  have ev: "map_paystack_event (dl_event topup_delivery) =
      Wallet_Topup_Succeeded ''WTU-1'' 513706 None (Some webhook_user) None None (Some ''NGN'')" by code_simp
  have start: "ledger webhook_sample = []" by (simp add: webhook_sample_def)
  have "ledger (snd (after_delivery topup_delivery)) \<noteq> []" by code_simp
  then have "ledger (snd (after_delivery topup_delivery)) \<noteq> ledger webhook_sample" by (simp add: start)
  from webhook_credits_at_most_the_amount_paid [OF webhook_cfg_inbox after_delivery_run [of topup_delivery] this]
  show ?thesis by (auto simp: ev start)
qed

theorem webhook_redelivery_is_a_duplicate_witness:
  "\<exists>reference. process_webhook webhook_cfg sample_hmac id (Some (sample_hmac ''sk'' ''raw-2'')) topup_delivery
     (snd (after_delivery topup_delivery)) = (Inr (Wh_Duplicate reference), snd (after_delivery topup_delivery))"
proof -
  have raw: "dl_raw topup_delivery = ''raw-2''" by code_simp
  have "fst (after_delivery topup_delivery) = Inr (Wh_Accepted
      (Wallet_Topup_Succeeded ''WTU-1'' 513706 None (Some webhook_user) None None (Some ''NGN'')))" by code_simp
  with after_delivery_run [of topup_delivery]
  have "process_webhook webhook_cfg sample_hmac id (Some (sample_hmac ''sk'' ''raw-2'')) topup_delivery webhook_sample =
     (Inr (Wh_Accepted (Wallet_Topup_Succeeded ''WTU-1'' 513706 None (Some webhook_user) None None (Some ''NGN''))),
      snd (after_delivery topup_delivery))" by (simp add: raw)
  from webhook_redelivery_is_a_duplicate [OF webhook_cfg_inbox this append_Nil2 [symmetric]] show ?thesis .
qed

theorem failed_delivery_leaves_only_an_issue_witness:
  "(\<exists>iss. snd (after_delivery overflow_delivery) = webhook_sample\<lparr>issues := iss\<rparr> \<and>
     ''webhook_processing_failed:WTU-2'' \<in> iss_key ` set iss)"
proof -
  have ev: "map_paystack_event (dl_event overflow_delivery) =
      Wallet_Topup_Succeeded ''WTU-2'' 3000000000 None (Some webhook_user) None None (Some ''NGN'')" by code_simp
  have "(case fst (after_delivery overflow_delivery) of Inl e \<Rightarrow> True | Inr res \<Rightarrow> False)" by code_simp
  then obtain e where e: "fst (after_delivery overflow_delivery) = Inl e" by (auto split: sum.splits)
  with after_delivery_run [of overflow_delivery]
  have run: "process_webhook webhook_cfg sample_hmac id (Some (sample_hmac ''sk'' (dl_raw overflow_delivery))) overflow_delivery
      webhook_sample = (Inl e, snd (after_delivery overflow_delivery))" by simp
  have "assert_valid_signature webhook_cfg sample_hmac (dl_raw overflow_delivery)
      (Some (sample_hmac ''sk'' (dl_raw overflow_delivery))) = Inr ()" by code_simp
  from failed_delivery_leaves_only_an_issue [OF webhook_cfg_inbox run this] show ?thesis by (auto simp: ev)
qed

end
