(* ===== verification/Pagination.thy ===== *)
theory Pagination
  imports Json "HOL-Library.Multiset"
begin

text \<open>
  common/api: cursors and cursor pages (pagination.ts), sort parameters (sorting.ts), and the keyset
  pages every repository of the program builds with them. A cursor is the base64url text of the
  UTF-8 bytes of a JSON object; a character is a byte here, as in \<open>Json\<close>. A keyset page is the query
  "rows before the cursor's key, newest first, one more than the limit" cut to the limit.
\<close>

section \<open>JSON.stringify of a cursor payload\<close>

text \<open>Every caller's payload is an object of strings.\<close>

definition hex_char :: "nat \<Rightarrow> char" where
  "hex_char n = ''0123456789abcdef'' ! n"

definition quote_char :: "char \<Rightarrow> string" where
  "quote_char c =
     (if c = CHR 0x22 then [CHR 0x5C, CHR 0x22] else if c = CHR 0x5C then [CHR 0x5C, CHR 0x5C]
      else if c = CHR 0x08 then [CHR 0x5C, CHR ''b''] else if c = CHR 0x09 then [CHR 0x5C, CHR ''t'']
      else if c = CHR 0x0A then [CHR 0x5C, CHR ''n''] else if c = CHR 0x0C then [CHR 0x5C, CHR ''f'']
      else if c = CHR 0x0D then [CHR 0x5C, CHR ''r'']
      else if (of_char c :: nat) < 32
      then CHR 0x5C # ''u00'' @ [hex_char (of_char c div 16), hex_char (of_char c mod 16)]
      else [c])"

definition json_quote :: "string \<Rightarrow> string" where
  "json_quote s = CHR 0x22 # concat (map quote_char s) @ [CHR 0x22]"

fun stringify_members :: "(string \<times> string) list \<Rightarrow> string" where
  "stringify_members [] = []"
| "stringify_members [(k, v)] = json_quote k @ '':'' @ json_quote v"
| "stringify_members ((k, v) # kv # kvs) = json_quote k @ '':'' @ json_quote v @ '','' @ stringify_members (kv # kvs)"

definition stringify_strings :: "(string \<times> string) list \<Rightarrow> string" where
  "stringify_strings kvs = CHR 0x7B # stringify_members kvs @ [CHR 0x7D]"

section \<open>base64url\<close>

definition b64_alphabet :: string where
  "b64_alphabet = ''ABCDEFGHIJKLMNOPQRSTUVWXYZabcdefghijklmnopqrstuvwxyz0123456789-_''"

definition sextet_char :: "nat \<Rightarrow> char" where
  "sextet_char n = b64_alphabet ! n"

text \<open>Buffer accepts the characters of both alphabets, skips any other, and stops at a padding '='.\<close>

definition char_sextet :: "char \<Rightarrow> nat option" where
  "char_sextet c =
     (let n = of_char c :: nat in
      if 65 \<le> n \<and> n \<le> 90 then Some (n - 65)
      else if 97 \<le> n \<and> n \<le> 122 then Some (n - 71)
      else if 48 \<le> n \<and> n \<le> 57 then Some (n + 4)
      else if n = 45 \<or> n = 43 then Some 62
      else if n = 95 \<or> n = 47 then Some 63
      else None)"

fun bytes_to_sextets :: "nat list \<Rightarrow> nat list" where
  "bytes_to_sextets (a # b # c # bs) =
     a div 4 # (a mod 4 * 16 + b div 16) # (b mod 16 * 4 + c div 64) # c mod 64 # bytes_to_sextets bs"
| "bytes_to_sextets [a, b] = [a div 4, a mod 4 * 16 + b div 16, b mod 16 * 4]"
| "bytes_to_sextets [a] = [a div 4, a mod 4 * 16]"
| "bytes_to_sextets [] = []"

fun sextets_to_bytes :: "nat list \<Rightarrow> nat list" where
  "sextets_to_bytes (w # x # y # z # ss) =
     (w * 4 + x div 16) # (x mod 16 * 16 + y div 4) # (y mod 4 * 64 + z) # sextets_to_bytes ss"
| "sextets_to_bytes [w, x, y] = [w * 4 + x div 16, x mod 16 * 16 + y div 4]"
| "sextets_to_bytes [w, x] = [w * 4 + x div 16]"
| "sextets_to_bytes _ = []"

definition base64url_encode :: "string \<Rightarrow> string" where
  "base64url_encode s = map sextet_char (bytes_to_sextets (map of_char s))"

definition base64url_decode :: "string \<Rightarrow> string" where
  "base64url_decode s = map char_of (sextets_to_bytes
     (map the (filter (\<lambda>x. x \<noteq> None) (map char_sextet (takeWhile (\<lambda>c. c \<noteq> CHR ''='') s)))))"

section \<open>Cursors and pages (pagination.ts)\<close>

definition default_cursor_limit :: nat where
  "default_cursor_limit = 20"

definition max_cursor_limit :: nat where
  "max_cursor_limit = 100"

record pagination =
  pn_cursor :: "string option"
  pn_limit :: nat

definition normalize_cursor_pagination :: "string option \<Rightarrow> js_num option \<Rightarrow> pagination" where
  "normalize_cursor_pagination cursor requested =
     \<lparr>pn_cursor = (if cursor = Some [] then None else cursor),
      pn_limit = (case requested of
          None \<Rightarrow> default_cursor_limit
        | Some (Fin q) \<Rightarrow> if 0 < q then min (nat \<lfloor>q\<rfloor>) max_cursor_limit else default_cursor_limit
        | Some _ \<Rightarrow> default_cursor_limit)\<rparr>"

definition encode_cursor :: "(string \<times> string) list \<Rightarrow> string" where
  "encode_cursor payload = base64url_encode (stringify_strings payload)"

definition decode_cursor :: "string \<Rightarrow> exn + (string \<times> json) list" where
  "decode_cursor cursor =
     (case json_parse (base64url_decode cursor) of
        Some (JObj kvs) \<Rightarrow> Inr kvs
      | _ \<Rightarrow> Inl (Plain_Error ''Invalid cursor.''))"

record 'r page =
  pg_items :: "'r list"
  pg_more :: bool
  pg_limit :: nat
  pg_next :: "string option"

definition create_cursor_page :: "'r list \<Rightarrow> nat \<Rightarrow> ('r \<Rightarrow> string) \<Rightarrow> 'r page" where
  "create_cursor_page rows max_rows cursor_for =
     \<lparr>pg_items = take max_rows rows, pg_more = max_rows < length rows, pg_limit = max_rows,
      pg_next = (if max_rows < length rows \<and> take max_rows rows \<noteq> []
                 then Some (cursor_for (last (take max_rows rows))) else None)\<rparr>"

section \<open>Sort parameters (sorting.ts)\<close>

datatype sort_direction = Ascending | Descending

fun direction_str :: "sort_direction \<Rightarrow> string" where
  "direction_str Ascending = ''asc''"
| "direction_str Descending = ''desc''"

definition parse_direction :: "string \<Rightarrow> sort_direction option" where
  "parse_direction s = find (\<lambda>d. direction_str d = s) [Ascending, Descending]"

fun split_colon :: "string \<Rightarrow> string list" where
  "split_colon [] = [[]]"
| "split_colon (c # cs) =
     (if c = CHR '':'' then [] # split_colon cs
      else case split_colon cs of f # fs \<Rightarrow> (c # f) # fs | [] \<Rightarrow> [[c]])"

definition parse_sort :: "string option \<Rightarrow> string list \<Rightarrow> string \<times> sort_direction \<Rightarrow> exn + string \<times> sort_direction" where
  "parse_sort v allowed fallback =
     (case v of
        None \<Rightarrow> Inr fallback
      | Some text \<Rightarrow>
          let trimmed = js_trim text in
          if trimmed = [] then Inr fallback
          else
            let prefixed = starts_with ''-'' trimmed;
                parts = split_colon (if prefixed then drop 1 trimmed else trimmed);
                field = hd parts;
                raw = (if 2 \<le> length parts then parts ! 1
                       else if prefixed then ''desc'' else direction_str (snd fallback))
            in if field \<notin> set allowed then Inl (Plain_Error ''Unsupported sort field.'')
               else case parse_direction raw of
                      None \<Rightarrow> Inl (Plain_Error ''Unsupported sort direction.'')
                    | Some d \<Rightarrow> Inr (field, d))"

section \<open>Keyset queries\<close>

text \<open>
  The casts and comparisons Postgres makes on the two texts of a key: \<open>pk_ok\<close> says that the casts
  succeed, \<open>pk_before\<close> is the row comparison (a, b) < (c, d) after them. A listing sorts by the key,
  newest first.
\<close>

type_synonym row_key = "string \<times> string"

record pg_keys =
  pk_time :: "time \<Rightarrow> string"
  pk_ok :: "row_key \<Rightarrow> bool"
  pk_before :: "row_key \<Rightarrow> row_key \<Rightarrow> bool"

fun insert_newest :: "('k \<Rightarrow> 'k \<Rightarrow> bool) \<Rightarrow> ('r \<Rightarrow> 'k) \<Rightarrow> 'r \<Rightarrow> 'r list \<Rightarrow> 'r list" where
  "insert_newest prec key x [] = [x]"
| "insert_newest prec key x (y # ys) =
     (if prec (key x) (key y) then y # insert_newest prec key x ys else x # y # ys)"

definition newest_first :: "('k \<Rightarrow> 'k \<Rightarrow> bool) \<Rightarrow> ('r \<Rightarrow> 'k) \<Rightarrow> 'r list \<Rightarrow> 'r list" where
  "newest_first prec key rows = foldr (insert_newest prec key) rows []"

definition keyset_rows ::
  "('k \<Rightarrow> 'k \<Rightarrow> bool) \<Rightarrow> ('r \<Rightarrow> 'k) \<Rightarrow> 'k option \<Rightarrow> nat \<Rightarrow> 'r list \<Rightarrow> 'r list" where
  "keyset_rows prec key cursor max_rows rows =
     take (Suc max_rows) (filter (\<lambda>r. case cursor of None \<Rightarrow> True | Some k \<Rightarrow> prec (key r) k)
       (newest_first prec key rows))"

text \<open>A client that follows nextCursor from page to page.\<close>

fun walk_pages :: "(string option \<Rightarrow> exn + 'r page) \<Rightarrow> nat \<Rightarrow> string option \<Rightarrow> exn + 'r list" where
  "walk_pages get 0 cursor = Inr []"
| "walk_pages get (Suc n) cursor =
     let_ok (get cursor) (\<lambda>p.
       case pg_next p of
         None \<Rightarrow> Inr (pg_items p)
       | Some c \<Rightarrow> let_ok (walk_pages get n (Some c)) (\<lambda>rest. Inr (pg_items p @ rest)))"

section \<open>Reading back a printed cursor\<close>

lemma hex_digit_char: "n < 16 \<Longrightarrow> hex_digit (hex_char n) = Some n"
proof -
  have "list_all (\<lambda>n. hex_digit (hex_char n) = Some n) [0..<16]" by code_simp
  then show "n < 16 \<Longrightarrow> ?thesis" by (simp add: list_all_iff)
qed

lemma parse_quoted_char: "parse_string acc None (quote_char c @ rest) = parse_string (c # acc) None rest"
proof (cases "(of_char c :: nat) < 32")
  case True
  have "hex_digit CHR ''0'' = Some 0" by code_simp
  moreover have "hex_digit (hex_char (of_char c div 16)) = Some (of_char c div 16)"
    "hex_digit (hex_char (of_char c mod 16)) = Some (of_char c mod 16)"
    using True by (simp_all add: hex_digit_char)
  ultimately have "hex4 CHR ''0'' CHR ''0'' (hex_char (of_char c div 16)) (hex_char (of_char c mod 16)) = Some (of_char c)"
    by (simp add: hex4_def)
  with True show ?thesis
    by (auto simp: quote_char_def simple_escape_def utf8_def flush_surrogate_def)
next
  case False
  then show ?thesis by (auto simp: quote_char_def simple_escape_def flush_surrogate_def)
qed

lemma parse_quoted: "parse_string acc None (concat (map quote_char s) @ CHR 0x22 # rest) = Some (rev acc @ s, rest)"
  by (induction s arbitrary: acc) (simp_all add: parse_quoted_char flush_surrogate_def)

lemma parse_value_quoted: "parse_value (Suc n) (json_quote s @ rest) = Some (JStr s, rest)"
  by (simp add: json_quote_def skip_ws_def starts_with_def Let_def parse_quoted)

text \<open>The object a printed payload is read as.\<close>

definition cursor_object :: "(string \<times> string) list \<Rightarrow> (string \<times> json) list" where
  "cursor_object kvs = fold (\<lambda>(k, v). obj_put k (JStr v)) kvs []"

lemma skip_quote: "skip_ws (json_quote s @ rest) = json_quote s @ rest"
  by (simp add: json_quote_def skip_ws_def)

lemma parse_members_printed:
  "kvs \<noteq> [] \<Longrightarrow> parse_members (length kvs + Suc n) acc (stringify_members kvs @ CHR 0x7D # rest) =
     Some (fold (\<lambda>(k, v). obj_put k (JStr v)) kvs acc, rest)"
proof (induction kvs arbitrary: acc rule: stringify_members.induct)
  case (2 k v)
  have "parse_value (Suc n) (json_quote v @ CHR 0x7D # rest) = Some (JStr v, CHR 0x7D # rest)"
    by (rule parse_value_quoted)
  then show ?case
    by (simp add: json_quote_def [of k] skip_ws_def parse_quoted)
next
  case (3 k v kv kvs)
  have "parse_value (length (kv # kvs) + Suc n) (json_quote v @ CHR '','' # stringify_members (kv # kvs) @ CHR 0x7D # rest) =
      Some (JStr v, CHR '','' # stringify_members (kv # kvs) @ CHR 0x7D # rest)"
    using parse_value_quoted [of "length (kv # kvs) + n"] by simp
  with 3 show ?case
    by (simp add: json_quote_def [of k] skip_ws_def parse_quoted)
qed simp

lemma length_members: "5 * length kvs \<le> length (stringify_members kvs)"
  by (induction kvs rule: stringify_members.induct) (simp_all add: json_quote_def)

lemma parse_printed:
  assumes "kvs \<noteq> []"
  shows "json_parse (stringify_strings kvs) = Some (JObj (cursor_object kvs))"
proof -
  obtain n where n: "length (stringify_strings kvs) = length kvs + Suc n"
  proof (rule that)
    show "length (stringify_strings kvs) =
        length kvs + Suc (length (stringify_members kvs) + 1 - length kvs)"
      using length_members [of kvs] by (simp add: stringify_strings_def)
  qed
  have first: "\<exists>ms. stringify_members kvs = CHR 0x22 # ms"
    using assms by (induction kvs rule: stringify_members.induct) (simp_all add: json_quote_def)
  have "parse_value (Suc (length kvs + Suc n)) (stringify_strings kvs) = Some (JObj (cursor_object kvs), [])"
    using parse_members_printed [OF assms, of n "[]" "[]"] first
    by (auto simp: stringify_strings_def skip_ws_def starts_with_def Let_def cursor_object_def)
  then show ?thesis by (simp add: json_parse_def n skip_ws_def)
qed

section \<open>Reading back a base64url text\<close>

lemma sextets_round_trip: "\<forall>b\<in>set bs. b < 256 \<Longrightarrow> sextets_to_bytes (bytes_to_sextets bs) = bs"
proof (induction bs rule: bytes_to_sextets.induct)
  case (1 a b c bs)
  have "a mod 4 * 16 + b div 16 < 64" "b mod 16 * 4 + c div 64 < 64" using 1 by auto
  moreover have "b div 16 < 16" "c div 64 < 4" using 1 by auto
  ultimately show ?case using 1 by (auto simp: div_add1_eq mod_add_eq)
next
  case (2 a b)
  then have "b div 16 < 16" by auto
  with 2 show ?case by auto
qed auto

lemma sextets_bound: "\<forall>b\<in>set bs. b < 256 \<Longrightarrow> \<forall>x\<in>set (bytes_to_sextets bs). x < 64"
proof (induction bs rule: bytes_to_sextets.induct)
  case (1 a b c bs)
  then have "b div 16 < 16" "c div 64 < 4" "a div 4 < 64" by auto
  moreover have "a mod 4 < 4" "b mod 16 < 16" by auto
  ultimately show ?case using 1 by auto
next
  case (2 a b)
  then have "b div 16 < 16" "a div 4 < 64" by auto
  moreover have "a mod 4 < 4" "b mod 16 < 16" by auto
  ultimately show ?case by auto
qed auto

lemma alphabet_codes: "b64_alphabet = map char_of ([65..<91] @ [97..<123] @ [48..<58] @ [45, 95 :: nat])"
  by code_simp

lemma sextet_chars:
  assumes "n < 64"
  shows "char_sextet (sextet_char n) = Some n \<and> sextet_char n \<noteq> CHR ''=''"
proof -
  define m where "m = (if n < 26 then n + 65 else if n < 52 then n + 71 else if n < 62 then n - 4
     else if n = 62 then 45 else 95)"
  have "sextet_char n = char_of m"
    using assms by (auto simp: sextet_char_def alphabet_codes m_def nth_append nth_Cons split: nat.splits)
  moreover have "m < 256" "m \<noteq> 61" using assms by (auto simp: m_def)
  ultimately have code: "(of_char (sextet_char n) :: nat) = m" "m \<noteq> 61" by simp_all
  moreover have "(of_char CHR ''='' :: nat) = 61" by simp
  ultimately have "sextet_char n \<noteq> CHR ''=''" by metis
  moreover have "char_sextet (sextet_char n) = Some n"
    using assms by (simp add: char_sextet_def code(1) Let_def) (auto simp: m_def)
  ultimately show ?thesis by blast
qed

lemma decode_sextets:
  "\<forall>x\<in>set xs. x < 64 \<Longrightarrow>
   map the (filter (\<lambda>x. \<exists>y. x = Some y) (map char_sextet (takeWhile (\<lambda>c. c \<noteq> CHR ''='') (map sextet_char xs)))) = xs"
  by (induction xs) (simp_all add: sextet_chars)

lemma base64url_round_trip: "base64url_decode (base64url_encode s) = s"
proof -
  have bytes: "\<forall>b\<in>set (map of_char s). b < (256 :: nat)" by (auto simp: of_char_def)
  then have "\<forall>x\<in>set (bytes_to_sextets (map of_char s)). x < 64" by (rule sextets_bound)
  with sextets_round_trip [OF bytes] show ?thesis
    by (simp add: base64url_decode_def base64url_encode_def decode_sextets o_def)
qed

lemma decode_encode_cursor: "kvs \<noteq> [] \<Longrightarrow> decode_cursor (encode_cursor kvs) = Inr (cursor_object kvs)"
  by (simp add: decode_cursor_def encode_cursor_def base64url_round_trip parse_printed)

section \<open>Walking the pages\<close>

text \<open>The comparison is a strict linear order on the keys of the rows, as a row comparison in Postgres is.\<close>

definition strict_order_on :: "('k \<Rightarrow> 'k \<Rightarrow> bool) \<Rightarrow> 'k set \<Rightarrow> bool" where
  "strict_order_on prec K \<longleftrightarrow> (\<forall>a\<in>K. \<not> prec a a) \<and>
     (\<forall>a\<in>K. \<forall>b\<in>K. \<forall>c\<in>K. prec a b \<longrightarrow> prec b c \<longrightarrow> prec a c) \<and>
     (\<forall>a\<in>K. \<forall>b\<in>K. a \<noteq> b \<longrightarrow> prec a b \<or> prec b a)"

lemma mset_insert_newest [simp]: "mset (insert_newest prec key x ys) = add_mset x (mset ys)"
  by (induction ys) auto

lemma mset_newest_first [simp]: "mset (newest_first prec key rows) = mset rows"
  by (induction rows) (simp_all add: newest_first_def)

lemma set_newest_first [simp]: "set (newest_first prec key rows) = set rows"
  by (metis mset_newest_first set_mset_mset)

lemma length_newest_first [simp]: "length (newest_first prec key rows) = length rows"
  by (metis mset_newest_first size_mset)

lemma sorted_insert_newest:
  assumes "strict_order_on prec K" "key ` set (x # ys) \<subseteq> K" "key x \<notin> key ` set ys"
    and "sorted_wrt (\<lambda>x y. prec (key y) (key x)) ys"
  shows "sorted_wrt (\<lambda>x y. prec (key y) (key x)) (insert_newest prec key x ys)"
  using assms(2-)
proof (induction ys)
  case (Cons y ys)
  note order = assms(1) [unfolded strict_order_on_def]
  show ?case
  proof (cases "prec (key x) (key y)")
    case True
    have "set (insert_newest prec key x ys) = insert x (set ys)"
      by (metis mset_insert_newest set_mset_add_mset_insert set_mset_mset)
    with Cons True show ?thesis by auto
  next
    case False
    from Cons.prems(1) have K: "key x \<in> K" "key y \<in> K" "\<And>z. z \<in> set ys \<Longrightarrow> key z \<in> K" by auto
    from Cons.prems(2) have "key x \<noteq> key y" by auto
    with False K order have y: "prec (key y) (key x)" by blast
    have "prec (key z) (key x)" if "z \<in> set ys" for z
    proof -
      from that Cons.prems(3) have "prec (key z) (key y)" by simp
      with y that K order show ?thesis by blast
    qed
    with y Cons.prems False show ?thesis by auto
  qed
qed simp

lemma sorted_newest_first:
  "strict_order_on prec K \<Longrightarrow> key ` set rows \<subseteq> K \<Longrightarrow> distinct (map key rows) \<Longrightarrow>
   sorted_wrt (\<lambda>x y. prec (key y) (key x)) (newest_first prec key rows)"
proof (induction rows)
  case (Cons r rows)
  then have "sorted_wrt (\<lambda>x y. prec (key y) (key x)) (newest_first prec key rows)" by simp
  from sorted_insert_newest [OF Cons.prems(1) _ _ this, of r] Cons.prems
  show ?case by (simp add: newest_first_def [of _ _ "r # rows"] flip: newest_first_def)
qed (simp add: newest_first_def)

text \<open>The rows before the key of the last row of a page are the rows after that page.\<close>

lemma filter_after:
  assumes "strict_order_on prec K" "key ` set (xs @ ys) \<subseteq> K" "xs \<noteq> []"
    and "sorted_wrt (\<lambda>x y. prec (key y) (key x)) (xs @ ys)"
  shows "filter (\<lambda>r. prec (key r) (key (last xs))) (xs @ ys) = ys"
proof -
  note order = assms(1) [unfolded strict_order_on_def]
  obtain zs z where xs: "xs = zs @ [z]" using assms(3) by (metis append_butlast_last_id)
  have "\<not> prec (key r) (key z)" if "r \<in> set xs" for r
  proof (cases "r = z")
    case False
    with that xs assms(4) have "prec (key z) (key r)" by (auto simp: sorted_wrt_append)
    with order assms(2) that xs show ?thesis by (metis image_subset_iff in_set_conv_decomp_first Un_iff set_append)
  qed (use order assms(2) xs in auto)
  then have none: "filter (\<lambda>r. prec (key r) (key z)) xs = []" by (simp add: filter_empty_conv)
  moreover have "filter (\<lambda>r. prec (key r) (key z)) ys = ys"
    using assms(4) xs by (auto simp: sorted_wrt_append)
  moreover have "last xs = z" by (simp add: xs)
  ultimately show ?thesis using none by simp
qed

definition keyset_page ::
  "('k \<Rightarrow> string) \<Rightarrow> (string \<Rightarrow> 'k option) \<Rightarrow> ('k \<Rightarrow> 'k \<Rightarrow> bool) \<Rightarrow> ('r \<Rightarrow> 'k) \<Rightarrow> nat \<Rightarrow> 'r list \<Rightarrow> string option \<Rightarrow> 'r page" where
  "keyset_page enc dec prec key max_rows rows cursor =
     create_cursor_page (keyset_rows prec key (Option.bind cursor dec) max_rows rows) max_rows (\<lambda>r. enc (key r))"

text \<open>What a listing needs of its cursors: a printed key is read back.\<close>

locale cursor_codec =
  fixes enc :: "'k \<Rightarrow> string" and dec :: "string \<Rightarrow> 'k option"
  assumes read_printed: "dec (enc k) = Some k"
begin

lemma walk_from:
  assumes "strict_order_on prec K" "key ` set (xs @ ys) \<subseteq> K" "newest_first prec key rows = xs @ ys"
    and "sorted_wrt (\<lambda>x y. prec (key y) (key x)) (xs @ ys)" "0 < max_rows"
    and "\<And>c. c = None \<or> (\<exists>r\<in>set rows. c = Some (enc (key r))) \<Longrightarrow>
       get c = Inr (keyset_page enc dec prec key max_rows rows c)"
    and "cursor = (if xs = [] then None else Some (enc (key (last xs))))" "length ys < fuel"
  shows "walk_pages get fuel cursor = Inr ys"
  using assms(2-4,7,8)
proof (induction fuel arbitrary: xs ys cursor)
  case (Suc fuel)
  have rows: "set rows = set (xs @ ys)" using Suc.prems(2) by (metis set_newest_first)
  have got: "get cursor = Inr (keyset_page enc dec prec key max_rows rows cursor)"
    using Suc.prems(4) rows by (intro assms(6)) (auto simp: last_in_set)
  have cut: "keyset_rows prec key (Option.bind cursor dec) max_rows rows = take (Suc max_rows) ys"
  proof (cases "xs = []")
    case True
    with Suc.prems(2,4) show ?thesis by (simp add: keyset_rows_def)
  next
    case False
    with filter_after [OF assms(1) Suc.prems(1) False Suc.prems(3)] Suc.prems(2,4) show ?thesis
      by (simp add: keyset_rows_def read_printed)
  qed
  show ?case
  proof (cases "max_rows < length ys")
    case False
    then show ?thesis by (simp add: got keyset_page_def cut create_cursor_page_def)
  next
    case True
    let ?next = "Some (enc (key (last (take max_rows ys))))"
    from True assms(5) have ne: "take max_rows ys \<noteq> []" by auto
    have "walk_pages get fuel ?next = Inr (drop max_rows ys)"
    proof (rule Suc.IH)
      show "key ` set ((xs @ take max_rows ys) @ drop max_rows ys) \<subseteq> K" using Suc.prems(1) by simp
      show "newest_first prec key rows = (xs @ take max_rows ys) @ drop max_rows ys" using Suc.prems(2) by simp
      show "sorted_wrt (\<lambda>x y. prec (key y) (key x)) ((xs @ take max_rows ys) @ drop max_rows ys)"
        using Suc.prems(3) by simp
      show "?next = (if xs @ take max_rows ys = [] then None else Some (enc (key (last (xs @ take max_rows ys)))))"
        using ne by simp
      show "length (drop max_rows ys) < fuel" using Suc.prems(5) assms(5) True by simp
    qed
    moreover have "take max_rows (take (Suc max_rows) ys) = take max_rows ys" by (simp add: min_def)
    moreover have "pg_next (keyset_page enc dec prec key max_rows rows cursor) = ?next"
      using True ne by (simp add: keyset_page_def cut create_cursor_page_def min_def)
    ultimately show ?thesis by (simp add: got keyset_page_def cut create_cursor_page_def min_def)
  qed
qed simp

lemma walk_all:
  assumes "strict_order_on prec (key ` set rows)" "distinct (map key rows)" "0 < max_rows" "length rows < fuel"
    and "\<And>c. c = None \<or> (\<exists>r\<in>set rows. c = Some (enc (key r))) \<Longrightarrow>
       get c = Inr (keyset_page enc dec prec key max_rows rows c)"
  shows "walk_pages get fuel None = Inr (newest_first prec key rows)"
proof (rule walk_from [OF assms(1) _ _ _ assms(3,5)])
  show "newest_first prec key rows = [] @ newest_first prec key rows" by simp
  show "sorted_wrt (\<lambda>x y. prec (key y) (key x)) ([] @ newest_first prec key rows)"
    using sorted_newest_first [OF assms(1) _ assms(2)] by simp
qed (use assms(4) in simp_all)

end

section \<open>The keyset cursors of the repositories\<close>

text \<open>
  decodeKeysetCursor of the wallet and payout repositories: a cursor that does not decode to two
  texts counts as none. The field of the timestamp is \<open>ts\<close> there, \<open>createdAt\<close>, \<open>requestedAt\<close> or
  \<open>lastDetectedAt\<close> elsewhere.
\<close>

definition keyset_cursor :: "string \<Rightarrow> row_key \<Rightarrow> string" where
  "keyset_cursor field k = encode_cursor [(field, fst k), (''id'', snd k)]"

definition decode_keyset_cursor :: "string \<Rightarrow> string \<Rightarrow> row_key option" where
  "decode_keyset_cursor field cursor =
     (if cursor = [] then None
      else case decode_cursor cursor of
        Inl e \<Rightarrow> None
      | Inr payload \<Rightarrow>
          (case (map_of payload field, map_of payload ''id'') of
             (Some (JStr t), Some (JStr i)) \<Rightarrow> Some (t, i)
           | _ \<Rightarrow> None))"

text \<open>The cursor's texts are cast to a timestamp and an identifier where the query compares them.\<close>

definition bad_cast :: exn where
  "bad_cast = Database_Error (Some ''22007'') ''invalid input syntax'' None"

definition read_keyset_cursor :: "pg_keys \<Rightarrow> string \<Rightarrow> string option \<Rightarrow> exn + row_key option" where
  "read_keyset_cursor pk field cursor =
     (case Option.bind cursor (decode_keyset_cursor field) of
        Some k \<Rightarrow> if pk_ok pk k then Inr (Some k) else Inl bad_cast
      | None \<Rightarrow> Inr None)"

lemma encode_cursor_not_Nil: "kvs \<noteq> [] \<Longrightarrow> encode_cursor kvs \<noteq> []"
proof
  assume "kvs \<noteq> []" "encode_cursor kvs = []"
  with decode_encode_cursor [of kvs] show False
    by (simp add: decode_cursor_def base64url_decode_def json_parse_def skip_ws_def starts_with_def)
qed

lemma decode_keyset_printed: "field \<noteq> ''id'' \<Longrightarrow> decode_keyset_cursor field (keyset_cursor field k) = Some k"
  by (simp add: decode_keyset_cursor_def keyset_cursor_def encode_cursor_not_Nil decode_encode_cursor
      cursor_object_def obj_put_def)

interpretation ts_cursor: cursor_codec "keyset_cursor ''ts''" "decode_keyset_cursor ''ts''"
  by unfold_locales (simp add: decode_keyset_printed)

interpretation requested_cursor: cursor_codec "keyset_cursor ''requestedAt''" "decode_keyset_cursor ''requestedAt''"
  by unfold_locales (simp add: decode_keyset_printed)

interpretation detected_cursor: cursor_codec "keyset_cursor ''lastDetectedAt''" "decode_keyset_cursor ''lastDetectedAt''"
  by unfold_locales (simp add: decode_keyset_printed)

interpretation created_cursor: cursor_codec "keyset_cursor ''createdAt''" "decode_keyset_cursor ''createdAt''"
  by unfold_locales (simp add: decode_keyset_printed)

section \<open>Properties\<close>

text \<open>
  Property C40: a cursor is read back as the object it was made of, whatever texts it carries,
  quotes, backslashes and control characters included.
\<close>

theorem cursor_round_trip:
  assumes "distinct (map fst kvs)" and "kvs \<noteq> []"
  shows "decode_cursor (encode_cursor kvs) = Inr (map (\<lambda>(k, v). (k, JStr v)) kvs)"
proof -
  have "fold (\<lambda>(k, v). obj_put k (JStr v)) kvs acc = acc @ map (\<lambda>(k, v). (k, JStr v)) kvs"
    if "fst ` set acc \<inter> fst ` set kvs = {}" for acc
    using that assms(1)
    by (induction kvs arbitrary: acc) (auto simp: obj_put_def)
  then have "cursor_object kvs = map (\<lambda>(k, v). (k, JStr v)) kvs" by (simp add: cursor_object_def)
  with decode_encode_cursor [OF assms(2)] show ?thesis by simp
qed

theorem cursor_round_trip_witness:
  "decode_cursor (encode_cursor [(''ts'', [CHR 0x22, CHR 0x5C, CHR 0x0A]), (''id'', ''w1'')]) =
     Inr [(''ts'', JStr [CHR 0x22, CHR 0x5C, CHR 0x0A]), (''id'', JStr ''w1'')]"
  using cursor_round_trip [of "[(''ts'', [CHR 0x22, CHR 0x5C, CHR 0x0A]), (''id'', ''w1'')]"] by simp

end
