(* ===== verification/Wallets.thy ===== *)
theory Wallets
  imports Fee_Settings Pagination Paystack_Event Money
begin

text \<open>
  modules/wallets: the customer's wallet service (wallets.service.ts), the administrators' one
  (admin-wallets.service.ts, the settings part is in \<open>Fee_Settings\<close>), their repository
  (wallets.repository.ts) and the provisioning of dedicated accounts
  (worker/handlers/wallet-dva.handler.ts, wallet-reads.repository.ts).

  Paystack is not under src/: every call the program makes is logged in \<open>wx_log\<close>, and the n-th call
  reads the n-th answer of the stream of its kind.
\<close>

section \<open>State, configuration and Paystack\<close>

record checkout_request =
  cq_email :: string
  cq_amount :: int
  cq_currency :: string
  cq_reference :: string
  cq_metadata :: json
  cq_callback :: string

record checkout_reply =
  ck_reference :: string
  ck_url :: string
  ck_access :: string

record customer_request =
  cu_email :: string
  cu_phone :: string
  cu_first :: "string option"
  cu_last :: "string option"

record account_request =
  ar_customer :: string
  ar_phone :: string
  ar_first :: "string option"
  ar_last :: "string option"

record account_reply =
  ap_number :: string
  ap_name :: string
  ap_bank :: string
  ap_slug :: string
  ap_payload :: json

datatype paystack_call =
    Initialize_Transaction checkout_request
  | Create_Customer customer_request
  | Create_Dedicated_Account account_request

record wallet_app_db = fee_db +
  wx_log :: "paystack_call list"
  wx_checkout :: "nat \<Rightarrow> exn + checkout_reply"
  wx_customer :: "nat \<Rightarrow> exn + string"
  wx_account :: "nat \<Rightarrow> exn + account_reply"

record wallet_env =
  we_fee_bps :: int
  we_fee_cap :: int
  we_pass_fees :: bool
  we_dva_enabled :: bool
  we_app_url :: string

definition paystack_call :: "paystack_call \<Rightarrow> ('z wallet_app_db_scheme, nat) prog" where
  "paystack_call c = (\<lambda>s. (Inr (length (wx_log s)), s\<lparr>wx_log := wx_log s @ [c]\<rparr>))"

definition initialize_transaction :: "checkout_request \<Rightarrow> ('z wallet_app_db_scheme, checkout_reply) prog" where
  "initialize_transaction q = bindM (paystack_call (Initialize_Transaction q)) (\<lambda>n.
     bindM (gets (\<lambda>s. wx_checkout s n)) lift_ok)"

definition create_customer :: "customer_request \<Rightarrow> ('z wallet_app_db_scheme, string) prog" where
  "create_customer q = bindM (paystack_call (Create_Customer q)) (\<lambda>n.
     bindM (gets (\<lambda>s. wx_customer s n)) lift_ok)"

definition create_dedicated_account :: "account_request \<Rightarrow> ('z wallet_app_db_scheme, account_reply) prog" where
  "create_dedicated_account q = bindM (paystack_call (Create_Dedicated_Account q)) (\<lambda>n.
     bindM (gets (\<lambda>s. wx_account s n)) lift_ok)"

section \<open>The repository (wallets.repository.ts, wallet-reads.repository.ts)\<close>

record account_view =
  av_number :: string
  av_name :: string
  av_bank :: string
  av_slug :: string
  av_status :: dva_status

definition account_view_of :: "dedicated_account \<Rightarrow> account_view" where
  "account_view_of a = \<lparr>av_number = da_number a, av_name = da_name a, av_bank = da_bank a,
     av_slug = da_slug a, av_status = da_status a\<rparr>"

definition find_wallet_by_user :: "uuid \<Rightarrow> 'z money_db_scheme \<Rightarrow> wallet option" where
  "find_wallet_by_user user s = lookup_by w_user user (wallets s)"

definition find_dedicated_account :: "uuid \<Rightarrow> 'z money_db_scheme \<Rightarrow> account_view option" where
  "find_dedicated_account wid s = map_option account_view_of (lookup_by da_wallet wid (accounts s))"

text \<open>provider_payload->>'error'; the program only ever stores a text there.\<close>

definition find_dedicated_account_error :: "uuid \<Rightarrow> 'z money_db_scheme \<Rightarrow> string option" where
  "find_dedicated_account_error wid s =
     (case lookup_by da_wallet wid (accounts s) of
        Some a \<Rightarrow> if da_status a = Dva_Failed
                  then (case json_field ''error'' (da_payload a) of Some (JStr m) \<Rightarrow> Some m | _ \<Rightarrow> None) else None
      | None \<Rightarrow> None)"

record ledger_view =
  lv_id :: uuid
  lv_type :: entry_type
  lv_amount :: int
  lv_balance_after :: int
  lv_order :: "uuid option"
  lv_order_number :: "string option"
  lv_reference :: "string option"
  lv_reason :: "string option"
  lv_created :: string

definition ledger_view_of :: "pg_keys \<Rightarrow> order_row list \<Rightarrow> ledger_entry \<Rightarrow> ledger_view" where
  "ledger_view_of pk orders e =
     \<lparr>lv_id = le_id e, lv_type = le_type e, lv_amount = le_amount e, lv_balance_after = le_balance_after e,
      lv_order = le_order e,
      lv_order_number = Option.bind (le_order e) (\<lambda>o'. map_option ord_number (lookup_by ord_id o' orders)),
      lv_reference = le_reference e, lv_reason = le_reason e, lv_created = pk_time pk (le_created e)\<rparr>"

definition ledger_key :: "ledger_view \<Rightarrow> row_key" where
  "ledger_key v = (lv_created v, lv_id v)"

definition ledger_views :: "pg_keys \<Rightarrow> uuid \<Rightarrow> 'z money_db_scheme \<Rightarrow> ledger_view list" where
  "ledger_views pk wid s =
     map (ledger_view_of pk (odb_orders s)) (filter (\<lambda>e. le_wallet e = wid) (ledger s))"

definition to_page :: "('r \<Rightarrow> row_key) \<Rightarrow> nat \<Rightarrow> 'r list \<Rightarrow> 'r page" where
  "to_page key max_rows rows = create_cursor_page rows max_rows (\<lambda>r. keyset_cursor ''ts'' (key r))"

definition list_ledger_entries :: "pg_keys \<Rightarrow> uuid \<Rightarrow> pagination \<Rightarrow> ('z money_db_scheme, ledger_view page) prog" where
  "list_ledger_entries pk wid p =
     bindM (lift_ok (read_keyset_cursor pk ''ts'' (pn_cursor p))) (\<lambda>cursor.
     bindM (gets (ledger_views pk wid)) (\<lambda>views.
       ret (to_page ledger_key (pn_limit p) (keyset_rows (pk_before pk) ledger_key cursor (pn_limit p) views))))"

record admin_wallet =
  aw_wallet :: wallet
  aw_email :: "string option"
  aw_name :: "string option"
  aw_number :: "string option"
  aw_over_cap :: bool
  aw_created :: string

definition admin_wallet_of :: "pg_keys \<Rightarrow> int \<Rightarrow> 'z money_db_scheme \<Rightarrow> wallet \<Rightarrow> admin_wallet" where
  "admin_wallet_of pk cap s w =
     (let p = lookup_by prof_id (w_user w) (profiles s); a = lookup_by da_wallet (w_id w) (accounts s)
      in \<lparr>aw_wallet = w, aw_email = Option.bind p prof_email, aw_name = Option.bind p prof_name,
          aw_number = (case a of Some d \<Rightarrow> if da_status d = Dva_Active then Some (da_number d) else None | None \<Rightarrow> None),
          aw_over_cap = (cap < w_balance w), aw_created = pk_time pk (w_created w)\<rparr>)"

definition admin_wallet_key :: "admin_wallet \<Rightarrow> row_key" where
  "admin_wallet_key v = (aw_created v, w_id (aw_wallet v))"

text \<open>order by over_cap desc, created_at desc, id desc; the cursor compares (created_at, id) only.\<close>

definition wallet_rows :: "pg_keys \<Rightarrow> row_key option \<Rightarrow> nat \<Rightarrow> admin_wallet list \<Rightarrow> admin_wallet list" where
  "wallet_rows pk cursor max_rows views =
     (let sorted = newest_first (pk_before pk) admin_wallet_key
            (filter (\<lambda>v. case cursor of None \<Rightarrow> True | Some k \<Rightarrow> pk_before pk (admin_wallet_key v) k) views)
      in take (Suc max_rows) (filter aw_over_cap sorted @ filter (\<lambda>v. \<not> aw_over_cap v) sorted))"

definition list_wallet_rows :: "pg_keys \<Rightarrow> pagination \<Rightarrow> int \<Rightarrow> ('z money_db_scheme, admin_wallet page) prog" where
  "list_wallet_rows pk p cap =
     bindM (lift_ok (read_keyset_cursor pk ''ts'' (pn_cursor p))) (\<lambda>cursor.
     bindM (gets (\<lambda>s. map (admin_wallet_of pk cap s) (wallets s))) (\<lambda>views.
       ret (to_page admin_wallet_key (pn_limit p) (wallet_rows pk cursor (pn_limit p) views))))"

definition require_wallet_row :: "uuid \<Rightarrow> ('z money_db_scheme, wallet) prog" where
  "require_wallet_row wid =
     bindM (gets (find_wallet wid)) (\<lambda>w.
       case w of None \<Rightarrow> raise (Plain_Error (''Wallet '' @ wid @ '' disappeared during the operation.''))
       | Some r \<Rightarrow> ret r)"

definition adjust_wallet_row :: "uuid \<Rightarrow> int \<Rightarrow> string \<Rightarrow> uuid \<Rightarrow> ('z money_db_scheme, wallet) prog" where
  "adjust_wallet_row wid amount reason actor_id =
     bindM (to_int4 amount) (\<lambda>n.
     thenM (transaction (bindM (admin_adjust_wallet wid n (Some reason) actor_id) (\<lambda>_. ret ())))
       (require_wallet_row wid))"

definition set_wallet_status_row :: "uuid \<Rightarrow> wallet_status \<Rightarrow> ('z money_db_scheme, wallet) prog" where
  "set_wallet_status_row wid st =
     thenM (transaction (bindM (set_wallet_status wid st) (\<lambda>_. ret ()))) (require_wallet_row wid)"

text \<open>insert .. on conflict (wallet_id) do update; account numbers are unique.\<close>

definition account_refused :: "dedicated_account \<Rightarrow> dedicated_account list \<Rightarrow> exn option" where
  "account_refused a rows =
     (if list_ex (\<lambda>x. da_number x = da_number a \<and> da_wallet x \<noteq> da_wallet a) rows
      then Some (pg_error ''23505'' ''duplicate key value violates unique constraint wallet_dedicated_accounts_account_number_key'')
      else (case da_payload a of JObj kvs \<Rightarrow> None
        | _ \<Rightarrow> Some (pg_error ''23514'' ''new row violates check constraint wallet_dedicated_accounts_payload_object'')))"

definition store_account :: "dedicated_account \<Rightarrow> dedicated_account list \<Rightarrow> dedicated_account list" where
  "store_account a rows =
     (if da_wallet a \<in> da_wallet ` set rows then update_where (\<lambda>x. da_wallet x = da_wallet a) (\<lambda>_. a) rows
      else rows @ [a])"

definition upsert_dedicated_account :: "dedicated_account \<Rightarrow> ('z money_db_scheme, account_view) prog" where
  "upsert_dedicated_account a =
     bindM (gets (\<lambda>s. account_refused a (accounts s))) (\<lambda>refused.
       case refused of
         Some e \<Rightarrow> raise e
       | None \<Rightarrow> thenM (modify (\<lambda>s. s\<lparr>accounts := store_account a (accounts s)\<rparr>)) (ret (account_view_of a)))"

definition list_wallets_missing_account :: "nat \<Rightarrow> 'z money_db_scheme \<Rightarrow> (uuid \<times> uuid) list" where
  "list_wallets_missing_account max_rows s =
     take max_rows (map (\<lambda>w. (w_id w, w_user w)) (sort_key w_created
       (filter (\<lambda>w. w_id w \<notin> da_wallet ` set (accounts s)) (wallets s))))"

record wallet_owner =
  wo_wallet :: uuid
  wo_user :: uuid
  wo_email :: "string option"
  wo_name :: "string option"
  wo_phone :: "string option"

definition find_wallet_owner :: "uuid \<Rightarrow> 'z money_db_scheme \<Rightarrow> wallet_owner option" where
  "find_wallet_owner wid s =
     map_option (\<lambda>w. let p = lookup_by prof_id (w_user w) (profiles s)
       in \<lparr>wo_wallet = w_id w, wo_user = w_user w, wo_email = Option.bind p prof_email,
           wo_name = Option.bind p prof_name, wo_phone = Option.bind p prof_phone\<rparr>) (find_wallet wid s)"

section \<open>Dedicated accounts (wallet-dva.handler.ts)\<close>

text \<open>The words of a name, and the names Paystack is given for it.\<close>

fun words_of :: "string \<Rightarrow> string \<Rightarrow> string list" where
  "words_of acc [] = (if acc = [] then [] else [rev acc])"
| "words_of acc (c # cs) =
     (if js_space c then (if acc = [] then words_of [] cs else rev acc # words_of [] cs)
      else words_of (c # acc) cs)"

definition split_display_name :: "string option \<Rightarrow> string option \<times> string option" where
  "split_display_name name =
     (case words_of [] (case name of None \<Rightarrow> [] | Some n \<Rightarrow> n) of
        [] \<Rightarrow> (None, None)
      | [first] \<Rightarrow> (Some first, Some first)
      | first # rest \<Rightarrow> (Some first, Some (join_with '' '' rest)))"

definition to_paystack_phone :: "string option \<Rightarrow> string option" where
  "to_paystack_phone phone =
     (let digits = filter (\<lambda>c. \<not> js_space c \<and> c \<notin> set ''()-'') (case phone of None \<Rightarrow> [] | Some x \<Rightarrow> x) in
      if digits = [] then None
      else if length digits = 11 \<and> hd digits = CHR ''0'' \<and> list_all is_digit digits
      then Some (''+234'' @ drop 1 digits)
      else if length digits = 13 \<and> starts_with ''234'' digits \<and> list_all is_digit digits
      then Some (''+'' @ digits)
      else Some digits)"

datatype provision_outcome = Provisioned | Missing_Email | Missing_Phone

definition failed_account :: "uuid \<Rightarrow> string \<Rightarrow> exn \<Rightarrow> dedicated_account" where
  "failed_account wid code e =
     \<lparr>da_wallet = wid, da_customer_code = code, da_number = ''pending:'' @ wid, da_name = ''pending'',
      da_bank = ''pending'', da_slug = ''pending'', da_status = Dva_Failed,
      da_payload = JObj [(''error'', JStr (error_message e))]\<rparr>"

definition record_provision_failure :: "uuid \<Rightarrow> string \<Rightarrow> exn \<Rightarrow> ('z money_db_scheme, provision_outcome) prog" where
  "record_provision_failure wid code e =
     bindM (upsert_dedicated_account (failed_account wid code e)) (\<lambda>_. raise e)"

definition provision_dedicated_account :: "uuid \<Rightarrow> ('z wallet_app_db_scheme, provision_outcome) prog" where
  "provision_dedicated_account wid =
     bindM (gets (find_wallet_owner wid)) (\<lambda>owner.
       case Option.bind owner wo_email of
         None \<Rightarrow> ret Missing_Email
       | Some mail \<Rightarrow>
           (case to_paystack_phone (Option.bind owner wo_phone) of
              None \<Rightarrow> ret Missing_Phone
            | Some phone \<Rightarrow>
                (case split_display_name (Option.bind owner wo_name) of (first, last_name) \<Rightarrow>
                 bindM (catchM (bindM (create_customer \<lparr>cu_email = mail, cu_phone = phone, cu_first = first,
                          cu_last = last_name\<rparr>) (\<lambda>c. ret (Inr c))) (\<lambda>e. ret (Inl e))) (\<lambda>made.
                   case made of
                     Inl e \<Rightarrow> record_provision_failure wid [] e
                   | Inr code \<Rightarrow>
                       catchM (bindM (create_dedicated_account \<lparr>ar_customer = code, ar_phone = phone,
                                  ar_first = first, ar_last = last_name\<rparr>) (\<lambda>r.
                            bindM (upsert_dedicated_account
                              \<lparr>da_wallet = wid, da_customer_code = code, da_number = ap_number r,
                               da_name = ap_name r, da_bank = ap_bank r, da_slug = ap_slug r,
                               da_status = Dva_Active, da_payload = ap_payload r\<rparr>) (\<lambda>_. ret Provisioned)))
                         (record_provision_failure wid code)))))"

text \<open>The outbox handler of wallet.dva_requested, for the event's wallet.\<close>

definition wallet_dva_handler :: "wallet_env \<Rightarrow> uuid \<Rightarrow> ('z wallet_app_db_scheme, unit) prog" where
  "wallet_dva_handler env wid =
     (if \<not> we_dva_enabled env then ret ()
      else bindM (gets (find_dedicated_account wid)) (\<lambda>existing.
        if map_option av_status existing = Some Dva_Active then ret ()
        else bindM (provision_dedicated_account wid) (\<lambda>_. ret ())))"

section \<open>The customer's service (wallets.service.ts)\<close>

definition customer_only :: "actor \<Rightarrow> exn + unit" where
  "customer_only a = (if role a \<noteq> Customer then Inl (forbidden ''Only customers hold wallets.'') else Inr ())"

definition not_read_back :: "uuid \<Rightarrow> exn" where
  "not_read_back wid = Plain_Error (''Wallet '' @ wid @ '' was provisioned but could not be read back.'')"

record wallet_view =
  wv_balance :: int
  wv_currency :: string
  wv_status :: wallet_status
  wv_min_topup :: int
  wv_max_balance :: int
  wv_fee_bps :: int
  wv_fee_cap :: int
  wv_account :: "account_view option"
  wv_account_status :: "dva_status option"
  wv_account_error :: "string option"

definition get_wallet :: "wallet_env \<Rightarrow> actor \<Rightarrow> ('z wallet_app_db_scheme, wallet_view) prog" where
  "get_wallet env a =
     thenM (lift_ok (customer_only a))
    (bindM (ensure_customer_wallet (user_id a)) (\<lambda>wid.
     bindM (gets (find_wallet wid)) (\<lambda>found.
     bindM (gets (find_dedicated_account wid)) (\<lambda>account.
     bindM find_wallet_limits (\<lambda>(lower, upper).
     bindM (gets (find_dedicated_account_error wid)) (\<lambda>stored_error.
       case found of
         None \<Rightarrow> raise (not_read_back wid)
       | Some w \<Rightarrow> ret
           \<lparr>wv_balance = w_balance w, wv_currency = w_currency w, wv_status = w_status w,
            wv_min_topup = lower, wv_max_balance = upper, wv_fee_bps = we_fee_bps env,
            wv_fee_cap = we_fee_cap env,
            wv_account = (case account of Some d \<Rightarrow> if av_status d = Dva_Active then Some d else None | None \<Rightarrow> None),
            wv_account_status = map_option av_status account,
            wv_account_error = (if map_option av_status account = Some Dva_Failed then stored_error else None)\<rparr>))))))"

definition list_ledger :: "pg_keys \<Rightarrow> actor \<Rightarrow> string option \<Rightarrow> js_num option \<Rightarrow> ('z wallet_app_db_scheme, ledger_view page) prog" where
  "list_ledger pk a cursor max_rows =
     thenM (lift_ok (customer_only a))
    (bindM (ensure_customer_wallet (user_id a)) (\<lambda>wid.
       list_ledger_entries pk wid (normalize_cursor_pagination cursor max_rows)))"

definition quote_topup :: "wallet_env \<Rightarrow> actor \<Rightarrow> int \<Rightarrow> exn + topup_charge" where
  "quote_topup env a amount =
     let_ok (customer_only a) (\<lambda>_. Inr (calculate_topup_charge amount (we_pass_fees env)))"

record topup_checkout =
  tk_reference :: string
  tk_url :: string
  tk_access :: string
  tk_amount :: int
  tk_fee :: int
  tk_charge :: int

text \<open>\<open>nonce\<close> is the value of randomUUID.\<close>

definition initialize_topup ::
  "wallet_env \<Rightarrow> uuid \<Rightarrow> actor \<Rightarrow> js_num \<Rightarrow> ('z wallet_app_db_scheme, topup_checkout) prog" where
  "initialize_topup env nonce a v =
     thenM (lift_ok (customer_only a))
     (case as_integer v of
        None \<Rightarrow> raise (bad_request ''Top-up amount must be a positive whole number of kobo.'')
      | Some amount \<Rightarrow>
          if amount \<le> 0 then raise (bad_request ''Top-up amount must be a positive whole number of kobo.'')
          else case email a of
            None \<Rightarrow> raise (bad_request ''Add an email address to your account old topping up.'')
          | Some mail \<Rightarrow>
              bindM (ensure_customer_wallet (user_id a)) (\<lambda>wid.
              bindM (gets (find_wallet wid)) (\<lambda>found.
              bindM find_wallet_limits (\<lambda>(lower, upper).
                case found of
                  None \<Rightarrow> raise (not_read_back wid)
                | Some w \<Rightarrow>
                    if amount < lower then raise (bad_request (''The minimum top-up is '' @ naira lower @ ''.''))
                    else if upper < w_balance w + amount
                    then raise (bad_request (''That would take your wallet above the '' @ naira upper @
                           '' limit. You can add up to '' @ naira (max 0 (upper - w_balance w)) @ ''.''))
                    else
                      let charge = calculate_topup_charge amount (we_pass_fees env)
                      in bindM (initialize_transaction
                           \<lparr>cq_email = mail, cq_amount = tc_charge_kobo charge, cq_currency = w_currency w,
                            cq_reference = ''WTU-'' @ nonce,
                            cq_metadata = topup_metadata_sent (user_id a) wid amount,
                            cq_callback = we_app_url env @ ''/#/wallet''\<rparr>) (\<lambda>k.
                         ret \<lparr>tk_reference = ck_reference k, tk_url = ck_url k, tk_access = ck_access k,
                              tk_amount = amount, tk_fee = tc_fee_kobo charge, tk_charge = tc_charge_kobo charge\<rparr>)))))"

definition request_dedicated_account :: "wallet_env \<Rightarrow> actor \<Rightarrow> ('z wallet_app_db_scheme, account_view) prog" where
  "request_dedicated_account env a =
     thenM (lift_ok (customer_only a))
     (if \<not> we_dva_enabled env
      then raise (bad_request ''Dedicated account numbers are not available yet. Top up with card or bank transfer instead.'')
      else bindM (ensure_customer_wallet (user_id a)) (\<lambda>wid.
        bindM (gets (find_dedicated_account wid)) (\<lambda>existing.
          if map_option av_status existing = Some Dva_Active then ret (the existing)
          else bindM (provision_dedicated_account wid) (\<lambda>outcome.
            if outcome = Missing_Email
            then raise (bad_request ''Add an email address to your account to get a dedicated account number.'')
            else if outcome = Missing_Phone
            then raise (bad_request ''Add a phone number to your profile to get a dedicated account number.'')
            else bindM (gets (find_dedicated_account wid)) (\<lambda>account.
              if map_option av_status account = Some Dva_Active then ret (the account)
              else raise (bad_request ''Your dedicated account is still being created. Try again in a few minutes.''))))))"

section \<open>The administrators' service (admin-wallets.service.ts)\<close>

definition require_wallet :: "uuid \<Rightarrow> ('z money_db_scheme, wallet) prog" where
  "require_wallet wid =
     bindM (gets (find_wallet wid)) (\<lambda>w.
       case w of None \<Rightarrow> raise (not_found ''Wallet was not found.'') | Some r \<Rightarrow> ret r)"

definition list_wallets :: "pg_keys \<Rightarrow> string option \<Rightarrow> js_num option \<Rightarrow> ('z money_db_scheme, admin_wallet page) prog" where
  "list_wallets pk cursor max_rows =
     bindM find_wallet_limits (\<lambda>(lower, upper).
       list_wallet_rows pk (normalize_cursor_pagination cursor max_rows) upper)"

definition admin_list_ledger :: "pg_keys \<Rightarrow> uuid \<Rightarrow> string option \<Rightarrow> js_num option \<Rightarrow> ('z money_db_scheme, ledger_view page) prog" where
  "admin_list_ledger pk wid cursor max_rows =
     bindM (require_wallet wid) (\<lambda>_. list_ledger_entries pk wid (normalize_cursor_pagination cursor max_rows))"

fun wallet_status_str :: "wallet_status \<Rightarrow> string" where
  "wallet_status_str Wallet_Active = ''active''"
| "wallet_status_str Wallet_Frozen = ''frozen''"

definition num_of :: "int \<Rightarrow> json" where
  "num_of n = JNum (js_int n)"

definition adjust_wallet :: "actor \<Rightarrow> uuid \<Rightarrow> js_num \<Rightarrow> string \<Rightarrow> ('z fee_db_scheme, wallet) prog" where
  "adjust_wallet a wid v reason_given =
     (case as_integer v of
        None \<Rightarrow> raise (bad_request ''Adjustment amount must be a non-zero whole number of kobo.'')
      | Some amount \<Rightarrow>
          if amount = 0 then raise (bad_request ''Adjustment amount must be a non-zero whole number of kobo.'')
          else let reason = js_trim reason_given in
            if reason = [] then raise (bad_request ''A reason is required for a wallet adjustment.'')
            else bindM (require_wallet wid) (\<lambda>old.
              bindM (adjust_wallet_row wid amount reason (user_id a)) (\<lambda>after.
                thenM (record_audit
                  \<lparr>au_actor = user_id a, au_actor_type = actor_type_for_role (role a), au_campus = None, au_action = ''wallet.adjust'',
                   au_entity_type = ''wallet'', au_entity_id = Some wid,
                   au_before = Some (JObj [(''balanceKobo'', num_of (w_balance old))]),
                   au_after = Some (JObj [(''balanceKobo'', num_of (w_balance after))]),
                   au_metadata = JObj [(''amountKobo'', num_of amount), (''reason'', JStr reason),
                                       (''customerId'', JStr (w_user old))]\<rparr>) (ret after))))"

definition set_status :: "actor \<Rightarrow> uuid \<Rightarrow> wallet_status \<Rightarrow> string option \<Rightarrow> ('z fee_db_scheme, wallet) prog" where
  "set_status a wid st reason =
     bindM (require_wallet wid) (\<lambda>old.
     bindM (set_wallet_status_row wid st) (\<lambda>after.
       thenM (record_audit
         \<lparr>au_actor = user_id a, au_actor_type = actor_type_for_role (role a), au_campus = None,
          au_action = (if st = Wallet_Frozen then ''wallet.freeze'' else ''wallet.unfreeze''),
          au_entity_type = ''wallet'', au_entity_id = Some wid,
          au_before = Some (JObj [(''status'', JStr (wallet_status_str (w_status old)))]),
          au_after = Some (JObj [(''status'', JStr (wallet_status_str (w_status after)))]),
          au_metadata = JObj ((''customerId'', JStr (w_user old)) #
            (case reason of None \<Rightarrow> [] | Some r \<Rightarrow> [(''reason'', JStr r)]))\<rparr>) (ret after)))"

section \<open>Starting a top-up\<close>

lemma find_wallet_limits_app:
  obtains (limits) lower upper where "find_wallet_limits s = (Inr (lower, upper), s)"
  | (raises) e where "find_wallet_limits s = (Inl e, s)"
proof (cases rule: platform_setting_app [of "''wallet_min_topup_kobo''" default_min_topup_kobo s])
  case (reads n)
  show thesis
    by (cases rule: platform_setting_app [of "''wallet_max_balance_kobo''" default_max_balance_kobo s])
      (use reads limits raises in \<open>auto simp: find_wallet_limits_def prog_simps\<close>)
qed (use raises in \<open>auto simp: find_wallet_limits_def prog_simps\<close>)

definition checkout_sent :: "wallet_env \<Rightarrow> uuid \<Rightarrow> string \<Rightarrow> wallet \<Rightarrow> int \<Rightarrow> checkout_request" where
  "checkout_sent env nonce mail w amount =
     \<lparr>cq_email = mail, cq_amount = tc_charge_kobo (calculate_topup_charge amount (we_pass_fees env)),
      cq_currency = w_currency w, cq_reference = ''WTU-'' @ nonce,
      cq_metadata = topup_metadata_sent (w_user w) (w_id w) amount, cq_callback = we_app_url env @ ''/#/wallet''\<rparr>"

text \<open>A checkout that started asked for a whole amount within the limits of the caller's own wallet.\<close>

lemma initialize_topup_cases:
  assumes run: "initialize_topup env nonce a v s = (Inr k, t)" and inv: "money_inv s"
  obtains (started) n mail w lower upper where
    "v = js_int n" "0 < n" "role a = Customer" "email a = Some mail" "w_user w = user_id a"
    "find_wallet (w_id w) t = Some w" "find_wallet_limits t = (Inr (lower, upper), t)"
    "lower \<le> n" "w_balance w + n \<le> upper"
    "wx_log t = wx_log s @ [Initialize_Transaction (checkout_sent env nonce mail w n)]"
    "tk_amount k = n" "tk_charge k = tc_charge_kobo (calculate_topup_charge n (we_pass_fees env))"
    "ledger t = ledger s"
proof -
  from run obtain n mail where n: "v = js_int n" "0 < n" "role a = Customer" "email a = Some mail"
    by (auto simp: initialize_topup_def customer_only_def prog_simps as_integer_Some
        split: option.splits if_splits)
  obtain r u where ensured: "ensure_customer_wallet (user_id a) s = (r, u)" by force
  with run n obtain wid where "r = Inr wid"
    by (cases r) (auto simp: initialize_topup_def customer_only_def prog_simps)
  with ensured have ok: "ensure_customer_wallet (user_id a) s = (Inr wid, u)" by simp
  from ensure_wallet_found [OF ok inv] obtain w where w: "find_wallet wid u = Some w" "w_user w = user_id a"
    and l: "ledger u = ledger s" by blast
  then have wid: "w_id w = wid" by (auto simp: find_wallet_def dest: lookup_by_Some)
  have logs: "wx_log u = wx_log s"
    using ok by (auto simp: ensure_app split: option.splits if_splits)
  show thesis
  proof (cases rule: find_wallet_limits_app [of u])
    case (limits lower upper)
    let ?q = "checkout_sent env nonce mail w n"
    let ?t = "u\<lparr>wx_log := wx_log u @ [Initialize_Transaction ?q]\<rparr>"
    from run n ok w limits wid have within: "lower \<le> n" "w_balance w + n \<le> upper" and t: "t = ?t"
      and k: "tk_amount k = n" "tk_charge k = tc_charge_kobo (calculate_topup_charge n (we_pass_fees env))"
      by (auto simp: initialize_topup_def customer_only_def prog_simps Let_def checkout_sent_def
          initialize_transaction_def paystack_call_def split: if_splits sum.splits)
    have "find_wallet (w_id w) ?t = find_wallet (w_id w) u" by (simp add: find_wallet_def)
    moreover have "find_wallet_limits ?t = (Inr (lower, upper), ?t)"
      using limits by (auto simp: find_wallet_limits_def platform_setting_int_def prog_simps to_int4_app split: option.splits json.splits js_num.splits if_splits sum.splits)
    ultimately show thesis using n w wid within t k logs l by (intro started) simp_all
  next
    case (raises e)
    with run n ok w show thesis by (simp add: initialize_topup_def customer_only_def prog_simps)
  qed
qed

section \<open>Pages of the listings\<close>

lemma read_printed_cursor:
  "read_keyset_cursor pk ''ts'' (Some (keyset_cursor ''ts'' k)) = (if pk_ok pk k then Inr (Some k) else Inl bad_cast)"
  by (simp add: read_keyset_cursor_def ts_cursor.read_printed)

lemma printed_cursor_not_Nil: "keyset_cursor field k \<noteq> []"
  by (simp add: keyset_cursor_def encode_cursor_not_Nil)

lemma normalize_whole: "0 < n \<Longrightarrow>
   normalize_cursor_pagination cursor (Some (Fin (of_nat n))) =
     \<lparr>pn_cursor = (if cursor = Some [] then None else cursor), pn_limit = min n max_cursor_limit\<rparr>"
  by (simp add: normalize_cursor_pagination_def)

text \<open>A page of the ledger is the keyset page of its views.\<close>

lemma ledger_page:
  assumes "cursor = None \<or> (\<exists>r\<in>set (ledger_views pk wid s). cursor = Some (keyset_cursor ''ts'' (ledger_key r)))"
    and "\<forall>r\<in>set (ledger_views pk wid s). pk_ok pk (ledger_key r)"
  shows "list_ledger_entries pk wid \<lparr>pn_cursor = cursor, pn_limit = n\<rparr> s =
    (Inr (keyset_page (keyset_cursor ''ts'') (decode_keyset_cursor ''ts'') (pk_before pk) ledger_key n
       (ledger_views pk wid s) cursor), s)"
  using assms
  by (auto simp: list_ledger_entries_def prog_simps read_printed_cursor to_page_def keyset_page_def
      ts_cursor.read_printed read_keyset_cursor_def)

text \<open>The rows of a page that starts at a cursor all come before it.\<close>

lemma wallet_rows_before: "v \<in> set (wallet_rows pk (Some k) n views) \<Longrightarrow> pk_before pk (admin_wallet_key v) k"
  by (auto simp: wallet_rows_def Let_def simp del: take_append dest: in_set_takeD)

lemma page_rows: "v \<in> set (pg_items (to_page key n rows)) \<Longrightarrow> v \<in> set rows"
  by (auto simp: to_page_def create_cursor_page_def dest: in_set_takeD)

lemma list_wallet_rows_app:
  "list_wallet_rows pk p cap s =
     (case read_keyset_cursor pk ''ts'' (pn_cursor p) of Inl e \<Rightarrow> (Inl e, s)
      | Inr cursor \<Rightarrow> (Inr (to_page admin_wallet_key (pn_limit p)
          (wallet_rows pk cursor (pn_limit p) (map (admin_wallet_of pk cap s) (wallets s)))), s))"
  by (simp add: list_wallet_rows_def prog_simps split: sum.split)

lemma list_wallets_app:
  "list_wallets pk cursor n s =
     (case find_wallet_limits s of (Inl e, s') \<Rightarrow> (Inl e, s')
      | (Inr (lower, upper), s') \<Rightarrow> list_wallet_rows pk (normalize_cursor_pagination cursor n) upper s')"
  by (simp add: list_wallets_def prog_simps split: sum.split prod.split)

lemma page_next: "pg_next (to_page key n rows) = Some c \<Longrightarrow>
   c = keyset_cursor ''ts'' (key (last (pg_items (to_page key n rows)))) \<and> pg_items (to_page key n rows) \<noteq> []"
  by (auto simp: to_page_def create_cursor_page_def split: if_splits)

text \<open>Whatever follows a cursor in a walk comes before its key.\<close>

lemma wallets_after_cursor:
  assumes trans: "transp (pk_before pk)"
  shows "walk_pages (\<lambda>c. fst (list_wallets pk c n s)) fuel (Some (keyset_cursor ''ts'' k)) = Inr rest \<Longrightarrow>
    v \<in> set rest \<Longrightarrow> pk_before pk (admin_wallet_key v) k"
proof (induction fuel arbitrary: k rest)
  case (Suc fuel)
  obtain lower upper where lim: "find_wallet_limits s = (Inr (lower, upper), s)"
    by (rule find_wallet_limits_app [of s]) (use Suc.prems(1) in \<open>auto simp: list_wallets_app\<close>)
  define m where "m = pn_limit (normalize_cursor_pagination (Some (keyset_cursor ''ts'' k)) n)"
  define rows where "rows = wallet_rows pk (Some k) m (map (admin_wallet_of pk upper s) (wallets s))"
  have cur: "pn_cursor (normalize_cursor_pagination (Some (keyset_cursor ''ts'' k)) n) = Some (keyset_cursor ''ts'' k)"
    by (simp add: normalize_cursor_pagination_def printed_cursor_not_Nil)
  have got: "fst (list_wallets pk (Some (keyset_cursor ''ts'' k)) n s) =
      (if pk_ok pk k then Inr (to_page admin_wallet_key m rows) else Inl bad_cast)"
    by (simp add: list_wallets_app lim list_wallet_rows_app cur read_printed_cursor m_def rows_def)
  have first: "pk_before pk (admin_wallet_key x) k" if "x \<in> set (pg_items (to_page admin_wallet_key m rows))" for x
    using page_rows [OF that] unfolding rows_def by (rule wallet_rows_before)
  show ?case
  proof (cases "pg_next (to_page admin_wallet_key m rows)")
    case None
    with Suc.prems got first show ?thesis by (auto split: if_splits)
  next
    case (Some c)
    define k' where "k' = admin_wallet_key (last (pg_items (to_page admin_wallet_key m rows)))"
    from page_next [OF Some] have c: "c = keyset_cursor ''ts'' k'" and "pk_before pk k' k"
      using first by (auto simp: k'_def)
    from Suc.prems got Some obtain rest' where
      rest: "walk_pages (\<lambda>c. fst (list_wallets pk c n s)) fuel (Some (keyset_cursor ''ts'' k')) = Inr rest'"
      "rest = pg_items (to_page admin_wallet_key m rows) @ rest'"
      by (auto simp: c let_ok_Inr split: if_splits)
    from Suc.prems(2) rest(2) consider "v \<in> set (pg_items (to_page admin_wallet_key m rows))" | "v \<in> set rest'" by auto
    then show ?thesis
    proof cases
      case 2
      from Suc.IH [OF rest(1) 2] \<open>pk_before pk k' k\<close> show ?thesis by (rule transpD [OF trans])
    qed (rule first)
  qed
qed simp

text \<open>The first rows of a page are the over-cap wallets: a page that ends in one holds no other.\<close>

lemma over_cap_first:
  assumes "m < length (wallet_rows pk cursor m views)"
    and "aw_over_cap (last (take m (wallet_rows pk cursor m views)))" and "v \<in> set (take m (wallet_rows pk cursor m views))"
  shows "aw_over_cap v"
proof -
  define sorted where "sorted = newest_first (pk_before pk) admin_wallet_key
      (filter (\<lambda>v. case cursor of None \<Rightarrow> True | Some k \<Rightarrow> pk_before pk (admin_wallet_key v) k) views)"
  define xs where "xs = filter aw_over_cap sorted"
  define ys where "ys = filter (\<lambda>v. \<not> aw_over_cap v) sorted"
  have rows: "wallet_rows pk cursor m views = take (Suc m) (xs @ ys)"
    by (simp only: wallet_rows_def Let_def sorted_def xs_def ys_def)
  have cut: "take m (wallet_rows pk cursor m views) = take m (xs @ ys)"
    unfolding rows by (simp add: min_def del: take_append)
  show ?thesis
  proof (cases "m \<le> length xs")
    case True
    with assms(3) show ?thesis unfolding cut by (auto simp: xs_def dest: in_set_takeD)
  next
    case False
    then have t: "take m (xs @ ys) = xs @ take (m - length xs) ys" by simp
    have ne: "take (m - length xs) ys \<noteq> []" using False assms(1) unfolding rows by auto
    then have "last (take m (xs @ ys)) \<in> set ys" unfolding t by (metis in_set_takeD last_appendR last_in_set)
    with assms(2) show ?thesis unfolding cut by (simp add: ys_def)
  qed
qed

lemma admin_ledger_page:
  assumes "find_wallet wid s = Some w" "0 < n"
    and "cursor = None \<or> (\<exists>r\<in>set (ledger_views pk wid s). cursor = Some (keyset_cursor ''ts'' (ledger_key r)))"
    and "\<forall>r\<in>set (ledger_views pk wid s). pk_ok pk (ledger_key r)"
  shows "fst (admin_list_ledger pk wid cursor (Some (Fin (of_nat n))) s) =
    Inr (keyset_page (keyset_cursor ''ts'') (decode_keyset_cursor ''ts'') (pk_before pk) ledger_key
       (min n max_cursor_limit) (ledger_views pk wid s) cursor)"
proof -
  have "normalize_cursor_pagination cursor (Some (Fin (of_nat n))) =
      \<lparr>pn_cursor = cursor, pn_limit = min n max_cursor_limit\<rparr>"
    using assms(2,3) by (auto simp: normalize_whole dest: printed_cursor_not_Nil [THEN notE, OF sym])
  with ledger_page [OF assms(3,4)] assms(1) show ?thesis
    by (simp add: admin_list_ledger_def require_wallet_def prog_simps)
qed

section \<open>What provisioning leaves behind\<close>

definition accounts_ok :: "'z money_db_scheme \<Rightarrow> bool" where
  "accounts_ok s \<longleftrightarrow> distinct (map da_wallet (accounts s)) \<and> distinct (map da_number (accounts s))"

lemma upsert_account_app:
  "upsert_dedicated_account a s =
     (case account_refused a (accounts s) of
        Some e \<Rightarrow> (Inl e, s)
      | None \<Rightarrow> (Inr (account_view_of a), s\<lparr>accounts := store_account a (accounts s)\<rparr>))"
  by (simp add: upsert_dedicated_account_def prog_simps split: option.split)

definition account_of :: "uuid \<Rightarrow> 'z money_db_scheme \<Rightarrow> dedicated_account option" where
  "account_of wid s = lookup_by da_wallet wid (accounts s)"

lemma lookup_stored:
  "lookup_by da_wallet wid (store_account a rows) = (if wid = da_wallet a then Some a else lookup_by da_wallet wid rows)"
proof (cases "da_wallet a \<in> da_wallet ` set rows")
  case False
  then have "lookup_by da_wallet (da_wallet a) rows = None" by (simp add: lookup_by_None)
  with False show ?thesis by (auto simp: store_account_def table_simps split: option.splits)
qed (simp add: store_account_def lookup_replaced_row)

lemma upsert_account_stores:
  assumes "upsert_dedicated_account a s = (Inr v, t)"
  shows "account_of wid t = (if wid = da_wallet a then Some a else account_of wid s)"
  using assms by (auto simp: upsert_account_app account_of_def lookup_stored split: option.splits)

lemma number_free: "account_refused a rows = None \<Longrightarrow> x \<in> set rows \<Longrightarrow> da_number x = da_number a \<Longrightarrow> da_wallet x = da_wallet a"
  by (auto simp: account_refused_def list_ex_iff split: if_splits)

lemma distinct_replaced_number:
  assumes "distinct (map da_number rows)" "distinct (map da_wallet rows)"
    and "\<forall>x\<in>set rows. da_number x = da_number a \<longrightarrow> da_wallet x = da_wallet a"
  shows "distinct (map da_number (update_where (\<lambda>x. da_wallet x = da_wallet a) (\<lambda>_. a) rows))"
  using assms
proof (induction rows)
  case (Cons r rows)
  show ?case
  proof (cases "da_wallet r = da_wallet a")
    case True
    with Cons.prems(2) have absent: "da_wallet a \<notin> da_wallet ` set rows" by simp
    then have "da_number a \<notin> da_number ` set rows" using Cons.prems(3) by (auto simp: image_iff)
    with True Cons.prems(1) show ?thesis by (simp add: table_simps replaced_absent [of da_wallet a rows, OF absent])
  next
    case False
    have "da_number r \<notin> da_number ` set (update_where (\<lambda>x. da_wallet x = da_wallet a) (\<lambda>_. a) rows)"
      using False Cons.prems(1,3) by (auto simp: set_update_where split: if_splits)
    with False Cons show ?thesis by (simp add: table_simps)
  qed
qed (simp add: table_simps)

lemma upsert_account_inv: "preserves accounts_ok (upsert_dedicated_account a)"
proof (rule preservesI)
  fix s assume ok: "accounts_ok s"
  show "accounts_ok (snd (upsert_dedicated_account a s))"
  proof (cases "account_refused a (accounts s)")
    case None
    note free = number_free [OF None]
    have "distinct (map da_wallet (store_account a (accounts s))) \<and> distinct (map da_number (store_account a (accounts s)))"
    proof (cases "da_wallet a \<in> da_wallet ` set (accounts s)")
      case True
      with ok distinct_replaced_number [of "accounts s" a] free show ?thesis
        by (simp add: store_account_def accounts_ok_def keys_replaced [of da_wallet a])
    next
      case False
      then have "da_number a \<notin> da_number ` set (accounts s)" using free by (auto simp: image_iff)
      with ok False show ?thesis by (simp add: store_account_def accounts_ok_def)
    qed
    with None show ?thesis by (simp add: upsert_account_app accounts_ok_def)
  qed (use ok in \<open>simp add: upsert_account_app\<close>)
qed

lemma accounts_ok_frame: "accounts t = accounts s \<Longrightarrow> accounts_ok s \<Longrightarrow> accounts_ok t"
  by (simp add: accounts_ok_def)

text \<open>A failure that could be written down is the account's stored error; one that could not changes no account.\<close>

lemma record_failure_cases:
  assumes "record_provision_failure wid code e s = (r, t)"
  obtains (stored) "r = Inl e" "t = s\<lparr>accounts := store_account (failed_account wid code e) (accounts s)\<rparr>"
      "account_refused (failed_account wid code e) (accounts s) = None"
  | (refused) e' where "r = Inl e'" "t = s"
  using assms
  by (auto simp: record_provision_failure_def prog_simps upsert_account_app split: option.splits)

lemma record_failure_result:
  assumes "record_provision_failure wid code e s = (r, t)" and "accounts_ok s"
  shows "accounts_ok t \<and> (\<forall>x. x \<noteq> wid \<longrightarrow> account_of x t = account_of x s) \<and> wx_log t = wx_log (s :: 'z wallet_app_db_scheme) \<and>
    (\<exists>e'. r = Inl e' \<and> (accounts t = accounts s \<or> find_dedicated_account_error wid t = Some (error_message e')))"
  using assms(1)
proof (cases rule: record_failure_cases)
  case stored
  have "accounts_ok (snd (upsert_dedicated_account (failed_account wid code e) s))"
    using upsert_account_inv assms(2) by (rule preservesD)
  with stored show ?thesis
    by (simp add: upsert_account_app account_of_def lookup_stored failed_account_def
        find_dedicated_account_error_def)
qed (use assms(2) in simp)

definition provisioning_recorded :: "uuid \<Rightarrow> exn + provision_outcome \<Rightarrow> 'z wallet_app_db_scheme \<Rightarrow> 'z wallet_app_db_scheme \<Rightarrow> bool" where
  "provisioning_recorded wid r s t \<longleftrightarrow>
     (case r of
        Inr Provisioned \<Rightarrow> (\<exists>a n p. account_of wid t = Some a \<and> da_status a = Dva_Active \<and>
          wx_account s n = Inr p \<and> da_number a = ap_number p \<and> da_bank a = ap_bank p)
      | Inr _ \<Rightarrow> t = s
      | Inl e \<Rightarrow> accounts t = accounts s \<or> find_dedicated_account_error wid t = Some (error_message e))"

lemma account_creation_cases:
  assumes "bindM (create_dedicated_account q) (\<lambda>r. bindM (upsert_dedicated_account
       \<lparr>da_wallet = wid, da_customer_code = code, da_number = ap_number r, da_name = ap_name r, da_bank = ap_bank r,
        da_slug = ap_slug r, da_status = Dva_Active, da_payload = ap_payload r\<rparr>) (\<lambda>_. ret Provisioned)) s = (r, t)"
  obtains (made) p where "r = Inr Provisioned" "wx_account s (length (wx_log s)) = Inr p"
      "t = s\<lparr>wx_log := wx_log s @ [Create_Dedicated_Account q], accounts := store_account
         \<lparr>da_wallet = wid, da_customer_code = code, da_number = ap_number p, da_name = ap_name p, da_bank = ap_bank p,
          da_slug = ap_slug p, da_status = Dva_Active, da_payload = ap_payload p\<rparr> (accounts s)\<rparr>"
      "account_refused \<lparr>da_wallet = wid, da_customer_code = code, da_number = ap_number p, da_name = ap_name p, da_bank = ap_bank p,
          da_slug = ap_slug p, da_status = Dva_Active, da_payload = ap_payload p\<rparr> (accounts s) = None"
  | (failed) e where "r = Inl e" "t = s\<lparr>wx_log := wx_log s @ [Create_Dedicated_Account q]\<rparr>"
  using assms
  by (auto simp: create_dedicated_account_def paystack_call_def prog_simps upsert_account_app
      split: sum.splits option.splits)

lemma provisioning_step:
  assumes "provision_dedicated_account wid s = (r, t)" and ok: "accounts_ok s"
  shows "accounts_ok t \<and> (\<forall>x. x \<noteq> wid \<longrightarrow> account_of x t = account_of x s) \<and> provisioning_recorded wid r s t"
proof -
  define owner where "owner = find_wallet_owner wid s"
  define nm where "nm = split_display_name (Option.bind owner wo_name)"
  consider (contact) mail phone where "Option.bind owner wo_email = Some mail"
      "to_paystack_phone (Option.bind owner wo_phone) = Some phone"
    | (missing) "t = s" "r = Inr Missing_Email \<or> r = Inr Missing_Phone"
    using assms(1) by (auto simp: provision_dedicated_account_def prog_simps owner_def split: option.splits)
  then show ?thesis
  proof cases
    case contact
    let ?q = "\<lparr>cu_email = mail, cu_phone = phone, cu_first = fst nm, cu_last = snd nm\<rparr>"
    let ?s1 = "s\<lparr>wx_log := wx_log s @ [Create_Customer ?q]\<rparr>"
    have ok1: "accounts_ok ?s1" using ok by (simp add: accounts_ok_def)
    show ?thesis
    proof (cases "wx_customer s (length (wx_log s))")
      case (Inl e)
      with assms(1) contact have "record_provision_failure wid [] e ?s1 = (r, t)"
        by (simp add: provision_dedicated_account_def prog_simps create_customer_def paystack_call_def
            owner_def [symmetric] nm_def [symmetric] split: prod.splits)
      from record_failure_result [OF this ok1] show ?thesis
        by (auto simp: provisioning_recorded_def account_of_def)
    next
      case (Inr code)
      let ?a = "\<lparr>ar_customer = code, ar_phone = phone, ar_first = fst nm, ar_last = snd nm\<rparr>"
      obtain r' u where made: "bindM (create_dedicated_account ?a) (\<lambda>r. bindM (upsert_dedicated_account
         \<lparr>da_wallet = wid, da_customer_code = code, da_number = ap_number r, da_name = ap_name r, da_bank = ap_bank r,
          da_slug = ap_slug r, da_status = Dva_Active, da_payload = ap_payload r\<rparr>) (\<lambda>_. ret Provisioned)) ?s1 = (r', u)"
        by force
      with assms(1) contact Inr have rest: "(case r' of Inl e \<Rightarrow> record_provision_failure wid code e u | Inr x \<Rightarrow> (Inr x, u)) = (r, t)"
        by (simp add: provision_dedicated_account_def prog_simps create_customer_def paystack_call_def
            owner_def [symmetric] nm_def [symmetric] split: prod.splits)
      from made show ?thesis
      proof (cases rule: account_creation_cases)
        case (made p)
        let ?row = "\<lparr>da_wallet = wid, da_customer_code = code, da_number = ap_number p, da_name = ap_name p, da_bank = ap_bank p,
          da_slug = ap_slug p, da_status = Dva_Active, da_payload = ap_payload p\<rparr>"
        have "accounts_ok (snd (upsert_dedicated_account ?row ?s1))"
          using upsert_account_inv ok1 by (rule preservesD)
        moreover have "provisioning_recorded wid r s t"
          unfolding provisioning_recorded_def using made rest
          by (auto simp: account_of_def lookup_stored intro!: exI [of _ ?row] exI [of _ "Suc (length (wx_log s))"])
        ultimately show ?thesis using made rest
          by (auto simp: upsert_account_app accounts_ok_def account_of_def lookup_stored)
      next
        case (failed e)
        with rest have run: "record_provision_failure wid code e u = (r, t)" by simp
        have "accounts_ok u" using failed ok by (simp add: accounts_ok_def)
        from record_failure_result [OF run this] failed show ?thesis
          by (auto simp: provisioning_recorded_def account_of_def)
      qed
    qed
  qed (use ok in \<open>auto simp: provisioning_recorded_def\<close>)
qed

section \<open>Properties\<close>

text \<open>
  Following the cursors of an administrator's ledger listing, with any positive page
  size, lists every entry of the wallet exactly once, newest first. The keys of the entries are
  distinct and Postgres orders them.
\<close>

theorem ledger_pages_list_every_entry:
  assumes "find_wallet wid s = Some w" and "0 < n"
    and "strict_order_on (pk_before pk) (ledger_key ` set (ledger_views pk wid s))"
    and "distinct (map ledger_key (ledger_views pk wid s))"
    and "\<forall>e\<in>set (ledger_views pk wid s). pk_ok pk (ledger_key e)" and "length (ledger_views pk wid s) < fuel"
  shows "\<exists>rows. walk_pages (\<lambda>c. fst (admin_list_ledger pk wid c (Some (Fin (of_nat n))) s)) fuel None = Inr rows \<and>
    mset rows = mset (ledger_views pk wid s) \<and>
    sorted_wrt (\<lambda>x y. pk_before pk (ledger_key y) (ledger_key x)) rows"
proof (intro exI conjI)
  show "walk_pages (\<lambda>c. fst (admin_list_ledger pk wid c (Some (Fin (of_nat n))) s)) fuel None =
      Inr (newest_first (pk_before pk) ledger_key (ledger_views pk wid s))"
    by (rule ts_cursor.walk_all [OF assms(3,4) _ assms(6), of "min n max_cursor_limit"])
      (use assms(2) admin_ledger_page [OF assms(1,2) _ assms(5)] in \<open>simp_all add: max_cursor_limit_def\<close>)
qed (use sorted_newest_first [OF assms(3) _ assms(4)] in simp_all)

text \<open>
  The administrators' wallet listing sorts over-cap wallets first and pages by age only.
  When a page ends in an over-cap wallet, every wallet within the cap that is not older than it is
  missing from that page and from every page that follows.
\<close>

theorem wallet_pages_skip_newer_wallets:
  assumes "fst (list_wallets pk cursor n s) = Inr p" and "pg_next p = Some c" and "aw_over_cap (last (pg_items p))"
    and "transp (pk_before pk)"
    and "walk_pages (\<lambda>c. fst (list_wallets pk c n s)) fuel (Some c) = Inr rest"
    and "\<not> aw_over_cap v" and "\<not> pk_before pk (admin_wallet_key v) (admin_wallet_key (last (pg_items p)))"
  shows "v \<notin> set (pg_items p @ rest)"
proof -
  obtain rows m where p: "p = to_page admin_wallet_key m rows" and rows: "\<exists>k views. rows = wallet_rows pk k m views"
    using assms(1) by (auto simp: list_wallets_app list_wallet_rows_app split: sum.splits prod.splits)
  from page_next assms(2) p have c: "c = keyset_cursor ''ts'' (admin_wallet_key (last (pg_items p)))" by metis
  have "v \<notin> set rest" using wallets_after_cursor [OF assms(4,5) [unfolded c]] assms(7) by blast
  moreover have "v \<notin> set (pg_items p)"
    using assms(2,3,6) p rows over_cap_first
    by (auto simp: to_page_def create_cursor_page_def split: if_splits)
  ultimately show ?thesis by simp
qed

text \<open>
  An attempt to provision a dedicated account keeps one account row per wallet and every
  account number unique, changes no other wallet's account, and leaves its outcome on record: the
  active account Paystack answered with, or the message of the failure (when the row for it could be
  written); a profile without an email or a phone changes nothing.
\<close>

theorem provisioning_leaves_its_outcome:
  assumes "provision_dedicated_account wid s = (r, t)" and "accounts_ok s"
  shows "accounts_ok t \<and> (\<forall>x. x = wid \<or> account_of x t = account_of x s) \<and> provisioning_recorded wid r s t"
  using provisioning_step [OF assms] by blast

section \<open>Witnesses\<close>

definition wallet_keys :: pg_keys where
  "wallet_keys = \<lparr>pk_time = int_str, pk_ok = (\<lambda>k. True),
     pk_before = (\<lambda>a b. digits_value (fst a) < digits_value (fst b))\<rparr>"

definition held_wallet :: "uuid \<Rightarrow> uuid \<Rightarrow> int \<Rightarrow> time \<Rightarrow> wallet" where
  "held_wallet wid user balance made = \<lparr>w_id = wid, w_user = user, w_balance = balance, w_currency = ''NGN'',
     w_status = Wallet_Active, w_created = made, w_updated = made\<rparr>"

definition booked_entry :: "uuid \<Rightarrow> int \<Rightarrow> int \<Rightarrow> time \<Rightarrow> ledger_entry" where
  "booked_entry eid amount balance made = \<lparr>le_id = eid, le_wallet = ''id-0'', le_type = Topup, le_amount = amount,
     le_balance_after = balance, le_order = None, le_reference = Some eid, le_actor = None, le_reason = None,
     le_metadata = JNull, le_created = made\<rparr>"

text \<open>An over-cap wallet older than the wallet of the second customer; a third entry makes two pages.\<close>

definition wallet_sample :: wallet_app_db where
  "wallet_sample = \<lparr>odb_now = 1000, odb_orders = [], odb_history = [], odb_outbox = [],
     db_uuid = (\<lambda>n. ''id-'' @ nat_str n), db_drawn = 2,
     wallets = [held_wallet ''id-0'' ''u1'' 6000000 10, held_wallet ''id-1'' ''u2'' 0 20],
     ledger = [booked_entry ''e1'' 1000000 1000000 11, booked_entry ''e2'' 5000000 6000000 12],
     accounts = [], settings = [],
     profiles = [\<lparr>prof_id = ''u2'', prof_email = Some ''a@b'', prof_name = Some ''Ada Obi'', prof_phone = Some ''08031234567''\<rparr>],
     payments = [], issues = [], audit_logs = [], audit_fault = (\<lambda>e. False), deliveries = [], wx_log = [],
     wx_checkout = (\<lambda>n. Inr \<lparr>ck_reference = ''WTU-1'', ck_url = ''url'', ck_access = ''code''\<rparr>),
     wx_customer = (\<lambda>n. Inr ''CUS_1''),
     wx_account = (\<lambda>n. Inr \<lparr>ap_number = ''0123456789'', ap_name = ''ADA'', ap_bank = ''Wema'', ap_slug = ''wema'', ap_payload = JObj []\<rparr>)\<rparr>"

lemma wallet_keys_transp: "transp (pk_before wallet_keys)"
  by (simp add: wallet_keys_def transp_def)

theorem ledger_pages_list_every_entry_witness:
  "\<exists>rows. walk_pages (\<lambda>c. fst (admin_list_ledger wallet_keys ''id-0'' c (Some (Fin (of_nat 1))) wallet_sample)) 3 None = Inr rows \<and>
    mset rows = mset (ledger_views wallet_keys ''id-0'' wallet_sample) \<and>
    sorted_wrt (\<lambda>x y. pk_before wallet_keys (ledger_key y) (ledger_key x)) rows"
proof (rule ledger_pages_list_every_entry)
  have keys: "map ledger_key (ledger_views wallet_keys ''id-0'' wallet_sample) = [(''11'', ''e1''), (''12'', ''e2'')]"
    by code_simp
  have "find_wallet ''id-0'' wallet_sample = Some (held_wallet ''id-0'' ''u1'' 6000000 10)" by code_simp
  then show "find_wallet ''id-0'' wallet_sample = Some (held_wallet ''id-0'' ''u1'' 6000000 10)" .
  show "(0::nat) < 1" by simp
  have "ledger_key ` set (ledger_views wallet_keys ''id-0'' wallet_sample) = {(''11'', ''e1''), (''12'', ''e2'')}"
    using arg_cong [OF keys, of set] by simp
  then show "strict_order_on (pk_before wallet_keys) (ledger_key ` set (ledger_views wallet_keys ''id-0'' wallet_sample))"
    by (simp add: strict_order_on_def wallet_keys_def digits_value_def)
  show "distinct (map ledger_key (ledger_views wallet_keys ''id-0'' wallet_sample))" by (simp add: keys)
  show "\<forall>e\<in>set (ledger_views wallet_keys ''id-0'' wallet_sample). pk_ok wallet_keys (ledger_key e)"
    by (simp add: wallet_keys_def)
  have "length (ledger_views wallet_keys ''id-0'' wallet_sample) = 2" using arg_cong [OF keys, of length] by simp
  then show "length (ledger_views wallet_keys ''id-0'' wallet_sample) < 3" by simp
qed

definition over_cap_page :: "admin_wallet page" where
  "over_cap_page = projr (fst (list_wallets wallet_keys None (Some (js_int 1)) wallet_sample))"

theorem wallet_pages_skip_newer_wallets_witness:
  "admin_wallet_of wallet_keys 5000000 wallet_sample (held_wallet ''id-1'' ''u2'' 0 20) \<notin> set (pg_items over_cap_page @ [])"
proof (rule wallet_pages_skip_newer_wallets [OF _ _ _ wallet_keys_transp])
  have "fst (list_wallets wallet_keys None (Some (js_int 1)) wallet_sample) = Inr over_cap_page" by code_simp
  then show "fst (list_wallets wallet_keys None (Some (js_int 1)) wallet_sample) = Inr over_cap_page" .
  have "pg_next over_cap_page = Some (keyset_cursor ''ts'' (''10'', ''id-0''))" by code_simp
  then show "pg_next over_cap_page = Some (keyset_cursor ''ts'' (''10'', ''id-0''))" .
  have "aw_over_cap (last (pg_items over_cap_page))" by code_simp
  then show "aw_over_cap (last (pg_items over_cap_page))" .
  have "walk_pages (\<lambda>c. fst (list_wallets wallet_keys c (Some (js_int 1)) wallet_sample)) 2
      (Some (keyset_cursor ''ts'' (''10'', ''id-0''))) = Inr []" by code_simp
  then show "walk_pages (\<lambda>c. fst (list_wallets wallet_keys c (Some (js_int 1)) wallet_sample)) 2
      (Some (keyset_cursor ''ts'' (''10'', ''id-0''))) = Inr []" .
  have "\<not> aw_over_cap (admin_wallet_of wallet_keys 5000000 wallet_sample (held_wallet ''id-1'' ''u2'' 0 20))" by code_simp
  then show "\<not> aw_over_cap (admin_wallet_of wallet_keys 5000000 wallet_sample (held_wallet ''id-1'' ''u2'' 0 20))" .
  have "\<not> pk_before wallet_keys (admin_wallet_key (admin_wallet_of wallet_keys 5000000 wallet_sample (held_wallet ''id-1'' ''u2'' 0 20)))
     (admin_wallet_key (last (pg_items over_cap_page)))" by code_simp
  then show "\<not> pk_before wallet_keys (admin_wallet_key (admin_wallet_of wallet_keys 5000000 wallet_sample (held_wallet ''id-1'' ''u2'' 0 20)))
     (admin_wallet_key (last (pg_items over_cap_page)))" .
qed

theorem provisioning_leaves_its_outcome_witness:
  "provisioning_recorded ''id-1'' (fst (provision_dedicated_account ''id-1'' wallet_sample)) wallet_sample
     (snd (provision_dedicated_account ''id-1'' wallet_sample))"
  using provisioning_leaves_its_outcome [of "''id-1''" wallet_sample "fst (provision_dedicated_account ''id-1'' wallet_sample)"
     "snd (provision_dedicated_account ''id-1'' wallet_sample)"]
  by (simp add: accounts_ok_def wallet_sample_def)

end
