(* ===== verification/Outbox.thy ===== *)
theory Outbox
  imports Access Pagination
begin

text \<open>
  The transactional outbox: the lifecycle functions of public.outbox_events (claim_outbox_batch,
  complete_outbox_event, fail_outbox_event), the worker's processor that drains it
  (worker/outbox.repository.ts, worker/outbox-processor.ts, worker.ts) and the administrators' view
  and claim of it (modules/jobs). The processor is generic in its handlers: what it relies on is the
  locale \<open>outbox_handlers\<close>, interpreted on the worker's own registry in \<open>Worker\<close>.

  Times are milliseconds. A statement runs with its row locks held and is one step; the order of the
  rows an update returns is taken to be the order they were claimed in, which SQL leaves open.
\<close>

section \<open>The table\<close>

record outbox_row =
  ob_id :: uuid
  ob_type :: string
  ob_aggregate_type :: string
  ob_aggregate :: uuid
  ob_payload :: json
  ob_available :: time
  ob_attempts :: nat
  ob_locked_at :: "time option"
  ob_locked_by :: "string option"
  ob_processed_at :: "time option"
  ob_failed_at :: "time option"
  ob_error :: "string option"
  ob_created :: time

record outbox_db =
  ob_now :: time
  ob_uuid :: "nat \<Rightarrow> uuid"
  ob_drawn :: nat
  ob_rows :: "outbox_row list"

definition new_outbox_row :: "uuid \<Rightarrow> time \<Rightarrow> string \<Rightarrow> string \<Rightarrow> uuid \<Rightarrow> json \<Rightarrow> outbox_row" where
  "new_outbox_row i now ty agg aid payload =
     \<lparr>ob_id = i, ob_type = ty, ob_aggregate_type = agg, ob_aggregate = aid, ob_payload = payload, ob_available = now,
      ob_attempts = 0, ob_locked_at = None, ob_locked_by = None, ob_processed_at = None, ob_failed_at = None,
      ob_error = None, ob_created = now\<rparr>"

definition insert_outbox_event :: "string \<Rightarrow> string \<Rightarrow> uuid \<Rightarrow> json \<Rightarrow> ('z outbox_db_scheme, uuid) prog" where
  "insert_outbox_event ty agg aid payload = (\<lambda>s.
     let i = ob_uuid s (ob_drawn s)
     in (Inr i, s\<lparr>ob_drawn := Suc (ob_drawn s),
                  ob_rows := ob_rows s @ [new_outbox_row i (ob_now s) ty agg aid payload]\<rparr>))"

section \<open>Claiming, completing and failing (20260619000800_outbox_worker_lifecycle.sql)\<close>

definition settled :: "outbox_row \<Rightarrow> bool" where
  "settled r \<longleftrightarrow> ob_processed_at r \<noteq> None \<or> ob_failed_at r \<noteq> None"

definition claimable :: "time \<Rightarrow> outbox_row \<Rightarrow> bool" where
  "claimable now r \<longleftrightarrow> ob_processed_at r = None \<and> ob_failed_at r = None \<and> ob_locked_at r = None \<and> ob_available r \<le> now"

definition claim_order :: "outbox_row list \<Rightarrow> outbox_row list" where
  "claim_order rows = sort_key ob_available (sort_key ob_created rows)"

definition lock_row :: "string \<Rightarrow> time \<Rightarrow> outbox_row \<Rightarrow> outbox_row" where
  "lock_row worker now r =
     r\<lparr>ob_locked_at := Some now, ob_locked_by := Some worker, ob_attempts := Suc (ob_attempts r)\<rparr>"

definition lock_rows :: "string \<Rightarrow> time \<Rightarrow> uuid list \<Rightarrow> outbox_row list \<Rightarrow> outbox_row list" where
  "lock_rows worker now ids = update_where (\<lambda>r. ob_id r \<in> set ids) (lock_row worker now)"

definition picked_rows :: "(outbox_row \<Rightarrow> bool) \<Rightarrow> nat \<Rightarrow> outbox_row list \<Rightarrow> outbox_row list" where
  "picked_rows p max_rows rows = take max_rows (claim_order (filter p rows))"

definition claim_outbox_batch :: "string \<Rightarrow> nat \<Rightarrow> ('z outbox_db_scheme, outbox_row list) prog" where
  "claim_outbox_batch worker max_rows = (\<lambda>s.
     let picked = picked_rows (claimable (ob_now s)) max_rows (ob_rows s)
     in (Inr (map (lock_row worker (ob_now s)) picked),
         s\<lparr>ob_rows := lock_rows worker (ob_now s) (map ob_id picked) (ob_rows s)\<rparr>))"

definition complete_row :: "time \<Rightarrow> outbox_row \<Rightarrow> outbox_row" where
  "complete_row now r =
     r\<lparr>ob_processed_at := Some now, ob_locked_at := None, ob_locked_by := None, ob_error := None\<rparr>"

definition complete_outbox_event :: "uuid \<Rightarrow> ('z outbox_db_scheme, unit) prog" where
  "complete_outbox_event i = modify (\<lambda>s. s\<lparr>ob_rows := update_where (\<lambda>r. ob_id r = i) (complete_row (ob_now s)) (ob_rows s)\<rparr>)"

definition dead_row :: "time \<Rightarrow> string \<Rightarrow> outbox_row \<Rightarrow> outbox_row" where
  "dead_row now e r = r\<lparr>ob_failed_at := Some now, ob_locked_at := None, ob_locked_by := None, ob_error := Some e\<rparr>"

definition retry_row :: "time \<Rightarrow> string \<Rightarrow> nat \<Rightarrow> outbox_row \<Rightarrow> outbox_row" where
  "retry_row now e attempts r =
     r\<lparr>ob_locked_at := None, ob_locked_by := None, ob_error := Some e, ob_available := now + 1000 * 2 ^ attempts\<rparr>"

definition fail_outbox_event :: "uuid \<Rightarrow> string \<Rightarrow> nat \<Rightarrow> ('z outbox_db_scheme, unit) prog" where
  "fail_outbox_event i e max_attempts =
     bindM (gets (\<lambda>s. map_option ob_attempts (lookup_by ob_id i (ob_rows s)))) (\<lambda>found.
       case found of
         None \<Rightarrow> ret ()
       | Some n \<Rightarrow> modify (\<lambda>s. s\<lparr>ob_rows := update_where (\<lambda>r. ob_id r = i)
           (if max_attempts \<le> n then dead_row (ob_now s) e else retry_row (ob_now s) e n) (ob_rows s)\<rparr>))"

section \<open>The processor (outbox-processor.ts)\<close>

type_synonym 's outbox_handler = "outbox_row \<Rightarrow> ('s, unit) prog"

definition run_handlers :: "(string \<Rightarrow> 's outbox_handler list) \<Rightarrow> outbox_row \<Rightarrow> ('s, unit) prog" where
  "run_handlers handlers_for e = for_each (\<lambda>h. h e) (handlers_for (ob_type e))"

definition process_event ::
  "(string \<Rightarrow> 'z outbox_db_scheme outbox_handler list) \<Rightarrow> nat \<Rightarrow> outbox_row \<Rightarrow> ('z outbox_db_scheme, unit) prog" where
  "process_event handlers_for max_attempts e =
     catchM (thenM (run_handlers handlers_for e) (complete_outbox_event (ob_id e)))
       (\<lambda>x. fail_outbox_event (ob_id e) (error_message x) max_attempts)"

definition drain_once ::
  "(string \<Rightarrow> 'z outbox_db_scheme outbox_handler list) \<Rightarrow> nat \<Rightarrow> nat \<Rightarrow> string \<Rightarrow> ('z outbox_db_scheme, nat) prog" where
  "drain_once handlers_for batch_size max_attempts worker =
     bindM (claim_outbox_batch worker batch_size) (\<lambda>events.
       thenM (for_each (process_event handlers_for max_attempts) events) (ret (length events)))"

text \<open>The worker's loop (worker.ts): one drain after another while the clock moves on.\<close>

fun worker_rounds ::
  "(string \<Rightarrow> 'z outbox_db_scheme outbox_handler list) \<Rightarrow> nat \<Rightarrow> nat \<Rightarrow> string \<Rightarrow> (nat \<Rightarrow> time) \<Rightarrow> nat \<Rightarrow>
   'z outbox_db_scheme \<Rightarrow> 'z outbox_db_scheme" where
  "worker_rounds handlers_for batch_size max_attempts worker clock 0 s = s"
| "worker_rounds handlers_for batch_size max_attempts worker clock (Suc n) s =
     (let t = worker_rounds handlers_for batch_size max_attempts worker clock n s
      in snd (drain_once handlers_for batch_size max_attempts worker (t\<lparr>ob_now := clock n\<rparr>)))"

section \<open>Administrators (modules/jobs)\<close>

definition admin_claimable :: "time \<Rightarrow> outbox_row \<Rightarrow> bool" where
  "admin_claimable now r \<longleftrightarrow> ob_processed_at r = None \<and> ob_locked_at r = None \<and> ob_available r \<le> now"

record process_result =
  pr_claimed :: nat
  pr_worker :: string
  pr_events :: "outbox_row list"

definition claim_available_rows :: "nat \<Rightarrow> string \<Rightarrow> ('z outbox_db_scheme, process_result) prog" where
  "claim_available_rows max_rows worker = (\<lambda>s.
     let picked = picked_rows (admin_claimable (ob_now s)) max_rows (ob_rows s)
     in (Inr \<lparr>pr_claimed = length picked, pr_worker = worker, pr_events = map (lock_row worker (ob_now s)) picked\<rparr>,
         s\<lparr>ob_rows := lock_rows worker (ob_now s) (map ob_id picked) (ob_rows s)\<rparr>))"

definition assert_admin :: "actor \<Rightarrow> exn + unit" where
  "assert_admin a = (if role a \<noteq> Campus_Admin \<and> role a \<noteq> Super_Admin then Inl (forbidden ''Admin role is required.'') else Inr ())"

definition claim_available_outbox_events ::
  "actor \<Rightarrow> nat option \<Rightarrow> string option \<Rightarrow> ('z outbox_db_scheme, process_result) prog" where
  "claim_available_outbox_events a max_rows worker =
     thenM (lift_ok (assert_admin a))
       (claim_available_rows (case max_rows of None \<Rightarrow> 10 | Some n \<Rightarrow> n)
          (case worker of None \<Rightarrow> ''admin:'' @ user_id a | Some w \<Rightarrow> w))"

datatype outbox_status = Ob_Available | Ob_Locked | Ob_Failed | Ob_Processed

fun has_status :: "time \<Rightarrow> outbox_status \<Rightarrow> outbox_row \<Rightarrow> bool" where
  "has_status now Ob_Available r \<longleftrightarrow> ob_processed_at r = None \<and> ob_locked_at r = None \<and> ob_available r \<le> now"
| "has_status now Ob_Locked r \<longleftrightarrow> ob_processed_at r = None \<and> ob_locked_at r \<noteq> None"
| "has_status now Ob_Failed r \<longleftrightarrow> ob_processed_at r = None \<and> 0 < ob_attempts r \<and> ob_error r \<noteq> None"
| "has_status now Ob_Processed r \<longleftrightarrow> ob_processed_at r \<noteq> None"

definition get_system_summary :: "actor \<Rightarrow> ('z outbox_db_scheme, (outbox_status \<times> nat) list) prog" where
  "get_system_summary a =
     thenM (lift_ok (assert_admin a))
       (gets (\<lambda>s. map (\<lambda>st. (st, length (filter (has_status (ob_now s) st) (ob_rows s))))
          [Ob_Available, Ob_Locked, Ob_Failed, Ob_Processed]))"

text \<open>order by created_at desc, id desc; an identifier compares as its text, whose digits are hexadecimal.\<close>

fun text_before :: "string \<Rightarrow> string \<Rightarrow> bool" where
  "text_before xs [] = False"
| "text_before [] (y # ys) = True"
| "text_before (x # xs) (y # ys) = ((of_char x :: nat) < of_char y \<or> x = y \<and> text_before xs ys)"

definition created_before :: "time \<times> uuid \<Rightarrow> time \<times> uuid \<Rightarrow> bool" where
  "created_before k l \<longleftrightarrow> fst k < fst l \<or> fst k = fst l \<and> text_before (snd k) (snd l)"

definition list_outbox_events ::
  "actor \<Rightarrow> string option \<Rightarrow> outbox_status option \<Rightarrow> nat option \<Rightarrow> ('z outbox_db_scheme, outbox_row list) prog" where
  "list_outbox_events a ty st max_rows =
     thenM (lift_ok (assert_admin a))
       (gets (\<lambda>s. take (case max_rows of None \<Rightarrow> 20 | Some n \<Rightarrow> n)
          (newest_first created_before (\<lambda>r. (ob_created r, ob_id r))
            (filter (\<lambda>r. (ty = None \<or> ty = Some (ob_type r)) \<and>
               (case st of None \<Rightarrow> True | Some x \<Rightarrow> has_status (ob_now s) x r)) (ob_rows s)))))"

section \<open>What the processor relies on\<close>

definition outbox_ok :: "'z outbox_db_scheme \<Rightarrow> bool" where
  "outbox_ok s \<longleftrightarrow> inj (ob_uuid s) \<and> ob_id ` set (ob_rows s) \<subseteq> ob_uuid s ` {..<ob_drawn s} \<and>
     distinct (map ob_id (ob_rows s))"

definition fresh_row :: "time \<Rightarrow> outbox_row \<Rightarrow> bool" where
  "fresh_row now r \<longleftrightarrow> ob_available r = now \<and> ob_attempts r = 0 \<and> ob_locked_at r = None \<and> \<not> settled r"

text \<open>A handler leaves the rows of the table alone; it may append events of its own.\<close>

definition keeps_outbox :: "'z outbox_db_scheme \<Rightarrow> 'z outbox_db_scheme \<Rightarrow> bool" where
  "keeps_outbox s t \<longleftrightarrow> ob_now t = ob_now s \<and> outbox_ok t \<and>
     (\<exists>new. ob_rows t = ob_rows s @ new \<and> (\<forall>r\<in>set new. fresh_row (ob_now s) r))"

lemma keeps_refl: "outbox_ok s \<Longrightarrow> keeps_outbox s s"
  by (simp add: keeps_outbox_def)

lemma keeps_trans: "keeps_outbox s t \<Longrightarrow> keeps_outbox t u \<Longrightarrow> keeps_outbox s u"
  by (auto simp: keeps_outbox_def)

lemma keeps_same: "outbox_ok s \<Longrightarrow> ob_rows t = ob_rows s \<Longrightarrow> ob_now t = ob_now s \<Longrightarrow>
  ob_uuid t = ob_uuid s \<Longrightarrow> ob_drawn t = ob_drawn s \<Longrightarrow> keeps_outbox s t"
  by (simp add: keeps_outbox_def outbox_ok_def)

lemma keeps_insert:
  assumes "outbox_ok s"
  shows "keeps_outbox s (snd (insert_outbox_event ty agg aid payload s))"
proof -
  have new: "ob_uuid s (ob_drawn s) \<notin> ob_uuid s ` {..<ob_drawn s}"
    using assms by (auto simp: outbox_ok_def dest: injD)
  then have "ob_uuid s (ob_drawn s) \<notin> ob_id ` set (ob_rows s)" using assms by (auto simp: outbox_ok_def)
  with assms show ?thesis
    by (auto simp: keeps_outbox_def insert_outbox_event_def Let_def outbox_ok_def new_outbox_row_def fresh_row_def
        settled_def lessThan_Suc)
qed

text \<open>How the row of a processed event ends.\<close>

definition settle_row :: "nat \<Rightarrow> time \<Rightarrow> exn + unit \<Rightarrow> outbox_row \<Rightarrow> outbox_row" where
  "settle_row max_attempts now res r =
     (case res of
        Inr _ \<Rightarrow> complete_row now r
      | Inl e \<Rightarrow> if max_attempts \<le> ob_attempts r then dead_row now (error_message e) r
                 else retry_row now (error_message e) (ob_attempts r) r)"

definition settle_by :: "nat \<Rightarrow> time \<Rightarrow> (uuid \<times> (exn + unit)) list \<Rightarrow> outbox_row \<Rightarrow> outbox_row" where
  "settle_by max_attempts now outs r =
     (case map_of outs (ob_id r) of None \<Rightarrow> r | Some res \<Rightarrow> settle_row max_attempts now res r)"

lemma row_updates_id [simp]:
  "ob_id (complete_row now r) = ob_id r" "ob_id (dead_row now e r) = ob_id r" "ob_id (retry_row now e n r) = ob_id r"
  "ob_id (lock_row w now r) = ob_id r"
  by (simp_all add: complete_row_def dead_row_def retry_row_def lock_row_def)

lemma settle_row_id [simp]: "ob_id (settle_row m now res r) = ob_id r"
  by (simp add: settle_row_def split: sum.split)

lemma settle_by_id [simp]: "ob_id (settle_by m now outs r) = ob_id r"
  by (simp add: settle_by_def split: option.split)

lemma outbox_ok_map:
  "outbox_ok s \<Longrightarrow> (\<And>r. ob_id (g r) = ob_id r) \<Longrightarrow> outbox_ok (s\<lparr>ob_rows := map g (ob_rows s)\<rparr>)"
  by (simp add: outbox_ok_def image_image o_def)

fun handler_results ::
  "(string \<Rightarrow> 'z outbox_db_scheme outbox_handler list) \<Rightarrow> nat \<Rightarrow> outbox_row list \<Rightarrow> 'z outbox_db_scheme \<Rightarrow>
   (uuid \<times> (exn + unit)) list" where
  "handler_results hs m [] s = []"
| "handler_results hs m (e # es) s =
     (ob_id e, fst (run_handlers hs e s)) # handler_results hs m es (snd (process_event hs m e s))"

lemma handler_results_ids: "map fst (handler_results hs m es s) = map ob_id es"
  by (induction es arbitrary: s) simp_all

section \<open>What a claim takes\<close>

lemma set_claim_order [simp]: "set (claim_order rows) = set rows"
  by (simp add: claim_order_def)

lemma picked_subset: "r \<in> set (picked_rows p n rows) \<Longrightarrow> r \<in> set rows \<and> p r"
  by (auto simp: picked_rows_def dest: in_set_takeD)

lemma distinct_picked: "distinct (map ob_id rows) \<Longrightarrow> distinct (map ob_id (picked_rows p n rows))"
proof -
  assume d: "distinct (map ob_id rows)"
  have "mset (map ob_id (claim_order (filter p rows))) = mset (map ob_id (filter p rows))"
    by (simp add: claim_order_def)
  moreover have "distinct (map ob_id (filter p rows))" using d by (simp add: distinct_map_filter)
  ultimately have "distinct (map ob_id (claim_order (filter p rows)))" by (metis distinct_count_atmost_1 mset_eq_imp_distinct_iff)
  then show ?thesis by (simp add: picked_rows_def flip: take_map)
qed

lemma in_picked_ids: "distinct (map ob_id rows) \<Longrightarrow> r \<in> set rows \<Longrightarrow>
  ob_id r \<in> ob_id ` set (picked_rows p n rows) \<longleftrightarrow> r \<in> set (picked_rows p n rows)"
  using picked_subset [of _ p n rows] by (auto simp: distinct_map inj_on_def)

lemma picked_nonempty: "r \<in> set rows \<Longrightarrow> p r \<Longrightarrow> 0 < n \<Longrightarrow> picked_rows p n rows \<noteq> []"
  using set_claim_order [of "filter p rows"] by (auto simp: picked_rows_def simp del: set_claim_order)

text \<open>A row that is passed over was available no earlier than every row that was taken.\<close>

lemma picked_first:
  assumes "r \<in> set rows" "p r" "r \<notin> set (picked_rows p n rows)" "q \<in> set (picked_rows p n rows)"
  shows "ob_available q \<le> ob_available r"
proof -
  let ?xs = "claim_order (filter p rows)"
  have "set ?xs = set (take n ?xs) \<union> set (drop n ?xs)" by (metis append_take_drop_id set_append)
  with assms(1-3) have r: "r \<in> set (drop n ?xs)" unfolding picked_rows_def by auto
  have "sorted_wrt (\<lambda>x y. ob_available x \<le> ob_available y) ?xs"
    using sorted_sort_key [of ob_available "sort_key ob_created (filter p rows)"] by (simp add: claim_order_def sorted_map)
  then have "sorted_wrt (\<lambda>x y. ob_available x \<le> ob_available y) (take n ?xs @ drop n ?xs)"
    by (simp only: append_take_drop_id)
  then have "\<forall>x\<in>set (take n ?xs). \<forall>y\<in>set (drop n ?xs). ob_available x \<le> ob_available y"
    unfolding sorted_wrt_append by blast
  with assms(4) r show ?thesis by (simp add: picked_rows_def)
qed

lemma claim_batch_app:
  "claim_outbox_batch w n s =
     (Inr (map (lock_row w (ob_now s)) (picked_rows (claimable (ob_now s)) n (ob_rows s))),
      s\<lparr>ob_rows := map (\<lambda>r. if ob_id r \<in> ob_id ` set (picked_rows (claimable (ob_now s)) n (ob_rows s))
          then lock_row w (ob_now s) r else r) (ob_rows s)\<rparr>)"
  by (simp add: claim_outbox_batch_def Let_def lock_rows_def update_where_def)

definition drained :: "(string \<Rightarrow> 'z outbox_db_scheme outbox_handler list) \<Rightarrow> nat \<Rightarrow> nat \<Rightarrow> string \<Rightarrow> 'z outbox_db_scheme \<Rightarrow>
  (uuid \<times> (exn + unit)) list" where
  "drained hs n m w s = (let (r, u) = claim_outbox_batch w n s in handler_results hs m (projr r) u)"

locale outbox_handlers =
  fixes handlers_for :: "string \<Rightarrow> 'z outbox_db_scheme outbox_handler list"
  assumes handler_keeps: "outbox_ok s \<Longrightarrow> h \<in> set (handlers_for ty) \<Longrightarrow> keeps_outbox s (snd (h e s))"
begin

lemma run_handlers_keeps:
  assumes "outbox_ok s"
  shows "keeps_outbox s (snd (run_handlers handlers_for e s))"
proof -
  have "keeps_outbox s (snd (for_each (\<lambda>h. h e) hs s))" if "set hs \<subseteq> set (handlers_for ty)" "outbox_ok s" for hs ty s
    using that
  proof (induction hs arbitrary: s)
    case (Cons h hs)
    then have k: "keeps_outbox s (snd (h e s))" using handler_keeps by auto
    then have "outbox_ok (snd (h e s))" by (simp add: keeps_outbox_def)
    with Cons have "keeps_outbox (snd (h e s)) (snd (for_each (\<lambda>h. h e) hs (snd (h e s))))" by simp
    with k show ?case by (auto simp: prog_simps dest: keeps_trans split: prod.split sum.split)
  qed (simp add: keeps_refl prog_simps)
  with assms show ?thesis by (auto simp: run_handlers_def)
qed

lemma process_event_rows:
  assumes ok: "outbox_ok s" and row: "ob_id e \<in> ob_id ` set (ob_rows s)"
  obtains (processed) t new where "process_event handlers_for m e s = (Inr (), t)" "outbox_ok t" "ob_now t = ob_now s"
    "ob_rows t = map (settle_by m (ob_now s) [(ob_id e, fst (run_handlers handlers_for e s))]) (ob_rows s) @ new"
    "\<forall>r\<in>set new. fresh_row (ob_now s) r"
proof -
  obtain res u where run: "run_handlers handlers_for e s = (res, u)" by force
  with run_handlers_keeps [OF ok, of e] obtain new where
    u: "ob_now u = ob_now s" "outbox_ok u" "ob_rows u = ob_rows s @ new" "\<forall>r\<in>set new. fresh_row (ob_now s) r"
    by (auto simp: keeps_outbox_def)
  let ?g = "settle_by m (ob_now s) [(ob_id e, res)]"
  have "ob_id e \<notin> ob_id ` set new" using u(2) row by (auto simp: u(3) outbox_ok_def simp del: imageE)
  then have fresh: "map ?g new = new" by (intro map_idI) (auto simp: settle_by_def image_iff)
  have "process_event handlers_for m e s = (Inr (), u\<lparr>ob_rows := map ?g (ob_rows u)\<rparr>)"
  proof (cases res)
    case (Inr x)
    then have "update_where (\<lambda>r. ob_id r = ob_id e) (complete_row (ob_now u)) (ob_rows u) = map ?g (ob_rows u)"
      by (auto simp: update_where_def settle_by_def settle_row_def u(1))
    with Inr show ?thesis
      by (simp add: process_event_def prog_simps run complete_outbox_event_def)
  next
    case (Inl x)
    obtain r where r: "lookup_by ob_id (ob_id e) (ob_rows u) = Some r"
      using row u(3) by (cases "lookup_by ob_id (ob_id e) (ob_rows u)") (auto simp: lookup_by_None)
    have "q = r" if "q \<in> set (ob_rows u)" "ob_id q = ob_id e" for q
      using that r lookup_by_member [of ob_id "ob_rows u" q] u(2) by (simp add: outbox_ok_def)
    then have "update_where (\<lambda>q. ob_id q = ob_id e) (if m \<le> ob_attempts r then dead_row (ob_now u) (error_message x)
        else retry_row (ob_now u) (error_message x) (ob_attempts r)) (ob_rows u) = map ?g (ob_rows u)"
      using Inl by (auto simp: update_where_def settle_by_def settle_row_def u(1))
    with Inl r show ?thesis
      by (simp add: process_event_def prog_simps run fail_outbox_event_def)
  qed
  moreover have "outbox_ok (u\<lparr>ob_rows := map ?g (ob_rows u)\<rparr>)" using u(2) by (rule outbox_ok_map) simp
  ultimately show thesis using u fresh by (intro processed [of "u\<lparr>ob_rows := map ?g (ob_rows u)\<rparr>" new]) (simp_all add: run)
qed

lemma process_events_rows:
  assumes "outbox_ok s" "distinct (map ob_id es)" "ob_id ` set es \<subseteq> ob_id ` set (ob_rows s)"
  shows "\<exists>t new. for_each (process_event handlers_for m) es s = (Inr (), t) \<and> outbox_ok t \<and> ob_now t = ob_now s \<and>
    ob_rows t = map (settle_by m (ob_now s) (handler_results handlers_for m es s)) (ob_rows s) @ new \<and>
    (\<forall>r\<in>set new. fresh_row (ob_now s) r)"
  using assms
proof (induction es arbitrary: s)
  case Nil
  have "map (settle_by m (ob_now s) []) (ob_rows s) = ob_rows s" by (intro map_idI) (simp add: settle_by_def)
  with Nil show ?case by (simp add: prog_simps)
next
  case (Cons e es)
  have row: "ob_id e \<in> ob_id ` set (ob_rows s)" using Cons.prems(3) by simp
  let ?f = "settle_by m (ob_now s) [(ob_id e, fst (run_handlers handlers_for e s))]"
  from process_event_rows [OF Cons.prems(1) row, of m] obtain u new where
    u: "process_event handlers_for m e s = (Inr (), u)" "outbox_ok u" "ob_now u = ob_now s"
      "ob_rows u = map ?f (ob_rows s) @ new" "\<forall>r\<in>set new. fresh_row (ob_now s) r" by blast
  let ?g = "settle_by m (ob_now s) (handler_results handlers_for m es u)"
  have "ob_id ` set es \<subseteq> ob_id ` set (ob_rows u)" using Cons.prems(3) u(4) by (auto simp: image_Un image_image)
  with Cons.IH [OF u(2)] Cons.prems(2) obtain t new' where
    t: "for_each (process_event handlers_for m) es u = (Inr (), t)" "outbox_ok t" "ob_now t = ob_now s"
      "ob_rows t = map ?g (ob_rows u) @ new'" "\<forall>r\<in>set new'. fresh_row (ob_now s) r"
    using u(3) by auto
  have ids: "fst ` set (handler_results handlers_for m es u) = ob_id ` set es"
    by (metis handler_results_ids list.set_map)
  have "ob_id ` set new \<inter> ob_id ` set (ob_rows s) = {}" using u(2) by (auto simp: outbox_ok_def u(4) image_image)
  moreover have "ob_id ` set es \<subseteq> ob_id ` set (ob_rows s)" using Cons.prems(3) by simp
  ultimately have "ob_id r \<notin> ob_id ` set es" if "r \<in> set new" for r using that by blast
  then have "map_of (handler_results handlers_for m es u) (ob_id r) = None" if "r \<in> set new" for r
    using that by (simp add: map_of_eq_None_iff ids)
  then have "map ?g new = new" by (intro map_idI) (simp add: settle_by_def)
  moreover have "map ?g (map ?f (ob_rows s)) = map (settle_by m (ob_now s) (handler_results handlers_for m (e # es) s)) (ob_rows s)"
  proof -
    have "map_of (handler_results handlers_for m es u) (ob_id e) = None"
      using Cons.prems(2) ids by (simp add: map_of_eq_None_iff)
    then show ?thesis by (auto simp: settle_by_def u(1) split: option.split)
  qed
  ultimately have "ob_rows t = map (settle_by m (ob_now s) (handler_results handlers_for m (e # es) s)) (ob_rows s) @ (new @ new')"
    by (simp add: t(4) u(4))
  with u t show ?case by (intro exI [of _ t] exI [of _ "new @ new'"]) (auto simp: prog_simps)
qed

lemma drain_rows:
  assumes ok: "outbox_ok s"
  obtains (drain) t new where "drain_once handlers_for n m w s = (Inr (length (picked_rows (claimable (ob_now s)) n (ob_rows s))), t)"
    "outbox_ok t" "ob_now t = ob_now s" "\<forall>r\<in>set new. fresh_row (ob_now s) r"
    "ob_rows t = map (\<lambda>r. if r \<in> set (picked_rows (claimable (ob_now s)) n (ob_rows s))
       then settle_by m (ob_now s) (drained handlers_for n m w s) (lock_row w (ob_now s) r) else r) (ob_rows s) @ new"
    "map fst (drained handlers_for n m w s) = map ob_id (picked_rows (claimable (ob_now s)) n (ob_rows s))"
proof -
  let ?picked = "picked_rows (claimable (ob_now s)) n (ob_rows s)"
  let ?es = "map (lock_row w (ob_now s)) ?picked"
  let ?lock = "\<lambda>r. if ob_id r \<in> ob_id ` set ?picked then lock_row w (ob_now s) r else r"
  let ?u = "s\<lparr>ob_rows := map ?lock (ob_rows s)\<rparr>"
  have d: "distinct (map ob_id (ob_rows s))" using ok by (simp add: outbox_ok_def)
  have u: "outbox_ok ?u" using ok by (rule outbox_ok_map) simp
  have es: "distinct (map ob_id ?es)" "ob_id ` set ?es \<subseteq> ob_id ` set (ob_rows ?u)"
  proof -
    have "map ob_id (ob_rows ?u) = map ob_id (ob_rows s)" by simp
    then have "ob_id ` set (ob_rows ?u) = ob_id ` set (ob_rows s)" by (metis list.set_map)
    then show "ob_id ` set ?es \<subseteq> ob_id ` set (ob_rows ?u)" by (auto simp: image_image dest: picked_subset)
  qed (use distinct_picked [OF d] in \<open>simp add: o_def\<close>)
  from process_events_rows [OF u es, of m] obtain t new where
    t: "for_each (process_event handlers_for m) ?es ?u = (Inr (), t)" "outbox_ok t" "ob_now t = ob_now s"
      "ob_rows t = map (settle_by m (ob_now s) (handler_results handlers_for m ?es ?u)) (ob_rows ?u) @ new"
      "\<forall>r\<in>set new. fresh_row (ob_now s) r" by auto
  have outs: "drained handlers_for n m w s = handler_results handlers_for m ?es ?u"
    by (simp add: drained_def claim_batch_app)
  then have ids: "map fst (drained handlers_for n m w s) = map ob_id ?picked" by (simp add: handler_results_ids o_def)
  have same: "settle_by m (ob_now s) (drained handlers_for n m w s) (?lock r) =
     (if r \<in> set ?picked then settle_by m (ob_now s) (drained handlers_for n m w s) (lock_row w (ob_now s) r) else r)"
    if "r \<in> set (ob_rows s)" for r
  proof (cases "r \<in> set ?picked")
    case False
    with in_picked_ids [OF d that] have no: "ob_id r \<notin> ob_id ` set ?picked" by blast
    then have "map_of (drained handlers_for n m w s) (ob_id r) = None"
      using arg_cong [OF ids, of set] by (simp add: map_of_eq_None_iff)
    with False no show ?thesis by (simp add: settle_by_def)
  qed simp
  have res: "drain_once handlers_for n m w s = (Inr (length ?picked), t)"
    by (simp add: drain_once_def claim_batch_app prog_simps t(1))
  have rows: "ob_rows t = map (\<lambda>r. if r \<in> set ?picked
      then settle_by m (ob_now s) (drained handlers_for n m w s) (lock_row w (ob_now s) r) else r) (ob_rows s) @ new"
    using same by (simp add: t(4) flip: outs)
  show thesis by (rule drain [OF res t(2,3,5) rows ids])
qed

end

section \<open>The queue it implements\<close>

datatype phase = Waiting nat | Held nat | Done | Dead

definition phase_of :: "outbox_row \<Rightarrow> phase" where
  "phase_of r =
     (if ob_processed_at r \<noteq> None then Done else if ob_failed_at r \<noteq> None then Dead
      else if ob_locked_at r \<noteq> None then Held (ob_attempts r) else Waiting (ob_attempts r))"

definition queue_of :: "'z outbox_db_scheme \<Rightarrow> uuid \<Rightarrow> phase option" where
  "queue_of s i = map_option phase_of (lookup_by ob_id i (ob_rows s))"

fun settle_phase :: "nat \<Rightarrow> exn + unit \<Rightarrow> phase \<Rightarrow> phase" where
  "settle_phase m (Inr u) (Waiting k) = Done"
| "settle_phase m (Inl e) (Waiting k) = (if m \<le> Suc k then Dead else Waiting (Suc k))"
| "settle_phase m res p = p"

definition settle_queue :: "nat \<Rightarrow> (uuid \<times> (exn + unit)) list \<Rightarrow> (uuid \<Rightarrow> phase option) \<Rightarrow> uuid \<Rightarrow> phase option" where
  "settle_queue m outs q i = (case map_of outs i of None \<Rightarrow> q i | Some res \<Rightarrow> map_option (settle_phase m res) (q i))"

lemma lookup_map_rows:
  "(\<And>r. r \<in> set rows \<Longrightarrow> key (g r) = key r) \<Longrightarrow> lookup_by key k (map g rows) = map_option g (lookup_by key k rows)"
  by (induction rows) (auto simp: table_simps)

lemma phase_settle:
  "claimable now r \<Longrightarrow> phase_of (settle_row m now res (lock_row w now r)) = settle_phase m res (phase_of r)"
  by (cases res) (auto simp: settle_row_def lock_row_def complete_row_def dead_row_def retry_row_def phase_of_def claimable_def)

definition waiting :: "outbox_row \<Rightarrow> bool" where
  "waiting r \<longleftrightarrow> ob_locked_at r = None \<and> \<not> settled r"

lemma claimable_waiting: "claimable now r \<longleftrightarrow> waiting r \<and> ob_available r \<le> now"
  by (auto simp: claimable_def waiting_def settled_def)

definition held_back :: "time \<Rightarrow> 'z outbox_db_scheme \<Rightarrow> nat" where
  "held_back a s = length (filter (\<lambda>r. waiting r \<and> ob_available r \<le> a) (ob_rows s))"

lemma filter_map_less:
  assumes "\<And>r. r \<in> set rows \<Longrightarrow> P (g r) \<Longrightarrow> P r" and "r \<in> set rows" "P r" "\<not> P (g r)"
  shows "length (filter P (map g rows)) < length (filter P rows)"
  using assms
proof (induction rows)
  case (Cons q rows)
  have le: "length (filter P (map g rows)) \<le> length (filter P rows)"
    using Cons.prems(1) by (induction rows) (auto intro: le_SucI)
  with Cons show ?case by (cases "r = q") (auto simp: less_Suc_eq_le)
qed simp

context outbox_handlers
begin

lemma drain_refines_queue:
  assumes ok: "outbox_ok s" and i: "queue_of s i \<noteq> None"
  shows "queue_of (snd (drain_once handlers_for n m w s)) i = settle_queue m (drained handlers_for n m w s) (queue_of s) i"
  using ok
proof (cases rule: drain_rows [where s = s and n = n and m = m and w = w])
  case (drain t new)
  let ?picked = "picked_rows (claimable (ob_now s)) n (ob_rows s)"
  let ?g = "\<lambda>r. if r \<in> set ?picked then settle_by m (ob_now s) (drained handlers_for n m w s) (lock_row w (ob_now s) r) else r"
  obtain r where r: "lookup_by ob_id i (ob_rows s) = Some r" using i by (auto simp: queue_of_def)
  then have ri: "r \<in> set (ob_rows s)" "ob_id r = i" by (auto dest: lookup_by_Some)
  have "lookup_by ob_id i (ob_rows t) = Some (?g r)"
    using r by (simp add: drain(5) table_simps lookup_map_rows)
  then have t: "queue_of t i = Some (phase_of (?g r))" by (simp add: queue_of_def)
  have d: "distinct (map ob_id (ob_rows s))" using ok by (simp add: outbox_ok_def)
  have ids: "fst ` set (drained handlers_for n m w s) = ob_id ` set ?picked" by (metis drain(6) list.set_map)
  show ?thesis
  proof (cases "r \<in> set ?picked")
    case False
    with in_picked_ids [OF d ri(1)] ids ri have "map_of (drained handlers_for n m w s) i = None"
      by (simp add: map_of_eq_None_iff)
    with False t r drain(1) show ?thesis by (simp add: settle_queue_def queue_of_def)
  next
    case True
    with ids ri have "i \<in> fst ` set (drained handlers_for n m w s)" by auto
    then obtain res where res: "map_of (drained handlers_for n m w s) i = Some res"
      by (metis map_of_eq_None_iff not_None_eq)
    from True have "claimable (ob_now s) r" by (auto dest: picked_subset)
    with res t r ri True drain(1) show ?thesis
      by (simp add: settle_queue_def queue_of_def settle_by_def phase_settle)
  qed
qed

lemma drain_passed_over:
  assumes ok: "outbox_ok s" and r: "r \<in> set (ob_rows s)" "waiting r" "ob_available r < ob_now s" and n: "0 < n"
    and over: "r \<notin> set (picked_rows (claimable (ob_now s)) n (ob_rows s))"
  shows "r \<in> set (ob_rows (snd (drain_once handlers_for n m w s))) \<and>
    held_back (ob_available r) (snd (drain_once handlers_for n m w s)) < held_back (ob_available r) s"
  using ok
proof (cases rule: drain_rows [where s = s and n = n and m = m and w = w])
  case (drain t new)
  let ?picked = "picked_rows (claimable (ob_now s)) n (ob_rows s)"
  let ?g = "\<lambda>r. if r \<in> set ?picked then settle_by m (ob_now s) (drained handlers_for n m w s) (lock_row w (ob_now s) r) else r"
  let ?P = "\<lambda>q. waiting q \<and> ob_available q \<le> ob_available r"
  have cl: "claimable (ob_now s) r" using r by (simp add: claimable_waiting)
  with picked_nonempty [of r "ob_rows s" "claimable (ob_now s)" n] r(1) n obtain q where q: "q \<in> set ?picked" by (metis hd_in_set)
  with picked_first [of r "ob_rows s" "claimable (ob_now s)" n q] r(1) cl over have qa: "?P q" "q \<in> set (ob_rows s)"
    by (auto simp: claimable_waiting dest: picked_subset)
  have ids: "fst ` set (drained handlers_for n m w s) = ob_id ` set ?picked" by (metis drain(6) list.set_map)
  have later: "\<not> ?P (?g x)" if x: "x \<in> set ?picked" for x
  proof -
    from x ids have "ob_id x \<in> fst ` set (drained handlers_for n m w s)" by auto
    then obtain res where "map_of (drained handlers_for n m w s) (ob_id x) = Some res"
      by (metis map_of_eq_None_iff not_None_eq)
    with x r(3) show ?thesis
      by (auto simp: settle_by_def settle_row_def lock_row_def complete_row_def dead_row_def retry_row_def waiting_def
          settled_def split: sum.splits) (smt (verit) zero_less_power)
  qed
  have "filter ?P new = []" using drain(4) r(3) by (auto simp: filter_empty_conv fresh_row_def)
  moreover have "length (filter ?P (map ?g (ob_rows s))) < length (filter ?P (ob_rows s))"
    using qa q later by (intro filter_map_less [of _ _ _ q]) (auto split: if_splits)
  ultimately have "held_back (ob_available r) t < held_back (ob_available r) s"
    by (simp add: held_back_def drain(5))
  moreover have "r \<in> set (ob_rows t)" using r(1) over by (auto simp: drain(5) intro: rev_image_eqI)
  ultimately show ?thesis by (simp add: drain(1))
qed

lemma drain_claimed:
  assumes ok: "outbox_ok s" and r: "r \<in> set (picked_rows (claimable (ob_now s)) n (ob_rows s))"
  shows "\<exists>r'\<in>set (ob_rows (snd (drain_once handlers_for n m w s))). ob_id r' = ob_id r \<and>
    (settled r' \<or> waiting r' \<and> ob_attempts r' = Suc (ob_attempts r) \<and> Suc (ob_attempts r) < m)"
  using ok
proof (cases rule: drain_rows [where s = s and n = n and m = m and w = w])
  case (drain t new)
  let ?r' = "settle_by m (ob_now s) (drained handlers_for n m w s) (lock_row w (ob_now s) r)"
  have "fst ` set (drained handlers_for n m w s) = ob_id ` set (picked_rows (claimable (ob_now s)) n (ob_rows s))"
    by (metis drain(6) list.set_map)
  with r have "ob_id r \<in> fst ` set (drained handlers_for n m w s)" by auto
  then obtain res where res: "map_of (drained handlers_for n m w s) (ob_id r) = Some res"
    by (metis map_of_eq_None_iff not_None_eq)
  have "\<not> settled r" using r by (auto simp: claimable_waiting waiting_def dest: picked_subset)
  with res have "settled ?r' \<or> waiting ?r' \<and> ob_attempts ?r' = Suc (ob_attempts r) \<and> Suc (ob_attempts r) < m"
    by (auto simp: settle_by_def settle_row_def lock_row_def complete_row_def dead_row_def retry_row_def waiting_def
        settled_def split: sum.splits)
  moreover have "?r' \<in> set (ob_rows t)" using r by (auto simp: drain(5) image_iff dest: picked_subset)
  ultimately show ?thesis using drain(1) by (intro bexI [of _ ?r']) simp_all
qed

lemma drain_ok: "outbox_ok s \<Longrightarrow> outbox_ok (snd (drain_once handlers_for n m w s))"
  using drain_rows [of s n m w] by (metis snd_conv)

lemma rounds_ok: "outbox_ok s \<Longrightarrow> outbox_ok (worker_rounds handlers_for n m w clock k s)"
proof (induction k)
  case (Suc k)
  then have "outbox_ok (worker_rounds handlers_for n m w clock k s\<lparr>ob_now := clock k\<rparr>)" by (simp add: outbox_ok_def)
  then show ?case by (simp add: Let_def drain_ok)
qed simp

lemma rounds_add:
  "worker_rounds handlers_for n m w clock (j + k) s =
     worker_rounds handlers_for n m w (\<lambda>i. clock (j + i)) k (worker_rounds handlers_for n m w clock j s)"
  by (induction k) (simp_all add: Let_def)

text \<open>Once the clock is past a row's availability, the rows held back before it run out.\<close>

definition claimed_in :: "nat \<Rightarrow> nat \<Rightarrow> string \<Rightarrow> (nat \<Rightarrow> time) \<Rightarrow> nat \<Rightarrow> 'z outbox_db_scheme \<Rightarrow> outbox_row \<Rightarrow> bool" where
  "claimed_in n m w clock k s r \<longleftrightarrow>
     r \<in> set (picked_rows (claimable (clock k)) n (ob_rows (worker_rounds handlers_for n m w clock k s)))"

lemma claimed_eventually:
  assumes "outbox_ok s" "r \<in> set (ob_rows s)" "waiting r" "0 < n" "\<And>i. ob_available r < clock i"
  shows "\<exists>k. claimed_in n m w clock k s r"
  using assms(1,2,5)
proof (induction "held_back (ob_available r) s" arbitrary: s clock rule: less_induct)
  case less
  let ?s = "s\<lparr>ob_now := clock 0\<rparr>"
  let ?t = "snd (drain_once handlers_for n m w ?s)"
  have ok: "outbox_ok ?s" using less.prems(1) by (simp add: outbox_ok_def)
  show ?case
  proof (cases "claimed_in n m w clock 0 s r")
    case False
    then have "r \<notin> set (picked_rows (claimable (ob_now ?s)) n (ob_rows ?s))" by (simp add: claimed_in_def)
    from drain_passed_over [OF ok _ assms(3) _ assms(4) this, of m w] less.prems
    have t: "r \<in> set (ob_rows ?t)" "held_back (ob_available r) ?t < held_back (ob_available r) ?s" by simp_all
    have "held_back (ob_available r) ?s = held_back (ob_available r) s" by (simp add: held_back_def)
    with less.hyps [of ?t "\<lambda>i. clock (Suc i)"] t drain_ok [OF ok] less.prems(3)
    obtain k where "claimed_in n m w (\<lambda>i. clock (Suc i)) k ?t r" by auto
    then have "claimed_in n m w clock (Suc k) s r"
      using rounds_add [of n m w clock 1 k s] by (simp add: claimed_in_def)
    then show ?thesis by blast
  qed blast
qed

lemma drain_unclaimed:
  assumes ok: "outbox_ok s" and r: "r \<in> set (ob_rows s)" "r \<notin> set (picked_rows (claimable (ob_now s)) n (ob_rows s))"
  shows "r \<in> set (ob_rows (snd (drain_once handlers_for n m w s)))"
  using ok
proof (cases rule: drain_rows [where s = s and n = n and m = m and w = w])
  case (drain t new)
  have "r \<in> set (ob_rows t)" using r by (auto simp: drain(5) image_iff)
  with drain(1) show ?thesis by simp
qed

lemma unclaimed_stays:
  assumes "outbox_ok s" "r \<in> set (ob_rows s)"
  shows "(\<forall>i<k. \<not> claimed_in n m w clock i s r) \<Longrightarrow> r \<in> set (ob_rows (worker_rounds handlers_for n m w clock k s))"
proof (induction k)
  case (Suc k)
  let ?s = "worker_rounds handlers_for n m w clock k s\<lparr>ob_now := clock k\<rparr>"
  have "outbox_ok ?s" using rounds_ok [OF assms(1)] by (simp add: outbox_ok_def)
  with drain_unclaimed [of ?s r n m w] Suc show ?case by (simp add: claimed_in_def Let_def)
qed (simp add: assms(2))

lemma claimed_in_time:
  assumes "outbox_ok s" "r \<in> set (ob_rows s)" "waiting r" "0 < n" and clock: "mono clock" "\<And>x. \<exists>k. x < clock k"
  shows "\<exists>k. claimed_in n m w clock k s r"
proof -
  obtain j where j: "ob_available r < clock j" using clock(2) by blast
  show ?thesis
  proof (cases "\<exists>i<j. claimed_in n m w clock i s r")
    case False
    let ?t = "worker_rounds handlers_for n m w clock j s"
    have late: "ob_available r < clock (j + i)" for i using j monoD [OF clock(1), of j "j + i"] by simp
    have "r \<in> set (ob_rows ?t)" using False by (intro unclaimed_stays assms(1,2)) simp
    with claimed_eventually [of ?t r n "\<lambda>i. clock (j + i)" m w] rounds_ok [OF assms(1)] assms(3,4) late obtain k
      where "claimed_in n m w (\<lambda>i. clock (j + i)) k ?t r" by blast
    then have "claimed_in n m w clock (j + k) s r" by (simp add: claimed_in_def rounds_add)
    then show ?thesis by blast
  qed blast
qed

text \<open>No waiting event starves: it is processed or, after its last attempt, put aside.\<close>

lemma settled_eventually:
  assumes "0 < n" and clock: "mono clock" "\<And>x. \<exists>k. x < clock k"
  shows "outbox_ok s \<Longrightarrow> r \<in> set (ob_rows s) \<Longrightarrow> waiting r \<Longrightarrow>
    \<exists>k. \<exists>r'\<in>set (ob_rows (worker_rounds handlers_for n m w clock k s)). ob_id r' = ob_id r \<and> settled r'"
  using clock
proof (induction "m - ob_attempts r" arbitrary: r s clock rule: less_induct)
  case less
  from claimed_in_time [OF less.prems(1-3) assms(1) less.prems(4,5)] obtain k where k: "claimed_in n m w clock k s r" by blast
  let ?s = "worker_rounds handlers_for n m w clock k s\<lparr>ob_now := clock k\<rparr>"
  let ?t = "worker_rounds handlers_for n m w clock (Suc k) s"
  have "outbox_ok ?s" using rounds_ok [OF less.prems(1)] by (simp add: outbox_ok_def)
  with k drain_claimed [of ?s r n m w] obtain r' where r': "r' \<in> set (ob_rows ?t)" "ob_id r' = ob_id r"
    "settled r' \<or> waiting r' \<and> ob_attempts r' = Suc (ob_attempts r) \<and> Suc (ob_attempts r) < m"
    by (auto simp: claimed_in_def Let_def)
  show ?case
  proof (cases "settled r'")
    case False
    with r'(3) have "m - ob_attempts r' < m - ob_attempts r" "waiting r'" by auto
    moreover have "mono (\<lambda>i. clock (Suc k + i))" using less.prems(4) by (auto simp: mono_def)
    moreover have "\<exists>i. x < clock (Suc k + i)" for x
    proof -
      obtain j where "x < clock j" using less.prems(5) by blast
      also have "clock j \<le> clock (Suc k + j)" using less.prems(4) by (auto simp: mono_def)
      finally show ?thesis by blast
    qed
    ultimately obtain i where
      "\<exists>q\<in>set (ob_rows (worker_rounds handlers_for n m w (\<lambda>i. clock (Suc k + i)) i ?t)). ob_id q = ob_id r' \<and> settled q"
      using less.hyps [of r' ?t "\<lambda>i. clock (Suc k + i)"] rounds_ok [OF less.prems(1)] r'(1) by blast
    then have "\<exists>q\<in>set (ob_rows (worker_rounds handlers_for n m w clock (Suc k + i) s)). ob_id q = ob_id r \<and> settled q"
      by (simp only: rounds_add r'(2))
    then show ?thesis by blast
  qed (use r' in blast)
qed

end

section \<open>Several workers and administrators\<close>

text \<open>
  What each process holds of the rows it claimed, and the steps the processes take in any order: a
  worker claims a batch, settles the head of what it holds, or stops (worker.ts exits on SIGTERM
  without waiting for the drain it is in); an administrator claims; a transaction inserts an event;
  time passes.
\<close>

type_synonym holdings = "nat \<Rightarrow> outbox_row list"

inductive worker_step :: "holdings \<times> 'z outbox_db_scheme \<Rightarrow> holdings \<times> 'z outbox_db_scheme \<Rightarrow> bool" where
  claims: "f p = [] \<Longrightarrow> claim_outbox_batch w n s = (Inr es, t) \<Longrightarrow> worker_step (f, s) (f(p := es), t)"
| completes: "f p = e # es \<Longrightarrow> complete_outbox_event (ob_id e) s = (Inr u, t) \<Longrightarrow> worker_step (f, s) (f(p := es), t)"
| fails: "f p = e # es \<Longrightarrow> fail_outbox_event (ob_id e) msg m s = (Inr u, t) \<Longrightarrow> worker_step (f, s) (f(p := es), t)"
| stops: "worker_step (f, s) (f(p := []), s)"
| admin_claims: "claim_available_outbox_events a n w s = (Inr res, t) \<Longrightarrow> worker_step (f, s) (f, t)"
| inserts: "insert_outbox_event ty agg aid payload s = (Inr i, t) \<Longrightarrow> worker_step (f, s) (f, t)"
| time_passes: "ob_now s \<le> now \<Longrightarrow> worker_step (f, s) (f, s\<lparr>ob_now := now\<rparr>)"

inductive worker_reachable :: "holdings \<times> 'z outbox_db_scheme \<Rightarrow> bool" where
  start: "outbox_ok s \<Longrightarrow> worker_reachable (\<lambda>p. [], s)"
| step: "worker_reachable x \<Longrightarrow> worker_step x y \<Longrightarrow> worker_reachable y"

definition in_work :: "outbox_row list \<Rightarrow> uuid \<Rightarrow> bool" where
  "in_work rows i \<longleftrightarrow> (\<exists>r\<in>set rows. ob_id r = i \<and> ob_locked_at r \<noteq> None \<and> \<not> settled r)"

definition holdings_ok :: "holdings \<times> 'z outbox_db_scheme \<Rightarrow> bool" where
  "holdings_ok x \<longleftrightarrow> outbox_ok (snd x) \<and> (\<forall>p. distinct (map ob_id (fst x p))) \<and>
     (\<forall>p q. p \<noteq> q \<longrightarrow> ob_id ` set (fst x p) \<inter> ob_id ` set (fst x q) = {}) \<and>
     (\<forall>p. \<forall>e\<in>set (fst x p). in_work (ob_rows (snd x)) (ob_id e))"

definition stranded :: "uuid \<Rightarrow> holdings \<times> 'z outbox_db_scheme \<Rightarrow> bool" where
  "stranded i x \<longleftrightarrow> (\<exists>r\<in>set (ob_rows (snd x)). ob_id r = i \<and> ob_locked_at r \<noteq> None \<and> ob_processed_at r = None) \<and>
     (\<forall>p. i \<notin> ob_id ` set (fst x p))"

lemma update_elsewhere: "r \<in> set rows \<Longrightarrow> \<not> p r \<Longrightarrow> r \<in> set (update_where p f rows)"
  by (auto simp: set_update_where image_iff)

lemma in_work_elsewhere: "in_work rows i \<Longrightarrow> (\<And>r. ob_id r = i \<Longrightarrow> \<not> p r) \<Longrightarrow> in_work (update_where p f rows) i"
  unfolding in_work_def using update_elsewhere by metis

lemma outbox_ok_update:
  "outbox_ok s \<Longrightarrow> (\<And>r. ob_id (f r) = ob_id r) \<Longrightarrow> outbox_ok (s\<lparr>ob_rows := update_where p f (ob_rows s)\<rparr>)"
  unfolding update_where_def by (rule outbox_ok_map) simp_all

text \<open>Both claims lock rows no one holds.\<close>

definition locks :: "uuid set \<Rightarrow> 'z outbox_db_scheme \<Rightarrow> 'z outbox_db_scheme \<Rightarrow> bool" where
  "locks ids s t \<longleftrightarrow> (\<exists>w. t = s\<lparr>ob_rows := update_where (\<lambda>r. ob_id r \<in> ids) (lock_row w (ob_now s)) (ob_rows s)\<rparr>) \<and>
     (\<forall>i\<in>ids. \<exists>r\<in>set (ob_rows s). ob_id r = i \<and> ob_locked_at r = None \<and> ob_processed_at r = None)"

lemma claim_locks:
  assumes "claim_outbox_batch w n s = (Inr es, t)"
  shows "locks (ob_id ` set es) s t" "outbox_ok s \<Longrightarrow> distinct (map ob_id es)"
    "e \<in> set es \<Longrightarrow> in_work (ob_rows t) (ob_id e)"
proof -
  let ?picked = "picked_rows (claimable (ob_now s)) n (ob_rows s)"
  from assms have es: "es = map (lock_row w (ob_now s)) ?picked"
    and t: "t = s\<lparr>ob_rows := update_where (\<lambda>r. ob_id r \<in> ob_id ` set ?picked) (lock_row w (ob_now s)) (ob_rows s)\<rparr>"
    by (auto simp: claim_outbox_batch_def Let_def lock_rows_def)
  have ids: "ob_id ` set es = ob_id ` set ?picked" by (simp add: es image_image)
  show "locks (ob_id ` set es) s t" unfolding locks_def ids
    using t by (auto simp: claimable_def dest!: picked_subset)
  show "outbox_ok s \<Longrightarrow> distinct (map ob_id es)" using distinct_picked by (auto simp: es o_def outbox_ok_def)
  assume "e \<in> set es"
  then obtain r where r: "r \<in> set ?picked" "e = lock_row w (ob_now s) r" by (auto simp: es)
  then have "lock_row w (ob_now s) r \<in> set (ob_rows t)" by (auto simp: t set_update_where image_iff dest: picked_subset)
  moreover have "\<not> settled r" using r(1) by (auto simp: claimable_def settled_def dest: picked_subset)
  ultimately show "in_work (ob_rows t) (ob_id e)" using r(2)
    unfolding in_work_def by (intro bexI [of _ "lock_row w (ob_now s) r"]) (simp_all add: lock_row_def settled_def)
qed

lemma admin_locks:
  assumes "claim_available_outbox_events a n w s = (Inr res, t)"
  shows "locks (ob_id ` set (pr_events res)) s t"
proof -
  obtain k v where run: "claim_available_rows k v s = (Inr res, t)"
    using assms by (auto simp: claim_available_outbox_events_def prog_simps split: sum.splits)
  let ?picked = "picked_rows (admin_claimable (ob_now s)) k (ob_rows s)"
  from run have "ob_id ` set (pr_events res) = ob_id ` set ?picked"
    and "t = s\<lparr>ob_rows := update_where (\<lambda>r. ob_id r \<in> ob_id ` set ?picked) (lock_row v (ob_now s)) (ob_rows s)\<rparr>"
    by (auto simp: claim_available_rows_def Let_def lock_rows_def image_image)
  then show ?thesis by (auto simp: locks_def admin_claimable_def dest!: picked_subset)
qed

lemma locks_free:
  assumes "locks ids s t" "outbox_ok s" "in_work (ob_rows s) i"
  shows "i \<notin> ids" "in_work (ob_rows t) i"
proof -
  show free: "i \<notin> ids"
  proof
    assume "i \<in> ids"
    with assms(1) obtain q where "q \<in> set (ob_rows s)" "ob_id q = i" "ob_locked_at q = None" by (auto simp: locks_def)
    moreover from assms(3) obtain r where "r \<in> set (ob_rows s)" "ob_id r = i" "ob_locked_at r \<noteq> None"
      by (auto simp: in_work_def)
    ultimately show False using assms(2) by (auto simp: outbox_ok_def distinct_map dest: inj_onD)
  qed
  from assms(1) free show "in_work (ob_rows t) i"
    by (auto simp: locks_def intro: in_work_elsewhere [OF assms(3)])
qed

lemma locks_ok: "locks ids s t \<Longrightarrow> outbox_ok s \<Longrightarrow> outbox_ok t"
  by (auto simp: locks_def intro: outbox_ok_update)

text \<open>Completing and failing touch one row.\<close>

definition touches :: "uuid \<Rightarrow> 'z outbox_db_scheme \<Rightarrow> 'z outbox_db_scheme \<Rightarrow> bool" where
  "touches i s t \<longleftrightarrow> outbox_ok t \<and> (\<forall>r\<in>set (ob_rows s). ob_id r \<noteq> i \<longrightarrow> r \<in> set (ob_rows t))"

lemma settling_touches:
  assumes "outbox_ok s"
  shows "complete_outbox_event i s = (v, t) \<Longrightarrow> touches i s t" "fail_outbox_event i msg m s = (v, t) \<Longrightarrow> touches i s t"
proof -
  have "touches i s (s\<lparr>ob_rows := update_where (\<lambda>r. ob_id r = i) g (ob_rows s)\<rparr>)" if "\<And>r. ob_id (g r) = ob_id r" for g
    using outbox_ok_update [OF assms that] update_elsewhere by (auto simp: touches_def)
  then show "complete_outbox_event i s = (v, t) \<Longrightarrow> touches i s t" "fail_outbox_event i msg m s = (v, t) \<Longrightarrow> touches i s t"
    using assms by (auto simp: complete_outbox_event_def fail_outbox_event_def prog_simps touches_def split: option.splits)
qed

lemma holdings_settle:
  assumes "holdings_ok (f, s)" "f p = e # es" "touches (ob_id e) s t"
  shows "holdings_ok (f(p := es), t)"
proof -
  have "in_work (ob_rows t) (ob_id x)" if x: "x \<in> set ((f(p := es)) q)" for x q
  proof -
    have held: "x \<in> set (f q)" using x assms(2) by (auto split: if_splits)
    with assms(1) have "in_work (ob_rows s) (ob_id x)" by (simp add: holdings_ok_def)
    then obtain r where r: "r \<in> set (ob_rows s)" "ob_id r = ob_id x" "ob_locked_at r \<noteq> None" "\<not> settled r"
      unfolding in_work_def by blast
    have "ob_id x \<noteq> ob_id e"
    proof (cases "q = p")
      case True
      with x assms(1,2) have "distinct (map ob_id (e # es))" "x \<in> set es" by (auto simp: holdings_ok_def dest: spec [of _ p])
      then show ?thesis by (auto simp: image_iff)
    next
      case False
      with assms(1) have "ob_id ` set (f q) \<inter> ob_id ` set (f p) = {}" by (auto simp: holdings_ok_def)
      moreover have "ob_id x \<in> ob_id ` set (f q)" "ob_id e \<in> ob_id ` set (f p)" using held assms(2) by auto
      ultimately show ?thesis by (metis disjoint_iff)
    qed
    with r(1,2) assms(3) have "r \<in> set (ob_rows t)" by (simp add: touches_def)
    with r(2-4) show ?thesis unfolding in_work_def by blast
  qed
  moreover have "distinct (map ob_id ((f(p := es)) q))" for q
    using assms(1,2) by (auto simp: holdings_ok_def dest: spec [of _ p])
  moreover have "ob_id ` set ((f(p := es)) q) \<inter> ob_id ` set ((f(p := es)) q') = {}" if "q \<noteq> q'" for q q'
  proof -
    have "ob_id ` set ((f(p := es)) x) \<subseteq> ob_id ` set (f x)" for x using assms(2) by auto
    moreover have "ob_id ` set (f q) \<inter> ob_id ` set (f q') = {}" using assms(1) that by (simp add: holdings_ok_def)
    ultimately show ?thesis by blast
  qed
  ultimately show ?thesis using assms(3) unfolding holdings_ok_def fst_conv snd_conv touches_def by blast
qed

lemma worker_step_ok:
  assumes "worker_step x y" "holdings_ok x"
  shows "holdings_ok y"
  using assms
proof (induction rule: worker_step.induct)
  case (claims f p w n s es t)
  have ok: "outbox_ok s" using claims by (simp add: holdings_ok_def)
  note cl = claim_locks [OF claims(2)]
  have apart: "ob_id ` set (f q) \<inter> ob_id ` set es = {}" for q
    using claims locks_free(1) [OF cl(1) ok] by (fastforce simp: holdings_ok_def)
  have kept: "in_work (ob_rows t) (ob_id e)" if "e \<in> set (f q)" for q e
    using claims that locks_free(2) [OF cl(1) ok] by (fastforce simp: holdings_ok_def)
  show ?case using claims apart kept cl ok locks_ok [OF cl(1) ok] by (simp add: holdings_ok_def) blast
next
  case (completes f p e es s u t)
  then show ?case using holdings_settle settling_touches(1) by (metis holdings_ok_def snd_conv)
next
  case (fails f p e es msg m s u t)
  then show ?case using holdings_settle settling_touches(2) by (metis holdings_ok_def snd_conv)
next
  case (stops f s p)
  then show ?case by (simp add: holdings_ok_def)
next
  case (admin_claims a n w s res t f)
  then have ok: "outbox_ok s" by (simp add: holdings_ok_def)
  from admin_claims locks_free(2) [OF admin_locks [OF admin_claims(1)] ok] locks_ok [OF admin_locks [OF admin_claims(1)] ok]
  show ?case by (simp add: holdings_ok_def)
next
  case (inserts ty agg aid payload s i t f)
  have "keeps_outbox s t" using keeps_insert [of s ty agg aid payload] inserts by (simp add: holdings_ok_def)
  with inserts show ?case by (fastforce simp: holdings_ok_def keeps_outbox_def in_work_def)
next
  case (time_passes s now f)
  then show ?case by (simp add: holdings_ok_def outbox_ok_def)
qed

lemma worker_reachable_ok: "worker_reachable x \<Longrightarrow> holdings_ok x"
  by (induction rule: worker_reachable.induct) (simp add: holdings_ok_def, rule worker_step_ok)

text \<open>A locked row nobody holds stays locked, and nobody ever holds it.\<close>

lemma stranded_settle:
  assumes "stranded i (f, s)" "f p = e # es" "touches (ob_id e) s t"
  shows "stranded i (f(p := es), t)"
proof -
  from assms(1) obtain r where r: "r \<in> set (ob_rows s)" "ob_id r = i" "ob_locked_at r \<noteq> None" "ob_processed_at r = None"
    and free: "\<And>q. i \<notin> ob_id ` set (f q)" unfolding stranded_def fst_conv snd_conv by blast
  have "ob_id e \<in> ob_id ` set (f p)" using assms(2) by simp
  with free r(2) have "ob_id r \<noteq> ob_id e" by metis
  with r(1) assms(3) have "r \<in> set (ob_rows t)" by (simp add: touches_def)
  moreover have "ob_id ` set ((f(p := es)) q) \<subseteq> ob_id ` set (f q)" for q using assms(2) by auto
  ultimately show ?thesis using r free unfolding stranded_def fst_conv snd_conv by blast
qed

lemma stranded_step:
  assumes "worker_step x y" "holdings_ok x" "stranded i x"
  shows "stranded i y"
  using assms
proof (induction rule: worker_step.induct)
  case (claims f p w n s es t)
  then obtain r where r: "r \<in> set (ob_rows s)" "ob_id r = i" "ob_locked_at r \<noteq> None" "ob_processed_at r = None"
    by (auto simp: stranded_def)
  have ok: "outbox_ok s" using claims by (simp add: holdings_ok_def)
  note lk = claim_locks(1) [OF claims(2)]
  have "i \<notin> ob_id ` set es"
  proof
    assume "i \<in> ob_id ` set es"
    with lk obtain q where "q \<in> set (ob_rows s)" "ob_id q = i" "ob_locked_at q = None" by (auto simp: locks_def)
    with r ok show False by (auto simp: outbox_ok_def distinct_map dest: inj_onD)
  qed
  moreover from this lk r have "r \<in> set (ob_rows t)" by (auto simp: locks_def intro: update_elsewhere)
  ultimately show ?case using claims r by (auto simp: stranded_def)
next
  case (completes f p e es s u t)
  then show ?case using stranded_settle settling_touches(1) by (metis holdings_ok_def snd_conv)
next
  case (fails f p e es msg m s u t)
  then show ?case using stranded_settle settling_touches(2) by (metis holdings_ok_def snd_conv)
next
  case (admin_claims a n w s res t f)
  then obtain r where r: "r \<in> set (ob_rows s)" "ob_id r = i" "ob_locked_at r \<noteq> None" "ob_processed_at r = None"
    by (auto simp: stranded_def)
  have ok: "outbox_ok s" using admin_claims by (simp add: holdings_ok_def)
  note lk = admin_locks [OF admin_claims(1)]
  have "i \<notin> ob_id ` set (pr_events res)"
  proof
    assume "i \<in> ob_id ` set (pr_events res)"
    with lk obtain q where "q \<in> set (ob_rows s)" "ob_id q = i" "ob_locked_at q = None" by (auto simp: locks_def)
    with r ok show False by (auto simp: outbox_ok_def distinct_map dest: inj_onD)
  qed
  with lk r have "r \<in> set (ob_rows t)" by (auto simp: locks_def intro: update_elsewhere)
  then show ?case using admin_claims r by (auto simp: stranded_def)
next
  case (inserts ty agg aid payload s i' t f)
  have "keeps_outbox s t" using keeps_insert [of s ty agg aid payload] inserts by (simp add: holdings_ok_def)
  with inserts show ?case by (fastforce simp: stranded_def keeps_outbox_def)
qed (auto simp: stranded_def)

lemma stranded_forever: "worker_step\<^sup>*\<^sup>* x y \<Longrightarrow> holdings_ok x \<Longrightarrow> stranded i x \<Longrightarrow> stranded i y"
proof (induction rule: rtranclp_induct)
  case (step y z)
  have "holdings_ok y"
    using step.hyps(1) step.prems(1) by (induction rule: rtranclp_induct) (auto intro: worker_step_ok)
  with step stranded_step show ?case by blast
qed

text \<open>The rows an administrator claims, and those a stopped worker held, are in that state.\<close>

lemma admin_claim_strands:
  assumes "claim_available_outbox_events a n w s = (Inr res, t)" "holdings_ok (f, s)" "i \<in> ob_id ` set (pr_events res)"
  shows "stranded i (f, t)"
proof -
  note lk = admin_locks [OF assms(1)]
  then obtain v where t: "t = s\<lparr>ob_rows := update_where (\<lambda>r. ob_id r \<in> ob_id ` set (pr_events res)) (lock_row v (ob_now s)) (ob_rows s)\<rparr>"
    by (auto simp: locks_def)
  from lk assms(3) obtain r where r: "r \<in> set (ob_rows s)" "ob_id r = i" "ob_processed_at r = None"
    by (fastforce simp: locks_def)
  with assms(3) have "lock_row v (ob_now s) r \<in> set (ob_rows t)" by (auto simp: t set_update_where image_iff)
  moreover have "i \<notin> ob_id ` set (f p)" for p
  proof
    assume "i \<in> ob_id ` set (f p)"
    then have "in_work (ob_rows s) i" using assms(2) by (auto simp: holdings_ok_def)
    with locks_free(1) [OF lk _ this] assms(2,3) show False by (simp add: holdings_ok_def)
  qed
  ultimately show ?thesis using r unfolding stranded_def
    by (auto simp: lock_row_def intro!: bexI [of _ "lock_row v (ob_now s) r"])
qed

lemma stop_strands:
  assumes "holdings_ok (f, s)" "e \<in> set (f p)"
  shows "stranded (ob_id e) (f(p := []), s)"
proof -
  have "in_work (ob_rows s) (ob_id e)" using assms by (auto simp: holdings_ok_def)
  moreover have "ob_id e \<notin> ob_id ` set (f q)" if "q \<noteq> p" for q
  proof -
    have "ob_id ` set (f q) \<inter> ob_id ` set (f p) = {}" using assms(1) that by (simp add: holdings_ok_def)
    moreover have "ob_id e \<in> ob_id ` set (f p)" using assms(2) by simp
    ultimately show ?thesis by (metis disjoint_iff)
  qed
  ultimately show ?thesis by (auto simp: stranded_def in_work_def settled_def)
qed

section \<open>Properties\<close>

text \<open>A small table to evaluate on.\<close>

definition outbox_sample :: outbox_db where
  "outbox_sample = \<lparr>ob_now = 5, ob_uuid = (\<lambda>n. replicate n (CHR ''x'')), ob_drawn = 2,
     ob_rows = [new_outbox_row [] 0 ''order.ready'' ''order'' ''o'' JNull, new_outbox_row ''x'' 1 ''order.paid'' ''order'' ''o'' JNull]\<rparr>"

lemma outbox_sample_ok: "outbox_ok outbox_sample"
proof -
  have "inj (\<lambda>n. replicate n (CHR ''x''))" by (rule injI) (metis length_replicate)
  moreover have "[] = replicate 0 (CHR ''x'')" "''x'' = replicate 1 (CHR ''x'')" by simp_all
  ultimately show ?thesis
    by (auto simp: outbox_ok_def outbox_sample_def new_outbox_row_def intro: image_eqI [of _ _ "0::nat"] image_eqI [of _ _ "1::nat"])
qed

definition jobs_admin :: actor where
  "jobs_admin = \<lparr>user_id = ''a'', role = Super_Admin, email = None, campus_id = None, vendor_id = None, rider_id = None\<rparr>"

text \<open>
  Property C5: whatever the workers, administrators and transactions do, in any order, a claimed event is held
  by one worker, once, and its row stays locked and undecided while it is held: no event is processed by two
  workers at a time.
\<close>

theorem claimed_event_has_one_holder:
  assumes "worker_reachable (f, s)" "e \<in> set (f p)" "e' \<in> set (f q)" "ob_id e = ob_id e'"
  shows "p = q \<and> e = e' \<and>
    (\<exists>r\<in>set (ob_rows s). ob_id r = ob_id e \<and> ob_locked_at r \<noteq> None \<and> ob_processed_at r = None \<and> ob_failed_at r = None)"
proof -
  have ok: "holdings_ok (f, s)" using assms(1) by (rule worker_reachable_ok)
  have same: "p = q"
  proof (rule ccontr)
    assume "p \<noteq> q"
    with ok have "ob_id ` set (f p) \<inter> ob_id ` set (f q) = {}" by (simp add: holdings_ok_def)
    with assms(2-4) show False by (metis disjoint_iff imageI)
  qed
  have "distinct (map ob_id (f p))" using ok by (simp add: holdings_ok_def)
  with assms(2-4) same have "e = e'" by (simp add: distinct_map inj_on_def)
  moreover have "in_work (ob_rows s) (ob_id e)" using ok assms(2) by (auto simp: holdings_ok_def)
  ultimately show ?thesis using same by (auto simp: in_work_def settled_def)
qed

theorem claimed_event_has_one_holder_witness:
  "\<exists>f s. worker_reachable (f, s :: outbox_db) \<and> map ob_id (f 3) = [[], ''x''] \<and>
     (\<forall>e\<in>set (f 3). \<exists>r\<in>set (ob_rows s). ob_id r = ob_id e \<and> ob_locked_at r \<noteq> None \<and> ob_processed_at r = None \<and> ob_failed_at r = None)"
proof -
  obtain es t where c: "claim_outbox_batch ''w'' 10 outbox_sample = (Inr es, t)" by (simp add: claim_batch_app)
  let ?f = "(\<lambda>p::nat. [])(3 := es)"
  have r: "worker_reachable (?f, t)"
    by (rule worker_reachable.step [OF worker_reachable.start [OF outbox_sample_ok] worker_step.claims [OF _ c]]) simp
  have "map ob_id es = [[], ''x'']" using c
    by (auto simp: claim_batch_app outbox_sample_def picked_rows_def claim_order_def claimable_def new_outbox_row_def lock_row_def)
  moreover have "\<exists>r\<in>set (ob_rows t). ob_id r = ob_id e \<and> ob_locked_at r \<noteq> None \<and> ob_processed_at r = None \<and> ob_failed_at r = None"
    if "e \<in> set (?f 3)" for e
    using claimed_event_has_one_holder [OF r that that] by simp
  ultimately show ?thesis using r by (intro exI [of _ ?f] exI [of _ t]) simp
qed

text \<open>
  An event that an administrator claimed, or that a worker held when it stopped, is held by no
  worker ever after, and its row stays locked and unprocessed, whatever steps follow.
\<close>

theorem stranded_events_are_never_handled:
  assumes "worker_reachable (f, s)" "worker_step\<^sup>*\<^sup>* (g, t) (h, u)"
    and "(\<exists>a n w res. claim_available_outbox_events a n w s = (Inr res, t) \<and> i \<in> ob_id ` set (pr_events res) \<and> g = f) \<or>
      (\<exists>p. i \<in> ob_id ` set (f p) \<and> g = f(p := []) \<and> t = s)"
  shows "(\<forall>p. i \<notin> ob_id ` set (h p)) \<and>
    (\<exists>r\<in>set (ob_rows u). ob_id r = i \<and> ob_locked_at r \<noteq> None \<and> ob_processed_at r = None)"
proof -
  have ok: "holdings_ok (f, s)" using assms(1) by (rule worker_reachable_ok)
  from assms(3) have "stranded i (g, t) \<and> worker_step (f, s) (g, t)"
    by (auto intro: admin_claim_strands [OF _ ok] stop_strands [OF ok] worker_step.admin_claims worker_step.stops)
  with ok have "stranded i (g, t)" "holdings_ok (g, t)" by (auto intro: worker_step_ok)
  with stranded_forever [OF assms(2)] show ?thesis by (simp add: stranded_def)
qed

theorem stranded_events_are_never_handled_witness:
  "\<exists>t. snd (claim_available_outbox_events jobs_admin None None outbox_sample) = t \<and>
     (\<exists>r\<in>set (ob_rows (t\<lparr>ob_now := 60000\<rparr>)). ob_id r = ''x'' \<and> ob_locked_at r \<noteq> None \<and> ob_processed_at r = None)"
proof -
  let ?c = "claim_available_outbox_events jobs_admin None None outbox_sample"
  obtain res where c: "?c = (Inr res, snd ?c)" "''x'' \<in> ob_id ` set (pr_events res)"
    by (simp add: claim_available_outbox_events_def claim_available_rows_def assert_admin_def jobs_admin_def prog_simps
        Let_def outbox_sample_def picked_rows_def claim_order_def admin_claimable_def new_outbox_row_def lock_row_def)
  have start: "worker_reachable (\<lambda>p. [], outbox_sample)" using outbox_sample_ok by (rule worker_reachable.start)
  have "ob_now (snd ?c) = 5"
    by (simp add: claim_available_outbox_events_def claim_available_rows_def assert_admin_def jobs_admin_def prog_simps
        Let_def outbox_sample_def)
  then have "worker_step\<^sup>*\<^sup>* (\<lambda>p. [], snd ?c) (\<lambda>p. [], (snd ?c)\<lparr>ob_now := 60000\<rparr>)"
    by (intro r_into_rtranclp worker_step.time_passes) simp
  from stranded_events_are_never_handled [OF start this] c show ?thesis by blast
qed

end
