(* ===== verification/Notifications.thy ===== *)
theory Notifications
  imports Outbox Wallets
begin

text \<open>
  Notifications: the user's list and preferences (modules/notifications), device tokens, the email and
  push channels (notifications/channels) and the handler that delivers the notifications of an outbox
  event (worker/handlers/notification-dispatch.handler.ts, notification-reads.repository.ts). The email
  and push services are not under src/: every send is logged in \<open>send_log\<close>, and the n-th send reads the
  n-th answer of the stream \<open>send_answer\<close> (the value it threw, or none).
\<close>

section \<open>State\<close>

record notification_row =
  no_id :: uuid
  no_recipient :: uuid
  no_event :: "uuid option"
  no_type :: string
  no_aggregate_type :: string
  no_aggregate :: uuid
  no_title :: string
  no_body :: string
  no_link :: "string option"
  no_read :: "time option"
  no_created :: time
  no_updated :: time

record preference_row =
  np_user :: uuid
  np_in_app :: bool
  np_push :: bool
  np_email :: bool
  np_order :: bool
  np_payment :: bool
  np_delivery :: bool
  np_escalation :: bool
  np_settlement :: bool
  np_chat :: bool
  np_updated :: time

record token_row =
  dt_user :: uuid
  dt_token :: string
  dt_platform :: string
  dt_disabled :: "time option"
  dt_reason :: "string option"

datatype channel = Email_Channel | Push_Channel

record sent_row =
  sr_notification :: uuid
  sr_channel :: channel
  sr_sent :: bool
  sr_detail :: "string option"

text \<open>What a send threw: an Error with its code, a string, or some other value.\<close>

datatype thrown = Thrown_Error "string option" string | Thrown_Text string | Thrown_Other "string option"

record email_message =
  em_from :: string
  em_to :: string
  em_subject :: string
  em_text :: string

record push_message =
  pm_token :: string
  pm_title :: string
  pm_body :: string
  pm_link :: "string option"

datatype sent_message = Sent_Email email_message | Sent_Push push_message

record notify_db = outbox_db +
  notifications :: "notification_row list"
  preferences :: "preference_row list"
  device_tokens :: "token_row list"
  sent_rows :: "sent_row list"
  contacts :: "profile list"
  send_log :: "sent_message list"
  send_answer :: "nat \<Rightarrow> thrown option"

definition new_uuid :: "('z outbox_db_scheme, uuid) prog" where
  "new_uuid = (\<lambda>s. (Inr (ob_uuid s (ob_drawn s)), s\<lparr>ob_drawn := Suc (ob_drawn s)\<rparr>))"

section \<open>Device tokens (device-tokens.repository.ts)\<close>

definition register_token :: "uuid \<Rightarrow> string \<Rightarrow> string \<Rightarrow> ('z notify_db_scheme, unit) prog" where
  "register_token user token platform =
     (let row = \<lparr>dt_user = user, dt_token = token, dt_platform = platform, dt_disabled = None, dt_reason = None\<rparr>
      in modify (\<lambda>s. s\<lparr>device_tokens :=
           (if token \<in> dt_token ` set (device_tokens s)
            then update_where (\<lambda>r. dt_token r = token) (\<lambda>_. row) (device_tokens s)
            else device_tokens s @ [row])\<rparr>))"

definition unregister_token :: "uuid \<Rightarrow> string \<Rightarrow> ('z notify_db_scheme, unit) prog" where
  "unregister_token user token = modify (\<lambda>s. s\<lparr>device_tokens :=
     filter (\<lambda>r. \<not> (dt_user r = user \<and> dt_token r = token)) (device_tokens s)\<rparr>)"

definition remove_token :: "string \<Rightarrow> string option \<Rightarrow> ('z notify_db_scheme, unit) prog" where
  "remove_token token reason = modify (\<lambda>s. s\<lparr>device_tokens :=
     update_where (\<lambda>r. dt_token r = token \<and> dt_disabled r = None)
       (\<lambda>r. r\<lparr>dt_disabled := Some (ob_now s), dt_reason := reason\<rparr>) (device_tokens s)\<rparr>)"

definition tokens_for_user :: "uuid \<Rightarrow> 'z notify_db_scheme \<Rightarrow> string list" where
  "tokens_for_user user s = map dt_token (filter (\<lambda>r. dt_user r = user \<and> dt_disabled r = None) (device_tokens s))"

section \<open>Channels\<close>

definition send_message :: "sent_message \<Rightarrow> ('z notify_db_scheme, thrown option) prog" where
  "send_message m = (\<lambda>s. (Inr (send_answer s (length (send_log s))), s\<lparr>send_log := send_log s @ [m]\<rparr>))"

fun thrown_exn :: "string \<Rightarrow> thrown \<Rightarrow> exn" where
  "thrown_exn fallback (Thrown_Error c m) = Plain_Error m"
| "thrown_exn fallback (Thrown_Text t) = Plain_Error t"
| "thrown_exn fallback (Thrown_Other c) = Plain_Error fallback"

definition deliver_email :: "string \<Rightarrow> string \<Rightarrow> string \<Rightarrow> string \<Rightarrow> ('z notify_db_scheme, unit) prog" where
  "deliver_email from to title body =
     bindM (send_message (Sent_Email \<lparr>em_from = from, em_to = to, em_subject = title, em_text = body\<rparr>)) (\<lambda>r.
       case r of None \<Rightarrow> ret () | Some t \<Rightarrow> raise (thrown_exn ''[object Object]'' t))"

definition lower_char :: "char \<Rightarrow> char" where
  "lower_char c = (let n = of_char c :: nat in if 65 \<le> n \<and> n \<le> 90 then char_of (n + 32) else c)"

fun contains_text :: "string \<Rightarrow> string \<Rightarrow> bool" where
  "contains_text needle [] = (needle = [])"
| "contains_text needle (c # cs) = (starts_with needle (c # cs) \<or> contains_text needle cs)"

definition permanent_token_error_codes :: "string list" where
  "permanent_token_error_codes = [''messaging/registration-token-not-registered'', ''messaging/invalid-registration-token'']"

fun thrown_code :: "thrown \<Rightarrow> string option" where
  "thrown_code (Thrown_Error c m) = c"
| "thrown_code (Thrown_Text t) = None"
| "thrown_code (Thrown_Other c) = c"

definition is_invalid_token_error :: "thrown \<Rightarrow> bool" where
  "is_invalid_token_error t =
     ((case thrown_code t of None \<Rightarrow> False | Some c \<Rightarrow> c \<in> set permanent_token_error_codes) \<or>
      (let m = map lower_char (case t of Thrown_Error c m \<Rightarrow> m | _ \<Rightarrow> [])
       in contains_text ''not a valid fcm registration token'' m \<or> contains_text ''not registered'' m))"

text \<open>All sends start together; their results are then read in the order of the tokens.\<close>

fun send_to_tokens :: "string list \<Rightarrow> string \<Rightarrow> string \<Rightarrow> string option \<Rightarrow> ('z notify_db_scheme, (string \<times> thrown option) list) prog" where
  "send_to_tokens [] title body link = ret []"
| "send_to_tokens (tok # toks) title body link =
     bindM (send_message (Sent_Push \<lparr>pm_token = tok, pm_title = title, pm_body = body, pm_link = link\<rparr>)) (\<lambda>r.
     bindM (send_to_tokens toks title body link) (\<lambda>rs. ret ((tok, r) # rs)))"

fun settle_push_results :: "(string \<times> thrown option) list \<Rightarrow> thrown option \<Rightarrow> ('z notify_db_scheme, thrown option) prog" where
  "settle_push_results [] transient = ret transient"
| "settle_push_results ((tok, None) # rs) transient = settle_push_results rs transient"
| "settle_push_results ((tok, Some t) # rs) transient =
     (if is_invalid_token_error t
      then thenM (remove_token tok (Some (case thrown_code t of Some c \<Rightarrow> c | None \<Rightarrow> ''invalid-token'')))
             (settle_push_results rs transient)
      else settle_push_results rs (case transient of None \<Rightarrow> Some t | Some t0 \<Rightarrow> Some t0))"

definition deliver_to_user :: "uuid \<Rightarrow> string \<Rightarrow> string \<Rightarrow> string option \<Rightarrow> ('z notify_db_scheme, unit) prog" where
  "deliver_to_user user title body link =
     bindM (gets (tokens_for_user user)) (\<lambda>toks.
     bindM (send_to_tokens toks title body link) (\<lambda>rs.
     bindM (settle_push_results rs None) (\<lambda>transient.
       case transient of None \<Rightarrow> ret () | Some t \<Rightarrow> raise (thrown_exn ''push channel transient failure'' t))))"

section \<open>Delivering the notifications of an event (notification-dispatch.handler.ts)\<close>

text \<open>SQL LIKE, with its two wildcards.\<close>

fun sql_like :: "string \<Rightarrow> string \<Rightarrow> bool" where
  "sql_like [] s = (s = [])"
| "sql_like (p # ps) [] = (p = CHR ''%'' \<and> sql_like ps [])"
| "sql_like (p # ps) (c # cs) =
     (if p = CHR ''%'' then sql_like ps (c # cs) \<or> sql_like (p # ps) cs
      else (p = CHR ''_'' \<or> p = c) \<and> sql_like ps cs)"

record notification_recipient =
  nr_user :: uuid
  nr_email :: "string option"
  nr_email_enabled :: bool
  nr_push_enabled :: bool
  nr_title :: string
  nr_body :: string
  nr_link :: "string option"
  nr_notification :: uuid

definition recipient_of :: "'z notify_db_scheme \<Rightarrow> notification_row \<Rightarrow> notification_recipient option" where
  "recipient_of s n =
     map_option (\<lambda>p. let pref = lookup_by np_user (no_recipient n) (preferences s) in
       \<lparr>nr_user = no_recipient n, nr_email = prof_email p,
        nr_email_enabled = (if sql_like ''batch_chat.%'' (no_type n) then False
                            else case pref of None \<Rightarrow> False | Some q \<Rightarrow> np_email q),
        nr_push_enabled = (case pref of None \<Rightarrow> False | Some q \<Rightarrow> np_push q),
        nr_title = no_title n, nr_body = no_body n, nr_link = no_link n, nr_notification = no_id n\<rparr>)
     (lookup_by prof_id (no_recipient n) (contacts s))"

definition find_recipients_for_event :: "uuid \<Rightarrow> 'z notify_db_scheme \<Rightarrow> notification_recipient list" where
  "find_recipients_for_event eid s =
     map the (filter (\<lambda>r. r \<noteq> None) (map (recipient_of s) (filter (\<lambda>n. no_event n = Some eid) (notifications s))))"

definition already_delivered :: "uuid \<Rightarrow> channel \<Rightarrow> 'z notify_db_scheme \<Rightarrow> bool" where
  "already_delivered nid ch s = list_ex (\<lambda>r. sr_notification r = nid \<and> sr_channel r = ch) (sent_rows s)"

definition record_delivery :: "uuid \<Rightarrow> channel \<Rightarrow> bool \<Rightarrow> string option \<Rightarrow> ('z notify_db_scheme, unit) prog" where
  "record_delivery nid ch sent detail = modify (\<lambda>s.
     if already_delivered nid ch s then s
     else s\<lparr>sent_rows := sent_rows s @ [\<lparr>sr_notification = nid, sr_channel = ch, sr_sent = sent, sr_detail = detail\<rparr>]\<rparr>)"

text \<open>One channel of one recipient: the failure, if any, is collected.\<close>

definition try_channel :: "bool \<Rightarrow> uuid \<Rightarrow> channel \<Rightarrow> ('z notify_db_scheme, unit) prog \<Rightarrow> exn list \<Rightarrow> ('z notify_db_scheme, exn list) prog" where
  "try_channel enabled nid ch deliver failures =
     (if \<not> enabled then ret failures
      else bindM (gets (already_delivered nid ch)) (\<lambda>already.
        if already then ret failures
        else catchM (thenM deliver (thenM (record_delivery nid ch True None) (ret failures)))
               (\<lambda>e. ret (failures @ [e]))))"

definition deliver_to_recipient :: "string \<Rightarrow> exn list \<Rightarrow> notification_recipient \<Rightarrow> ('z notify_db_scheme, exn list) prog" where
  "deliver_to_recipient from failures r =
     bindM (try_channel (nr_email_enabled r \<and> nr_email r \<noteq> None) (nr_notification r) Email_Channel
              (deliver_email from (the (nr_email r)) (nr_title r) (nr_body r)) failures) (\<lambda>failures'.
       try_channel (nr_push_enabled r) (nr_notification r) Push_Channel
         (deliver_to_user (nr_user r) (nr_title r) (nr_body r) (nr_link r)) failures')"

definition notification_dispatch :: "string \<Rightarrow> outbox_row \<Rightarrow> ('z notify_db_scheme, unit) prog" where
  "notification_dispatch from e =
     bindM (gets (find_recipients_for_event (ob_id e))) (\<lambda>recipients.
     bindM (foldM (deliver_to_recipient from) [] recipients) (\<lambda>failures.
       case failures of [] \<Rightarrow> ret () | x # xs \<Rightarrow> raise x))"

section \<open>Preferences and the user's list (notifications.repository.ts, notifications.service.ts)\<close>

definition new_preferences :: "uuid \<Rightarrow> time \<Rightarrow> preference_row" where
  "new_preferences user now = \<lparr>np_user = user, np_in_app = True, np_push = False, np_email = False, np_order = True,
     np_payment = True, np_delivery = True, np_escalation = True, np_settlement = True, np_chat = True, np_updated = now\<rparr>"

definition ensure_preferences :: "uuid \<Rightarrow> ('z notify_db_scheme, preference_row) prog" where
  "ensure_preferences user =
     bindM (gets (\<lambda>s. lookup_by np_user user (preferences s))) (\<lambda>found.
       case found of
         Some p \<Rightarrow> ret p
       | None \<Rightarrow> bindM (gets (\<lambda>s. (ob_now s, user \<in> prof_id ` set (contacts s)))) (\<lambda>(now, known).
           if \<not> known
           then raise (pg_error ''23503'' ''insert or update on table notification_preferences violates foreign key constraint'')
           else thenM (modify (\<lambda>s. s\<lparr>preferences := preferences s @ [new_preferences user now]\<rparr>))
             (ret (new_preferences user now))))"

record preference_update =
  pu_in_app :: "bool option"
  pu_push :: "bool option"
  pu_email :: "bool option"
  pu_order :: "bool option"
  pu_payment :: "bool option"
  pu_delivery :: "bool option"
  pu_escalation :: "bool option"
  pu_settlement :: "bool option"
  pu_chat :: "bool option"

definition given_or :: "'a option \<Rightarrow> 'a \<Rightarrow> 'a" where
  "given_or v old = (case v of None \<Rightarrow> old | Some x \<Rightarrow> x)"

definition apply_preferences :: "preference_update \<Rightarrow> time \<Rightarrow> preference_row \<Rightarrow> preference_row" where
  "apply_preferences u now p = \<lparr>np_user = np_user p, np_in_app = given_or (pu_in_app u) (np_in_app p),
     np_push = given_or (pu_push u) (np_push p), np_email = given_or (pu_email u) (np_email p),
     np_order = given_or (pu_order u) (np_order p), np_payment = given_or (pu_payment u) (np_payment p),
     np_delivery = given_or (pu_delivery u) (np_delivery p), np_escalation = given_or (pu_escalation u) (np_escalation p),
     np_settlement = given_or (pu_settlement u) (np_settlement p), np_chat = given_or (pu_chat u) (np_chat p),
     np_updated = now\<rparr>"

definition update_preferences :: "uuid \<Rightarrow> preference_update \<Rightarrow> ('z notify_db_scheme, preference_row) prog" where
  "update_preferences user u =
     bindM (ensure_preferences user) (\<lambda>p.
     bindM (gets ob_now) (\<lambda>now.
       thenM (modify (\<lambda>s. s\<lparr>preferences := update_where (\<lambda>r. np_user r = user) (apply_preferences u now) (preferences s)\<rparr>))
         (ret (apply_preferences u now p))))"

text \<open>set_updated_at stamps every update of a notification.\<close>

definition mark_read :: "actor \<Rightarrow> uuid \<Rightarrow> ('z notify_db_scheme, notification_row) prog" where
  "mark_read a nid =
     bindM (gets (\<lambda>s. find (\<lambda>n. no_id n = nid \<and> no_recipient n = user_id a) (notifications s))) (\<lambda>found.
     bindM (gets ob_now) (\<lambda>now.
       case found of
         None \<Rightarrow> raise (not_found ''Notification was not found.'')
       | Some n \<Rightarrow>
           let f = (\<lambda>n. n\<lparr>no_read := (if no_read n = None then Some now else no_read n), no_updated := now\<rparr>)
           in thenM (modify (\<lambda>s. s\<lparr>notifications :=
                update_where (\<lambda>n. no_id n = nid \<and> no_recipient n = user_id a) f (notifications s)\<rparr>)) (ret (f n))))"

definition mark_all_read :: "actor \<Rightarrow> ('z notify_db_scheme, nat) prog" where
  "mark_all_read a = (\<lambda>s.
     let unread = (\<lambda>n. no_recipient n = user_id a \<and> no_read n = None)
     in (Inr (length (filter unread (notifications s))),
         s\<lparr>notifications := update_where unread (\<lambda>n. n\<lparr>no_read := Some (ob_now s), no_updated := ob_now s\<rparr>) (notifications s)\<rparr>))"

text \<open>
  A cursor that is no JSON object is refused. Of its members only non-empty texts count; with no
  identifier the row comparison (created_at, id) < (t, null) holds for the strictly older rows only.
\<close>

record list_keys = pg_keys +
  pk_time_ok :: "string \<Rightarrow> bool"
  pk_older :: "string \<Rightarrow> string \<Rightarrow> bool"

definition cursor_text :: "(string \<times> json) list \<Rightarrow> string \<Rightarrow> string option" where
  "cursor_text payload k = (case map_of payload k of Some (JStr v) \<Rightarrow> if v = [] then None else Some v | _ \<Rightarrow> None)"

definition notification_key :: "list_keys \<Rightarrow> notification_row \<Rightarrow> row_key" where
  "notification_key pk n = (pk_time pk (no_created n), no_id n)"

definition after_cursor :: "list_keys \<Rightarrow> (string \<times> json) list \<Rightarrow> exn + (row_key \<Rightarrow> bool)" where
  "after_cursor pk payload =
     (case (cursor_text payload ''createdAt'', cursor_text payload ''id'') of
        (None, _) \<Rightarrow> Inr (\<lambda>k. True)
      | (Some t, Some i) \<Rightarrow> if pk_ok pk (t, i) then Inr (\<lambda>k. pk_before pk k (t, i)) else Inl bad_cast
      | (Some t, None) \<Rightarrow> if pk_time_ok pk t then Inr (\<lambda>k. pk_older pk (fst k) t) else Inl bad_cast)"

definition list_user_notifications ::
  "list_keys \<Rightarrow> uuid \<Rightarrow> (string \<times> json) list \<Rightarrow> nat \<Rightarrow> ('z notify_db_scheme, notification_row page) prog" where
  "list_user_notifications pk user payload max_rows =
     bindM (lift_ok (after_cursor pk payload)) (\<lambda>keep.
     bindM (gets (\<lambda>s. filter (\<lambda>n. no_recipient n = user) (notifications s))) (\<lambda>rows.
       ret (create_cursor_page
         (take (Suc max_rows) (filter (\<lambda>n. keep (notification_key pk n)) (newest_first (pk_before pk) (notification_key pk) rows)))
         max_rows (\<lambda>n. keyset_cursor ''createdAt'' (notification_key pk n)))))"

definition list_notifications ::
  "list_keys \<Rightarrow> actor \<Rightarrow> string option \<Rightarrow> js_num option \<Rightarrow> ('z notify_db_scheme, notification_row page) prog" where
  "list_notifications pk a cursor max_rows =
     (let p = normalize_cursor_pagination cursor max_rows in
      case pn_cursor p of
        None \<Rightarrow> list_user_notifications pk (user_id a) [] (pn_limit p)
      | Some c \<Rightarrow>
          (case decode_cursor c of
             Inl e \<Rightarrow> raise (bad_request ''Notification cursor is invalid.'')
           | Inr payload \<Rightarrow> list_user_notifications pk (user_id a) payload (pn_limit p)))"

section \<open>What a delivery leaves behind\<close>

definition delivery_frame :: "'z notify_db_scheme \<Rightarrow> 'z notify_db_scheme \<Rightarrow> bool" where
  "delivery_frame s t \<longleftrightarrow> notifications t = notifications s \<and> preferences t = preferences s \<and> contacts t = contacts s \<and>
     set (sent_rows s) \<subseteq> set (sent_rows t)"

lemma delivery_frame_refl: "delivery_frame s s"
  by (simp add: delivery_frame_def)

lemma delivery_frame_trans: "delivery_frame s t \<Longrightarrow> delivery_frame t u \<Longrightarrow> delivery_frame s u"
  by (auto simp: delivery_frame_def)

lemma framed_recipients: "delivery_frame s t \<Longrightarrow> find_recipients_for_event i t = find_recipients_for_event i s"
  by (simp add: delivery_frame_def find_recipients_for_event_def recipient_of_def cong: map_cong)

lemma framed_delivered: "delivery_frame s t \<Longrightarrow> already_delivered nid ch s \<Longrightarrow> already_delivered nid ch t"
  by (auto simp: delivery_frame_def already_delivered_def list_ex_iff)

lemma frames_send: "preserves (delivery_frame s0) (send_message m)"
  by (rule preservesI) (simp add: send_message_def delivery_frame_def)

lemma frames_email: "preserves (delivery_frame s0) (deliver_email from to title body)"
  unfolding deliver_email_def by (intro preserves_intros frames_send)

lemma frames_send_to_tokens: "preserves (delivery_frame s0) (send_to_tokens toks title body link)"
  by (induction toks) (auto intro!: preserves_intros frames_send)

lemma frames_settle_push: "preserves (delivery_frame s0) (settle_push_results rs transient)"
  by (induction rs transient rule: settle_push_results.induct)
    (auto simp: remove_token_def delivery_frame_def intro!: preserves_intros preserves_modify)

lemma frames_push: "preserves (delivery_frame s0) (deliver_to_user user title body link)"
  unfolding deliver_to_user_def by (intro preserves_intros frames_send_to_tokens frames_settle_push)

lemma try_channel_result:
  assumes "preserves (delivery_frame s) d" "try_channel b nid ch d fs s = (res, t)"
  shows "\<exists>fs'. res = Inr fs' \<and> delivery_frame s t \<and> (fs' = [] \<longrightarrow> fs = [] \<and> (b \<longrightarrow> already_delivered nid ch t))"
proof (cases "b \<and> \<not> already_delivered nid ch s")
  case True
  obtain r u where run: "d s = (r, u)" by force
  with assms(1) delivery_frame_refl have fr: "delivery_frame s u" by (metis preserves_result)
  show ?thesis
  proof (cases r)
    case (Inl e)
    with True run assms(2) fr show ?thesis by (auto simp: try_channel_def prog_simps)
  next
    case (Inr x)
    with True run assms(2) have "res = Inr fs" "t = (if already_delivered nid ch u then u
        else u\<lparr>sent_rows := sent_rows u @ [\<lparr>sr_notification = nid, sr_channel = ch, sr_sent = True, sr_detail = None\<rparr>]\<rparr>)"
      by (simp_all add: try_channel_def prog_simps record_delivery_def)
    with fr show ?thesis by (auto simp: delivery_frame_def already_delivered_def)
  qed
next
  case False
  with assms(2) show ?thesis by (auto simp: try_channel_def prog_simps delivery_frame_refl split: if_splits)
qed

definition reached :: "'z notify_db_scheme \<Rightarrow> notification_recipient \<Rightarrow> bool" where
  "reached s r \<longleftrightarrow> (nr_email_enabled r \<and> nr_email r \<noteq> None \<longrightarrow> already_delivered (nr_notification r) Email_Channel s) \<and>
     (nr_push_enabled r \<longrightarrow> already_delivered (nr_notification r) Push_Channel s)"

lemma framed_reached: "delivery_frame s t \<Longrightarrow> reached s r \<Longrightarrow> reached t r"
  by (auto simp: reached_def intro: framed_delivered)

lemma deliver_to_recipient_result:
  assumes "deliver_to_recipient from fs r s = (res, t)"
  shows "\<exists>fs'. res = Inr fs' \<and> delivery_frame s t \<and> (fs' = [] \<longrightarrow> fs = [] \<and> reached t r)"
proof -
  obtain r1 u where one: "try_channel (nr_email_enabled r \<and> nr_email r \<noteq> None) (nr_notification r) Email_Channel
      (deliver_email from (the (nr_email r)) (nr_title r) (nr_body r)) fs s = (r1, u)" by force
  from try_channel_result [OF frames_email one] obtain f1 where f1: "r1 = Inr f1" "delivery_frame s u"
    "f1 = [] \<Longrightarrow> fs = [] \<and> (nr_email_enabled r \<and> nr_email r \<noteq> None \<longrightarrow> already_delivered (nr_notification r) Email_Channel u)"
    by blast
  with one assms have "try_channel (nr_push_enabled r) (nr_notification r) Push_Channel
      (deliver_to_user (nr_user r) (nr_title r) (nr_body r) (nr_link r)) f1 u = (res, t)"
    by (simp add: deliver_to_recipient_def prog_simps)
  from try_channel_result [OF frames_push this] obtain f2 where f2: "res = Inr f2" "delivery_frame u t"
    "f2 = [] \<Longrightarrow> f1 = [] \<and> (nr_push_enabled r \<longrightarrow> already_delivered (nr_notification r) Push_Channel t)" by blast
  with f1 show ?thesis by (auto simp: reached_def intro: delivery_frame_trans framed_delivered)
qed

lemma deliveries_result:
  "foldM (deliver_to_recipient from) fs rs s = (res, t) \<Longrightarrow>
   \<exists>fs'. res = Inr fs' \<and> delivery_frame s t \<and> (fs' = [] \<longrightarrow> fs = [] \<and> (\<forall>r\<in>set rs. reached t r))"
proof (induction rs arbitrary: fs s)
  case Nil
  then have "res = Inr fs" "t = s" by (simp_all add: prog_simps)
  then show ?case by (simp add: delivery_frame_refl)
next
  case (Cons r rs)
  obtain r1 u where one: "deliver_to_recipient from fs r s = (r1, u)" by force
  from deliver_to_recipient_result [OF this] obtain f1 where f1: "r1 = Inr f1" "delivery_frame s u"
    "f1 = [] \<Longrightarrow> fs = [] \<and> reached u r" by blast
  with one Cons.prems have "foldM (deliver_to_recipient from) f1 rs u = (res, t)" by (simp add: prog_simps)
  from Cons.IH [OF this] f1 show ?case by (auto intro: delivery_frame_trans framed_reached)
qed

lemma reached_again: "reached t r \<Longrightarrow> deliver_to_recipient from [] r t = (Inr [], t)"
  by (auto simp: reached_def deliver_to_recipient_def try_channel_def prog_simps)

lemma all_reached_again: "\<forall>r\<in>set rs. reached t r \<Longrightarrow> foldM (deliver_to_recipient from) [] rs t = (Inr [], t)"
  by (induction rs) (simp_all add: prog_simps reached_again)

section \<open>Properties\<close>

text \<open>
  Property C22: an event whose notifications were delivered is not delivered a second time: running the
  handler again on the tables it left sends nothing and changes nothing.
\<close>

theorem delivered_event_is_not_sent_again:
  assumes "notification_dispatch from e s = (Inr (), t)"
  shows "notification_dispatch from e t = (Inr (), t)"
proof -
  obtain res u where run: "foldM (deliver_to_recipient from) [] (find_recipients_for_event (ob_id e) s) s = (res, u)" by force
  from deliveries_result [OF run] obtain fs where fs: "res = Inr fs" "delivery_frame s u"
    "fs = [] \<Longrightarrow> \<forall>r\<in>set (find_recipients_for_event (ob_id e) s). reached u r" by blast
  with run assms have "fs = []" "t = u"
    by (auto simp: notification_dispatch_def prog_simps split: list.splits)
  with fs(2,3) show ?thesis
    by (simp add: notification_dispatch_def prog_simps framed_recipients all_reached_again)
qed

text \<open>One user with both channels on, two devices of which one is gone, and one event.\<close>

definition notify_sample :: notify_db where
  "notify_sample =
     \<lparr>ob_now = 5, ob_uuid = (\<lambda>n. replicate n (CHR ''x'')), ob_drawn = 2, ob_rows = [],
      notifications = [\<lparr>no_id = ''n'', no_recipient = ''u'', no_event = Some ''e'', no_type = ''order.paid'',
        no_aggregate_type = ''order'', no_aggregate = ''o'', no_title = ''t'', no_body = ''b'', no_link = None, no_read = None,
        no_created = 0, no_updated = 0\<rparr>],
      preferences = [(new_preferences ''u'' 0)\<lparr>np_push := True, np_email := True\<rparr>],
      device_tokens = [\<lparr>dt_user = ''u'', dt_token = ''d1'', dt_platform = ''ios'', dt_disabled = None, dt_reason = None\<rparr>,
        \<lparr>dt_user = ''u'', dt_token = ''d2'', dt_platform = ''ios'', dt_disabled = None, dt_reason = None\<rparr>],
      sent_rows = [], contacts = [\<lparr>prof_id = ''u'', prof_email = Some ''m'', prof_name = None, prof_phone = None\<rparr>],
      send_log = [],
      send_answer = (\<lambda>n. if n = 1 then Some (Thrown_Error (Some ''messaging/invalid-registration-token'') ''gone'') else None)\<rparr>"

definition sample_event :: outbox_row where
  "sample_event = new_outbox_row ''e'' 0 ''order.paid'' ''order'' ''o'' JNull"

theorem delivered_event_is_not_sent_again_witness:
  "let (r, t) = notification_dispatch ''from'' sample_event notify_sample
   in r = Inr () \<and> length (send_log t) = 3 \<and> tokens_for_user ''u'' t = [''d2''] \<and>
      notification_dispatch ''from'' sample_event t = (Inr (), t)"
proof -
  let ?run = "notification_dispatch ''from'' sample_event notify_sample"
  have run: "fst ?run = Inr () \<and> length (send_log (snd ?run)) = 3 \<and> tokens_for_user ''u'' (snd ?run) = [''d2'']"
    by code_simp
  then have "?run = (Inr (), snd ?run)" by (metis prod.collapse)
  from delivered_event_is_not_sent_again [OF this] run show ?thesis by (simp add: split_beta)
qed

end
