(* ===== verification/Worker.thy ===== *)
theory Worker
  imports Notifications
begin

text \<open>
  The worker process as wired (worker/worker.module.ts): the handler registry, the automatic dispatch of
  riders (auto-dispatch.handler.ts, dispatch-reads.repository.ts and the database function
  assign_available_rider_to_batch with the triggers its insert fires) and the dedicated-account
  handler of \<open>Wallets\<close>, which works on the wallet tables \<open>app_wallets\<close>. The registry's handlers keep the
  outbox rows, so the processor's lemmas hold of the worker (interpretation \<open>worker\<close>).
\<close>

section \<open>Batches, riders and assignments\<close>

datatype delivery_mode = Meal_Direct_Rider | Vendor_Delivery

datatype assignment_status = As_Assigned | As_Accepted | As_Picked_Up | As_Completed | As_Cancelled

datatype fleet_status = Fleet_Active | Fleet_Suspended | Fleet_Deactivated

datatype rider_status = Rider_Pending | Rider_Verified | Rider_Suspended | Rider_Deactivated

record batch_row =
  ba_id :: uuid
  ba_campus :: uuid
  ba_vendor :: uuid
  ba_mode :: delivery_mode
  ba_order_count :: int

record rider_row =
  rd_id :: uuid
  rd_user :: uuid
  rd_campus :: uuid
  rd_name :: string
  rd_available :: bool
  rd_active :: bool
  rd_status :: rider_status
  rd_fleet :: "uuid option"
  rd_created :: time

record fleet_row =
  fp_id :: uuid
  fp_status :: fleet_status
  fp_priority :: int

record assignment_row =
  as_id :: uuid
  as_batch :: uuid
  as_rider :: "uuid option"
  as_vendor :: "uuid option"
  as_fleet :: "uuid option"
  as_status :: assignment_status
  as_assigned :: time

record participant_row =
  cp_batch :: uuid
  cp_user :: uuid
  cp_role :: string
  cp_label :: string

record worker_db = notify_db +
  batch_orders :: "(uuid \<times> uuid) list"
  batches :: "batch_row list"
  riders :: "rider_row list"
  fleets :: "fleet_row list"
  assignments :: "assignment_row list"
  participants :: "participant_row list"
  app_wallets :: wallet_app_db

section \<open>Automatic dispatch\<close>

definition find_batch_id_for_order :: "uuid \<Rightarrow> 'z worker_db_scheme \<Rightarrow> uuid option" where
  "find_batch_id_for_order oid s = map_option snd (lookup_by fst oid (batch_orders s))"

definition fleet_of :: "rider_row \<Rightarrow> 'z worker_db_scheme \<Rightarrow> fleet_row option" where
  "fleet_of r s = Option.bind (rd_fleet r) (\<lambda>f. lookup_by fp_id f (fleets s))"

definition dispatchable :: "uuid \<Rightarrow> 'z worker_db_scheme \<Rightarrow> rider_row \<Rightarrow> bool" where
  "dispatchable campus s r \<longleftrightarrow> rd_campus r = campus \<and> rd_available r \<and> rd_active r \<and> rd_status r = Rider_Verified \<and>
     (rd_fleet r = None \<or> map_option fp_status (fleet_of r s) = Some Fleet_Active)"

definition rider_load :: "rider_row \<Rightarrow> 'z worker_db_scheme \<Rightarrow> nat" where
  "rider_load r s = length (filter (\<lambda>a. as_rider a = Some (rd_id r) \<and> as_status a \<in> {As_Assigned, As_Accepted, As_Picked_Up})
     (assignments s))"

definition rider_priority :: "rider_row \<Rightarrow> 'z worker_db_scheme \<Rightarrow> int" where
  "rider_priority r s = (case fleet_of r s of None \<Rightarrow> 0 | Some f \<Rightarrow> fp_priority f)"

text \<open>
  order by priority desc, load asc, name asc limit 1: the first rider that no other one precedes. Names
  compare by their bytes here; the order of a database may be another one.
\<close>

definition rider_before :: "'z worker_db_scheme \<Rightarrow> rider_row \<Rightarrow> rider_row \<Rightarrow> bool" where
  "rider_before s q r \<longleftrightarrow> rider_priority r s < rider_priority q s \<or>
     rider_priority r s = rider_priority q s \<and>
       (rider_load q s < rider_load r s \<or> rider_load q s = rider_load r s \<and> text_before (rd_name q) (rd_name r))"

definition pick_rider :: "uuid \<Rightarrow> 'z worker_db_scheme \<Rightarrow> rider_row option" where
  "pick_rider campus s =
     (let able = filter (dispatchable campus s) (riders s)
      in find (\<lambda>r. list_all (\<lambda>q. \<not> rider_before s q r) able) able)"

text \<open>The triggers of delivery_assignments: the rider joins the batch chat, an event is emitted, and the event's own trigger notifies the rider.\<close>

definition add_rider_to_chat :: "uuid \<Rightarrow> rider_row \<Rightarrow> ('z worker_db_scheme, unit) prog" where
  "add_rider_to_chat bid r = modify (\<lambda>s.
     if list_ex (\<lambda>p. cp_batch p = bid \<and> cp_user p = rd_user r) (participants s) then s
     else let label = rd_name (hd (newest_first (<) rd_created (filter (\<lambda>q. rd_user q = rd_user r) (riders s))))
          in s\<lparr>participants := participants s @ [\<lparr>cp_batch = bid, cp_user = rd_user r, cp_role = ''rider'', cp_label = label\<rparr>]\<rparr>)"

definition assignment_body :: "int \<Rightarrow> string" where
  "assignment_body n = int_str n @ '' order'' @ (if n = 1 then [] else ''s'') @ '' assigned. Accept to proceed.''"

definition notify_rider :: "rider_row \<Rightarrow> batch_row \<Rightarrow> uuid \<Rightarrow> ('z worker_db_scheme, unit) prog" where
  "notify_rider r b eid =
     bindM (ensure_preferences (rd_user r)) (\<lambda>p.
       whenM (np_in_app p) (bindM new_uuid (\<lambda>nid. modify (\<lambda>s. s\<lparr>notifications := notifications s @
         [\<lparr>no_id = nid, no_recipient = rd_user r, no_event = Some eid, no_type = ''rider.assignment'',
           no_aggregate_type = ''rider'', no_aggregate = rd_id r, no_title = ''New assignment'',
           no_body = assignment_body (ba_order_count b), no_link = Some ''/pickup_queue'', no_read = None,
           no_created = ob_now s, no_updated = ob_now s\<rparr>]\<rparr>))))"

definition assign_available_rider :: "uuid \<Rightarrow> ('z worker_db_scheme, uuid option) prog" where
  "assign_available_rider bid =
     bindM (gets (\<lambda>s. (list_ex (\<lambda>a. as_batch a = bid) (assignments s), lookup_by ba_id bid (batches s)))) (\<lambda>(taken, batch).
       case (taken, batch) of
         (False, Some b) \<Rightarrow>
           bindM (gets (pick_rider (ba_campus b))) (\<lambda>rider.
             case rider of
               None \<Rightarrow> ret None
             | Some r \<Rightarrow>
                 bindM new_uuid (\<lambda>aid.
                 thenM (modify (\<lambda>s. s\<lparr>assignments := assignments s @
                    [\<lparr>as_id = aid, as_batch = bid, as_rider = Some (rd_id r), as_vendor = None, as_fleet = rd_fleet r,
                      as_status = As_Assigned, as_assigned = ob_now s\<rparr>]\<rparr>))
                (thenM (add_rider_to_chat bid r)
                (bindM (insert_outbox_event ''rider.assignment'' ''rider'' (rd_id r)
                    (JObj [(''batch_id'', JStr bid), (''assignment_id'', JStr aid), (''order_count'', JNum (js_int (ba_order_count b))),
                           (''campus_id'', JStr (ba_campus b)), (''vendor_id'', JStr (ba_vendor b))])) (\<lambda>eid.
                 thenM (notify_rider r b eid) (ret (Some aid)))))))
       | _ \<Rightarrow> ret None)"

definition auto_dispatch :: "outbox_row \<Rightarrow> ('z worker_db_scheme, unit) prog" where
  "auto_dispatch e =
     bindM (gets (find_batch_id_for_order (ob_aggregate e))) (\<lambda>bid.
       case bid of
         None \<Rightarrow> ret ()
       | Some b \<Rightarrow> bindM (transaction (assign_available_rider b)) (\<lambda>_. ret ()))"

section \<open>The registry (handler-registry.ts, worker.module.ts)\<close>

record 's handler_registry =
  rg_exact :: "(string \<times> 's outbox_handler list) list"
  rg_prefix :: "(string \<times> 's outbox_handler) list"

definition empty_registry :: "'s handler_registry" where
  "empty_registry = \<lparr>rg_exact = [], rg_prefix = []\<rparr>"

definition register_handler :: "string \<Rightarrow> 's outbox_handler \<Rightarrow> 's handler_registry \<Rightarrow> 's handler_registry" where
  "register_handler ty h g =
     g\<lparr>rg_exact := (ty, (case map_of (rg_exact g) ty of None \<Rightarrow> [] | Some hs \<Rightarrow> hs) @ [h]) # rg_exact g\<rparr>"

definition register_prefix :: "string \<Rightarrow> 's outbox_handler \<Rightarrow> 's handler_registry \<Rightarrow> 's handler_registry" where
  "register_prefix prefix h g = g\<lparr>rg_prefix := rg_prefix g @ [(prefix, h)]\<rparr>"

definition handlers_for :: "'s handler_registry \<Rightarrow> string \<Rightarrow> 's outbox_handler list" where
  "handlers_for g ty =
     (case map_of (rg_exact g) ty of None \<Rightarrow> [] | Some hs \<Rightarrow> hs) @
     map snd (filter (\<lambda>(prefix, h). starts_with prefix ty) (rg_prefix g))"

definition notification_event_prefixes :: "string list" where
  "notification_event_prefixes = [''order.'', ''payment.'', ''settlement.'', ''batch_chat.'', ''rider.'']"

text \<open>The dedicated-account handler runs on the wallet tables.\<close>

definition on_wallets :: "(wallet_app_db, 'a) prog \<Rightarrow> ('z worker_db_scheme, 'a) prog" where
  "on_wallets m = (\<lambda>s. case m (app_wallets s) of (r, w) \<Rightarrow> (r, s\<lparr>app_wallets := w\<rparr>))"

definition wallet_dva :: "wallet_env \<Rightarrow> outbox_row \<Rightarrow> ('z worker_db_scheme, unit) prog" where
  "wallet_dva env e = on_wallets (wallet_dva_handler env (ob_aggregate e))"

definition worker_registry :: "string \<Rightarrow> wallet_env \<Rightarrow> 'z worker_db_scheme handler_registry" where
  "worker_registry from env =
     register_handler ''wallet.dva_requested'' (wallet_dva env)
       (register_handler ''order.ready'' auto_dispatch
         (fold (\<lambda>prefix. register_prefix prefix (notification_dispatch from)) notification_event_prefixes empty_registry))"

text \<open>One drain of the worker's processor.\<close>

definition worker_drain :: "string \<Rightarrow> wallet_env \<Rightarrow> nat \<Rightarrow> nat \<Rightarrow> string \<Rightarrow> ('z worker_db_scheme, nat) prog" where
  "worker_drain from env batch_size max_attempts worker =
     drain_once (handlers_for (worker_registry from env)) batch_size max_attempts worker"

section \<open>The handlers leave the outbox rows alone\<close>

lemma keeps_frame:
  assumes "\<And>s. ob_rows (f s) = ob_rows s \<and> ob_now (f s) = ob_now s \<and> ob_uuid (f s) = ob_uuid s \<and> ob_drawn (f s) = ob_drawn s"
  shows "preserves (keeps_outbox s0) (modify f)"
  by (rule preserves_modify) (use assms in \<open>simp add: keeps_outbox_def outbox_ok_def\<close>)

lemma keeps_new_uuid: "preserves (keeps_outbox s0) new_uuid"
  by (rule preservesI) (auto simp: new_uuid_def keeps_outbox_def outbox_ok_def lessThan_Suc)

lemma keeps_insert_event: "preserves (keeps_outbox s0) (insert_outbox_event ty agg aid payload)"
proof (rule preservesI)
  fix s assume k: "keeps_outbox s0 s"
  then have "keeps_outbox s (snd (insert_outbox_event ty agg aid payload s))"
    by (intro keeps_insert) (simp add: keeps_outbox_def)
  with k show "keeps_outbox s0 (snd (insert_outbox_event ty agg aid payload s))" by (rule keeps_trans)
qed

lemma keeps_send: "preserves (keeps_outbox s0) (send_message m)"
  by (rule preservesI) (simp add: send_message_def keeps_outbox_def outbox_ok_def)

lemmas keeps_intros = preserves_intros keeps_frame keeps_new_uuid keeps_insert_event keeps_send

lemma keeps_send_to_tokens: "preserves (keeps_outbox s0) (send_to_tokens toks title body link)"
  by (induction toks) (auto intro!: keeps_intros)

lemma keeps_settle_push: "preserves (keeps_outbox s0) (settle_push_results rs transient)"
  by (induction rs transient rule: settle_push_results.induct) (auto simp: remove_token_def intro!: keeps_intros)

lemma keeps_try_channel: "preserves (keeps_outbox s0) deliver \<Longrightarrow> preserves (keeps_outbox s0) (try_channel b nid ch deliver fs)"
  unfolding try_channel_def record_delivery_def by (intro keeps_intros) auto

lemma keeps_dispatch: "preserves (keeps_outbox s0) (notification_dispatch from e)"
proof -
  have "preserves (keeps_outbox s0) (deliver_email from to title body)" for to title body
    unfolding deliver_email_def by (intro keeps_intros)
  moreover have "preserves (keeps_outbox s0) (deliver_to_user user title body link)" for user title body link
    unfolding deliver_to_user_def by (intro keeps_intros keeps_send_to_tokens keeps_settle_push)
  ultimately show ?thesis
    unfolding notification_dispatch_def deliver_to_recipient_def
    by (intro keeps_intros keeps_try_channel) (auto intro: keeps_intros split: list.split)
qed

lemma keeps_preferences: "preserves (keeps_outbox s0) (ensure_preferences user)"
  unfolding ensure_preferences_def by (intro keeps_intros) (auto intro!: keeps_intros split: prod.split)

lemma keeps_assign: "preserves (keeps_outbox s0) (assign_available_rider bid)"
proof -
  have "preserves (keeps_outbox s0) (add_rider_to_chat bid r)" for r
    unfolding add_rider_to_chat_def by (rule keeps_frame) (simp add: Let_def)
  moreover have "preserves (keeps_outbox s0) (notify_rider r b eid)" for r b eid
    unfolding notify_rider_def by (intro keeps_intros keeps_preferences) simp
  ultimately show ?thesis
    unfolding assign_available_rider_def
    by (intro keeps_intros) (auto split: prod.split bool.split option.split intro!: keeps_intros)
qed

lemma keeps_auto_dispatch: "preserves (keeps_outbox s0) (auto_dispatch e)"
  unfolding auto_dispatch_def by (intro keeps_intros keeps_assign)

lemma keeps_wallet_dva: "preserves (keeps_outbox s0) (wallet_dva env e)"
  unfolding wallet_dva_def on_wallets_def by (rule preservesI) (simp add: keeps_outbox_def outbox_ok_def split: prod.split)

lemma worker_handlers:
  "handlers_for (worker_registry from env) ty =
     (if ty = ''wallet.dva_requested'' then [wallet_dva env] else if ty = ''order.ready'' then [auto_dispatch] else []) @
     map (\<lambda>_. notification_dispatch from) (filter (\<lambda>p. starts_with p ty) notification_event_prefixes)"
  by (simp add: handlers_for_def worker_registry_def register_handler_def register_prefix_def empty_registry_def
      notification_event_prefixes_def)

lemma worker_handler_keeps:
  assumes "h \<in> set (handlers_for (worker_registry from env) ty)"
  shows "preserves (keeps_outbox s0) (h e)"
proof -
  from assms consider "h = wallet_dva env" | "h = auto_dispatch" | "h = notification_dispatch from"
    unfolding worker_handlers by (auto split: if_split_asm)
  then show ?thesis by cases (simp_all add: keeps_dispatch keeps_auto_dispatch keeps_wallet_dva)
qed

interpretation worker: outbox_handlers "handlers_for (worker_registry addr env)" for addr env
proof (unfold_locales, goal_cases)
  case (1 s h ty e)
  from worker_handler_keeps [OF 1(2)] keeps_refl [OF 1(1)] show ?case by (rule preservesD)
qed

section \<open>The rider an automatic dispatch picks\<close>

lemma text_before_irrefl: "\<not> text_before xs xs"
  by (induction xs) simp_all

lemma text_before_trans: "text_before xs ys \<Longrightarrow> text_before ys zs \<Longrightarrow> text_before xs zs"
proof (induction xs ys arbitrary: zs rule: text_before.induct)
  case (3 x xs y ys)
  then show ?case by (cases zs) (auto dest: less_trans)
qed (auto elim: text_before.elims)

lemma rider_before_order: "\<not> rider_before s r r" "rider_before s p q \<Longrightarrow> rider_before s q r \<Longrightarrow> rider_before s p r"
  by (auto simp: rider_before_def text_before_irrefl dest: text_before_trans)

lemma pick_rider_first:
  assumes "r \<in> set (riders s)" "dispatchable campus s r"
  shows "\<exists>p. pick_rider campus s = Some p \<and> p \<in> set (riders s) \<and> dispatchable campus s p \<and>
    (\<forall>q\<in>set (riders s). dispatchable campus s q \<longrightarrow> \<not> rider_before s q p)"
proof -
  let ?able = "filter (dispatchable campus s) (riders s)"
  have "asymp_on (set ?able) (rider_before s)" "transp_on (set ?able) (rider_before s)"
    using rider_before_order [of s] by (auto intro!: asymp_onI transp_onI)
  with Finite_Set.bex_min_element [of "set ?able" "rider_before s"] assms
  obtain p where p: "p \<in> set ?able" "\<forall>q\<in>set ?able. q \<noteq> p \<longrightarrow> \<not> rider_before s q p" by auto
  then have "\<forall>q\<in>set ?able. \<not> rider_before s q p" by (metis rider_before_order(1))
  with p(1) have "find (\<lambda>r. list_all (\<lambda>q. \<not> rider_before s q r) ?able) ?able \<noteq> None"
    unfolding find_None_iff by (auto simp: list_all_iff)
  then obtain p' where "pick_rider campus s = Some p'" by (auto simp: pick_rider_def Let_def)
  moreover from this have "p' \<in> set ?able \<and> (\<forall>q\<in>set ?able. \<not> rider_before s q p')"
    by (auto simp: pick_rider_def Let_def find_Some_iff list_all_iff simp del: set_filter dest: nth_mem)
  ultimately show ?thesis by auto
qed

text \<open>A preference lookup answers, and appends at most the row it created.\<close>

lemma preferences_answer:
  assumes "user \<in> prof_id ` set (contacts s)"
  shows "\<exists>p ps. ensure_preferences user s = (Inr p, s\<lparr>preferences := preferences s @ ps\<rparr>)"
proof (cases "lookup_by np_user user (preferences s)")
  case None
  then show ?thesis using assms
    by (intro exI [of _ "new_preferences user (ob_now s)"] exI [of _ "[new_preferences user (ob_now s)]"])
      (auto simp: ensure_preferences_def prog_simps)
next
  case (Some p)
  then show ?thesis by (intro exI [of _ p] exI [of _ "[]"]) (simp add: ensure_preferences_def prog_simps)
qed

lemma notify_rider_assignments:
  assumes "rd_user r \<in> prof_id ` set (contacts s)"
  shows "\<exists>t. notify_rider r b eid s = (Inr (), t) \<and> assignments t = assignments s"
proof -
  obtain p ps where "ensure_preferences (rd_user r) s = (Inr p, s\<lparr>preferences := preferences s @ ps\<rparr>)"
    using preferences_answer [OF assms] by blast
  then show ?thesis by (cases "np_in_app p") (simp_all add: notify_rider_def prog_simps new_uuid_def)
qed

lemma assign_app:
  assumes "\<not> list_ex (\<lambda>a. as_batch a = bid) (assignments s)" "lookup_by ba_id bid (batches s) = Some b"
    "pick_rider (ba_campus b) s = Some r" "rd_user r \<in> prof_id ` set (contacts s)"
  shows "\<exists>t. assign_available_rider bid s = (Inr (Some (ob_uuid s (ob_drawn s))), t) \<and>
    assignments t = assignments s @ [\<lparr>as_id = ob_uuid s (ob_drawn s), as_batch = bid, as_rider = Some (rd_id r),
      as_vendor = None, as_fleet = rd_fleet r, as_status = As_Assigned, as_assigned = ob_now s\<rparr>]"
proof -
  let ?a = "\<lparr>as_id = ob_uuid s (ob_drawn s), as_batch = bid, as_rider = Some (rd_id r),
      as_vendor = None, as_fleet = rd_fleet r, as_status = As_Assigned, as_assigned = ob_now s\<rparr>"
  obtain u where chat: "add_rider_to_chat bid r (s\<lparr>ob_drawn := Suc (ob_drawn s), assignments := assignments s @ [?a]\<rparr>) = (Inr (), u)"
    and u: "assignments u = assignments s @ [?a]" "contacts u = contacts s"
    by (simp add: add_rider_to_chat_def prog_simps Let_def)
  obtain eid v where ev: "insert_outbox_event ''rider.assignment'' ''rider'' (rd_id r)
      (JObj [(''batch_id'', JStr bid), (''assignment_id'', JStr (ob_uuid s (ob_drawn s))), (''order_count'', JNum (js_int (ba_order_count b))),
             (''campus_id'', JStr (ba_campus b)), (''vendor_id'', JStr (ba_vendor b))]) u = (Inr eid, v)"
    and v: "assignments v = assignments s @ [?a]" "contacts v = contacts s"
    by (auto simp: insert_outbox_event_def Let_def u)
  obtain t where "notify_rider r b eid v = (Inr (), t)" "assignments t = assignments s @ [?a]"
    using notify_rider_assignments [of r v b eid] assms(4) v by auto
  with assms(1-3) chat ev show ?thesis
    by (simp add: assign_available_rider_def prog_simps new_uuid_def)
qed

lemma assigns_keep_orders: "preserves (\<lambda>t. batch_orders t = batch_orders s) (assign_available_rider bid)"
proof -
  let ?I = "\<lambda>t. batch_orders t = batch_orders s"
  have modify: "preserves ?I (modify f)" if "\<And>t. batch_orders (f t) = batch_orders t" for f
    by (rule preserves_modify) (simp add: that)
  have fresh: "preserves ?I new_uuid" "preserves ?I (insert_outbox_event ty agg aid p)" for ty agg aid p
    by (rule preservesI, simp add: new_uuid_def) (rule preservesI, simp add: insert_outbox_event_def Let_def)
  have prefs: "preserves ?I (ensure_preferences user)" for user
    unfolding ensure_preferences_def by (intro preserves_intros) (auto intro!: preserves_intros modify split: prod.split)
  have chat: "preserves ?I (add_rider_to_chat bid r)" for r
    unfolding add_rider_to_chat_def by (rule modify) (simp add: Let_def)
  have told: "preserves ?I (notify_rider r b eid)" for r b eid
    unfolding notify_rider_def by (intro preserves_intros prefs fresh modify) simp
  show ?thesis unfolding assign_available_rider_def
    by (intro preserves_intros) (auto split: prod.split bool.split option.split intro!: preserves_intros fresh modify chat told)
qed

section \<open>Properties\<close>

text \<open>
  Property C6: a drain of the worker implements the queue: of the events it knew, those it claimed end done, or
  waiting again, or dead after the last attempt, by what the event's handlers returned; the others are
  unchanged, and the drain reports the number it claimed, at most the batch size.
\<close>

theorem worker_drain_refines_queue:
  assumes "outbox_ok s"
  shows "fst (worker_drain from env n m w s) = Inr (length (drained (handlers_for (worker_registry from env)) n m w s)) \<and>
    length (drained (handlers_for (worker_registry from env)) n m w s) \<le> n \<and>
    (\<forall>i. queue_of s i \<noteq> None \<longrightarrow> queue_of (snd (worker_drain from env n m w s)) i =
       settle_queue m (drained (handlers_for (worker_registry from env)) n m w s) (queue_of s) i)"
proof -
  have "fst (worker_drain from env n m w s) = Inr (length (drained (handlers_for (worker_registry from env)) n m w s)) \<and>
    length (drained (handlers_for (worker_registry from env)) n m w s) \<le> n"
    using assms
  proof (cases rule: worker.drain_rows [where s = s and n = n and m = m and w = w and addr = "from" and env = env])
    case (drain t new)
    from arg_cong [OF drain(6), of length] drain(1) show ?thesis by (simp add: worker_drain_def picked_rows_def)
  qed
  then show ?thesis using worker.drain_refines_queue [OF assms] by (simp add: worker_drain_def)
qed

text \<open>
  Property C20: with the worker's handlers every waiting event is settled after some number of drains: it is
  processed, or put aside when its attempts are used up. No event starves behind the others.
\<close>

theorem waiting_event_is_settled:
  assumes "0 < n" "mono clock" "\<And>x. \<exists>k. x < clock k"
    and "outbox_ok s" "r \<in> set (ob_rows s)" "ob_locked_at r = None" "ob_processed_at r = None" "ob_failed_at r = None"
  shows "\<exists>k. \<exists>r'\<in>set (ob_rows (worker_rounds (handlers_for (worker_registry from env)) n m w clock k s)).
    ob_id r' = ob_id r \<and> (ob_processed_at r' \<noteq> None \<or> ob_failed_at r' \<noteq> None)"
proof -
  have "waiting r" using assms(6-8) by (simp add: waiting_def settled_def)
  from worker.settled_eventually [OF assms(1-5) this] show ?thesis by (simp add: settled_def)
qed

text \<open>
  Property C23: for an order whose batch has no assignment, the dispatch assigns a verified, available, active
  rider of the campus that no other such rider precedes, and handling the event again changes nothing. The
  batch's delivery mode plays no part: a batch the vendor delivers gets a Meal Direct rider too.
\<close>

theorem auto_dispatch_assigns_first_rider:
  assumes "find_batch_id_for_order (ob_aggregate e) s = Some bid" "lookup_by ba_id bid (batches s) = Some b"
    and "\<not> list_ex (\<lambda>a. as_batch a = bid) (assignments s)" "rd_user ` set (riders s) \<subseteq> prof_id ` set (contacts s)"
    and "q \<in> set (riders s)" "dispatchable (ba_campus b) s q"
  shows "\<exists>r t. r \<in> set (riders s) \<and> dispatchable (ba_campus b) s r \<and>
    (\<forall>p\<in>set (riders s). dispatchable (ba_campus b) s p \<longrightarrow> \<not> rider_before s p r) \<and>
    auto_dispatch e s = (Inr (), t) \<and>
    assignments t = assignments s @ [\<lparr>as_id = ob_uuid s (ob_drawn s), as_batch = bid, as_rider = Some (rd_id r),
      as_vendor = None, as_fleet = rd_fleet r, as_status = As_Assigned, as_assigned = ob_now s\<rparr>] \<and>
    batch_orders t = batch_orders s \<and> auto_dispatch e t = (Inr (), t)"
proof -
  obtain r where r: "pick_rider (ba_campus b) s = Some r" "r \<in> set (riders s)" "dispatchable (ba_campus b) s r"
    "\<forall>p\<in>set (riders s). dispatchable (ba_campus b) s p \<longrightarrow> \<not> rider_before s p r"
    using pick_rider_first [OF assms(5,6)] by blast
  have "rd_user r \<in> prof_id ` set (contacts s)" using r(2) assms(4) by auto
  from assign_app [OF assms(3,2) r(1) this] obtain t where t: "assign_available_rider bid s = (Inr (Some (ob_uuid s (ob_drawn s))), t)"
    "assignments t = assignments s @ [\<lparr>as_id = ob_uuid s (ob_drawn s), as_batch = bid, as_rider = Some (rd_id r),
      as_vendor = None, as_fleet = rd_fleet r, as_status = As_Assigned, as_assigned = ob_now s\<rparr>]" by blast
  have orders: "batch_orders t = batch_orders s"
    using preservesD [OF assigns_keep_orders [of s bid], of s] t(1) by simp
  from t(1) assms(1) have one: "auto_dispatch e s = (Inr (), t)" by (simp add: auto_dispatch_def prog_simps)
  have "find_batch_id_for_order (ob_aggregate e) t = Some bid" using assms(1) orders by (simp add: find_batch_id_for_order_def)
  moreover have "assign_available_rider bid t = (Inr None, t)" using t(2) by (simp add: assign_available_rider_def prog_simps)
  ultimately have "auto_dispatch e t = (Inr (), t)" by (simp add: auto_dispatch_def prog_simps)
  with one show ?thesis using r(2-4) t(2) orders by (intro exI [of _ r] exI [of _ t]) simp
qed

text \<open>A batch the vendor delivers, two riders, and an event that the worker hands to the dispatch.\<close>

definition worker_sample :: worker_db where
  "worker_sample =
     \<lparr>ob_now = 5, ob_uuid = (\<lambda>n. replicate n (CHR ''x'')), ob_drawn = 1,
      ob_rows = [new_outbox_row [] 0 ''order.ready'' ''order'' ''o'' JNull],
      notifications = [], preferences = [], device_tokens = [], sent_rows = [],
      contacts = [\<lparr>prof_id = ''u'', prof_email = None, prof_name = None, prof_phone = None\<rparr>],
      send_log = [], send_answer = (\<lambda>n. None),
      batch_orders = [(''o'', ''b'')],
      batches = [\<lparr>ba_id = ''b'', ba_campus = ''c'', ba_vendor = ''v'', ba_mode = Vendor_Delivery, ba_order_count = 1\<rparr>],
      riders = [\<lparr>rd_id = ''r'', rd_user = ''u'', rd_campus = ''c'', rd_name = ''z'', rd_available = True, rd_active = True,
          rd_status = Rider_Verified, rd_fleet = None, rd_created = 0\<rparr>,
        \<lparr>rd_id = ''q'', rd_user = ''u'', rd_campus = ''c'', rd_name = ''a'', rd_available = True, rd_active = True,
          rd_status = Rider_Verified, rd_fleet = None, rd_created = 0\<rparr>],
      fleets = [], assignments = [], participants = [], app_wallets = wallet_sample\<rparr>"

lemma worker_sample_ok: "outbox_ok worker_sample"
proof -
  have "inj (\<lambda>n. replicate n (CHR ''x''))" by (rule injI) (metis length_replicate)
  then show ?thesis
    by (auto simp: outbox_ok_def worker_sample_def new_outbox_row_def intro: image_eqI [of _ _ "0::nat"])
qed

theorem worker_drain_refines_queue_witness:
  "\<forall>from env. queue_of worker_sample [] = Some (Waiting 0) \<and>
     queue_of (snd (worker_drain from env 10 3 ''w'' worker_sample)) [] = Some Done"
proof (intro allI)
  fix "from" env
  have "drained (handlers_for (worker_registry from env)) 10 3 ''w'' worker_sample = [([], Inr ())]"
    by code_simp
  moreover have "queue_of worker_sample [] = Some (Waiting 0)" by code_simp
  ultimately show "queue_of worker_sample [] = Some (Waiting 0) \<and>
     queue_of (snd (worker_drain from env 10 3 ''w'' worker_sample)) [] = Some Done"
    using worker_drain_refines_queue [OF worker_sample_ok, of "from" env 10 3 "''w''"] by (simp add: settle_queue_def)
qed

theorem waiting_event_is_settled_witness:
  "\<forall>from env. \<exists>k. \<exists>r'\<in>set (ob_rows (worker_rounds (handlers_for (worker_registry from env)) 10 3 ''w'' int k worker_sample)).
    ob_id r' = [] \<and> (ob_processed_at r' \<noteq> None \<or> ob_failed_at r' \<noteq> None)"
proof (intro allI)
  fix "from" env
  let ?r = "new_outbox_row [] 0 ''order.ready'' ''order'' ''o'' JNull"
  have "\<exists>k. x < int k" for x by (rule exI [of _ "nat (x + 1)"]) simp
  moreover have "?r \<in> set (ob_rows worker_sample)" by (simp add: worker_sample_def)
  ultimately show "\<exists>k. \<exists>r'\<in>set (ob_rows (worker_rounds (handlers_for (worker_registry from env)) 10 3 ''w'' int k worker_sample)).
    ob_id r' = [] \<and> (ob_processed_at r' \<noteq> None \<or> ob_failed_at r' \<noteq> None)"
    using waiting_event_is_settled [of 10 int worker_sample ?r "from" env 3 "''w''"] worker_sample_ok
    by (simp add: mono_def new_outbox_row_def)
qed

theorem auto_dispatch_assigns_first_rider_witness:
  "map ba_mode (batches worker_sample) = [Vendor_Delivery] \<and>
   (\<exists>(r :: rider_row) t. rd_name r = ''a'' \<and> auto_dispatch (hd (ob_rows worker_sample)) worker_sample = (Inr (), t) \<and>
     map as_rider (assignments t) = [Some (rd_id r)])"
proof -
  let ?s = worker_sample
  let ?q = "hd (riders ?s)"
  have q: "find_batch_id_for_order (ob_aggregate (hd (ob_rows ?s))) ?s = Some ''b''"
    "lookup_by ba_id ''b'' (batches ?s) = Some (hd (batches ?s))" "\<not> list_ex (\<lambda>a. as_batch a = ''b'') (assignments ?s)"
    "rd_user ` set (riders ?s) \<subseteq> prof_id ` set (contacts ?s)" "?q \<in> set (riders ?s)"
    "dispatchable (ba_campus (hd (batches ?s))) ?s ?q"
    by (simp_all add: worker_sample_def find_batch_id_for_order_def table_simps new_outbox_row_def dispatchable_def)
  from auto_dispatch_assigns_first_rider [OF q] obtain r t where r: "r \<in> set (riders ?s)"
    "\<forall>p\<in>set (riders ?s). dispatchable (ba_campus (hd (batches ?s))) ?s p \<longrightarrow> \<not> rider_before ?s p r"
    "auto_dispatch (hd (ob_rows ?s)) ?s = (Inr (), t)" "map as_rider (assignments t) = map as_rider (assignments ?s) @ [Some (rd_id r)]"
    by (elim exE conjE) simp
  from r(1,2) have "rd_name r = ''a''"
    by (auto simp: worker_sample_def dispatchable_def rider_before_def rider_priority_def fleet_of_def rider_load_def)
  moreover have "map ba_mode (batches worker_sample) = [Vendor_Delivery]" "assignments worker_sample = []"
    by (simp_all add: worker_sample_def)
  ultimately have "map ba_mode (batches worker_sample) = [Vendor_Delivery]" "rd_name r = ''a''"
    "auto_dispatch (hd (ob_rows worker_sample)) worker_sample = (Inr (), t)" "map as_rider (assignments t) = [Some (rd_id r)]"
    using r(3,4) by (simp_all only: list.map append_Nil)
  then show ?thesis by - (rule conjI, assumption, rule exI [of _ r], rule exI [of _ t], intro conjI)
qed

end
