(* ===== verification/Payments.thy ===== *)
theory Payments
  imports Webhook Pagination
begin

text \<open>
  modules/payments/payments.service.ts and payments.repository.ts: starting a checkout, verifying pending
  payments with Paystack (on a poll and as a sweep), the administrators' verification and forced
  payment, refunds to the wallet or the card, and the administrators' notes and views. The order's
  total is the column \<open>order_total_of\<close>; Paystack's answers are streams of the state, one per call it
  offers, and \<open>py_log\<close> logs the calls.
\<close>

section \<open>State\<close>

datatype refund_status = Rf_Requested | Rf_Approved | Rf_Processing | Rf_Succeeded | Rf_Failed | Rf_Cancelled

record refund_row =
  rf_id :: uuid
  rf_payment :: uuid
  rf_order :: uuid
  rf_reference :: "string option"
  rf_amount :: int
  rf_code :: string
  rf_text :: "string option"
  rf_status :: refund_status
  rf_requested_by :: "uuid option"
  rf_requested :: time
  rf_processed :: "time option"
  rf_payload :: json
  rf_failure :: "string option"
  rf_note :: "string option"
  rf_resolved_by :: "uuid option"

record note_row =
  nt_id :: uuid
  nt_subject_type :: string
  nt_subject :: uuid
  nt_author :: uuid
  nt_body :: string
  nt_created :: time

record payment_checkout =
  oc_amount :: int
  oc_currency :: string
  oc_email :: string
  oc_metadata :: json
  oc_reference :: string

record checkout_answer =
  ca_url :: string
  ca_access :: string
  ca_reference :: string
  ca_payload :: json

record verified_transaction =
  vt_status :: string
  vt_reference :: string
  vt_amount :: int
  vt_currency :: string
  vt_transaction :: string
  vt_payload :: json

record refund_request =
  rx_transaction :: string
  rx_amount :: int
  rx_reason :: "string option"

record refund_answer =
  ra_id :: string
  ra_status :: string
  ra_payload :: json

datatype payment_call = Call_Checkout payment_checkout | Call_Verify string | Call_Refund refund_request

record payments_db = webhook_db +
  refunds :: "refund_row list"
  support_notes :: "note_row list"
  order_total_of :: "uuid \<Rightarrow> int"
  py_log :: "payment_call list"
  py_checkout :: "nat \<Rightarrow> exn + checkout_answer"
  py_verify :: "nat \<Rightarrow> exn + verified_transaction"
  py_refund :: "nat \<Rightarrow> exn + refund_answer"

definition log_call :: "payment_call \<Rightarrow> ('z payments_db_scheme, nat) prog" where
  "log_call c = (\<lambda>s. (Inr (length (py_log s)), s\<lparr>py_log := py_log s @ [c]\<rparr>))"

definition start_checkout :: "payment_checkout \<Rightarrow> ('z payments_db_scheme, checkout_answer) prog" where
  "start_checkout q = bindM (log_call (Call_Checkout q)) (\<lambda>n. bindM (gets (\<lambda>s. py_checkout s n)) lift_ok)"

definition verify_transaction :: "string \<Rightarrow> ('z payments_db_scheme, verified_transaction) prog" where
  "verify_transaction r = bindM (log_call (Call_Verify r)) (\<lambda>n. bindM (gets (\<lambda>s. py_verify s n)) lift_ok)"

definition create_refund :: "refund_request \<Rightarrow> ('z payments_db_scheme, refund_answer) prog" where
  "create_refund q = bindM (log_call (Call_Refund q)) (\<lambda>n. bindM (gets (\<lambda>s. py_refund s n)) lift_ok)"

section \<open>Payments with their order (payments.repository.ts)\<close>

record payment_view =
  pv_payment :: payment
  pv_order :: order_row
  pv_email :: "string option"
  pv_total :: int

definition payment_view_of :: "'z payments_db_scheme \<Rightarrow> payment \<Rightarrow> payment_view option" where
  "payment_view_of s p =
     Option.bind (lookup_by ord_id (pay_order p) (odb_orders s)) (\<lambda>r.
       map_option (\<lambda>c. \<lparr>pv_payment = p, pv_order = r, pv_email = prof_email c, pv_total = order_total_of s (ord_id r)\<rparr>)
         (lookup_by prof_id (ord_customer r) (profiles s)))"

definition payment_views :: "'z payments_db_scheme \<Rightarrow> payment_view list" where
  "payment_views s = map the (filter (\<lambda>v. v \<noteq> None) (map (payment_view_of s) (payments s)))"

definition awaiting_provider :: "payment_view \<Rightarrow> bool" where
  "awaiting_provider v \<longleftrightarrow> pay_provider (pv_payment v) = Paystack \<and> pay_status (pv_payment v) \<in> {Pay_Initialized, Pay_Pending}"

definition view_created :: "payment_view \<Rightarrow> time" where
  "view_created v = pay_created (pv_payment v)"

definition find_customer_initialization_payment :: "uuid \<Rightarrow> uuid \<Rightarrow> 'z payments_db_scheme \<Rightarrow> payment_view option" where
  "find_customer_initialization_payment customer oid s =
     (case newest_first (<) view_created (filter (\<lambda>v. ord_id (pv_order v) = oid \<and> ord_customer (pv_order v) = customer \<and>
         awaiting_provider v) (payment_views s)) of
        [] \<Rightarrow> None
      | v # vs \<Rightarrow> Some v)"

definition find_stuck_paystack_payments :: "int \<Rightarrow> nat \<Rightarrow> 'z payments_db_scheme \<Rightarrow> payment_view list" where
  "find_stuck_paystack_payments stale_seconds max_rows s =
     take max_rows (sort_key view_created (filter (\<lambda>v. awaiting_provider v \<and>
       ord_status (pv_order v) \<in> {Pending_Payment, Expired} \<and>
       view_created v < odb_now s - 1000 * stale_seconds \<and>
       odb_now s - 48 * 3600000 < view_created v) (payment_views s)))"

definition mark_payment_initialization_payload :: "uuid \<Rightarrow> json \<Rightarrow> ('z payments_db_scheme, unit) prog" where
  "mark_payment_initialization_payload pid payload =
     bindM (gets (\<lambda>s. pid \<in> pay_id ` set (payments s))) (\<lambda>found.
       if \<not> found then raise (Plain_Error ''Payment initialization update did not return a payment row.'')
       else modify (\<lambda>s. s\<lparr>payments := update_where (\<lambda>p. pay_id p = pid)
              (\<lambda>p. p\<lparr>pay_status := Pay_Pending, pay_payload := payload\<rparr>) (payments s)\<rparr>))"

definition later_of :: "time option \<Rightarrow> time \<Rightarrow> time option" where
  "later_of old new = (case old of None \<Rightarrow> Some new | Some t \<Rightarrow> Some (max t new))"

definition extend_reservation_window :: "uuid \<Rightarrow> int \<Rightarrow> ('z order_db_scheme, unit) prog" where
  "extend_reservation_window oid minutes = modify (\<lambda>s. s\<lparr>odb_orders :=
     update_where (\<lambda>r. ord_id r = oid \<and> ord_status r = Pending_Payment)
       (\<lambda>r. r\<lparr>ord_reservation_expires_at := later_of (ord_reservation_expires_at r) (odb_now s + 60000 * minutes)\<rparr>)
       (odb_orders s)\<rparr>)"

definition find_admin_payment_by_id :: "uuid \<Rightarrow> uuid option \<Rightarrow> 'z payments_db_scheme \<Rightarrow> payment_view option" where
  "find_admin_payment_by_id pid scope s =
     find (\<lambda>v. pay_id (pv_payment v) = pid \<and> in_scope scope (ord_campus (pv_order v))) (payment_views s)"

text \<open>The database function is one statement, and its errors undo it.\<close>

definition mark_payment_successful_from_provider :: "string \<Rightarrow> string \<Rightarrow> int \<Rightarrow> json \<Rightarrow> ('z payments_db_scheme, uuid) prog" where
  "mark_payment_successful_from_provider reference txid paid payload =
     transaction (mark_verified_payment_successful Paystack reference (Some txid) paid payload)"

definition force_payment_paid_manual :: "string \<Rightarrow> int \<Rightarrow> json \<Rightarrow> ('z payments_db_scheme, uuid) prog" where
  "force_payment_paid_manual reference paid payload =
     transaction (mark_verified_payment_successful Paystack reference None paid payload)"

section \<open>Checkout and verification (payments.service.ts)\<close>

definition payment_window_minutes :: int where
  "payment_window_minutes = 30"

record payment_start =
  ps_access :: string
  ps_url :: string
  ps_payment :: uuid
  ps_reference :: string

definition initialize_paystack :: "actor \<Rightarrow> uuid \<Rightarrow> ('z payments_db_scheme, payment_start) prog" where
  "initialize_paystack a oid =
     (if role a \<noteq> Customer then raise (forbidden ''Only customers can initialize order payments.'')
      else bindM (gets (find_customer_initialization_payment (user_id a) oid)) (\<lambda>found.
        case found of
          None \<Rightarrow> raise (not_found ''Order payment was not found.'')
        | Some v \<Rightarrow>
            if ord_status (pv_order v) \<noteq> Pending_Payment
            then raise (bad_request ''Only pending-payment orders can be initialized for payment.'')
            else if pay_expected (pv_payment v) \<noteq> pv_total v
            then raise (bad_request ''Stored payment amount does not match the order total.'')
            else (case (case pv_email v of Some m \<Rightarrow> Some m | None \<Rightarrow> email a) of
                None \<Rightarrow> raise (bad_request ''Customer email is required to initialize Paystack payment.'')
              | Some mail \<Rightarrow>
                  bindM (start_checkout \<lparr>oc_amount = pay_expected (pv_payment v), oc_currency = pay_currency (pv_payment v),
                    oc_email = mail,
                    oc_metadata = JObj [(''orderId'', JStr (ord_id (pv_order v))), (''paymentId'', JStr (pay_id (pv_payment v)))],
                    oc_reference = pay_reference (pv_payment v)\<rparr>) (\<lambda>c.
                  thenM (mark_payment_initialization_payload (pay_id (pv_payment v)) (ca_payload c))
                 (thenM (extend_reservation_window (ord_id (pv_order v)) payment_window_minutes)
                 (ret \<lparr>ps_access = ca_access c, ps_url = ca_url c, ps_payment = pay_id (pv_payment v), ps_reference = ca_reference c\<rparr>))))))"

definition try_reconcile_payment :: "payment_view \<Rightarrow> ('z payments_db_scheme, bool) prog" where
  "try_reconcile_payment v =
     catchM (bindM (verify_transaction (pay_reference (pv_payment v))) (\<lambda>t.
       if vt_status t \<noteq> ''success'' then ret False
       else if vt_reference t \<noteq> pay_reference (pv_payment v) then ret False
       else if vt_amount t \<noteq> pay_expected (pv_payment v) then ret False
       else if vt_currency t \<noteq> pay_currency (pv_payment v) then ret False
       else thenM (mark_payment_successful_from_provider (pay_reference (pv_payment v)) (vt_transaction t) (vt_amount t) (vt_payload t))
              (ret True)))
       (\<lambda>e. ret False)"

definition verify_pending_order_payment :: "uuid \<Rightarrow> uuid \<Rightarrow> ('z payments_db_scheme, unit) prog" where
  "verify_pending_order_payment customer oid =
     bindM (gets (find_customer_initialization_payment customer oid)) (\<lambda>found.
       case found of None \<Rightarrow> ret () | Some v \<Rightarrow> thenM (try_reconcile_payment v) (ret ()))"

definition reconcile_pending_payments :: "int option \<Rightarrow> nat option \<Rightarrow> ('z payments_db_scheme, nat \<times> nat) prog" where
  "reconcile_pending_payments stale_seconds max_rows =
     bindM (gets (find_stuck_paystack_payments (case stale_seconds of None \<Rightarrow> 120 | Some n \<Rightarrow> n)
       (case max_rows of None \<Rightarrow> 100 | Some n \<Rightarrow> n))) (\<lambda>vs.
     bindM (foldM (\<lambda>n v. bindM (try_reconcile_payment v) (\<lambda>b. ret (if b then Suc n else n))) 0 vs) (\<lambda>n.
       ret (length vs, n)))"

section \<open>Administrators\<close>

definition get_admin_payment :: "actor \<Rightarrow> uuid \<Rightarrow> ('z payments_db_scheme, payment_view) prog" where
  "get_admin_payment a pid =
     bindM (lift_ok (admin_campus_scope a)) (\<lambda>scope.
     bindM (gets (find_admin_payment_by_id pid scope)) (\<lambda>found.
       case found of None \<Rightarrow> raise (not_found ''Payment was not found.'') | Some v \<Rightarrow> ret v))"

record reconciled_payment =
  rc_order :: uuid
  rc_payment :: uuid
  rc_reference :: string
  rc_status :: string

definition reconcile_paystack_payment :: "actor \<Rightarrow> uuid \<Rightarrow> ('z payments_db_scheme, reconciled_payment) prog" where
  "reconcile_paystack_payment a pid =
     bindM (get_admin_payment a pid) (\<lambda>v.
     bindM (verify_transaction (pay_reference (pv_payment v))) (\<lambda>t.
       if vt_status t \<noteq> ''success'' then raise (bad_request ''Paystack transaction is not successful.'')
       else if vt_reference t \<noteq> pay_reference (pv_payment v)
       then raise (bad_request ''Paystack transaction reference does not match this payment.'')
       else if vt_amount t \<noteq> pay_expected (pv_payment v)
       then raise (bad_request ''Paystack transaction amount does not match the expected amount.'')
       else if vt_currency t \<noteq> pay_currency (pv_payment v)
       then raise (bad_request ''Paystack transaction currency does not match this payment.'')
       else bindM (mark_payment_successful_from_provider (pay_reference (pv_payment v)) (vt_transaction t) (vt_amount t) (vt_payload t)) (\<lambda>oid.
         ret \<lparr>rc_order = oid, rc_payment = pay_id (pv_payment v), rc_reference = pay_reference (pv_payment v),
              rc_status = ''successful''\<rparr>)))"

definition payment_status_str :: "payment_status \<Rightarrow> string" where
  "payment_status_str st = (case st of Pay_Initialized \<Rightarrow> ''initialized'' | Pay_Pending \<Rightarrow> ''pending''
     | Pay_Successful \<Rightarrow> ''successful'' | Pay_Failed \<Rightarrow> ''failed'' | Pay_Abandoned \<Rightarrow> ''abandoned'')"

text \<open>\<open>utc\<close> is toISOString of the clock.\<close>

definition force_payment_paid :: "(time \<Rightarrow> string) \<Rightarrow> actor \<Rightarrow> uuid \<Rightarrow> string \<Rightarrow> ('z payments_db_scheme, reconciled_payment) prog" where
  "force_payment_paid utc a pid reason =
     bindM (get_admin_payment a pid) (\<lambda>v.
       let p = pv_payment v in
       if pay_status p = Pay_Successful then raise (bad_request ''Payment is already successful.'')
       else bindM (gets odb_now) (\<lambda>now.
         bindM (force_payment_paid_manual (pay_reference p) (pay_expected p)
           (JObj [(''manual_override'', JBool True), (''reason'', JStr reason), (''actorUserId'', JStr (user_id a)),
                  (''forcedAt'', JStr (utc now))])) (\<lambda>oid.
         thenM (record_audit \<lparr>au_actor = user_id a, au_actor_type = actor_type_for_role (role a),
             au_campus = Some (ord_campus (pv_order v)), au_action = ''payment.force_paid'', au_entity_type = ''payment'',
             au_entity_id = Some (pay_id p),
             au_before = Some (JObj [(''paymentStatus'', JStr (payment_status_str (pay_status p))),
                                     (''orderStatus'', JStr (order_status_str (ord_status (pv_order v))))]),
             au_after = Some (JObj [(''paymentStatus'', JStr ''successful''), (''orderStatus'', JStr ''paid'')]),
             au_metadata = JObj [(''reason'', JStr reason), (''providerReference'', JStr (pay_reference p))]\<rparr>)
          (ret \<lparr>rc_order = oid, rc_payment = pay_id p, rc_reference = pay_reference p, rc_status = ''successful''\<rparr>))))"

section \<open>Refunds of a payment\<close>

datatype refund_destination = Refund_To_Wallet | Refund_To_Card

record refund_command =
  ri_amount :: int
  ri_code :: string
  ri_text :: "string option"
  ri_destination :: "refund_destination option"

definition map_refund_status :: "string \<Rightarrow> refund_status" where
  "map_refund_status st = (if st = ''processed'' \<or> st = ''success'' then Rf_Succeeded
     else if st = ''failed'' then Rf_Failed else Rf_Processing)"

definition get_refunded_amount :: "uuid \<Rightarrow> 'z payments_db_scheme \<Rightarrow> int" where
  "get_refunded_amount pid s =
     sum_list (map rf_amount (filter (\<lambda>r. rf_payment r = pid \<and> rf_status r \<noteq> Rf_Failed) (refunds s)))"

definition create_refund_request :: "uuid \<Rightarrow> refund_command \<Rightarrow> uuid \<Rightarrow> ('z payments_db_scheme, refund_row) prog" where
  "create_refund_request pid inp user =
     bindM (gets (\<lambda>s. (lookup_by pay_id pid (payments s), user \<in> prof_id ` set (profiles s)))) (\<lambda>(found, known).
       case found of
         None \<Rightarrow> raise (Plain_Error ''Refund request did not return a refund row.'')
       | Some p \<Rightarrow>
           bindM (to_int4 (ri_amount inp)) (\<lambda>n.
             if n \<le> 0 then raise (pg_error ''23514'' ''new row for relation refunds violates check constraint'')
             else if \<not> known then raise (pg_error ''23503'' ''insert or update on table refunds violates foreign key constraint'')
             else bindM draw_uuid (\<lambda>i. bindM (gets odb_now) (\<lambda>now.
               let row = \<lparr>rf_id = i, rf_payment = pid, rf_order = pay_order p, rf_reference = None, rf_amount = n,
                          rf_code = ri_code inp, rf_text = ri_text inp, rf_status = Rf_Requested,
                          rf_requested_by = Some user, rf_requested = now, rf_processed = None, rf_payload = JObj [],
                          rf_failure = None, rf_note = None, rf_resolved_by = None\<rparr>
               in thenM (modify (\<lambda>s. s\<lparr>refunds := refunds s @ [row]\<rparr>)) (ret row)))))"

definition stamp_refund :: "string \<Rightarrow> json \<Rightarrow> refund_status \<Rightarrow> time \<Rightarrow> refund_row \<Rightarrow> refund_row" where
  "stamp_refund reference payload st now r =
     r\<lparr>rf_reference := Some reference, rf_payload := payload, rf_status := st,
       rf_processed := (if st = Rf_Succeeded then Some now else rf_processed r)\<rparr>"

definition update_refund_provider_payload :: "uuid \<Rightarrow> string \<Rightarrow> json \<Rightarrow> refund_status \<Rightarrow> ('z payments_db_scheme, refund_row) prog" where
  "update_refund_provider_payload rid reference payload st =
     bindM (gets (\<lambda>s. (lookup_by rf_id rid (refunds s), odb_now s))) (\<lambda>(found, now).
       case found of
         None \<Rightarrow> raise (Plain_Error ''Refund provider update did not return a refund row.'')
       | Some r \<Rightarrow> thenM (modify (\<lambda>s. s\<lparr>refunds := update_where (\<lambda>x. rf_id x = rid) (stamp_refund reference payload st now) (refunds s)\<rparr>))
           (ret (stamp_refund reference payload st now r)))"

definition credit_refund_to_wallet :: "uuid \<Rightarrow> int \<Rightarrow> string \<Rightarrow> uuid \<Rightarrow> ('z payments_db_scheme, uuid) prog" where
  "credit_refund_to_wallet oid amount reason user = transaction (refund_order_to_wallet oid amount (Some reason) (Some user))"

definition initiate_refund :: "actor \<Rightarrow> uuid \<Rightarrow> refund_command \<Rightarrow> ('z payments_db_scheme, refund_row) prog" where
  "initiate_refund a pid inp =
     bindM (get_admin_payment a pid) (\<lambda>v.
       let p = pv_payment v in
       if pay_status p \<noteq> Pay_Successful then raise (bad_request ''Only successful payments can be refunded.'')
       else bindM (gets (get_refunded_amount (pay_id p))) (\<lambda>refunded.
         if (case pay_paid p of Some n \<Rightarrow> n | None \<Rightarrow> pay_expected p) - refunded < ri_amount inp
         then raise (bad_request ''Refund amount exceeds the remaining refundable balance.'')
         else bindM (create_refund_request (pay_id p) inp (user_id a)) (\<lambda>row.
           if ri_destination inp \<noteq> Some Refund_To_Card then
             bindM (credit_refund_to_wallet (pay_order p) (ri_amount inp)
                 (case ri_text inp of Some t \<Rightarrow> t | None \<Rightarrow> ri_code inp) (user_id a)) (\<lambda>entry.
               update_refund_provider_payload (rf_id row) entry
                 (JObj [(''destination'', JStr ''wallet''), (''walletLedgerEntryId'', JStr entry)]) Rf_Succeeded)
           else
             bindM (create_refund \<lparr>rx_transaction = (case pay_transaction p of Some t \<Rightarrow> t | None \<Rightarrow> pay_reference p),
                 rx_amount = ri_amount inp, rx_reason = ri_text inp\<rparr>) (\<lambda>answer.
               update_refund_provider_payload (rf_id row) (ra_id answer) (ra_payload answer)
                 (map_refund_status (ra_status answer))))))"

section \<open>Notes and details (support-notes.service.ts)\<close>

definition add_support_note :: "string \<Rightarrow> uuid \<Rightarrow> uuid \<Rightarrow> string \<Rightarrow> ('z payments_db_scheme, note_row) prog" where
  "add_support_note ty sid author body =
     bindM (gets (\<lambda>s. (author \<in> prof_id ` set (profiles s), odb_now s))) (\<lambda>(known, now).
       if btrim body = [] then raise (pg_error ''23514'' ''new row for relation admin_support_notes violates check constraint'')
       else if \<not> known then raise (pg_error ''23503'' ''insert or update on table admin_support_notes violates foreign key constraint'')
       else bindM draw_uuid (\<lambda>i.
         let row = \<lparr>nt_id = i, nt_subject_type = ty, nt_subject = sid, nt_author = author, nt_body = body, nt_created = now\<rparr>
         in thenM (modify (\<lambda>s. s\<lparr>support_notes := support_notes s @ [row]\<rparr>)) (ret row)))"

definition list_support_notes :: "string \<Rightarrow> uuid \<Rightarrow> 'z payments_db_scheme \<Rightarrow> note_row list" where
  "list_support_notes ty sid s =
     newest_first (<) nt_created (filter (\<lambda>n. nt_subject_type n = ty \<and> nt_subject n = sid) (support_notes s))"

record payment_detail =
  ad_view :: payment_view
  ad_requires_review :: bool
  ad_webhook_count :: nat
  ad_verified :: bool
  ad_refund_status :: "refund_status option"
  ad_refunded :: int
  ad_settled :: int
  ad_notes :: "note_row list"

definition payment_detail_of :: "'z payments_db_scheme \<Rightarrow> payment_view \<Rightarrow> payment_detail" where
  "payment_detail_of s v =
     (let p = pv_payment v; own = filter (\<lambda>r. rf_payment r = pay_id p) (refunds s) in
      \<lparr>ad_view = v,
       ad_requires_review = list_ex (\<lambda>i. iss_payment i = Some (pay_id p) \<and> iss_status i = ''open'') (issues s),
       ad_webhook_count = length (filter (\<lambda>e. pev_reference e = pay_reference p) (payment_events s)),
       ad_verified = (pay_verified_at p \<noteq> None),
       ad_refund_status = (case newest_first (<) rf_requested own of [] \<Rightarrow> None | r # rs \<Rightarrow> Some (rf_status r)),
       ad_refunded = sum_list (map rf_amount (filter (\<lambda>r. rf_status r \<notin> {Rf_Failed, Rf_Cancelled}) own)),
       ad_settled = sum_list (map sl_amount (filter (\<lambda>l. sl_order l = ord_id (pv_order v)) (settlement_lines s))),
       ad_notes = list_support_notes ''payment'' (pay_id p) s\<rparr>)"

definition get_admin_payment_detail :: "actor \<Rightarrow> uuid \<Rightarrow> ('z payments_db_scheme, payment_detail) prog" where
  "get_admin_payment_detail a pid =
     bindM (get_admin_payment a pid) (\<lambda>v. gets (\<lambda>s. payment_detail_of s v))"

definition review_payment :: "actor \<Rightarrow> uuid \<Rightarrow> string option \<Rightarrow> ('z payments_db_scheme, payment_detail) prog" where
  "review_payment a pid note =
     bindM (get_admin_payment a pid) (\<lambda>v.
     thenM (record_audit \<lparr>au_actor = user_id a, au_actor_type = actor_type_for_role (role a),
         au_campus = Some (ord_campus (pv_order v)), au_action = ''payment.reviewed'', au_entity_type = ''payment'',
         au_entity_id = Some pid, au_before = None, au_after = None,
         au_metadata = JObj (case note of None \<Rightarrow> [] | Some n \<Rightarrow> [(''note'', JStr n)])\<rparr>)
    (thenM (case note of None \<Rightarrow> ret () | Some n \<Rightarrow> thenM (add_support_note ''payment'' pid (user_id a) n) (ret ()))
     (get_admin_payment_detail a pid)))"

definition add_admin_note :: "actor \<Rightarrow> uuid \<Rightarrow> string \<Rightarrow> ('z payments_db_scheme, note_row) prog" where
  "add_admin_note a pid note =
     bindM (get_admin_payment a pid) (\<lambda>v. add_support_note ''payment'' pid (user_id a) note)"

definition get_admin_payment_webhooks :: "actor \<Rightarrow> uuid \<Rightarrow> ('z payments_db_scheme, payment_event_row list) prog" where
  "get_admin_payment_webhooks a pid =
     bindM (get_admin_payment a pid) (\<lambda>v.
       gets (\<lambda>s. filter (\<lambda>e. pev_reference e = pay_reference (pv_payment v)) (payment_events s)))"

section \<open>Reading a payment with its order\<close>

lemma payment_views_member:
  "v \<in> set (payment_views s) \<longleftrightarrow> (\<exists>p\<in>set (payments s). payment_view_of s p = Some v)"
  by (auto simp: payment_views_def image_iff)

lemma payment_view_parts:
  "payment_view_of s p = Some v \<Longrightarrow> pv_payment v = p \<and> lookup_by ord_id (pay_order p) (odb_orders s) = Some (pv_order v)"
  by (auto simp: payment_view_of_def bind_eq_Some_conv)

lemma find_SomeD: "find P xs = Some x \<Longrightarrow> x \<in> set xs \<and> P x"
  by (induction xs) (auto split: if_splits)

lemma get_admin_payment_app:
  "get_admin_payment a pid s =
     (case admin_campus_scope a of Inl e \<Rightarrow> (Inl e, s)
      | Inr scope \<Rightarrow> (case find_admin_payment_by_id pid scope s of
          None \<Rightarrow> (Inl (not_found ''Payment was not found.''), s) | Some v \<Rightarrow> (Inr v, s)))"
  by (simp add: get_admin_payment_def prog_simps split: sum.split option.split)

lemma get_admin_payment_Inr:
  assumes "get_admin_payment a pid s = (Inr v, t)"
  shows "t = s" "pv_payment v \<in> set (payments s)" "pay_id (pv_payment v) = pid"
    "lookup_by ord_id (pay_order (pv_payment v)) (odb_orders s) = Some (pv_order v)"
proof -
  obtain scope where sc: "admin_campus_scope a = Inr scope"
    using assms by (cases "admin_campus_scope a") (simp_all add: get_admin_payment_app)
  obtain v' where "find_admin_payment_by_id pid scope s = Some v'"
    using assms sc by (cases "find_admin_payment_by_id pid scope s") (simp_all add: get_admin_payment_app)
  with assms sc have "find_admin_payment_by_id pid scope s = Some v" and t: "t = s" by (simp_all add: get_admin_payment_app)
  then have v: "v \<in> set (payment_views s)" "pay_id (pv_payment v) = pid"
    unfolding find_admin_payment_by_id_def by (blast dest: find_SomeD)+
  from v(1) obtain p where "p \<in> set (payments s)" "payment_view_of s p = Some v" unfolding payment_views_member by blast
  with payment_view_parts [of s p v] t v(2) show "t = s" "pv_payment v \<in> set (payments s)" "pay_id (pv_payment v) = pid"
    "lookup_by ord_id (pay_order (pv_payment v)) (odb_orders s) = Some (pv_order v)" by simp_all
qed

section \<open>A captured payment of an order that is closed\<close>

lemma mark_closed:
  assumes "find_payment Paystack r s = Some p" "pay_status p \<noteq> Pay_Successful" "paid = pay_expected p"
    and "lookup_by ord_id (pay_order p) (odb_orders s) = Some q" "ord_status q \<notin> {Pending_Payment, Expired}"
  shows "\<exists>t. mark_verified_payment_successful Paystack r txid paid body s = (Inr (pay_order p), t) \<and>
    payments t = payments s \<and> odb_orders t = odb_orders s"
  using assms by (simp add: mark_verified_payment_successful_def mark_order_paid_def prog_simps)

lemma verify_app: "verify_transaction r s = (py_verify s (length (py_log s)), s\<lparr>py_log := py_log s @ [Call_Verify r]\<rparr>)"
  by (simp add: verify_transaction_def log_call_def prog_simps)

text \<open>
  When Paystack confirms the payment of an order that is neither pending nor expired, an
  administrator's verification and a forced payment both answer successful and write nothing to the
  payments, and the payment, still unsettled, can not be refunded.
\<close>

theorem captured_money_of_closed_order_is_stuck:
  assumes "get_admin_payment a pid s = (Inr v, s)"
    and "find_payment Paystack (pay_reference (pv_payment v)) s = Some (pv_payment v)"
    and "pay_status (pv_payment v) \<noteq> Pay_Successful" "ord_status (pv_order v) \<notin> {Pending_Payment, Expired}"
    and "py_verify s (length (py_log s)) = Inr t" "vt_status t = ''success''" "vt_reference t = pay_reference (pv_payment v)"
    and "vt_amount t = pay_expected (pv_payment v)" "vt_currency t = pay_currency (pv_payment v)"
  shows "(\<exists>k u. reconcile_paystack_payment a pid s = (Inr k, u) \<and> rc_status k = ''successful'' \<and> payments u = payments s) \<and>
    (\<exists>k u. force_payment_paid utc a pid reason s = (Inr k, u) \<and> rc_status k = ''successful'' \<and> payments u = payments s) \<and>
    (\<forall>inp. \<exists>e. initiate_refund a pid inp s = (Inl e, s))"
proof -
  note order = get_admin_payment_Inr(4) [OF assms(1)]
  let ?p = "pv_payment v" and ?s = "s\<lparr>py_log := py_log s @ [Call_Verify (pay_reference (pv_payment v))]\<rparr>"
  have "find_payment Paystack (pay_reference ?p) ?s = Some ?p" "lookup_by ord_id (pay_order ?p) (odb_orders ?s) = Some (pv_order v)"
    using assms(2) order by (simp_all add: find_payment_def)
  from mark_closed [OF this(1) assms(3) refl this(2) assms(4)] obtain u where
    u: "mark_verified_payment_successful Paystack (pay_reference ?p) (Some (vt_transaction t)) (pay_expected ?p) (vt_payload t) ?s =
      (Inr (pay_order ?p), u)" "payments u = payments s" by force
  then have one: "\<exists>k u. reconcile_paystack_payment a pid s = (Inr k, u) \<and> rc_status k = ''successful'' \<and> payments u = payments s"
    using assms by (simp add: reconcile_paystack_payment_def prog_simps verify_app mark_payment_successful_from_provider_def)
  have "\<exists>w. mark_verified_payment_successful Paystack (pay_reference ?p) None (pay_expected ?p) b s = (Inr (pay_order ?p), w) \<and>
      payments w = payments s" for b
    using mark_closed [OF assms(2,3) refl order assms(4)] by blast
  then obtain f where w: "\<And>b. mark_verified_payment_successful Paystack (pay_reference ?p) None (pay_expected ?p) b s = (Inr (pay_order ?p), f b)"
      "\<And>b. payments (f b) = payments s" by metis
  have two: "\<exists>k u. force_payment_paid utc a pid reason s = (Inr k, u) \<and> rc_status k = ''successful'' \<and> payments u = payments s"
    using assms(1,3) w by (simp add: force_payment_paid_def prog_simps Let_def force_payment_paid_manual_def record_audit_def)
  have "\<forall>inp. \<exists>e. initiate_refund a pid inp s = (Inl e, s)"
    using assms(1,3) by (simp add: initiate_refund_def prog_simps Let_def)
  with one two show ?thesis by blast
qed

section \<open>What a sweep may mark\<close>

definition pay_fixed :: "payment \<Rightarrow> uuid \<times> payment_provider \<times> string \<times> int \<times> string" where
  "pay_fixed p = (pay_id p, pay_provider p, pay_reference p, pay_expected p, pay_currency p)"

definition payment_keys :: "'z payments_db_scheme \<Rightarrow> bool" where
  "payment_keys s \<longleftrightarrow> distinct (map pay_id (payments s)) \<and> distinct (map (\<lambda>p. (pay_provider p, pay_reference p)) (payments s))"

definition verified_by :: "(nat \<Rightarrow> exn + verified_transaction) \<Rightarrow> payment \<Rightarrow> bool" where
  "verified_by answers p \<longleftrightarrow> (\<exists>n t. answers n = Inr t \<and> vt_status t = ''success'' \<and> vt_reference t = pay_reference p \<and>
     vt_amount t = pay_expected p \<and> vt_currency t = pay_currency p \<and> pay_paid p = Some (vt_amount t))"

definition marks_verified :: "'z payments_db_scheme \<Rightarrow> 'z payments_db_scheme \<Rightarrow> bool" where
  "marks_verified s t \<longleftrightarrow> py_verify t = py_verify s \<and> map pay_fixed (payments t) = map pay_fixed (payments s) \<and>
     (\<forall>p\<in>set (payments t). pay_status p = Pay_Successful \<longrightarrow> p \<in> set (payments s) \<or> verified_by (py_verify s) p)"

lemma marks_verified_refl: "marks_verified s s"
  by (simp add: marks_verified_def)

lemma fixed_keys:
  assumes "map pay_fixed (payments t) = map pay_fixed (payments s)"
  shows "map pay_id (payments t) = map pay_id (payments s)"
    "map (\<lambda>p. (pay_provider p, pay_reference p)) (payments t) = map (\<lambda>p. (pay_provider p, pay_reference p)) (payments s)"
  using arg_cong [OF assms, of "map fst"] arg_cong [OF assms, of "map (\<lambda>(i, w, r, e, c). (w, r))"]
  by (simp_all add: o_def pay_fixed_def)

lemma fixed_member:
  assumes "map pay_fixed (payments t) = map pay_fixed (payments s)" "p \<in> set (payments t)"
  shows "\<exists>q\<in>set (payments s). pay_fixed q = pay_fixed p"
proof -
  from assms(2) have "pay_fixed p \<in> set (map pay_fixed (payments t))" by simp
  then show ?thesis unfolding assms(1) by auto
qed

text \<open>Marking writes the row of the reference, and only when the order could be resolved.\<close>

lemma mark_cases:
  assumes "mark_verified_payment_successful Paystack r txid paid body s = (Inr oid, t)"
  shows "payments t = payments s \<or>
    (\<exists>p f. find_payment Paystack r s = Some p \<and> paid = pay_expected p \<and>
       payments t = update_where (\<lambda>x. pay_id x = pay_id p) f (payments s) \<and>
       (\<forall>x. pay_fixed (f x) = pay_fixed x \<and> pay_paid (f x) = Some paid))"
proof (cases "find_payment Paystack r s")
  case None
  with assms show ?thesis by (simp add: mark_verified_payment_successful_def prog_simps)
next
  case (Some p)
  obtain b os hs out where mo: "mark_order_paid (pay_order p) s = (Inr b, s\<lparr>odb_orders := os, odb_history := hs, odb_outbox := out\<rparr>)"
    using mark_order_paid_app by blast
  show ?thesis
  proof (cases "pay_status p = Pay_Successful \<or> \<not> b")
    case True
    with assms Some mo show ?thesis
      by (auto simp: mark_verified_payment_successful_def prog_simps split: if_splits)
  next
    case False
    let ?f = "\<lambda>x. x\<lparr>pay_status := Pay_Successful, pay_transaction := txid, pay_paid := Some paid,
          pay_verified_at := Some (odb_now s), pay_paid_at := Some (odb_now s), pay_payload := body\<rparr>"
    have "payments t = update_where (\<lambda>x. pay_id x = pay_id p) ?f (payments s) \<and> paid = pay_expected p"
      using assms Some mo False by (auto simp: mark_verified_payment_successful_def prog_simps split: if_splits)
    with Some show ?thesis by (intro disjI2 exI [of _ p] exI [of _ ?f]) (simp add: pay_fixed_def)
  qed
qed

lemma mark_rest: "py_verify (snd (mark_verified_payment_successful w r txid paid body s)) = py_verify s"
proof (cases "find_payment w r s")
  case (Some p)
  obtain b os hs out where "mark_order_paid (pay_order p) s = (Inr b, s\<lparr>odb_orders := os, odb_history := hs, odb_outbox := out\<rparr>)"
    using mark_order_paid_app by blast
  with Some show ?thesis by (simp add: mark_verified_payment_successful_def prog_simps)
qed (simp add: mark_verified_payment_successful_def prog_simps)

lemma mark_verified_row:
  assumes "payment_keys s" "p \<in> set (payments s)" "pay_provider p = Paystack" "marks_verified s u"
    and "answers n = Inr t" "answers = py_verify s" "vt_status t = ''success''" "vt_reference t = pay_reference p"
    "vt_amount t = pay_expected p" "vt_currency t = pay_currency p"
    and "mark_verified_payment_successful Paystack (pay_reference p) txid (vt_amount t) body u = (Inr oid, w)"
  shows "marks_verified s w"
proof -
  have pw: "py_verify w = py_verify s" using mark_rest [of Paystack _ txid _ body u] assms(4,11) by (metis marks_verified_def snd_conv)
  from mark_cases [OF assms(11)] show ?thesis
  proof (elim disjE exE conjE)
    assume "payments w = payments u"
    with assms(4) pw show ?thesis by (simp add: marks_verified_def)
  next
    fix q f
    assume q: "find_payment Paystack (pay_reference p) u = Some q"
      and w: "payments w = update_where (\<lambda>x. pay_id x = pay_id q) f (payments u)"
      and f: "\<forall>x. pay_fixed (f x) = pay_fixed x \<and> pay_paid (f x) = Some (vt_amount t)"
    have fixed: "map pay_fixed (payments u) = map pay_fixed (payments s)" using assms(4) by (simp add: marks_verified_def)
    have qs: "q \<in> set (payments u)" "pay_provider q = Paystack" "pay_reference q = pay_reference p"
      using find_SomeD [OF q [unfolded find_payment_def]] by simp_all
    from fixed_member [OF fixed qs(1)] obtain q' where q': "q' \<in> set (payments s)" "pay_fixed q' = pay_fixed q" by blast
    with qs assms(3) have "(pay_provider q', pay_reference q') = (pay_provider p, pay_reference p)" by (simp add: pay_fixed_def)
    with assms(1,2) q'(1) have "q' = p" unfolding payment_keys_def distinct_map by (blast dest: inj_onD)
    with q'(2) have qp: "pay_fixed q = pay_fixed p" by simp
    have ids: "distinct (map pay_id (payments u))" using assms(1) fixed_keys(1) [OF fixed] by (simp add: payment_keys_def)
    have ver: "verified_by (py_verify s) (f x)" if "x \<in> set (payments u)" "pay_id x = pay_id q" for x
    proof -
      have "x = q" using that qs(1) ids by (auto simp: distinct_map dest: inj_onD)
      with f qp have "pay_fixed (f x) = pay_fixed p" by simp
      moreover have "pay_paid (f x) = Some (vt_amount t)" using f by simp
      ultimately show ?thesis using assms(5-10) unfolding verified_by_def
        by (intro exI [of _ n] exI [of _ t]) (simp add: pay_fixed_def)
    qed
    have "x \<in> set (payments s) \<or> verified_by (py_verify s) x" if "x \<in> set (payments w)" "pay_status x = Pay_Successful" for x
    proof -
      from that(1) obtain y where y: "y \<in> set (payments u)" "x = (if pay_id y = pay_id q then f y else y)"
        by (auto simp: w set_update_where)
      show ?thesis using ver [OF y(1)] y that(2) assms(4) by (cases "pay_id y = pay_id q") (auto simp: marks_verified_def)
    qed
    moreover have "map pay_fixed (payments w) = map pay_fixed (payments s)" using fixed f by (simp add: w map_update_where)
    ultimately show ?thesis using pw by (simp add: marks_verified_def)
  qed
qed

lemma try_reconcile_app:
  "try_reconcile_payment v u =
     (let u' = u\<lparr>py_log := py_log u @ [Call_Verify (pay_reference (pv_payment v))]\<rparr>
      in case py_verify u (length (py_log u)) of Inl e \<Rightarrow> (Inr False, u')
       | Inr t \<Rightarrow> if vt_status t = ''success'' \<and> vt_reference t = pay_reference (pv_payment v) \<and>
             vt_amount t = pay_expected (pv_payment v) \<and> vt_currency t = pay_currency (pv_payment v)
           then case mark_verified_payment_successful Paystack (pay_reference (pv_payment v)) (Some (vt_transaction t))
                  (vt_amount t) (vt_payload t) u' of (Inl e, w) \<Rightarrow> (Inr False, u') | (Inr x, w) \<Rightarrow> (Inr True, w)
           else (Inr False, u'))"
  by (auto simp: try_reconcile_payment_def prog_simps verify_app mark_payment_successful_from_provider_def Let_def
      split: sum.split prod.split)

lemma try_reconcile_marks:
  assumes "payment_keys s" "pv_payment v \<in> set (payments s)" "pay_provider (pv_payment v) = Paystack" "marks_verified s u"
  shows "\<exists>b w. try_reconcile_payment v u = (Inr b, w) \<and> marks_verified s w"
proof -
  let ?u = "u\<lparr>py_log := py_log u @ [Call_Verify (pay_reference (pv_payment v))]\<rparr>"
  have iu: "marks_verified s ?u" and ans: "py_verify u = py_verify s" using assms(4) by (simp_all add: marks_verified_def)
  show ?thesis
  proof (cases "py_verify u (length (py_log u))")
    case Inl
    with iu show ?thesis by (auto simp: try_reconcile_app Let_def)
  next
    case (Inr t)
    obtain r w where m: "mark_verified_payment_successful Paystack (pay_reference (pv_payment v)) (Some (vt_transaction t))
        (vt_amount t) (vt_payload t) ?u = (r, w)" by force
    with mark_verified_row [OF assms(1-3) iu Inr [unfolded ans] refl] have
      "vt_status t = ''success'' \<Longrightarrow> vt_reference t = pay_reference (pv_payment v) \<Longrightarrow> vt_amount t = pay_expected (pv_payment v) \<Longrightarrow>
       vt_currency t = pay_currency (pv_payment v) \<Longrightarrow> r = Inr x \<Longrightarrow> marks_verified s w" for x by blast
    with Inr m iu show ?thesis by (cases r) (auto simp: try_reconcile_app Let_def)
  qed
qed

lemma sweep_marks:
  assumes "payment_keys s"
  shows "marks_verified s u \<Longrightarrow> \<forall>v\<in>set vs. pv_payment v \<in> set (payments s) \<and> pay_provider (pv_payment v) = Paystack \<Longrightarrow>
    \<exists>n' w. foldM (\<lambda>n v. bindM (try_reconcile_payment v) (\<lambda>b. ret (if b then Suc n else n))) n vs u = (Inr n', w) \<and> marks_verified s w"
proof (induction vs arbitrary: n u)
  case (Cons v vs)
  then obtain b w where "try_reconcile_payment v u = (Inr b, w)" "marks_verified s w"
    using try_reconcile_marks [OF assms, of v u] by auto
  with Cons show ?case by (simp add: prog_simps)
qed (simp add: prog_simps)

text \<open>
  Property C19: whatever Paystack answers, the sweep marks a payment successful only on an answer that
  reports success for the payment's own reference, with exactly its expected amount and currency.
\<close>

theorem sweep_marks_only_verified_payments:
  assumes "reconcile_pending_payments stale_seconds max_rows s = (res, t)" "payment_keys s"
    and "p \<in> set (payments t)" "pay_status p = Pay_Successful" "p \<notin> set (payments s)"
  shows "\<exists>n v. py_verify s n = Inr v \<and> vt_status v = ''success'' \<and> vt_reference v = pay_reference p \<and>
    vt_amount v = pay_expected p \<and> vt_currency v = pay_currency p \<and> pay_paid p = Some (vt_amount v)"
proof -
  let ?vs = "find_stuck_paystack_payments (case stale_seconds of None \<Rightarrow> 120 | Some n \<Rightarrow> n) (case max_rows of None \<Rightarrow> 100 | Some n \<Rightarrow> n) s"
  have "pv_payment v \<in> set (payments s) \<and> pay_provider (pv_payment v) = Paystack" if "v \<in> set ?vs" for v
  proof -
    from that have "v \<in> set (payment_views s)" "awaiting_provider v"
      by (auto simp: find_stuck_paystack_payments_def dest!: in_set_takeD)
    then show ?thesis by (auto simp: payment_views_member awaiting_provider_def dest: payment_view_parts)
  qed
  with sweep_marks [OF assms(2) marks_verified_refl, of ?vs 0] obtain n w where
    "foldM (\<lambda>n v. bindM (try_reconcile_payment v) (\<lambda>b. ret (if b then Suc n else n))) 0 ?vs s = (Inr n, w)" "marks_verified s w"
    by blast
  with assms(1) have "marks_verified s t" by (simp add: reconcile_pending_payments_def prog_simps)
  with assms(3-5) show ?thesis by (auto simp: marks_verified_def verified_by_def)
qed

section \<open>A sample\<close>

text \<open>A paid order, a cancelled one and a pending one, and Paystack confirming one payment each time it is asked.\<close>

definition sample_order :: "uuid \<Rightarrow> order_status \<Rightarrow> order_row" where
  "sample_order i st = \<lparr>ord_id = i, ord_number = ''MD-'' @ i, ord_customer = webhook_user, ord_campus = ''c1'',
     ord_status = st, ord_paid_at = None, ord_ready_at = None, ord_delivered_at = None,
     ord_confirmed_at = None, ord_cancelled_at = None, ord_cancellation_reason = None,
     ord_rider_confirmed_ready = None, ord_reservation_expires_at = Some 900000\<rparr>"

definition sample_payment :: "uuid \<Rightarrow> uuid \<Rightarrow> payment_status \<Rightarrow> int \<Rightarrow> payment" where
  "sample_payment i oid st n = \<lparr>pay_id = i, pay_order = oid, pay_provider = Paystack, pay_reference = ''PS-'' @ i,
     pay_transaction = None, pay_status = st, pay_expected = n, pay_paid = (if st = Pay_Successful then Some n else None),
     pay_currency = ''NGN'', pay_verified_at = None, pay_paid_at = None, pay_created = 100000, pay_payload = JNull\<rparr>"

definition confirmed :: "string \<Rightarrow> int \<Rightarrow> verified_transaction" where
  "confirmed r n = \<lparr>vt_status = ''success'', vt_reference = r, vt_amount = n, vt_currency = ''NGN'',
     vt_transaction = ''T1'', vt_payload = JNull\<rparr>"

definition payments_sample :: payments_db where
  "payments_sample = \<lparr>odb_now = 500000,
     odb_orders = [sample_order ''o1'' Paid, sample_order ''o2'' Cancelled, sample_order ''o3'' Pending_Payment],
     odb_history = [], odb_outbox = [], db_uuid = (\<lambda>n. ''id-'' @ nat_str n), db_drawn = 0,
     wallets = [], ledger = [], accounts = [], settings = [],
     profiles = [\<lparr>prof_id = webhook_user, prof_email = None, prof_name = None, prof_phone = None\<rparr>],
     payments = [sample_payment ''p1'' ''o1'' Pay_Successful 250000, sample_payment ''p2'' ''o2'' Pay_Initialized 100000,
       sample_payment ''p3'' ''o3'' Pay_Pending 80000],
     issues = [], audit_logs = [], audit_fault = (\<lambda>e. False), deliveries = [], settlements = [], settlement_lines = [], transfers = [],
     payout_accounts = [], riders = [], vendors = [], px_calls = [], px_initiate = (\<lambda>n. Inl network_failure),
     px_fetched = [], px_fetch = (\<lambda>n. Inl network_failure), payment_events = [], processed_keys = [],
     refunds = [], support_notes = [], order_total_of = (\<lambda>oid. 0), py_log = [],
     py_checkout = (\<lambda>n. Inl network_failure), py_verify = (\<lambda>n. Inr (confirmed ''PS-p2'' 100000)),
     py_refund = (\<lambda>n. Inl network_failure)\<rparr>"

definition payments_admin :: actor where
  "payments_admin = \<lparr>user_id = webhook_user, role = Super_Admin, email = None, campus_id = None, vendor_id = None, rider_id = None\<rparr>"

definition closed_view :: payment_view where
  "closed_view = \<lparr>pv_payment = sample_payment ''p2'' ''o2'' Pay_Initialized 100000, pv_order = sample_order ''o2'' Cancelled,
     pv_email = None, pv_total = 0\<rparr>"

theorem captured_money_of_closed_order_is_stuck_witness:
  "(\<exists>k u. reconcile_paystack_payment payments_admin ''p2'' payments_sample = (Inr k, u) \<and> rc_status k = ''successful'' \<and>
      payments u = payments payments_sample) \<and>
    (\<exists>k u. force_payment_paid (\<lambda>t. ''now'') payments_admin ''p2'' ''seen'' payments_sample = (Inr k, u) \<and> rc_status k = ''successful'' \<and>
      payments u = payments payments_sample) \<and>
    (\<forall>inp. \<exists>e. initiate_refund payments_admin ''p2'' inp payments_sample = (Inl e, payments_sample))"
proof (rule captured_money_of_closed_order_is_stuck [where v = closed_view and t = "confirmed ''PS-p2'' 100000"])
  show "get_admin_payment payments_admin ''p2'' payments_sample = (Inr closed_view, payments_sample)"
    by (simp add: get_admin_payment_app payments_admin_def admin_campus_scope_def find_admin_payment_by_id_def payment_views_def
        payment_view_of_def payments_sample_def sample_payment_def sample_order_def in_scope_def table_simps closed_view_def)
  show "find_payment Paystack (pay_reference (pv_payment closed_view)) payments_sample = Some (pv_payment closed_view)"
    by (simp add: find_payment_def payments_sample_def sample_payment_def closed_view_def)
qed (simp_all add: closed_view_def sample_payment_def sample_order_def payments_sample_def confirmed_def)

definition sweep_sample :: payments_db where
  "sweep_sample = payments_sample\<lparr>py_verify := (\<lambda>n. Inr (confirmed ''PS-p3'' 80000))\<rparr>"

definition swept :: "(exn + nat \<times> nat) \<times> payments_db" where
  "swept = reconcile_pending_payments None None sweep_sample"

theorem sweep_marks_only_verified_payments_witness:
  "fst swept = Inr (1, 1) \<and> (let p = payments (snd swept) ! 2 in
    \<exists>n v. py_verify sweep_sample n = Inr v \<and> vt_status v = ''success'' \<and> vt_reference v = pay_reference p \<and>
      vt_amount v = pay_expected p \<and> vt_currency v = pay_currency p \<and> pay_paid p = Some (vt_amount v))"
proof -
  let ?p = "payments (snd swept) ! 2"
  have run: "fst swept = Inr (1, 1)" "length (payments (snd swept)) = 3" "pay_id ?p = ''p3''" "pay_status ?p = Pay_Successful"
    by code_simp+
  have "reconcile_pending_payments None None sweep_sample = (fst swept, snd swept)" by (simp add: swept_def)
  moreover have "payment_keys sweep_sample"
    by (simp add: payment_keys_def sweep_sample_def payments_sample_def sample_payment_def)
  moreover have "?p \<in> set (payments (snd swept))" by (rule nth_mem) (simp add: run(2))
  moreover have "?p \<notin> set (payments sweep_sample)"
  proof
    assume "?p \<in> set (payments sweep_sample)"
    then show False using run(3,4) by (auto simp: sweep_sample_def payments_sample_def sample_payment_def)
  qed
  ultimately show ?thesis
    using sweep_marks_only_verified_payments [of None None sweep_sample "fst swept" "snd swept" ?p] run(1,4) by (simp add: Let_def)
qed

end
