(* ===== verification/Refunds.thy ===== *)
theory Refunds
  imports Payments
begin

text \<open>
  modules/payments/refunds.service.ts and refunds.repository.ts: the administrators' refund queue, the
  decision on a requested refund, its start at Paystack, the retry of a failed one and the manual
  resolution.
\<close>

section \<open>Refunds with their payment and order (refunds.repository.ts)\<close>

record refund_view =
  rv_refund :: refund_row
  rv_payment :: payment
  rv_order :: order_row
  rv_email :: "string option"

definition refund_view_of :: "'z payments_db_scheme \<Rightarrow> refund_row \<Rightarrow> refund_view option" where
  "refund_view_of s r =
     Option.bind (lookup_by pay_id (rf_payment r) (payments s)) (\<lambda>p.
       map_option (\<lambda>q. \<lparr>rv_refund = r, rv_payment = p, rv_order = q,
           rv_email = Option.bind (lookup_by prof_id (ord_customer q) (profiles s)) prof_email\<rparr>)
         (lookup_by ord_id (rf_order r) (odb_orders s)))"

definition refund_views :: "'z payments_db_scheme \<Rightarrow> refund_view list" where
  "refund_views s = map the (filter (\<lambda>v. v \<noteq> None) (map (refund_view_of s) (refunds s)))"

definition find_refund_by_id :: "uuid \<Rightarrow> uuid option \<Rightarrow> 'z payments_db_scheme \<Rightarrow> refund_view option" where
  "find_refund_by_id rid scope s =
     find (\<lambda>v. rf_id (rv_refund v) = rid \<and> in_scope scope (ord_campus (rv_order v))) (refund_views s)"

definition refund_key :: "pg_keys \<Rightarrow> refund_view \<Rightarrow> row_key" where
  "refund_key pk v = (pk_time pk (rf_requested (rv_refund v)), rf_id (rv_refund v))"

definition list_refund_rows ::
  "pg_keys \<Rightarrow> refund_status option \<Rightarrow> pagination \<Rightarrow> uuid option \<Rightarrow> ('z payments_db_scheme, refund_view page) prog" where
  "list_refund_rows pk st p campus =
     bindM (lift_ok (read_keyset_cursor pk ''requestedAt'' (pn_cursor p))) (\<lambda>cursor.
     bindM (gets (\<lambda>s. filter (\<lambda>v. (st = None \<or> st = Some (rf_status (rv_refund v))) \<and> in_scope campus (ord_campus (rv_order v)))
         (refund_views s))) (\<lambda>rows.
       ret (create_cursor_page (keyset_rows (pk_before pk) (refund_key pk) cursor (pn_limit p) rows) (pn_limit p)
         (\<lambda>v. keyset_cursor ''requestedAt'' (refund_key pk v)))))"

definition retried_row :: "string \<Rightarrow> json \<Rightarrow> refund_status \<Rightarrow> time \<Rightarrow> refund_row \<Rightarrow> refund_row" where
  "retried_row reference payload st now r =
     (stamp_refund reference payload st now r)\<lparr>rf_failure := (if st = Rf_Failed then rf_failure r else None)\<rparr>"

definition apply_provider_retry :: "uuid \<Rightarrow> string \<Rightarrow> json \<Rightarrow> refund_status \<Rightarrow> ('z payments_db_scheme, unit) prog" where
  "apply_provider_retry rid reference payload st =
     modify (\<lambda>s. s\<lparr>refunds := update_where (\<lambda>r. rf_id r = rid) (retried_row reference payload st (odb_now s)) (refunds s)\<rparr>)"

definition resolved_row ::
  "refund_status \<Rightarrow> string option \<Rightarrow> string option \<Rightarrow> uuid \<Rightarrow> time \<Rightarrow> refund_row \<Rightarrow> refund_row" where
  "resolved_row st note failure user now r =
     r\<lparr>rf_status := st, rf_note := (case note of None \<Rightarrow> rf_note r | Some n \<Rightarrow> Some n),
       rf_failure := (case failure of None \<Rightarrow> rf_failure r | Some n \<Rightarrow> Some n), rf_resolved_by := Some user,
       rf_processed := (if st \<in> {Rf_Succeeded, Rf_Failed, Rf_Cancelled} then Some now else rf_processed r)\<rparr>"

definition order_in_scope :: "uuid option \<Rightarrow> 'z payments_db_scheme \<Rightarrow> refund_row \<Rightarrow> bool" where
  "order_in_scope scope s r =
     (case lookup_by ord_id (rf_order r) (odb_orders s) of None \<Rightarrow> False | Some q \<Rightarrow> in_scope scope (ord_campus q))"

definition mark_resolution ::
  "uuid \<Rightarrow> refund_status \<Rightarrow> string option \<Rightarrow> string option \<Rightarrow> uuid \<Rightarrow> uuid option \<Rightarrow> ('z payments_db_scheme, refund_view option) prog" where
  "mark_resolution rid st note failure user scope =
     bindM (gets (\<lambda>s. (list_ex (\<lambda>r. rf_id r = rid \<and> order_in_scope scope s r) (refunds s), user \<in> prof_id ` set (profiles s)))) (\<lambda>(found, known).
       if \<not> found then ret None
       else if \<not> known then raise (pg_error ''23503'' ''insert or update on table refunds violates foreign key constraint'')
       else thenM (modify (\<lambda>s. s\<lparr>refunds := update_where (\<lambda>r. rf_id r = rid \<and> order_in_scope scope s r)
                (resolved_row st note failure user (odb_now s)) (refunds s)\<rparr>))
             (gets (find_refund_by_id rid scope)))"

section \<open>The service (refunds.service.ts)\<close>

definition require_refund :: "actor \<Rightarrow> uuid \<Rightarrow> ('z payments_db_scheme, refund_view) prog" where
  "require_refund a rid =
     bindM (lift_ok (admin_campus_scope a)) (\<lambda>scope.
     bindM (gets (find_refund_by_id rid scope)) (\<lambda>found.
       case found of None \<Rightarrow> raise (not_found ''Refund was not found.'') | Some v \<Rightarrow> ret v))"

definition list_refunds ::
  "pg_keys \<Rightarrow> actor \<Rightarrow> refund_status option \<Rightarrow> string option \<Rightarrow> js_num option \<Rightarrow> uuid option \<Rightarrow> ('z payments_db_scheme, refund_view page) prog" where
  "list_refunds pk a st cursor requested campus =
     bindM (lift_ok (admin_campus_scope a)) (\<lambda>scope.
       list_refund_rows pk st (normalize_cursor_pagination cursor requested)
         (case scope of Some c \<Rightarrow> Some c | None \<Rightarrow> campus))"

definition refund_status_str :: "refund_status \<Rightarrow> string" where
  "refund_status_str st = (case st of Rf_Requested \<Rightarrow> ''requested'' | Rf_Approved \<Rightarrow> ''approved''
     | Rf_Processing \<Rightarrow> ''processing'' | Rf_Succeeded \<Rightarrow> ''succeeded'' | Rf_Failed \<Rightarrow> ''failed'' | Rf_Cancelled \<Rightarrow> ''cancelled'')"

definition refund_audit :: "actor \<Rightarrow> refund_view \<Rightarrow> string \<Rightarrow> json option \<Rightarrow> json option \<Rightarrow> json \<Rightarrow> audit_row" where
  "refund_audit a v action old new metadata =
     \<lparr>au_actor = user_id a, au_actor_type = actor_type_for_role (role a), au_campus = Some (ord_campus (rv_order v)),
      au_action = action, au_entity_type = ''refund'', au_entity_id = Some (rf_id (rv_refund v)),
      au_before = old, au_after = new, au_metadata = metadata\<rparr>"

definition status_object :: "refund_status \<Rightarrow> json" where
  "status_object st = JObj [(''status'', JStr (refund_status_str st))]"

definition transaction_of :: "payment \<Rightarrow> string" where
  "transaction_of p = (case pay_transaction p of Some t \<Rightarrow> t | None \<Rightarrow> pay_reference p)"

definition retry_refund :: "actor \<Rightarrow> uuid \<Rightarrow> ('z payments_db_scheme, refund_view) prog" where
  "retry_refund a rid =
     bindM (require_refund a rid) (\<lambda>v.
       if rf_status (rv_refund v) \<noteq> Rf_Failed then raise (bad_request ''Only failed refunds can be retried.'')
       else bindM (create_refund \<lparr>rx_transaction = transaction_of (rv_payment v), rx_amount = rf_amount (rv_refund v),
               rx_reason = rf_text (rv_refund v)\<rparr>) (\<lambda>answer.
         let st = map_refund_status (ra_status answer) in
         thenM (apply_provider_retry rid (ra_id answer) (ra_payload answer) st)
        (thenM (record_audit (refund_audit a v ''refund.retry'' None None
            (JObj [(''status'', JStr (refund_status_str st)), (''providerRefundReference'', JStr (ra_id answer))])))
         (require_refund a rid))))"

definition resolve_refund ::
  "actor \<Rightarrow> uuid \<Rightarrow> refund_status \<Rightarrow> string option \<Rightarrow> string option \<Rightarrow> ('z payments_db_scheme, refund_view) prog" where
  "resolve_refund a rid st note failure =
     bindM (require_refund a rid) (\<lambda>v.
       if rf_status (rv_refund v) = Rf_Succeeded then raise (bad_request ''This refund is already succeeded.'')
       else bindM (lift_ok (admin_campus_scope a)) (\<lambda>scope.
         bindM (mark_resolution rid st note failure (user_id a) scope) (\<lambda>updated.
           case updated of
             None \<Rightarrow> raise (not_found ''Refund was not found.'')
           | Some u \<Rightarrow> thenM (record_audit (refund_audit a v ''refund.manual_resolution''
                 (Some (status_object (rf_status (rv_refund v)))) (Some (status_object st))
                 (JObj ((case note of None \<Rightarrow> [] | Some n \<Rightarrow> [(''resolutionNote'', JStr n)]) @
                        (case failure of None \<Rightarrow> [] | Some n \<Rightarrow> [(''failureReason'', JStr n)])))))
               (ret u))))"

definition initiate_approved_refund :: "actor \<Rightarrow> uuid \<Rightarrow> int \<Rightarrow> string \<Rightarrow> ('z payments_db_scheme, refund_view) prog" where
  "initiate_approved_refund a rid amount reason =
     bindM (require_refund a rid) (\<lambda>v.
       if rf_status (rv_refund v) \<noteq> Rf_Approved then raise (bad_request ''Only approved refunds can be initiated.'')
       else if rf_amount (rv_refund v) < amount then raise (bad_request ''Refund amount cannot exceed the approved amount.'')
       else bindM (create_refund \<lparr>rx_transaction = transaction_of (rv_payment v), rx_amount = amount, rx_reason = Some reason\<rparr>) (\<lambda>answer.
         let st = map_refund_status (ra_status answer) in
         thenM (apply_provider_retry rid (ra_id answer) (ra_payload answer) st)
        (thenM (record_audit (refund_audit a v ''refund.initiate'' None None
            (JObj [(''status'', JStr (refund_status_str st)), (''amountKobo'', num_json amount), (''reason'', JStr reason),
                   (''providerRefundReference'', JStr (ra_id answer))])))
         (require_refund a rid))))"

definition decide_refund :: "actor \<Rightarrow> uuid \<Rightarrow> bool \<Rightarrow> ('z payments_db_scheme, refund_view) prog" where
  "decide_refund a rid approve =
     bindM (require_refund a rid) (\<lambda>v.
       if rf_status (rv_refund v) \<noteq> Rf_Requested
       then raise (bad_request ''Only requested refunds can be approved or rejected.'')
       else let st = (if approve then Rf_Approved else Rf_Cancelled) in
         bindM (lift_ok (admin_campus_scope a)) (\<lambda>scope.
         bindM (mark_resolution rid st None None (user_id a) scope) (\<lambda>updated.
           case updated of
             None \<Rightarrow> raise (not_found ''Refund was not found.'')
           | Some u \<Rightarrow> thenM (record_audit (refund_audit a v (if approve then ''refund.approve'' else ''refund.reject'')
                 (Some (status_object (rf_status (rv_refund v)))) (Some (status_object st)) (JObj [])))
               (ret u))))"

section \<open>Refunds stay within the payment\<close>

definition refundable :: "payment \<Rightarrow> int" where
  "refundable p = (case pay_paid p of Some n \<Rightarrow> n | None \<Rightarrow> pay_expected p)"

definition refunds_ok :: "'z payments_db_scheme \<Rightarrow> bool" where
  "refunds_ok s \<longleftrightarrow> inj (db_uuid s) \<and> distinct (map rf_id (refunds s)) \<and> rf_id ` set (refunds s) \<subseteq> drawn_ids s \<and>
     distinct (map pay_id (payments s)) \<and> (\<forall>r\<in>set (refunds s). 0 < rf_amount r) \<and>
     (\<forall>p\<in>set (payments s). get_refunded_amount (pay_id p) s \<le> refundable p)"

definition same_refunds :: "'z payments_db_scheme \<Rightarrow> 'z payments_db_scheme \<Rightarrow> bool" where
  "same_refunds s t \<longleftrightarrow> refunds t = refunds s \<and> payments t = payments s \<and> db_uuid t = db_uuid s \<and> db_drawn s \<le> db_drawn t"

lemma same_refunds_refl: "same_refunds s s"
  by (simp add: same_refunds_def)

lemma same_refunds_ok: "same_refunds s t \<Longrightarrow> refunds_ok s \<Longrightarrow> refunds_ok t"
  using drawn_ids_mono [of t s] by (auto simp: same_refunds_def refunds_ok_def get_refunded_amount_def)

lemma same_refunds_modify:
  "(\<And>t. refunds (f t) = refunds t \<and> payments (f t) = payments t \<and> db_uuid (f t) = db_uuid t \<and> db_drawn t \<le> db_drawn (f t)) \<Longrightarrow>
   preserves (same_refunds s) (modify f)"
  by (rule preserves_modify) (auto simp: same_refunds_def intro: le_trans)

lemma draw_same_refunds: "preserves (same_refunds s) draw_uuid"
  by (rule preservesI) (simp add: draw_uuid_def same_refunds_def)

lemma log_same_refunds: "preserves (same_refunds s) (log_call c)"
  by (rule preservesI) (simp add: log_call_def same_refunds_def)

lemma credit_same_refunds: "preserves (same_refunds s) (credit_refund_to_wallet oid amount reason user)"
  unfolding credit_refund_to_wallet_def refund_order_to_wallet_def ensure_customer_wallet_def append_wallet_ledger_entry_def
    Let_def emit_def
  by (auto intro!: preserves_intros to_int4_inv draw_same_refunds same_refunds_modify split: option.split)

lemma provider_same_refunds: "preserves (same_refunds s) (create_refund q)"
  unfolding create_refund_def by (auto intro!: preserves_intros log_same_refunds)

lemma audit_same_refunds: "preserves (same_refunds s) (record_audit row)"
  unfolding record_audit_def by (auto intro!: preserves_intros same_refunds_modify)

text \<open>A program that keeps the tables, and whose continuation is right on every result of it.\<close>

lemma refunds_ok_bind:
  assumes "refunds_ok s" and "preserves (same_refunds s) m"
    and "\<And>x t. m s = (Inr x, t) \<Longrightarrow> same_refunds s t \<Longrightarrow> refunds_ok (snd (k x t))"
  shows "refunds_ok (snd (bindM m k s))"
proof -
  obtain r t where m: "m s = (r, t)" by force
  with preservesD [OF assms(2) same_refunds_refl] have t: "same_refunds s t" by simp
  show ?thesis using m assms(3) same_refunds_ok [OF t assms(1)] t by (cases r) (simp_all add: bindM_app)
qed

lemma refunded_append:
  "get_refunded_amount pid (s\<lparr>refunds := refunds s @ [r]\<rparr>) =
     get_refunded_amount pid s + (if rf_payment r = pid \<and> rf_status r \<noteq> Rf_Failed then rf_amount r else 0)"
  by (simp add: get_refunded_amount_def)

lemma refunded_restamp_le:
  assumes "\<forall>r\<in>set rs. P r \<longrightarrow> rf_status r \<noteq> Rf_Failed" "\<forall>r\<in>set rs. 0 < rf_amount r"
    and "\<And>r. rf_payment (f r) = rf_payment r \<and> rf_amount (f r) = rf_amount r"
  shows "sum_list (map rf_amount (filter (\<lambda>r. rf_payment r = pid \<and> rf_status r \<noteq> Rf_Failed) (update_where P f rs))) \<le>
    sum_list (map rf_amount (filter (\<lambda>r. rf_payment r = pid \<and> rf_status r \<noteq> Rf_Failed) rs))"
  using assms(1,2) by (induction rs) (auto simp: table_simps assms(3))

lemma restamped_ok:
  assumes "refunds_ok s" "\<forall>r\<in>set (refunds s). P r \<longrightarrow> rf_status r \<noteq> Rf_Failed"
    and f: "\<And>r. rf_id (f r) = rf_id r \<and> rf_payment (f r) = rf_payment r \<and> rf_amount (f r) = rf_amount r"
  shows "refunds_ok (s\<lparr>refunds := update_where P f (refunds s)\<rparr>)"
proof -
  let ?rs = "update_where P f (refunds s)"
  have ids: "map rf_id ?rs = map rf_id (refunds s)" and am: "map rf_amount ?rs = map rf_amount (refunds s)"
    using f by (simp_all add: map_update_where)
  have "rf_id ` set ?rs = rf_id ` set (refunds s)" using ids by (metis list.set_map)
  moreover have "\<forall>r\<in>set ?rs. 0 < rf_amount r" using assms(1) f by (auto simp: set_update_where refunds_ok_def)
  moreover have le: "get_refunded_amount pid (s\<lparr>refunds := ?rs\<rparr>) \<le> get_refunded_amount pid s" for pid
    unfolding get_refunded_amount_def
    using refunded_restamp_le [of "refunds s" P f pid] assms by (simp add: refunds_ok_def)
  have "\<forall>p\<in>set (payments s). get_refunded_amount (pay_id p) (s\<lparr>refunds := ?rs\<rparr>) \<le> refundable p"
    using assms(1) order_trans [OF le] by (simp add: refunds_ok_def)
  ultimately show ?thesis using assms(1) ids by (simp add: refunds_ok_def drawn_ids_def)
qed

lemma requested_ok:
  assumes "refunds_ok s" "p \<in> set (payments s)" "0 < n" "n \<le> refundable p - get_refunded_amount (pay_id p) s"
    and "rf_id r = db_uuid s (db_drawn s)" "rf_payment r = pay_id p" "rf_amount r = n"
  shows "refunds_ok (s\<lparr>db_drawn := Suc (db_drawn s), refunds := refunds s @ [r]\<rparr>)" (is "refunds_ok ?t")
proof -
  have "db_uuid s (db_drawn s) \<notin> drawn_ids s"
    using assms(1) by (auto simp: refunds_ok_def drawn_ids_def dest: injD)
  then have "distinct (map rf_id (refunds ?t))" "rf_id ` set (refunds ?t) \<subseteq> drawn_ids ?t"
    using assms(1,5) by (auto simp: refunds_ok_def drawn_ids_def lessThan_Suc)
  moreover have "get_refunded_amount (pay_id q) ?t \<le> refundable q" if q: "q \<in> set (payments s)" for q
  proof (cases "pay_id q = pay_id p")
    case True
    then have "q = p" using q assms(1,2) by (auto simp: refunds_ok_def distinct_map dest: inj_onD)
    with assms(4,6,7) assms(3) show ?thesis by (simp add: get_refunded_amount_def)
  next
    case False
    with q assms(1,6) show ?thesis by (simp add: get_refunded_amount_def refunds_ok_def)
  qed
  ultimately show ?thesis using assms(1,3,7) by (auto simp: refunds_ok_def)
qed

lemma created_ok:
  assumes "refunds_ok s" "p \<in> set (payments s)" "pay_id p = pid" "ri_amount inp \<le> refundable p - get_refunded_amount pid s"
  shows "refunds_ok (snd (create_refund_request pid inp user s)) \<and>
    (\<forall>r t. create_refund_request pid inp user s = (Inr r, t) \<longrightarrow> r \<in> set (refunds t) \<and> rf_status r = Rf_Requested)"
proof -
  have "lookup_by pay_id pid (payments s) = Some p"
    using assms lookup_by_member [of pay_id "payments s" p] by (simp add: refunds_ok_def)
  then show ?thesis
    using assms by (auto simp: create_refund_request_def prog_simps to_int4_def Let_def draw_uuid_def intro!: requested_ok [where p = p])
qed

lemma stamped_ok:
  assumes "refunds_ok s" "r \<in> set (refunds s)" "rf_status r \<noteq> Rf_Failed"
  shows "refunds_ok (snd (update_refund_provider_payload (rf_id r) reference payload st s))"
proof -
  have "lookup_by rf_id (rf_id r) (refunds s) = Some r"
    using assms by (intro lookup_by_member) (simp_all add: refunds_ok_def)
  moreover have "\<forall>x\<in>set (refunds s). rf_id x = rf_id r \<longrightarrow> rf_status x \<noteq> Rf_Failed"
    using assms by (auto simp: refunds_ok_def distinct_map dest: inj_onD)
  ultimately show ?thesis
    using assms(1) by (simp add: update_refund_provider_payload_def prog_simps restamped_ok stamp_refund_def)
qed

lemma initiate_refund_ok:
  assumes "refunds_ok s"
  shows "refunds_ok (snd (initiate_refund a pid inp s))"
proof (cases "get_admin_payment a pid s")
  case (Pair res s')
  show ?thesis
  proof (cases res)
    case (Inl e)
    with Pair assms show ?thesis
      by (auto simp: initiate_refund_def prog_simps get_admin_payment_app split: sum.splits option.splits)
  next
    case (Inr v)
    note got = get_admin_payment_Inr [OF Pair [unfolded Inr]]
    let ?p = "pv_payment v" and ?own = "get_refunded_amount (pay_id (pv_payment v)) s"
    show ?thesis
    proof (cases "pay_status ?p = Pay_Successful \<and> ri_amount inp \<le> refundable ?p - ?own")
      case False
      with Pair Inr got(1) assms show ?thesis by (auto simp: initiate_refund_def prog_simps Let_def refundable_def)
    next
      case True
      note created = created_ok [OF assms got(2) refl, of inp "user_id a"]
      obtain c t where c: "create_refund_request (pay_id ?p) inp (user_id a) s = (c, t)" by force
      let ?rest = "\<lambda>row. if ri_destination inp \<noteq> Some Refund_To_Card then
             bindM (credit_refund_to_wallet (pay_order ?p) (ri_amount inp)
                 (case ri_text inp of Some t \<Rightarrow> t | None \<Rightarrow> ri_code inp) (user_id a)) (\<lambda>entry.
               update_refund_provider_payload (rf_id row) entry
                 (JObj [(''destination'', JStr ''wallet''), (''walletLedgerEntryId'', JStr entry)]) Rf_Succeeded)
           else
             bindM (create_refund \<lparr>rx_transaction = (case pay_transaction ?p of Some t \<Rightarrow> t | None \<Rightarrow> pay_reference ?p),
                 rx_amount = ri_amount inp, rx_reason = ri_text inp\<rparr>) (\<lambda>answer.
               update_refund_provider_payload (rf_id row) (ra_id answer) (ra_payload answer)
                 (map_refund_status (ra_status answer)))"
      have run: "initiate_refund a pid inp s = (case c of Inl e \<Rightarrow> (Inl e, t) | Inr row \<Rightarrow> ?rest row t)"
        using Pair Inr True got(1) c by (simp add: initiate_refund_def prog_simps Let_def refundable_def)
      have t: "refunds_ok t" using created True c by simp
      have "refunds_ok (snd (?rest row t))" if "c = Inr row" for row
      proof -
        have row: "row \<in> set (refunds t)" "rf_status row \<noteq> Rf_Failed" using created True c that by auto
        have stamp: "refunds_ok (snd (update_refund_provider_payload (rf_id row) reference payload st u))"
          if "same_refunds t u" for u reference payload st
          using that row same_refunds_ok [OF that t] by (intro stamped_ok) (simp_all add: same_refunds_def)
        show ?thesis
          using t by (auto intro!: refunds_ok_bind [OF t] stamp credit_same_refunds provider_same_refunds)
      qed
      with run t show ?thesis by (cases c) simp_all
    qed
  qed
qed

lemma require_refund_reads: "preserves I (require_refund a rid)"
  unfolding require_refund_def by (auto intro!: preserves_intros split: option.split)

lemma require_refund_app:
  "require_refund a rid s =
     (case admin_campus_scope a of Inl e \<Rightarrow> (Inl e, s)
      | Inr scope \<Rightarrow> (case find_refund_by_id rid scope s of
          None \<Rightarrow> (Inl (not_found ''Refund was not found.''), s) | Some v \<Rightarrow> (Inr v, s)))"
  by (simp add: require_refund_def prog_simps split: sum.split option.split)

lemma require_refund_Inr:
  assumes "require_refund a rid s = (Inr v, t)"
  shows "t = s" "rv_refund v \<in> set (refunds s)" "rf_id (rv_refund v) = rid"
    "lookup_by pay_id (rf_payment (rv_refund v)) (payments s) = Some (rv_payment v)"
proof -
  obtain scope where sc: "admin_campus_scope a = Inr scope"
    using assms by (cases "admin_campus_scope a") (simp_all add: require_refund_app)
  obtain v' where "find_refund_by_id rid scope s = Some v'"
    using assms sc by (cases "find_refund_by_id rid scope s") (simp_all add: require_refund_app)
  with assms sc have "find_refund_by_id rid scope s = Some v" and t: "t = s" by (simp_all add: require_refund_app)
  then have v: "v \<in> set (refund_views s)" "rf_id (rv_refund v) = rid"
    unfolding find_refund_by_id_def by (blast dest: find_SomeD)+
  from v(1) obtain r where "r \<in> set (refunds s)" "refund_view_of s r = Some v" by (auto simp: refund_views_def)
  then have "rv_refund v = r" "lookup_by pay_id (rf_payment r) (payments s) = Some (rv_payment v)"
    by (auto simp: refund_view_of_def bind_eq_Some_conv)
  with \<open>r \<in> set (refunds s)\<close> v(2) t show "t = s" "rv_refund v \<in> set (refunds s)" "rf_id (rv_refund v) = rid"
    "lookup_by pay_id (rf_payment (rv_refund v)) (payments s) = Some (rv_payment v)" by simp_all
qed

definition none_failed :: "uuid \<Rightarrow> 'z payments_db_scheme \<Rightarrow> bool" where
  "none_failed rid s \<longleftrightarrow> (\<forall>r\<in>set (refunds s). rf_id r = rid \<longrightarrow> rf_status r \<noteq> Rf_Failed)"

lemma none_failed_row:
  assumes "refunds_ok s" "r \<in> set (refunds s)" "rf_id r = rid" "rf_status r \<noteq> Rf_Failed"
  shows "none_failed rid s"
  unfolding none_failed_def
proof (intro ballI impI)
  fix x assume "x \<in> set (refunds s)" "rf_id x = rid"
  with assms(1-3) have "x = r" by (auto simp: refunds_ok_def distinct_map dest: inj_onD)
  with assms(4) show "rf_status x \<noteq> Rf_Failed" by simp
qed

lemma refunds_ok_then:
  assumes "refunds_ok (snd (m s))" and "\<And>x. preserves refunds_ok (k x)"
  shows "refunds_ok (snd (bindM m k s))"
  using assms by (cases "m s"; cases "fst (m s)") (auto simp: bindM_app preserves_def)

lemma same_refunds_preserves:
  assumes "\<And>s. preserves (same_refunds s) m"
  shows "preserves refunds_ok m"
  by (rule preservesI) (use preservesD [OF assms same_refunds_refl] same_refunds_ok in blast)

lemma audit_keeps: "preserves refunds_ok (record_audit row)"
  by (rule same_refunds_preserves) (rule audit_same_refunds)

lemma mark_resolution_ok:
  assumes "refunds_ok s" "none_failed rid s"
  shows "refunds_ok (snd (mark_resolution rid st note failure user scope s))"
  using assms by (simp add: mark_resolution_def prog_simps restamped_ok resolved_row_def none_failed_def)

lemma provider_retry_ok:
  assumes "refunds_ok s" "none_failed rid s"
  shows "refunds_ok (snd (apply_provider_retry rid reference payload st s))"
  using assms by (simp add: apply_provider_retry_def prog_simps restamped_ok retried_row_def stamp_refund_def none_failed_def)

lemma same_refunds_none_failed: "same_refunds s t \<Longrightarrow> none_failed rid t = none_failed rid s"
  by (simp add: same_refunds_def none_failed_def)

lemma after_required:
  assumes "refunds_ok s" and "\<And>v. require_refund a rid s = (Inr v, s) \<Longrightarrow> refunds_ok (snd (k v s))"
  shows "refunds_ok (snd (bindM (require_refund a rid) k s))"
  by (rule refunds_ok_bind [OF assms(1) require_refund_reads]) (metis assms(2) require_refund_Inr(1))

lemma resolution_tail:
  assumes "refunds_ok s" "none_failed rid s"
  shows "refunds_ok (snd (bindM (lift_ok x) (\<lambda>scope. bindM (mark_resolution rid st note failure user scope) (\<lambda>updated.
    case updated of None \<Rightarrow> raise e | Some u \<Rightarrow> thenM (record_audit row) (ret u))) s))"
proof (cases x)
  case (Inr scope)
  have "refunds_ok (snd (bindM (mark_resolution rid st note failure user scope) (\<lambda>updated.
    case updated of None \<Rightarrow> raise e | Some u \<Rightarrow> thenM (record_audit row) (ret u)) s))"
    by (rule refunds_ok_then) (auto intro!: mark_resolution_ok assms preserves_intros audit_keeps)
  with Inr show ?thesis by (simp add: bindM_app basic_app(3))
qed (simp add: bindM_app basic_app(3) assms(1))

lemma decide_refund_ok:
  assumes "refunds_ok s"
  shows "refunds_ok (snd (decide_refund a rid approve s))"
  unfolding decide_refund_def Let_def
proof (rule after_required [OF assms])
  fix v assume v: "require_refund a rid s = (Inr v, s)"
  show "refunds_ok (snd ((if rf_status (rv_refund v) \<noteq> Rf_Requested
       then raise (bad_request ''Only requested refunds can be approved or rejected.'')
       else bindM (lift_ok (admin_campus_scope a)) (\<lambda>scope.
         bindM (mark_resolution rid (if approve then Rf_Approved else Rf_Cancelled) None None (user_id a) scope) (\<lambda>updated.
           case updated of
             None \<Rightarrow> raise (not_found ''Refund was not found.'')
           | Some u \<Rightarrow> thenM (record_audit (refund_audit a v (if approve then ''refund.approve'' else ''refund.reject'')
                 (Some (status_object (rf_status (rv_refund v)))) (Some (status_object (if approve then Rf_Approved else Rf_Cancelled))) (JObj [])))
               (ret u)))) s))"
  proof (cases "rf_status (rv_refund v) = Rf_Requested")
    case True
    then have "none_failed rid s" using none_failed_row [OF assms require_refund_Inr(2,3) [OF v]] by simp
    from resolution_tail [OF assms this] True show ?thesis by simp
  qed (simp add: assms basic_app)
qed

lemma resolve_refund_ok:
  assumes "refunds_ok s" "none_failed rid s"
  shows "refunds_ok (snd (resolve_refund a rid st note failure s))"
  unfolding resolve_refund_def
  by (rule after_required [OF assms(1)]) (simp add: resolution_tail [OF assms] basic_app assms(1))

lemma start_refund_ok:
  assumes "refunds_ok s"
  shows "refunds_ok (snd (initiate_approved_refund a rid amount reason s))"
  unfolding initiate_approved_refund_def Let_def
proof (rule after_required [OF assms])
  fix v assume v: "require_refund a rid s = (Inr v, s)"
  let ?k = "\<lambda>answer. thenM (apply_provider_retry rid (ra_id answer) (ra_payload answer) (map_refund_status (ra_status answer)))
        (thenM (record_audit (refund_audit a v ''refund.initiate'' None None
            (JObj [(''status'', JStr (refund_status_str (map_refund_status (ra_status answer)))), (''amountKobo'', num_json amount),
                   (''reason'', JStr reason), (''providerRefundReference'', JStr (ra_id answer))])))
         (require_refund a rid))"
  have "refunds_ok (snd (bindM (create_refund q) ?k s))" if "rf_status (rv_refund v) = Rf_Approved" for q
  proof (rule refunds_ok_bind [OF assms provider_same_refunds])
    fix answer t assume "same_refunds s t"
    moreover have "none_failed rid s" using none_failed_row [OF assms require_refund_Inr(2,3) [OF v]] that by simp
    ultimately have t: "refunds_ok t" "none_failed rid t"
      using assms same_refunds_ok [of s t] same_refunds_none_failed [of s t] by simp_all
    show "refunds_ok (snd (?k answer t))"
      unfolding thenM_def by (rule refunds_ok_then) (auto intro!: provider_retry_ok t preserves_intros audit_keeps require_refund_reads)
  qed
  then show "refunds_ok (snd ((if rf_status (rv_refund v) \<noteq> Rf_Approved then raise (bad_request ''Only approved refunds can be initiated.'')
       else if rf_amount (rv_refund v) < amount then raise (bad_request ''Refund amount cannot exceed the approved amount.'')
       else bindM (create_refund \<lparr>rx_transaction = transaction_of (rv_payment v), rx_amount = amount, rx_reason = Some reason\<rparr>) ?k) s))"
    using assms by (simp add: basic_app)
qed

text \<open>The administrators' operations on refunds, but for the retry and the resolution of a failed one.\<close>

inductive refund_step :: "'z payments_db_scheme \<Rightarrow> 'z payments_db_scheme \<Rightarrow> bool" where
  initiated: "refund_step s (snd (initiate_refund a pid inp s))"
| decided: "refund_step s (snd (decide_refund a rid approve s))"
| started: "refund_step s (snd (initiate_approved_refund a rid amount reason s))"
| resolved: "none_failed rid s \<Longrightarrow> refund_step s (snd (resolve_refund a rid st note failure s))"

lemma refund_step_ok: "refund_step s t \<Longrightarrow> refunds_ok s \<Longrightarrow> refunds_ok t"
  by (induction rule: refund_step.induct)
    (simp_all add: initiate_refund_ok decide_refund_ok start_refund_ok resolve_refund_ok)


lemma refunded_absent:
  "rid \<notin> rf_id ` set rs \<Longrightarrow> update_where (\<lambda>x. rf_id x = rid) f rs = rs"
  by (induction rs) (auto simp: table_simps)

lemma refunded_revived:
  assumes "distinct (map rf_id rs)" "r \<in> set rs" "rf_status r = Rf_Failed" "rf_status (f r) \<noteq> Rf_Failed"
    and "rf_payment (f r) = rf_payment r" "rf_amount (f r) = rf_amount r"
  shows "sum_list (map rf_amount (filter (\<lambda>x. rf_payment x = rf_payment r \<and> rf_status x \<noteq> Rf_Failed)
      (update_where (\<lambda>x. rf_id x = rf_id r) f rs))) =
    sum_list (map rf_amount (filter (\<lambda>x. rf_payment x = rf_payment r \<and> rf_status x \<noteq> Rf_Failed) rs)) + rf_amount r"
  using assms(1,2)
proof (induction rs)
  case (Cons x rs)
  show ?case
  proof (cases "x = r")
    case True
    with Cons.prems have "rf_id r \<notin> rf_id ` set rs" by auto
    with True assms(3-6) show ?thesis by (simp add: table_simps refunded_absent)
  next
    case False
    with Cons.prems have "rf_id x \<noteq> rf_id r" "r \<in> set rs" "distinct (map rf_id rs)" by auto
    with Cons.IH show ?thesis by (simp add: table_simps)
  qed
qed simp

lemma audit_rest:
  "\<exists>t. record_audit row s = (Inr (), t) \<and> refunds t = refunds s \<and> py_log t = py_log s"
  by (simp add: record_audit_def prog_simps)

text \<open>
  A failed refund can be sent again even when its payment has been refunded in the
  meantime: the retry does not look at the balance, and the refunds exceed the payment.
\<close>

theorem retried_refund_exceeds_payment:
  assumes "refunds_ok s" "require_refund a rid s = (Inr v, s)" "rf_status (rv_refund v) = Rf_Failed"
    and "get_refunded_amount (rf_payment (rv_refund v)) s = refundable (rv_payment v)"
    and "py_refund s (length (py_log s)) = Inr answer" "map_refund_status (ra_status answer) \<noteq> Rf_Failed"
  shows "\<exists>q. py_log (snd (retry_refund a rid s)) = py_log s @ [Call_Refund q] \<and> rx_amount q = rf_amount (rv_refund v) \<and>
    refundable (rv_payment v) < get_refunded_amount (rf_payment (rv_refund v)) (snd (retry_refund a rid s))"
proof -
  let ?r = "rv_refund v" and ?st = "map_refund_status (ra_status answer)"
  let ?q = "\<lparr>rx_transaction = transaction_of (rv_payment v), rx_amount = rf_amount ?r, rx_reason = rf_text ?r\<rparr>"
  note r = require_refund_Inr(2,3) [OF assms(2)]
  define u where "u = s\<lparr>py_log := py_log s @ [Call_Refund ?q],
    refunds := update_where (\<lambda>x. rf_id x = rid) (retried_row (ra_id answer) (ra_payload answer) ?st (odb_now s)) (refunds s)\<rparr>"
  obtain w where w: "record_audit (refund_audit a v ''refund.retry'' None None
      (JObj [(''status'', JStr (refund_status_str ?st)), (''providerRefundReference'', JStr (ra_id answer))])) u = (Inr (), w)"
    "refunds w = refunds u" "py_log w = py_log u" using audit_rest by blast
  have "snd (require_refund a rid w) = w" by (simp add: require_refund_app split: sum.split option.split)
  then have run: "snd (retry_refund a rid s) = w"
    using assms(2,3,5) w(1) by (simp add: retry_refund_def prog_simps create_refund_def log_call_def apply_provider_retry_def Let_def u_def)
  have "get_refunded_amount (rf_payment ?r) w = get_refunded_amount (rf_payment ?r) s + rf_amount ?r"
    using refunded_revived [of "refunds s" ?r "retried_row (ra_id answer) (ra_payload answer) ?st (odb_now s)"] assms(1,3,6) r
    by (simp add: get_refunded_amount_def w(2) u_def refunds_ok_def retried_row_def stamp_refund_def)
  moreover have "0 < rf_amount ?r" using assms(1) r(1) by (simp add: refunds_ok_def)
  ultimately show ?thesis using assms(4) run w(3) by (intro exI [of _ ?q]) (simp add: u_def)
qed

lemma refunded_restamp_eq:
  assumes "\<forall>r\<in>set rs. P r \<longrightarrow> rf_status r \<noteq> Rf_Failed"
    and "\<And>r. rf_payment (f r) = rf_payment r \<and> rf_amount (f r) = rf_amount r \<and> rf_status (f r) \<noteq> Rf_Failed"
  shows "sum_list (map rf_amount (filter (\<lambda>r. rf_payment r = pid \<and> rf_status r \<noteq> Rf_Failed) (update_where P f rs))) =
    sum_list (map rf_amount (filter (\<lambda>r. rf_payment r = pid \<and> rf_status r \<noteq> Rf_Failed) rs))"
  using assms(1) by (induction rs) (auto simp: table_simps assms(2))

lemma cancelled_part:
  assumes "\<forall>x\<in>set rs. 0 < rf_amount x"
  shows "sum_list (map rf_amount (filter (\<lambda>x. rf_status x \<notin> {Rf_Failed, Rf_Cancelled}) (filter (\<lambda>x. rf_payment x = pid) rs))) +
      sum_list (map rf_amount (filter (\<lambda>x. rf_payment x = pid \<and> rf_status x = Rf_Cancelled) rs)) =
    sum_list (map rf_amount (filter (\<lambda>x. rf_payment x = pid \<and> rf_status x \<noteq> Rf_Failed) rs))"
  using assms by (induction rs) auto

lemma member_part:
  assumes "\<forall>x\<in>set rs. 0 < rf_amount x" "r \<in> set rs" "Q r"
  shows "rf_amount r \<le> sum_list (map rf_amount (filter Q rs))"
proof -
  have "rf_amount r \<in> set (map rf_amount (filter Q rs))" using assms(2,3) by auto
  then show ?thesis by (rule member_le_sum_list) (use assms(1) in auto)
qed

lemma rejected_state:
  assumes "decide_refund a rid False s = (Inr u, t)"
  shows "\<exists>v scope now. require_refund a rid s = (Inr v, s) \<and> rf_status (rv_refund v) = Rf_Requested \<and>
    refunds t = update_where (\<lambda>r. rf_id r = rid \<and> order_in_scope scope s r)
      (resolved_row Rf_Cancelled None None (user_id a) now) (refunds s) \<and>
    rv_refund u \<in> set (refunds t) \<and> rf_id (rv_refund u) = rid \<and> order_in_scope scope s (rv_refund u)"
proof -
  obtain v where v: "require_refund a rid s = (Inr v, s)" "rf_status (rv_refund v) = Rf_Requested"
    using assms by (auto simp: decide_refund_def prog_simps require_refund_app Let_def split: sum.splits option.splits if_splits)
  obtain scope where sc: "admin_campus_scope a = Inr scope"
    using v(1) by (cases "admin_campus_scope a") (simp_all add: require_refund_app)
  let ?m = "s\<lparr>refunds := update_where (\<lambda>r. rf_id r = rid \<and> order_in_scope scope s r)
      (resolved_row Rf_Cancelled None None (user_id a) (odb_now s)) (refunds s)\<rparr>"
  have u: "find_refund_by_id rid scope ?m = Some u" and t: "refunds t = refunds ?m"
    using assms v sc by (auto simp: decide_refund_def prog_simps mark_resolution_def record_audit_def Let_def
        split: if_splits option.splits)
  from find_SomeD [OF u [unfolded find_refund_by_id_def]]
  have f: "u \<in> set (refund_views ?m)" "rf_id (rv_refund u) = rid" "in_scope scope (ord_campus (rv_order u))" by simp_all
  from f(1) obtain r where r: "r \<in> set (refunds ?m)" "refund_view_of ?m r = Some u" by (auto simp: refund_views_def)
  then have "rv_refund u = r" "lookup_by ord_id (rf_order r) (odb_orders s) = Some (rv_order u)"
    by (auto simp: refund_view_of_def bind_eq_Some_conv)
  with f(3) have "order_in_scope scope s (rv_refund u)" by (simp add: order_in_scope_def)
  moreover have "rv_refund u \<in> set (refunds t)" using r(1) \<open>rv_refund u = r\<close> t by simp
  ultimately show ?thesis using v t f(2) by (intro exI [of _ v] exI [of _ scope] exI [of _ "odb_now s"]) simp
qed

text \<open>
  Rejecting a requested refund gives nothing back to the balance the next refund is
  checked against: the cancelled amount is still counted there, while the payment's details leave it out.
\<close>

theorem rejected_refund_keeps_its_amount:
  assumes "decide_refund a rid False s = (Inr u, t)" "refunds_ok s" "pay_id (pv_payment pv) = rf_payment (rv_refund u)"
  shows "rf_status (rv_refund u) = Rf_Cancelled \<and> (\<forall>pid. get_refunded_amount pid t = get_refunded_amount pid s) \<and>
    ad_refunded (payment_detail_of t pv) + rf_amount (rv_refund u) \<le> get_refunded_amount (rf_payment (rv_refund u)) t"
proof -
  from rejected_state [OF assms(1)] obtain v scope now where v: "require_refund a rid s = (Inr v, s)" "rf_status (rv_refund v) = Rf_Requested"
    and t: "refunds t = update_where (\<lambda>r. rf_id r = rid \<and> order_in_scope scope s r) (resolved_row Rf_Cancelled None None (user_id a) now) (refunds s)"
    and u: "rv_refund u \<in> set (refunds t)" "rf_id (rv_refund u) = rid" "order_in_scope scope s (rv_refund u)" by blast
  have nf: "none_failed rid s" using none_failed_row [OF assms(2) require_refund_Inr(2,3) [OF v(1)]] v(2) by simp
  from u obtain r where r: "r \<in> set (refunds s)"
    "rv_refund u = (if rf_id r = rid \<and> order_in_scope scope s r then resolved_row Rf_Cancelled None None (user_id a) now r else r)"
    by (auto simp: t set_update_where)
  with u(2,3) have st: "rf_status (rv_refund u) = Rf_Cancelled"
    by (auto simp: resolved_row_def order_in_scope_def split: if_splits)
  have same: "get_refunded_amount pid t = get_refunded_amount pid s" for pid
    unfolding get_refunded_amount_def t
    by (rule refunded_restamp_eq) (use nf in \<open>auto simp: none_failed_def resolved_row_def\<close>)
  have pos: "\<forall>x\<in>set (refunds t). 0 < rf_amount x"
    using decide_refund_ok [OF assms(2), of a rid False] assms(1) by (simp add: refunds_ok_def)
  have "rf_amount (rv_refund u) \<le> sum_list (map rf_amount (filter (\<lambda>x. rf_payment x = rf_payment (rv_refund u) \<and> rf_status x = Rf_Cancelled) (refunds t)))"
    using member_part [OF pos u(1), of "\<lambda>x. rf_payment x = rf_payment (rv_refund u) \<and> rf_status x = Rf_Cancelled"] st by simp
  moreover note cancelled_part [OF pos, of "rf_payment (rv_refund u)"]
  ultimately show ?thesis
    using st same assms(3) by (simp add: payment_detail_of_def get_refunded_amount_def Let_def)
qed

section \<open>A sample\<close>

text \<open>
  The paid order of 250000 with a failed refund, a paid-out one of the amount given and a requested one.
\<close>

definition sample_refund :: "uuid \<Rightarrow> int \<Rightarrow> refund_status \<Rightarrow> refund_row" where
  "sample_refund i n st = \<lparr>rf_id = i, rf_payment = ''p1'', rf_order = ''o1'', rf_reference = None, rf_amount = n,
     rf_code = ''late'', rf_text = None, rf_status = st, rf_requested_by = Some webhook_user, rf_requested = 400000,
     rf_processed = None, rf_payload = JObj [], rf_failure = None, rf_note = None, rf_resolved_by = None\<rparr>"

definition refunds_sample :: "int \<Rightarrow> payments_db" where
  "refunds_sample n = payments_sample\<lparr>db_drawn := 3,
     refunds := [sample_refund ''id-0'' 50000 Rf_Failed, sample_refund ''id-1'' n Rf_Succeeded, sample_refund ''id-2'' 10000 Rf_Requested],
     py_refund := (\<lambda>n. Inr \<lparr>ra_id = ''77'', ra_status = ''pending'', ra_payload = JNull\<rparr>)\<rparr>"

lemma refunds_sample_ok:
  assumes "0 < n" "n \<le> 240000"
  shows "refunds_ok (refunds_sample n)"
proof -
  have "db_uuid (refunds_sample n) = (\<lambda>k. ''id-'' @ nat_str k)" "db_drawn (refunds_sample n) = Suc (Suc (Suc 0))"
    by (simp_all add: refunds_sample_def payments_sample_def)
  moreover have "nat_str 0 = ''0''" "nat_str (Suc 0) = ''1''" "nat_str (Suc (Suc 0)) = ''2''" by code_simp+
  ultimately have "drawn_ids (refunds_sample n) = {''id-0'', ''id-1'', ''id-2''}" "inj (db_uuid (refunds_sample n))"
    by (auto simp: drawn_ids_def lessThan_Suc inj_def nat_str_inj)
  then show ?thesis
    using assms by (simp add: refunds_ok_def refunds_sample_def payments_sample_def sample_refund_def sample_payment_def
        get_refunded_amount_def refundable_def)
qed

definition refund_asked :: refund_command where
  "refund_asked = \<lparr>ri_amount = 40000, ri_code = ''late'', ri_text = None, ri_destination = Some Refund_To_Card\<rparr>"

definition refunded_sample :: payments_db where
  "refunded_sample = snd (initiate_refund payments_admin ''p1'' refund_asked (refunds_sample 200000))"


definition failed_view :: refund_view where
  "failed_view = \<lparr>rv_refund = sample_refund ''id-0'' 50000 Rf_Failed, rv_payment = sample_payment ''p1'' ''o1'' Pay_Successful 250000,
     rv_order = sample_order ''o1'' Paid, rv_email = None\<rparr>"

lemma failed_view_read: "require_refund payments_admin ''id-0'' (refunds_sample n) = (Inr failed_view, refunds_sample n)"
  by (simp add: require_refund_app payments_admin_def admin_campus_scope_def find_refund_by_id_def refund_views_def
      refund_view_of_def refunds_sample_def payments_sample_def sample_refund_def sample_payment_def sample_order_def
      in_scope_def table_simps failed_view_def)

theorem retried_refund_exceeds_payment_witness:
  "\<exists>q. py_log (snd (retry_refund payments_admin ''id-0'' (refunds_sample 240000))) = py_log (refunds_sample 240000) @ [Call_Refund q] \<and>
     rx_amount q = 50000 \<and>
     250000 < get_refunded_amount ''p1'' (snd (retry_refund payments_admin ''id-0'' (refunds_sample 240000)))"
  using retried_refund_exceeds_payment [OF refunds_sample_ok failed_view_read, of 240000 "\<lparr>ra_id = ''77'', ra_status = ''pending'', ra_payload = JNull\<rparr>"]
  by (simp add: failed_view_def sample_refund_def sample_payment_def refundable_def get_refunded_amount_def refunds_sample_def
      payments_sample_def map_refund_status_def)

definition rejected_sample :: "(exn + refund_view) \<times> payments_db" where
  "rejected_sample = decide_refund payments_admin ''id-2'' False (refunds_sample 200000)"

theorem rejected_refund_keeps_its_amount_witness:
  "rf_status (rv_refund (projr (fst rejected_sample))) = Rf_Cancelled \<and>
   (\<forall>pid. get_refunded_amount pid (snd rejected_sample) = get_refunded_amount pid (refunds_sample 200000)) \<and>
   ad_refunded (payment_detail_of (snd rejected_sample) \<lparr>pv_payment = sample_payment ''p1'' ''o1'' Pay_Successful 250000,
      pv_order = sample_order ''o1'' Paid, pv_email = None, pv_total = 0\<rparr>) + rf_amount (rv_refund (projr (fst rejected_sample))) \<le>
     get_refunded_amount (rf_payment (rv_refund (projr (fst rejected_sample)))) (snd rejected_sample)"
proof -
  have "is_ok (fst rejected_sample)" and p: "rf_payment (rv_refund (projr (fst rejected_sample))) = ''p1''" by code_simp+
  then have "decide_refund payments_admin ''id-2'' False (refunds_sample 200000) = (Inr (projr (fst rejected_sample)), snd rejected_sample)"
    by (cases "fst rejected_sample"; cases "rejected_sample") (simp_all add: rejected_sample_def)
  then show ?thesis
    by (rule rejected_refund_keeps_its_amount [OF _ refunds_sample_ok]) (simp_all add: p sample_payment_def)
qed

end
