(* ===== verification/Inventory.thy ===== *)
theory Inventory
  imports Payments
begin

text \<open>
  modules/inventory (inventory.service.ts, inventory.repository.ts) and the tables and functions of the
  catalogue and of the dated slot inventory it works on: available_menu_items,
  generate_menu_item_inventory and record_inventory_adjustment. A service date is its day number, and
  \<open>cutoff_at\<close> is effective_ordering_cutoff_at, which needs the campus time zone.
\<close>

section \<open>Tables\<close>

type_synonym day = int

definition day_of_week :: "day \<Rightarrow> int" where
  "day_of_week d = (d + 4) mod 7"

record inventory_row =
  inv_id :: uuid
  inv_item :: uuid
  inv_day :: day
  inv_slot :: uuid
  inv_total :: int
  inv_reserved :: int
  inv_sold :: int
  inv_adjusted :: int
  inv_active :: bool
  inv_version :: int

record adjustment_row =
  adj_id :: uuid
  adj_inventory :: uuid
  adj_quantity :: int
  adj_reason :: string
  adj_actor :: "uuid option"
  adj_metadata :: json
  adj_created :: time

record unit_type =
  ut_id :: uuid
  ut_code :: string
  ut_spoon :: bool
  ut_takeaway :: bool
  ut_max :: "int option"
  ut_active :: bool

record menu_item =
  mi_id :: uuid
  mi_vendor :: uuid
  mi_name :: string
  mi_price :: int
  mi_soup :: bool
  mi_unit :: uuid
  mi_active :: bool

record availability =
  av_owner :: uuid
  av_slot :: uuid
  av_dow :: int
  av_available :: bool
  av_since :: "day option"
  av_until :: "day option"

record slot_row =
  ds_id :: uuid
  ds_campus :: uuid
  ds_active :: bool

record store =
  sto_id :: uuid
  sto_campus :: uuid
  sto_approved :: bool
  sto_active :: bool
  sto_mode :: string
  sto_fee :: "int option"

record vendor_user =
  vu_vendor :: uuid
  vu_user :: uuid
  vu_active :: bool

record shop_db = payments_db +
  inventory :: "inventory_row list"
  adjustments :: "adjustment_row list"
  unit_types :: "unit_type list"
  menu_items :: "menu_item list"
  slots :: "slot_row list"
  item_slots :: "availability list"
  store_slots :: "availability list"
  stores :: "store list"
  vendor_users :: "vendor_user list"
  is_campus_admin :: "uuid \<Rightarrow> uuid \<Rightarrow> bool"
  cutoff_at :: "day \<Rightarrow> uuid \<Rightarrow> time option"

text \<open>The check constraints of the inventory table; a row that breaks one undoes the statement.\<close>

definition remaining :: "inventory_row \<Rightarrow> int" where
  "remaining r = inv_total r + inv_adjusted r - inv_reserved r - inv_sold r"

definition inventory_check :: "inventory_row \<Rightarrow> bool" where
  "inventory_check r \<longleftrightarrow> 0 \<le> inv_total r \<and> 0 \<le> inv_reserved r \<and> 0 \<le> inv_sold r \<and> 0 < inv_version r \<and>
     0 \<le> inv_total r + inv_adjusted r \<and> inv_reserved r + inv_sold r \<le> inv_total r + inv_adjusted r"

definition counters_fit :: "inventory_row \<Rightarrow> bool" where
  "counters_fit r \<longleftrightarrow> int4 (inv_total r) \<and> int4 (inv_reserved r) \<and> int4 (inv_sold r) \<and> int4 (inv_adjusted r) \<and> int4 (inv_version r)"

definition update_inventory ::
  "('z shop_db_scheme \<Rightarrow> inventory_row \<Rightarrow> bool) \<Rightarrow> ('z shop_db_scheme \<Rightarrow> inventory_row \<Rightarrow> inventory_row) \<Rightarrow>
   ('z shop_db_scheme, unit) prog" where
  "update_inventory sel f =
     bindM (gets (\<lambda>s. map (f s) (filter (sel s) (inventory s)))) (\<lambda>rows.
       if list_ex (\<lambda>r. \<not> counters_fit r) rows then raise (pg_error ''22003'' ''integer out of range'')
       else if list_ex (\<lambda>r. \<not> inventory_check r) rows
       then raise (pg_error ''23514'' ''new row for relation menu_item_inventory violates check constraint'')
       else modify (\<lambda>s. s\<lparr>inventory := update_where (sel s) (f s) (inventory s)\<rparr>))"

section \<open>What can be ordered\<close>

definition valid_on :: "day \<Rightarrow> availability \<Rightarrow> bool" where
  "valid_on d v \<longleftrightarrow> av_available v \<and> av_dow v = day_of_week d \<and>
     (case av_since v of None \<Rightarrow> True | Some x \<Rightarrow> x \<le> d) \<and> (case av_until v of None \<Rightarrow> True | Some x \<Rightarrow> d \<le> x)"

definition offered :: "uuid \<Rightarrow> uuid \<Rightarrow> day \<Rightarrow> availability list \<Rightarrow> bool" where
  "offered owner slot d rows \<longleftrightarrow> list_ex (\<lambda>v. av_owner v = owner \<and> av_slot v = slot \<and> valid_on d v) rows"

definition available_vendor :: "uuid \<Rightarrow> day \<Rightarrow> uuid \<Rightarrow> uuid \<Rightarrow> 'z shop_db_scheme \<Rightarrow> bool" where
  "available_vendor campus d slot v s \<longleftrightarrow>
     list_ex (\<lambda>x. sto_id x = v \<and> sto_campus x = campus \<and> sto_approved x \<and> sto_active x) (stores s) \<and>
     list_ex (\<lambda>x. ds_id x = slot \<and> ds_campus x = campus \<and> ds_active x) (slots s) \<and>
     offered v slot d (store_slots s) \<and>
     (case cutoff_at s d slot of None \<Rightarrow> False | Some t \<Rightarrow> odb_now s < t)"

record offer =
  of_item :: menu_item
  of_unit :: unit_type
  of_remaining :: int

definition offer_of :: "uuid \<Rightarrow> day \<Rightarrow> uuid \<Rightarrow> 'z shop_db_scheme \<Rightarrow> menu_item \<Rightarrow> offer option" where
  "offer_of campus d slot s m =
     (if mi_active m \<and> available_vendor campus d slot (mi_vendor m) s \<and> offered (mi_id m) slot d (item_slots s)
      then Option.bind (find (\<lambda>u. ut_id u = mi_unit m \<and> ut_active u) (unit_types s)) (\<lambda>u.
        Option.bind (find (\<lambda>r. inv_item r = mi_id m \<and> inv_day r = d \<and> inv_slot r = slot \<and> inv_active r) (inventory s)) (\<lambda>r.
          if 0 < remaining r then Some \<lparr>of_item = m, of_unit = u, of_remaining = remaining r\<rparr> else None))
      else None)"

definition available_menu_items :: "uuid \<Rightarrow> day \<Rightarrow> uuid \<Rightarrow> 'z shop_db_scheme \<Rightarrow> offer list" where
  "available_menu_items campus d slot s = map the (filter (\<lambda>v. v \<noteq> None) (map (offer_of campus d slot s) (menu_items s)))"

section \<open>The database functions\<close>

definition generated_pairs :: "day \<Rightarrow> uuid option \<Rightarrow> 'z shop_db_scheme \<Rightarrow> (uuid \<times> uuid) list" where
  "generated_pairs d vendor s =
     concat (map (\<lambda>m. map (\<lambda>x. (mi_id m, ds_id x))
         (filter (\<lambda>x. ds_active x \<and> offered (mi_id m) (ds_id x) d (item_slots s) \<and> offered (mi_vendor m) (ds_id x) d (store_slots s)) (slots s)))
       (filter (\<lambda>m. mi_active m \<and> (vendor = None \<or> vendor = Some (mi_vendor m))) (menu_items s)))"

text \<open>Rows that are there are left alone (on conflict do nothing).\<close>

definition generate_row :: "day \<Rightarrow> uuid \<times> uuid \<Rightarrow> ('z shop_db_scheme, unit) prog" where
  "generate_row d p =
     bindM (gets (\<lambda>s. list_ex (\<lambda>r. inv_item r = fst p \<and> inv_day r = d \<and> inv_slot r = snd p) (inventory s))) (\<lambda>known.
       if known then ret ()
       else bindM draw_uuid (\<lambda>i. modify (\<lambda>s. s\<lparr>inventory := inventory s @
         [\<lparr>inv_id = i, inv_item = fst p, inv_day = d, inv_slot = snd p, inv_total = 0, inv_reserved = 0, inv_sold = 0,
           inv_adjusted = 0, inv_active = True, inv_version = 1\<rparr>]\<rparr>)))"

definition generate_menu_item_inventory :: "day \<Rightarrow> uuid option \<Rightarrow> ('z shop_db_scheme, unit) prog" where
  "generate_menu_item_inventory d vendor =
     bindM (gets (generated_pairs d vendor)) (\<lambda>ps. for_each (generate_row d) ps)"

definition record_inventory_adjustment ::
  "uuid \<Rightarrow> int \<Rightarrow> string \<Rightarrow> uuid \<Rightarrow> json \<Rightarrow> ('z shop_db_scheme, uuid) prog" where
  "record_inventory_adjustment i n reason user metadata =
     (if n = 0 then raise (pg_error ''23514'' ''inventory adjustment quantity must be non-zero'')
      else bindM (gets (\<lambda>s. i \<in> inv_id ` set (inventory s))) (\<lambda>found.
        if \<not> found then raise (pg_error ''P0002'' (''inventory '' @ i @ '' not found''))
        else thenM (update_inventory (\<lambda>s r. inv_id r = i)
             (\<lambda>s r. r\<lparr>inv_adjusted := inv_adjusted r + n, inv_version := inv_version r + 1\<rparr>))
          (if btrim reason = [] then raise (pg_error ''23514'' ''new row for relation inventory_adjustments violates check constraint'')
           else bindM (gets (\<lambda>s. user \<in> prof_id ` set (profiles s))) (\<lambda>known.
             if \<not> known then raise (pg_error ''23503'' ''insert or update on table inventory_adjustments violates foreign key constraint'')
             else bindM draw_uuid (\<lambda>a.
               thenM (modify (\<lambda>s. s\<lparr>adjustments := adjustments s @ [\<lparr>adj_id = a, adj_inventory = i, adj_quantity = n,
                   adj_reason = reason, adj_actor = Some user, adj_metadata = metadata, adj_created = odb_now s\<rparr>]\<rparr>))
               (ret a))))))"

section \<open>The repository (inventory.repository.ts)\<close>

definition has_vendor_access :: "uuid \<Rightarrow> uuid \<Rightarrow> 'z shop_db_scheme \<Rightarrow> bool" where
  "has_vendor_access v user s \<longleftrightarrow>
     list_ex (\<lambda>x. vu_vendor x = v \<and> vu_user x = user \<and> vu_active x) (vendor_users s) \<or>
     list_ex (\<lambda>x. sto_id x = v \<and> is_campus_admin s (sto_campus x) user) (stores s)"

record inventory_view =
  iv_row :: inventory_row
  iv_item :: menu_item
  iv_unit :: unit_type
  iv_remaining :: int
  iv_adjustments :: "adjustment_row list"

definition inventory_view_of :: "uuid \<Rightarrow> 'z shop_db_scheme \<Rightarrow> inventory_row \<Rightarrow> inventory_view option" where
  "inventory_view_of v s r =
     (if inv_slot r \<in> ds_id ` set (slots s)
      then Option.bind (find (\<lambda>m. mi_id m = inv_item r \<and> mi_vendor m = v) (menu_items s)) (\<lambda>m.
        map_option (\<lambda>u. \<lparr>iv_row = r, iv_item = m, iv_unit = u, iv_remaining = remaining r,
            iv_adjustments = newest_first (<) adj_created (filter (\<lambda>a. adj_inventory a = inv_id r) (adjustments s))\<rparr>)
          (lookup_by ut_id (mi_unit m) (unit_types s)))
      else None)"

definition list_inventory_rows :: "uuid \<Rightarrow> day \<Rightarrow> uuid option \<Rightarrow> 'z shop_db_scheme \<Rightarrow> inventory_view list" where
  "list_inventory_rows v d slot s =
     map the (filter (\<lambda>x. x \<noteq> None) (map (inventory_view_of v s)
       (filter (\<lambda>r. inv_day r = d \<and> (slot = None \<or> slot = Some (inv_slot r))) (inventory s))))"

definition find_inventory_for_vendor :: "uuid \<Rightarrow> uuid \<Rightarrow> 'z shop_db_scheme \<Rightarrow> inventory_view option" where
  "find_inventory_for_vendor v i s = Option.bind (lookup_by inv_id i (inventory s)) (inventory_view_of v s)"

definition owned_by :: "uuid \<Rightarrow> 'z shop_db_scheme \<Rightarrow> inventory_row \<Rightarrow> bool" where
  "owned_by v s r \<longleftrightarrow> list_ex (\<lambda>m. mi_id m = inv_item r \<and> mi_vendor m = v) (menu_items s)"

definition update_inventory_total :: "uuid \<Rightarrow> uuid \<Rightarrow> int \<Rightarrow> ('z shop_db_scheme, inventory_view option) prog" where
  "update_inventory_total v i n =
     bindM (gets (\<lambda>s. list_ex (\<lambda>r. inv_id r = i \<and> owned_by v s r) (inventory s))) (\<lambda>found.
       if \<not> found then ret None
       else thenM (update_inventory (\<lambda>s r. inv_id r = i \<and> owned_by v s r)
             (\<lambda>s r. r\<lparr>inv_total := n, inv_version := inv_version r + 1\<rparr>))
         (gets (find_inventory_for_vendor v i)))"

definition record_adjustment ::
  "uuid \<Rightarrow> uuid \<Rightarrow> int \<Rightarrow> string \<Rightarrow> json option \<Rightarrow> uuid \<Rightarrow> ('z shop_db_scheme, adjustment_row \<times> inventory_view) prog" where
  "record_adjustment v i n reason metadata user =
     bindM (gets (\<lambda>s. list_ex (\<lambda>r. inv_id r = i \<and> owned_by v s r) (inventory s))) (\<lambda>found.
       if \<not> found then raise (Plain_Error ''Inventory row was not found for the current vendor.'')
       else bindM (transaction (record_inventory_adjustment i n reason user (case metadata of None \<Rightarrow> JObj [] | Some m \<Rightarrow> m))) (\<lambda>a.
         bindM (gets (\<lambda>s. (lookup_by adj_id a (adjustments s), find_inventory_for_vendor v i s))) (\<lambda>(adj, row).
           case (adj, row) of
             (Some x, Some y) \<Rightarrow> ret (x, y)
           | _ \<Rightarrow> raise (Plain_Error ''Inventory adjustment was recorded but could not be reloaded.''))))"

section \<open>The service (inventory.service.ts)\<close>

definition assert_actor_can_use_vendor :: "actor \<Rightarrow> ('z shop_db_scheme, uuid) prog" where
  "assert_actor_can_use_vendor a =
     (case vendor_id a of
        Some v \<Rightarrow>
          if role a \<noteq> Vendor then raise (forbidden ''Vendor access is required.'')
          else bindM (gets (has_vendor_access v (user_id a))) (\<lambda>granted.
            if \<not> granted then raise (forbidden ''Vendor access is required.'') else ret v)
      | None \<Rightarrow> raise (forbidden ''Vendor access is required.''))"

definition committed_quantity :: "inventory_row \<Rightarrow> int" where
  "committed_quantity r = inv_reserved r + inv_sold r"

definition effective_covers_committed :: "int \<Rightarrow> inventory_row \<Rightarrow> exn + unit" where
  "effective_covers_committed n r =
     (if n < committed_quantity r
      then Inl (bad_request ''Effective inventory cannot be lower than reserved plus sold quantity.'')
      else Inr ())"

definition list_inventory :: "actor \<Rightarrow> day \<Rightarrow> uuid option \<Rightarrow> ('z shop_db_scheme, inventory_view list) prog" where
  "list_inventory a d slot =
     bindM (assert_actor_can_use_vendor a) (\<lambda>v.
     thenM (transaction (generate_menu_item_inventory d (Some v)))
    (gets (list_inventory_rows v d slot)))"

definition check_update :: "actor \<Rightarrow> uuid \<Rightarrow> int \<Rightarrow> int option \<Rightarrow> ('z shop_db_scheme, uuid) prog" where
  "check_update a i n expected =
     bindM (assert_actor_can_use_vendor a) (\<lambda>v.
     bindM (gets (find_inventory_for_vendor v i)) (\<lambda>found.
       case found of
         None \<Rightarrow> raise (not_found ''Inventory row was not found.'')
       | Some x \<Rightarrow>
           if expected \<noteq> None \<and> expected \<noteq> Some (inv_version (iv_row x))
           then raise (conflict ''Inventory was modified by another operation.'')
           else thenM (lift_ok (effective_covers_committed (n + inv_adjusted (iv_row x)) (iv_row x))) (ret v)))"

definition write_update :: "uuid \<Rightarrow> uuid \<Rightarrow> int \<Rightarrow> ('z shop_db_scheme, inventory_view) prog" where
  "write_update v i n =
     bindM (transaction (update_inventory_total v i n)) (\<lambda>updated.
       case updated of None \<Rightarrow> raise (not_found ''Inventory row was not found.'') | Some x \<Rightarrow> ret x)"

text \<open>The check and the write are two statements of no common transaction.\<close>

definition update_inventory_row :: "actor \<Rightarrow> uuid \<Rightarrow> int \<Rightarrow> int option \<Rightarrow> ('z shop_db_scheme, inventory_view) prog" where
  "update_inventory_row a i n expected = bindM (check_update a i n expected) (\<lambda>v. write_update v i n)"

definition create_adjustment ::
  "actor \<Rightarrow> uuid \<Rightarrow> int \<Rightarrow> string \<Rightarrow> json option \<Rightarrow> ('z shop_db_scheme, adjustment_row \<times> inventory_view) prog" where
  "create_adjustment a i n reason metadata =
     bindM (assert_actor_can_use_vendor a) (\<lambda>v.
     bindM (gets (find_inventory_for_vendor v i)) (\<lambda>found.
       case found of
         None \<Rightarrow> raise (not_found ''Inventory row was not found.'')
       | Some x \<Rightarrow>
           thenM (lift_ok (effective_covers_committed (inv_total (iv_row x) + inv_adjusted (iv_row x) + n) (iv_row x)))
          (record_adjustment v i n (js_trim reason) metadata (user_id a))))"

end
