(* ===== verification/Orders.thy ===== *)
theory Orders
  imports Inventory Outbox
begin

text \<open>
  modules/orders (orders.service.ts, orders.repository.ts) and the database functions that create an
  order: create_pending_order_and_reserve_inventory and create_paid_order_from_wallet, with the
  inventory half of release_expired_reservations and of mark_verified_payment_successful. The random
  delivery codes and the generated order numbers are streams of the state.
\<close>

section \<open>Requests and tables\<close>

datatype funding = Wallet_Payment | Card_Payment

record request_line =
  rl_item :: uuid
  rl_quantity :: int
  rl_customization :: "json option"
  rl_soup :: "uuid option"

record order_request =
  rq_campus :: uuid
  rq_vendor :: uuid
  rq_day :: day
  rq_slot :: uuid
  rq_location :: uuid
  rq_mode :: "string option"
  rq_promo :: "string option"
  rq_instructions :: "string option"
  rq_room :: "string option"
  rq_accept :: "bool option"
  rq_method :: "funding option"
  rq_point :: "bool option"
  rq_items :: "request_line list"

record stored_line =
  ol_order :: uuid
  ol_item :: uuid
  ol_name :: string
  ol_unit :: string
  ol_price :: int
  ol_quantity :: int
  ol_total :: int
  ol_customization :: json
  ol_soup :: "uuid option"

record order_facts =
  fa_order :: uuid
  fa_vendor :: uuid
  fa_day :: day
  fa_slot :: uuid
  fa_location :: uuid
  fa_mode :: string
  fa_point :: bool
  fa_subtotal :: int
  fa_delivery_fee :: int
  fa_service_fee :: int
  fa_discount :: int
  fa_surcharge :: int
  fa_method :: funding
  fa_instructions :: "string option"
  fa_room :: "string option"
  fa_code :: "string option"

record promotion_row =
  pm_promotion :: promotion
  pm_per_user :: int
  pm_usage :: "int option"

record redemption =
  rdm_promotion :: uuid
  rdm_user :: uuid
  rdm_order :: uuid
  rdm_discount :: int

record idempotency_row =
  ik_actor :: uuid
  ik_operation :: string
  ik_key :: string
  ik_hash :: string
  ik_expires :: time
  ik_resource :: "uuid option"

record location_row =
  lc_id :: uuid
  lc_campus :: uuid
  lc_zone :: uuid
  lc_hostel :: bool
  lc_active :: bool

record soup_row =
  sp_id :: uuid
  sp_vendor :: uuid
  sp_active :: bool

record orders_db = shop_db +
  stored_lines :: "stored_line list"
  order_facts :: "order_facts list"
  promotions :: "promotion_row list"
  redemptions :: "redemption list"
  idempotency_keys :: "idempotency_row list"
  locations :: "location_row list"
  zone_fee :: "uuid \<Rightarrow> int option"
  campus_fee_cap :: "uuid \<Rightarrow> int option"
  soups :: "soup_row list"
  order_number_at :: "nat \<Rightarrow> string"
  code_at :: "nat \<Rightarrow> nat"
  codes_drawn :: nat
  slot_target :: "day \<Rightarrow> uuid \<Rightarrow> time"

text \<open>What the service hands to the database function beside the request.\<close>

record order_terms =
  tm_customer :: uuid
  tm_key :: string
  tm_hash :: string
  tm_service_fee :: int
  tm_max_total :: "int option"
  tm_bps :: int
  tm_flat :: int
  tm_accepted :: bool

section \<open>Idempotency\<close>

definition key_matches :: "uuid \<Rightarrow> string \<Rightarrow> idempotency_row \<Rightarrow> bool" where
  "key_matches customer key r \<longleftrightarrow> ik_actor r = customer \<and> ik_operation r = ''create_order'' \<and> ik_key r = key"

text \<open>
  The order an earlier request with the key made, or the row of this request. A row that is there
  and has no order yet belongs to a transaction that is still to finish.
\<close>

definition claim_key :: "uuid \<Rightarrow> string \<Rightarrow> string \<Rightarrow> ('z orders_db_scheme, uuid option) prog" where
  "claim_key customer key hash =
     bindM (gets (\<lambda>s. (find (key_matches customer key) (idempotency_keys s), odb_now s, customer \<in> prof_id ` set (profiles s)))) (\<lambda>(found, now, known).
       case found of
         Some r \<Rightarrow>
           (case ik_resource r of
              Some oid \<Rightarrow> ret (Some oid)
            | None \<Rightarrow> raise (pg_error ''40001'' ''a concurrent order for this idempotency key is still being created; retry shortly''))
       | None \<Rightarrow>
           if btrim key = [] then raise (pg_error ''23514'' ''new row for relation idempotency_keys violates check constraint'')
           else if \<not> known then raise (pg_error ''23503'' ''insert or update on table idempotency_keys violates foreign key constraint'')
           else thenM (modify (\<lambda>s. s\<lparr>idempotency_keys := idempotency_keys s @
               [\<lparr>ik_actor = customer, ik_operation = ''create_order'', ik_key = key, ik_hash = hash,
                 ik_expires = now + 24 * 3600000, ik_resource = None\<rparr>]\<rparr>))
             (ret None))"

definition settle_key :: "uuid \<Rightarrow> string \<Rightarrow> uuid \<Rightarrow> ('z orders_db_scheme, unit) prog" where
  "settle_key customer key oid = modify (\<lambda>s. s\<lparr>idempotency_keys :=
     update_where (key_matches customer key) (\<lambda>r. r\<lparr>ik_resource := Some oid\<rparr>) (idempotency_keys s)\<rparr>)"

section \<open>Reservation of the lines\<close>

definition inventory_of :: "day \<Rightarrow> uuid \<Rightarrow> uuid \<Rightarrow> inventory_row \<Rightarrow> bool" where
  "inventory_of d slot item r \<longleftrightarrow> inv_item r = item \<and> inv_day r = d \<and> inv_slot r = slot"

definition catalog_entry :: "uuid \<Rightarrow> uuid \<Rightarrow> 'z shop_db_scheme \<Rightarrow> (menu_item \<times> unit_type) option" where
  "catalog_entry vendor item s =
     Option.bind (find (\<lambda>m. mi_id m = item \<and> mi_vendor m = vendor \<and> mi_active m) (menu_items s)) (\<lambda>m.
       map_option (\<lambda>u. (m, u)) (find (\<lambda>u. ut_id u = mi_unit m \<and> ut_active u) (unit_types s)))"

definition check_soup :: "uuid \<Rightarrow> menu_item \<Rightarrow> uuid option \<Rightarrow> ('z orders_db_scheme, unit) prog" where
  "check_soup vendor m soup =
     (if \<not> mi_soup m then ret ()
      else case soup of
        None \<Rightarrow> raise (pg_error ''23514'' (''menu item '' @ mi_id m @ '' requires a soup selection''))
      | Some x \<Rightarrow> bindM (gets (\<lambda>s. list_ex (\<lambda>p. sp_id p = x \<and> sp_vendor p = vendor \<and> sp_active p) (soups s))) (\<lambda>known.
          raise_if (\<not> known) (pg_error ''23514'' (''soup selection '' @ x @ '' is not valid for menu item '' @ mi_id m))))"

definition reserve_line :: "order_request \<Rightarrow> request_line \<Rightarrow> ('z orders_db_scheme, menu_item \<times> unit_type) prog" where
  "reserve_line q l =
     (if rl_quantity l \<le> 0 then raise (pg_error ''23514'' ''item quantity must be positive'')
      else bindM (gets (catalog_entry (rq_vendor q) (rl_item l))) (\<lambda>found.
        case found of
          None \<Rightarrow> raise (pg_error ''23514'' (''menu item '' @ rl_item l @ '' is not active for vendor''))
        | Some (m, u) \<Rightarrow>
            if (case ut_max u of None \<Rightarrow> False | Some n \<Rightarrow> n < rl_quantity l)
            then raise (pg_error ''23514'' (''menu item '' @ rl_item l @ '' exceeds its maximum quantity''))
            else thenM (check_soup (rq_vendor q) m (rl_soup l))
              (bindM (gets (\<lambda>s. (list_ex (\<lambda>x. mi_id (of_item x) = rl_item l \<and> mi_vendor (of_item x) = rq_vendor q)
                    (available_menu_items (rq_campus q) (rq_day q) (rq_slot q) s),
                  find (\<lambda>r. inventory_of (rq_day q) (rq_slot q) (rl_item l) r \<and> inv_active r) (inventory s)))) (\<lambda>(orderable, row).
                if \<not> orderable then raise (pg_error ''23514'' (''menu item '' @ rl_item l @ '' is not orderable for this date and slot''))
                else case row of
                  None \<Rightarrow> raise (pg_error ''23514'' (''inventory missing for menu item '' @ rl_item l))
                | Some r \<Rightarrow>
                    if remaining r < rl_quantity l then raise (pg_error ''23514'' (''insufficient inventory for menu item '' @ rl_item l))
                    else thenM (update_inventory (\<lambda>s x. inv_id x = inv_id r)
                        (\<lambda>s x. x\<lparr>inv_reserved := inv_reserved x + rl_quantity l, inv_version := inv_version x + 1\<rparr>))
                      (ret (m, u))))))"

text \<open>The loop over the lines: food subtotal and spoon units.\<close>

definition add_line :: "order_request \<Rightarrow> int \<times> int \<Rightarrow> request_line \<Rightarrow> ('z orders_db_scheme, int \<times> int) prog" where
  "add_line q acc l =
     bindM (reserve_line q l) (\<lambda>(m, u).
     bindM (to_int4 (mi_price m * rl_quantity l)) (\<lambda>amount.
     bindM (to_int4 (fst acc + amount)) (\<lambda>subtotal.
     bindM (to_int4 (snd acc + (if ut_spoon u then rl_quantity l else 0))) (\<lambda>spoons.
       ret (subtotal, spoons)))))"

definition reserve_lines :: "order_request \<Rightarrow> ('z orders_db_scheme, int \<times> int) prog" where
  "reserve_lines q = foldM (add_line q) (0, 0) (rq_items q)"

section \<open>Price\<close>

definition delivery_fee_of :: "order_request \<Rightarrow> ('z orders_db_scheme, int) prog" where
  "delivery_fee_of q =
     bindM (gets (\<lambda>s. Option.bind (find (\<lambda>l. lc_id l = rq_location q \<and> lc_campus l = rq_campus q \<and> lc_active l) (locations s))
         (\<lambda>l. zone_fee s (lc_zone l)))) (\<lambda>found.
       case found of
         None \<Rightarrow> raise (pg_error ''23514'' ''delivery location is not active for campus'')
       | Some fee \<Rightarrow>
           if rq_point q = Some True
           then bindM (platform_setting_int ''fee_point_surcharge_kobo'' 10000) (\<lambda>extra. to_int4 (fee + extra))
           else ret fee)"

definition discount_of :: "uuid \<Rightarrow> string option \<Rightarrow> int \<Rightarrow> ('z orders_db_scheme, uuid option \<times> int) prog" where
  "discount_of customer code subtotal =
     (case code of
        None \<Rightarrow> ret (None, 0)
      | Some c \<Rightarrow>
          bindM (gets (\<lambda>s. (find (\<lambda>r. promo_code (pm_promotion r) = c \<and> promo_active (pm_promotion r)) (promotions s), odb_now s, redemptions s)))
            (\<lambda>(found, now, used).
            case found of
              None \<Rightarrow> raise (pg_error ''23514'' ''promotion code is not valid'')
            | Some r \<Rightarrow>
                let m = pm_promotion r; mine = filter (\<lambda>x. rdm_promotion x = promo_id m) used in
                if now < promo_starts_at m \<or> (case promo_ends_at m of None \<Rightarrow> False | Some e \<Rightarrow> e < now)
                then raise (pg_error ''23514'' ''promotion code is not currently active'')
                else if subtotal < promo_min_order_kobo m
                then raise (pg_error ''23514'' ''order subtotal is below the promotion minimum'')
                else if pm_per_user r \<le> int (length (filter (\<lambda>x. rdm_user x = customer) mine))
                then raise (pg_error ''23514'' ''promotion code usage limit reached for this user'')
                else if (case pm_usage r of None \<Rightarrow> False | Some n \<Rightarrow> n \<le> int (length mine))
                then raise (pg_error ''23514'' ''promotion code usage limit reached'')
                else bindM (case promo_discount_type m of
                    Fixed \<Rightarrow> ret (promo_discount_value m)
                  | Percent \<Rightarrow> bindM (to_int4 (subtotal * promo_discount_value m)) (\<lambda>n.
                      ret (case promo_max_discount_kobo m of None \<Rightarrow> n div 100 | Some k \<Rightarrow> min (n div 100) k))) (\<lambda>d.
                  ret (Some (promo_id m), min d subtotal))))"

text \<open>The order's total and its surcharge.\<close>

definition sql_surcharge :: "order_terms \<Rightarrow> int \<Rightarrow> int" where
  "sql_surcharge tm amount = numeric_to_int (of_int (amount * tm_bps tm) / 10000) + max (tm_flat tm) 0"

definition total_of :: "order_terms \<Rightarrow> int \<Rightarrow> int \<Rightarrow> int \<Rightarrow> int \<Rightarrow> ('z orders_db_scheme, int \<times> int) prog" where
  "total_of tm subtotal fee service discount =
     bindM (to_int4 (subtotal + fee)) (\<lambda>n.
     bindM (to_int4 (n + service)) (\<lambda>n.
     bindM (to_int4 (n - discount)) (\<lambda>n.
       if (case tm_max_total tm of None \<Rightarrow> False | Some k \<Rightarrow> k < n)
       then if \<not> tm_accepted tm
            then raise (pg_error ''23514'' ''order total exceeds the standard maximum; large-order surcharge not accepted'')
            else bindM (to_int4 (sql_surcharge tm n)) (\<lambda>extra.
              bindM (to_int4 (n + extra)) (\<lambda>due. ret (due, extra)))
       else ret (n, 0))))"

record priced_order =
  pc_mode :: string
  pc_subtotal :: int
  pc_fee :: int
  pc_service :: int
  pc_promotion :: "uuid option"
  pc_discount :: int
  pc_surcharge :: int
  pc_total :: int

text \<open>The part the two functions share: checks, reservation and price.\<close>

definition price_and_reserve :: "order_request \<Rightarrow> order_terms \<Rightarrow> ('z orders_db_scheme, priced_order) prog" where
  "price_and_reserve q tm =
     bindM (delivery_fee_of q) (\<lambda>fee.
     bindM (gets (\<lambda>s. (cutoff_at s (rq_day q) (rq_slot q), odb_now s))) (\<lambda>(cutoff, now).
       if (case cutoff of None \<Rightarrow> False | Some t \<Rightarrow> t \<le> now)
       then raise (pg_error ''23514'' ''orders are closed for this delivery slot'')
       else bindM (gets (\<lambda>s. find (\<lambda>v. sto_id v = rq_vendor q \<and> sto_campus v = rq_campus q \<and> sto_approved v \<and> sto_active v) (stores s))) (\<lambda>vendor.
         case vendor of
           None \<Rightarrow> raise (pg_error ''23514'' ''vendor is not active for campus'')
         | Some v \<Rightarrow>
             bindM (reserve_lines q) (\<lambda>(subtotal, spoons).
               if 3 < spoons then raise (pg_error ''23514'' ''one takeaway package cannot contain more than three spoon-based units'')
               else bindM (discount_of (tm_customer tm) (rq_promo q) subtotal) (\<lambda>(promo, discount).
                 bindM (total_of tm subtotal fee (max (tm_service_fee tm) 0) discount) (\<lambda>(due, extra).
                   ret \<lparr>pc_mode = (case rq_mode q of Some m \<Rightarrow> m | None \<Rightarrow> sto_mode v), pc_subtotal = subtotal, pc_fee = fee,
                     pc_service = max (tm_service_fee tm) 0, pc_promotion = promo, pc_discount = discount,
                     pc_surcharge = extra, pc_total = due\<rparr>))))))"

section \<open>The stored order\<close>

definition blank_to_none :: "string option \<Rightarrow> string option" where
  "blank_to_none v = (case v of None \<Rightarrow> None | Some x \<Rightarrow> if btrim x = [] then None else Some (btrim x))"

definition facts_of :: "uuid \<Rightarrow> order_request \<Rightarrow> funding \<Rightarrow> priced_order \<Rightarrow> order_facts" where
  "facts_of oid q method c =
     \<lparr>fa_order = oid, fa_vendor = rq_vendor q, fa_day = rq_day q, fa_slot = rq_slot q, fa_location = rq_location q,
      fa_mode = pc_mode c, fa_point = (rq_point q = Some True), fa_subtotal = pc_subtotal c, fa_delivery_fee = pc_fee c,
      fa_service_fee = pc_service c, fa_discount = pc_discount c, fa_surcharge = pc_surcharge c, fa_method = method,
      fa_instructions = blank_to_none (rq_instructions q), fa_room = None, fa_code = None\<rparr>"

definition money_check :: "priced_order \<Rightarrow> bool" where
  "money_check c \<longleftrightarrow> 0 \<le> pc_subtotal c \<and> 0 \<le> pc_fee c \<and> 0 \<le> pc_service c \<and> 0 \<le> pc_discount c \<and> 0 \<le> pc_total c"

definition stored_line_of :: "uuid \<Rightarrow> request_line \<Rightarrow> 'z orders_db_scheme \<Rightarrow> stored_line option" where
  "stored_line_of oid l s =
     Option.bind (find (\<lambda>m. mi_id m = rl_item l) (menu_items s)) (\<lambda>m.
       map_option (\<lambda>u. \<lparr>ol_order = oid, ol_item = rl_item l, ol_name = mi_name m, ol_unit = ut_code u, ol_price = mi_price m,
           ol_quantity = rl_quantity l, ol_total = mi_price m * rl_quantity l,
           ol_customization = (case rl_customization l of Some (JObj kvs) \<Rightarrow> JObj kvs | _ \<Rightarrow> JObj []),
           ol_soup = (if mi_soup m then rl_soup l else None)\<rparr>)
         (lookup_by ut_id (mi_unit m) (unit_types s)))"

definition store_line :: "uuid \<Rightarrow> request_line \<Rightarrow> ('z orders_db_scheme, unit) prog" where
  "store_line oid l =
     bindM (gets (stored_line_of oid l)) (\<lambda>row.
       case row of
         None \<Rightarrow> raise (pg_error ''23502'' ''null value in column item_name of relation order_items'')
       | Some r \<Rightarrow> modify (\<lambda>s. s\<lparr>stored_lines := stored_lines s @ [r]\<rparr>))"

text \<open>The columns of the new order that the delivered transition reads and fills.\<close>

definition delivery_of :: "uuid \<Rightarrow> order_request \<Rightarrow> priced_order \<Rightarrow> 'z orders_db_scheme \<Rightarrow> delivery_row" where
  "delivery_of oid q c s =
     \<lparr>dr_order = oid, dr_meal_direct_rider = (pc_mode c = ''meal_direct_rider''), dr_point = (rq_point q = Some True),
      dr_fee = pc_fee c, dr_target = slot_target s (rq_day q) (rq_slot q), dr_rider_share = None, dr_vendor_share = None,
      dr_platform_share = None, dr_ready_on_time = None, dr_delivered_on_time = None\<rparr>"

definition store_order :: "uuid \<Rightarrow> order_request \<Rightarrow> order_terms \<Rightarrow> funding \<Rightarrow> priced_order \<Rightarrow> ('z orders_db_scheme, unit) prog" where
  "store_order oid q tm method c =
     (if \<not> money_check c then raise (pg_error ''23514'' ''new row for relation orders violates check constraint'')
      else thenM (modify (\<lambda>s. s\<lparr>order_facts := order_facts s @ [facts_of oid q method c],
             deliveries := deliveries s @ [delivery_of oid q c s],
             order_total_of := (order_total_of s)(oid := pc_total c),
             redemptions := redemptions s @ (case pc_promotion c of None \<Rightarrow> []
               | Some p \<Rightarrow> [\<lparr>rdm_promotion = p, rdm_user = tm_customer tm, rdm_order = oid, rdm_discount = pc_discount c\<rparr>])\<rparr>))
        (for_each (store_line oid) (rq_items q)))"

section \<open>The inventory of an order\<close>

text \<open>
  An UPDATE joined with the order's items changes a row once, with one of the items that match it;
  which one is not specified, and the model takes the first.
\<close>

definition line_for :: "uuid \<Rightarrow> 'z orders_db_scheme \<Rightarrow> inventory_row \<Rightarrow> stored_line option" where
  "line_for oid s r = find (\<lambda>l. ol_order l = oid \<and> ol_item l = inv_item r) (stored_lines s)"

definition move_counters ::
  "order_facts \<Rightarrow> (int \<Rightarrow> inventory_row \<Rightarrow> inventory_row) \<Rightarrow> ('z orders_db_scheme, unit) prog" where
  "move_counters f g = update_inventory
     (\<lambda>s r. inv_day r = fa_day f \<and> inv_slot r = fa_slot f \<and> line_for (fa_order f) s r \<noteq> None)
     (\<lambda>s r. (g (ol_quantity (the (line_for (fa_order f) s r))) r)\<lparr>inv_version := inv_version r + 1\<rparr>)"

definition sell_reserved :: "order_facts \<Rightarrow> ('z orders_db_scheme, unit) prog" where
  "sell_reserved f = move_counters f (\<lambda>n r. r\<lparr>inv_reserved := inv_reserved r - n, inv_sold := inv_sold r + n\<rparr>)"

definition release_reserved :: "order_facts \<Rightarrow> ('z orders_db_scheme, unit) prog" where
  "release_reserved f = move_counters f (\<lambda>n r. r\<lparr>inv_reserved := inv_reserved r - n\<rparr>)"

definition sell_late :: "order_facts \<Rightarrow> ('z orders_db_scheme, unit) prog" where
  "sell_late f = move_counters f (\<lambda>n r. r\<lparr>inv_sold := inv_sold r + n,
     inv_adjusted := inv_adjusted r + max 0 (inv_reserved r + inv_sold r + n - (inv_total r + inv_adjusted r))\<rparr>)"

definition with_facts :: "uuid \<Rightarrow> (order_facts \<Rightarrow> ('z orders_db_scheme, unit) prog) \<Rightarrow> ('z orders_db_scheme, unit) prog" where
  "with_facts oid m = bindM (gets (\<lambda>s. lookup_by fa_order oid (order_facts s))) (\<lambda>f. case f of None \<Rightarrow> ret () | Some x \<Rightarrow> m x)"

text \<open>release_expired_reservations, with the inventory.\<close>

definition release_order :: "uuid \<Rightarrow> ('z orders_db_scheme, unit) prog" where
  "release_order oid = thenM (with_facts oid release_reserved) (modify (expire_order oid))"

definition release_expired_orders :: "('z orders_db_scheme, nat) prog" where
  "release_expired_orders =
     bindM (gets (\<lambda>s. map ord_id (filter (reservation_expired (odb_now s)) (odb_orders s)))) (\<lambda>due.
       thenM (for_each release_order due) (ret (length due)))"

text \<open>mark_verified_payment_successful, with the inventory.\<close>

definition book_verified_payment ::
  "payment_provider \<Rightarrow> string \<Rightarrow> string option \<Rightarrow> int \<Rightarrow> json \<Rightarrow> ('z orders_db_scheme, uuid) prog" where
  "book_verified_payment provider reference txid paid body =
     bindM (gets (\<lambda>s. Option.bind (find_payment provider reference s) (\<lambda>p.
         if pay_status p = Pay_Successful then None else map_option ord_status (lookup_by ord_id (pay_order p) (odb_orders s))))) (\<lambda>before.
     bindM (mark_verified_payment_successful provider reference txid paid body) (\<lambda>oid.
       thenM (if before = Some Pending_Payment then with_facts oid sell_reserved
              else if before = Some Expired then with_facts oid sell_late else ret ())
         (ret oid)))"

section \<open>Creation\<close>

definition create_pending_order :: "order_request \<Rightarrow> order_terms \<Rightarrow> ('z orders_db_scheme, uuid) prog" where
  "create_pending_order q tm =
     (if rq_items q = [] then raise (pg_error ''23514'' ''order must contain at least one item'')
      else bindM (claim_key (tm_customer tm) (tm_key tm) (tm_hash tm)) (\<lambda>known.
        case known of
          Some oid \<Rightarrow> ret oid
        | None \<Rightarrow>
            bindM (price_and_reserve q tm) (\<lambda>c.
            bindM draw_uuid (\<lambda>oid.
            bindM (gets (\<lambda>s. (order_number_at s (length (odb_orders s)), cutoff_at s (rq_day q) (rq_slot q), odb_now s))) (\<lambda>(number, cutoff, now).
            thenM (modify (insert_order oid number (tm_customer tm) (rq_campus q) Pending_Payment
                (Some (case cutoff of None \<Rightarrow> now + 15 * 60000 | Some t \<Rightarrow> min t (now + 15 * 60000))) ''order created and inventory reserved''))
           (thenM (store_order oid q tm Card_Payment c)
           (bindM draw_uuid (\<lambda>pid.
            thenM (modify (\<lambda>s. s\<lparr>payments := payments s @
              [\<lparr>pay_id = pid, pay_order = oid, pay_provider = Paystack, pay_reference = number, pay_transaction = None,
                pay_status = Pay_Initialized, pay_expected = pc_total c, pay_paid = None, pay_currency = ''NGN'',
                pay_verified_at = None, pay_paid_at = None, pay_created = now, pay_payload = JObj []\<rparr>]\<rparr>))
           (thenM (emit ''order.pending_payment_created'' ''order'' oid)
           (thenM (settle_key (tm_customer tm) (tm_key tm) oid)
            (ret oid)))))))))))"

text \<open>
  The wallet's leg takes the cutoff as the end of the reservation; a slot without one has no offer, so
  its lines have been refused before.
\<close>

definition create_wallet_paid_order :: "order_request \<Rightarrow> order_terms \<Rightarrow> ('z orders_db_scheme, uuid) prog" where
  "create_wallet_paid_order q tm =
     (if rq_items q = [] then raise (pg_error ''23514'' ''order must contain at least one item'')
      else bindM (claim_key (tm_customer tm) (tm_key tm) (tm_hash tm)) (\<lambda>known.
        case known of
          Some oid \<Rightarrow> ret oid
        | None \<Rightarrow>
            bindM (price_and_reserve q tm) (\<lambda>c.
            bindM (gets (\<lambda>s. (order_number_at s (length (odb_orders s)), cutoff_at s (rq_day q) (rq_slot q), odb_now s))) (\<lambda>(number, cutoff, now).
            bindM (pay_order_from_wallet (tm_customer tm) (rq_campus q) number (pc_total c)
                (case cutoff of None \<Rightarrow> now | Some t \<Rightarrow> t)) (\<lambda>oid.
            thenM (store_order oid q tm Wallet_Payment c)
           (thenM (with_facts oid sell_reserved)
           (thenM (settle_key (tm_customer tm) (tm_key tm) oid)
            (ret oid))))))))"

section \<open>The repository (orders.repository.ts)\<close>

definition pad_code :: "nat \<Rightarrow> string" where
  "pad_code n = replicate (4 - length (nat_str n)) (CHR ''0'') @ nat_str n"

definition code_taken :: "uuid \<Rightarrow> string \<Rightarrow> 'z orders_db_scheme \<Rightarrow> bool" where
  "code_taken oid code s \<longleftrightarrow> list_ex (\<lambda>f. fa_order f \<noteq> oid \<and> fa_code f = Some code \<and>
     list_ex (\<lambda>r. ord_id r = fa_order f \<and> ord_status r \<in> {Pending_Payment, Paid, Ready, Out_For_Delivery}) (odb_orders s)) (order_facts s)"

definition draw_code :: "('z orders_db_scheme, string) prog" where
  "draw_code = (\<lambda>s. (Inr (pad_code (code_at s (codes_drawn s) mod 10000)), s\<lparr>codes_drawn := Suc (codes_drawn s)\<rparr>))"

definition normalize_room_number :: "string option \<Rightarrow> string option" where
  "normalize_room_number v = (case v of None \<Rightarrow> None | Some x \<Rightarrow> if js_trim x = [] then None else Some (js_trim x))"

fun assign_code :: "uuid \<Rightarrow> string option \<Rightarrow> nat \<Rightarrow> ('z orders_db_scheme, string) prog" where
  "assign_code oid room 0 = raise (Plain_Error ''Could not assign a unique delivery code after several attempts.'')"
| "assign_code oid room (Suc n) =
     bindM draw_code (\<lambda>code.
     bindM (gets (\<lambda>s. oid \<in> fa_order ` set (order_facts s) \<and> \<not> code_taken oid code s)) (\<lambda>free.
       if free then thenM (modify (\<lambda>s. s\<lparr>order_facts := update_where (\<lambda>f. fa_order f = oid)
            (\<lambda>f. f\<lparr>fa_room := room, fa_code := Some code\<rparr>) (order_facts s)\<rparr>)) (ret code)
       else assign_code oid room n))"

definition ensure_order_delivery_metadata :: "uuid \<Rightarrow> string option \<Rightarrow> ('z orders_db_scheme, string) prog" where
  "ensure_order_delivery_metadata oid room =
     bindM (gets (\<lambda>s. Option.bind (lookup_by fa_order oid (order_facts s)) fa_code)) (\<lambda>existing.
       case existing of
         Some code \<Rightarrow> thenM (modify (\<lambda>s. s\<lparr>order_facts := update_where (\<lambda>f. fa_order f = oid) (\<lambda>f. f\<lparr>fa_room := room\<rparr>) (order_facts s)\<rparr>))
           (ret code)
       | None \<Rightarrow> assign_code oid room 10)"

definition repository_create :: "order_request \<Rightarrow> order_terms \<Rightarrow> ('z orders_db_scheme, uuid \<times> string) prog" where
  "repository_create q tm = transaction (bindM (create_pending_order q tm) (\<lambda>oid.
     bindM (ensure_order_delivery_metadata oid (normalize_room_number (rq_room q))) (\<lambda>code. ret (oid, code))))"

definition repository_create_wallet :: "order_request \<Rightarrow> order_terms \<Rightarrow> ('z orders_db_scheme, uuid \<times> string) prog" where
  "repository_create_wallet q tm = transaction (bindM (create_wallet_paid_order q tm) (\<lambda>oid.
     bindM (ensure_order_delivery_metadata oid (normalize_room_number (rq_room q))) (\<lambda>code. ret (oid, code))))"

definition find_location_is_hostel :: "uuid \<Rightarrow> 'z orders_db_scheme \<Rightarrow> bool option" where
  "find_location_is_hostel i s = map_option lc_hostel (lookup_by lc_id i (locations s))"

definition find_zone_delivery_fee :: "uuid \<Rightarrow> 'z orders_db_scheme \<Rightarrow> int option" where
  "find_zone_delivery_fee i s = Option.bind (lookup_by lc_id i (locations s)) (\<lambda>l. zone_fee s (lc_zone l))"

definition find_vendor_service_fee_config :: "uuid \<Rightarrow> 'z orders_db_scheme \<Rightarrow> (int option \<times> int) option" where
  "find_vendor_service_fee_config v s =
     Option.bind (lookup_by sto_id v (stores s)) (\<lambda>x. map_option (\<lambda>k. (sto_fee x, k)) (campus_fee_cap s (sto_campus x)))"

record quote_item =
  qi_item :: uuid
  qi_name :: string
  qi_quantity :: int
  qi_remaining :: int
  qi_price :: int
  qi_total :: int
  qi_spoon :: bool
  qi_takeaway :: bool

definition quote_item_of :: "request_line \<Rightarrow> offer \<Rightarrow> quote_item" where
  "quote_item_of l x = \<lparr>qi_item = mi_id (of_item x), qi_name = mi_name (of_item x), qi_quantity = rl_quantity l,
     qi_remaining = of_remaining x, qi_price = mi_price (of_item x), qi_total = mi_price (of_item x) * rl_quantity l,
     qi_spoon = ut_spoon (of_unit x), qi_takeaway = ut_takeaway (of_unit x)\<rparr>"

definition quote_rows :: "order_request \<Rightarrow> 'z orders_db_scheme \<Rightarrow> exn + quote_item list" where
  "quote_rows q s =
     (let rows = newest_first (\<lambda>a b. text_before b a) qi_name (concat (map (\<lambda>l. map (quote_item_of l)
        (filter (\<lambda>x. mi_id (of_item x) = rl_item l \<and> mi_vendor (of_item x) = rq_vendor q \<and> rl_quantity l \<le> of_remaining x)
          (available_menu_items (rq_campus q) (rq_day q) (rq_slot q) s))) (rq_items q)))
      in if list_ex (\<lambda>x. \<not> int4 (qi_total x)) rows then Inl (pg_error ''22003'' ''integer out of range'') else Inr rows)"

section \<open>The service (orders.service.ts)\<close>

record order_env =
  oe_max_total :: int
  oe_delivery_fee :: int
  oe_service_fee :: int
  oe_bps :: int
  oe_flat :: int

record order_quote =
  qt_delivery_fee :: int
  qt_service_fee :: int
  qt_discount :: int
  qt_subtotal :: int
  qt_surcharge :: int
  qt_exceeds :: bool
  qt_items :: "quote_item list"
  qt_total :: int

definition orders_customer_only :: "actor \<Rightarrow> exn + unit" where
  "orders_customer_only a = (if role a \<noteq> Customer then Inl (bad_request ''Only customers can use customer order endpoints.'') else Inr ())"

text \<open>A Map keeps the last row of an item.\<close>

definition all_items_quoted :: "order_request \<Rightarrow> quote_item list \<Rightarrow> exn + unit" where
  "all_items_quoted q rows =
     (if list_ex (\<lambda>l. map_option qi_quantity (find (\<lambda>r. qi_item r = rl_item l) (rev rows)) \<noteq> Some (rl_quantity l)) (rq_items q)
      then Inl (bad_request ''One or more order items are unavailable for the requested date and slot.'')
      else Inr ())"

definition resolve_service_fee :: "order_env \<Rightarrow> uuid \<Rightarrow> 'z orders_db_scheme \<Rightarrow> int" where
  "resolve_service_fee env v s =
     (case find_vendor_service_fee_config v s of
        None \<Rightarrow> oe_service_fee env
      | Some (fee, k) \<Rightarrow> min (case fee of None \<Rightarrow> oe_service_fee env | Some n \<Rightarrow> n) k)"

definition quote_input :: "order_env \<Rightarrow> order_request \<Rightarrow> quote_item list \<Rightarrow> int \<Rightarrow> int \<Rightarrow> pricing_input" where
  "quote_input env q rows delivery service =
     \<lparr>pi_lines = map (\<lambda>r. \<lparr>unit_price_cents = js_int (qi_price r), line_quantity = js_int (qi_quantity r), line_spoon_count = None\<rparr>) rows,
      pi_delivery_fee_cents = js_int delivery, pi_service_fee_cents = Some (js_int service), pi_discount_cents = None,
      pi_large_order_threshold_cents = (if rq_method q = Some Wallet_Payment then None else Some (js_int (oe_max_total env))),
      pi_large_order_surcharge_bps = Some (js_int (oe_bps env)),
      pi_large_order_surcharge_flat_cents = Some (js_int (oe_flat env))\<rparr>"

definition build_quote :: "order_env \<Rightarrow> order_request \<Rightarrow> ('z orders_db_scheme, order_quote \<times> int) prog" where
  "build_quote env q =
     bindM (bindM (gets (quote_rows q)) lift_ok) (\<lambda>rows.
     thenM (lift_ok (all_items_quoted q rows))
    (bindM (gets (\<lambda>s. (find_zone_delivery_fee (rq_location q) s, if list_ex qi_takeaway rows then resolve_service_fee env (rq_vendor q) s else 0))) (\<lambda>(zone, service).
     bindM (lift_ok (calculate_order_pricing (quote_input env q rows (case zone of None \<Rightarrow> oe_delivery_fee env | Some n \<Rightarrow> n) service))) (\<lambda>p.
       ret (\<lparr>qt_delivery_fee = delivery_fee_cents p, qt_service_fee = service_fee_cents p, qt_discount = discount_cents p,
             qt_subtotal = subtotal_cents p, qt_surcharge = large_order_surcharge_cents p,
             qt_exceeds = exceeds_large_order_threshold p, qt_items = rows, qt_total = total_cents p\<rparr>, service)))))"

definition quote_order :: "order_env \<Rightarrow> actor \<Rightarrow> order_request \<Rightarrow> ('z orders_db_scheme, order_quote) prog" where
  "quote_order env a q = thenM (lift_ok (orders_customer_only a)) (bindM (build_quote env q) (\<lambda>(quote, fee). ret quote))"

definition assert_room_number_when_hostel :: "order_request \<Rightarrow> ('z orders_db_scheme, unit) prog" where
  "assert_room_number_when_hostel q =
     bindM (gets (find_location_is_hostel (rq_location q))) (\<lambda>hostel.
       raise_if (hostel = Some True \<and> normalize_room_number (rq_room q) = None)
         (bad_request ''Room number is required for hostel delivery locations.''))"

definition terms_for :: "order_env \<Rightarrow> (order_request \<Rightarrow> string) \<Rightarrow> actor \<Rightarrow> order_request \<Rightarrow> string \<Rightarrow> int \<Rightarrow> order_terms" where
  "terms_for env hash a q key fee =
     \<lparr>tm_customer = user_id a, tm_key = key, tm_hash = hash q, tm_service_fee = fee,
      tm_max_total = (if rq_method q = Some Wallet_Payment then None else Some (oe_max_total env)),
      tm_bps = oe_bps env, tm_flat = oe_flat env, tm_accepted = (rq_accept q = Some True)\<rparr>"

text \<open>\<open>hash\<close> is hashOrderRequest, the SHA-256 of the request's JSON text.\<close>

definition create_order ::
  "order_env \<Rightarrow> (order_request \<Rightarrow> string) \<Rightarrow> actor \<Rightarrow> order_request \<Rightarrow> string \<Rightarrow> ('z orders_db_scheme, uuid \<times> string) prog" where
  "create_order env hash a q key =
     thenM (lift_ok (orders_customer_only a))
    (thenM (assert_room_number_when_hostel q)
    (bindM (build_quote env q) (\<lambda>(quote, fee).
       if rq_promo q = None \<and> qt_exceeds quote \<and> rq_accept q \<noteq> Some True
       then raise (bad_request ''Order total exceeds the standard cap.'')
       else if rq_method q = Some Wallet_Payment then repository_create_wallet q (terms_for env hash a q key fee)
       else repository_create q (terms_for env hash a q key fee))))"

section \<open>Reads\<close>

record order_view =
  ov_order :: order_row
  ov_facts :: order_facts
  ov_total :: int
  ov_lines :: "stored_line list"
  ov_payment :: "payment option"

definition find_latest_payment :: "uuid \<Rightarrow> 'z orders_db_scheme \<Rightarrow> payment option" where
  "find_latest_payment oid s =
     (case newest_first (<) pay_created (filter (\<lambda>p. pay_order p = oid) (payments s)) of [] \<Rightarrow> None | p # ps \<Rightarrow> Some p)"

definition find_customer_order_by_id :: "uuid \<Rightarrow> uuid \<Rightarrow> 'z orders_db_scheme \<Rightarrow> order_view option" where
  "find_customer_order_by_id customer oid s =
     Option.bind (find (\<lambda>r. ord_id r = oid \<and> ord_customer r = customer) (odb_orders s)) (\<lambda>r.
       map_option (\<lambda>f. \<lparr>ov_order = r, ov_facts = f, ov_total = order_total_of s oid,
           ov_lines = filter (\<lambda>l. ol_order l = oid) (stored_lines s), ov_payment = find_latest_payment oid s\<rparr>)
         (lookup_by fa_order oid (order_facts s)))"

definition get_customer_order :: "actor \<Rightarrow> uuid \<Rightarrow> ('z orders_db_scheme, order_view) prog" where
  "get_customer_order a oid =
     thenM (lift_ok (orders_customer_only a))
    (bindM (gets (find_customer_order_by_id (user_id a) oid)) (\<lambda>found.
       case found of None \<Rightarrow> raise (not_found ''Order was not found.'') | Some v \<Rightarrow> ret v))"

definition find_payment_status :: "uuid \<Rightarrow> uuid \<Rightarrow> 'z orders_db_scheme \<Rightarrow> (uuid \<times> order_status \<times> payment option) option" where
  "find_payment_status customer oid s =
     map_option (\<lambda>v. (ord_id (ov_order v), ord_status (ov_order v), ov_payment v)) (find_customer_order_by_id customer oid s)"

section \<open>A key makes one order\<close>

definition keys_are :: "idempotency_row list \<Rightarrow> 'z orders_db_scheme \<Rightarrow> bool" where
  "keys_are ks s \<longleftrightarrow> idempotency_keys s = ks"

lemma keys_modify: "(\<And>s. idempotency_keys (f s) = idempotency_keys s) \<Longrightarrow> preserves (keys_are ks) (modify f)"
  by (rule preserves_modify) (simp add: keys_are_def)

lemma keys_draw: "preserves (keys_are ks) draw_uuid"
  by (rule preservesI) (simp add: draw_uuid_def keys_are_def)

lemma keys_update_inventory: "preserves (keys_are ks) (update_inventory sel f)"
  unfolding update_inventory_def by (auto intro!: preserves_intros keys_modify)

lemma keys_reserve_line: "preserves (keys_are ks) (reserve_line q l)"
  unfolding reserve_line_def check_soup_def
  by (auto intro!: preserves_intros keys_update_inventory split: option.split prod.split)

lemma keys_price: "preserves (keys_are ks) (price_and_reserve q tm)"
  unfolding price_and_reserve_def delivery_fee_of_def reserve_lines_def add_line_def discount_of_def total_of_def Let_def
  by (auto intro!: preserves_intros keys_reserve_line to_int4_inv platform_setting_int_inv
      split: option.split prod.split discount_type.split)

lemma keys_with_facts: "(\<And>f. preserves (keys_are ks) (m f)) \<Longrightarrow> preserves (keys_are ks) (with_facts oid m)"
  unfolding with_facts_def by (auto intro!: preserves_intros split: option.split)

lemma keys_store: "preserves (keys_are ks) (store_order oid q tm method c)"
  unfolding store_order_def store_line_def by (auto intro!: preserves_intros keys_modify split: option.split)

lemma keys_wallet: "preserves (keys_are ks) (pay_order_from_wallet customer campus number due cutoff)"
  unfolding pay_order_from_wallet_def ensure_customer_wallet_def append_wallet_ledger_entry_def emit_def
  by (auto intro!: preserves_intros keys_modify keys_draw to_int4_inv split: option.split simp: insert_order_def)

definition key_order :: "uuid \<Rightarrow> string \<Rightarrow> 'z orders_db_scheme \<Rightarrow> uuid option" where
  "key_order customer key s = Option.bind (find (key_matches customer key) (idempotency_keys s)) ik_resource"

lemma claim_key_cases:
  assumes "claim_key customer key hash s = (Inr v, t)"
  obtains (known) oid where "v = Some oid" "t = s" "key_order customer key s = Some oid"
  | (new) "v = None" "find (key_matches customer key) (idempotency_keys s) = None"
      "idempotency_keys t = idempotency_keys s @ [\<lparr>ik_actor = customer, ik_operation = ''create_order'', ik_key = key, ik_hash = hash,
         ik_expires = odb_now s + 24 * 3600000, ik_resource = None\<rparr>]"
proof (cases "find (key_matches customer key) (idempotency_keys s)")
  case None
  with assms that(2) show ?thesis by (auto simp: claim_key_def prog_simps split: if_splits)
next
  case (Some r)
  then obtain oid where oid: "ik_resource r = Some oid" using assms by (cases "ik_resource r") (simp_all add: claim_key_def prog_simps)
  with Some assms have "v = Some oid" "t = s" by (simp_all add: claim_key_def prog_simps)
  with Some oid that(1) [of oid] show ?thesis by (simp add: key_order_def)
qed

lemma find_append_None: "find P xs = None \<Longrightarrow> find P (xs @ ys) = find P ys"
  by (induction xs) (auto split: if_splits)

lemma find_update_matching:
  "(\<And>r. P (f r) = P r) \<Longrightarrow> find P (update_where P f rows) = map_option f (find P rows)"
  by (induction rows) (auto simp: table_simps)

lemma settle_key_order:
  assumes "find (key_matches customer key) ks = None" "idempotency_keys s = ks @ [r]" "key_matches customer key r"
  shows "key_order customer key (snd (settle_key customer key oid s)) = Some oid"
proof -
  have "find (key_matches customer key) (idempotency_keys s) = Some r"
    using assms by (simp add: find_append_None)
  then show ?thesis
    by (simp add: settle_key_def prog_simps key_order_def key_matches_def find_update_matching)
qed

text \<open>The rest of a creation keeps the keys and then settles the row with the new order.\<close>

definition ends_settled :: "uuid \<Rightarrow> string \<Rightarrow> idempotency_row list \<Rightarrow> ('z orders_db_scheme, uuid) prog \<Rightarrow> bool" where
  "ends_settled customer key ks m \<longleftrightarrow> (\<forall>s oid t. keys_are ks s \<longrightarrow> m s = (Inr oid, t) \<longrightarrow>
     (\<exists>u. keys_are ks u \<and> t = snd (settle_key customer key oid u)))"

lemma ends_bind:
  assumes "preserves (keys_are ks) m" and "\<And>x. ends_settled customer key ks (k x)"
  shows "ends_settled customer key ks (bindM m k)"
  unfolding ends_settled_def
proof (intro allI impI)
  fix s oid t assume s: "keys_are ks s" and run: "bindM m k s = (Inr oid, t)"
  obtain v u where m: "m s = (v, u)" by force
  with preservesD [OF assms(1) s] have "keys_are ks u" by simp
  with m run assms(2) show "\<exists>u. keys_are ks u \<and> t = snd (settle_key customer key oid u)"
    by (cases v) (auto simp: bindM_app ends_settled_def)
qed

lemma ends_then: "preserves (keys_are ks) m \<Longrightarrow> ends_settled customer key ks k \<Longrightarrow> ends_settled customer key ks (thenM m k)"
  unfolding thenM_def by (rule ends_bind)

lemma ends_settle: "ends_settled customer key ks (thenM (settle_key customer key oid) (ret oid))"
  by (auto simp: ends_settled_def prog_simps settle_key_def)

lemma ends_raise: "ends_settled customer key ks (raise e)"
  by (simp add: ends_settled_def prog_simps)

lemma keys_emit: "preserves (keys_are ks) (emit ty agg aid)"
  unfolding emit_def by (rule keys_modify) simp

lemma keys_insert: "preserves (keys_are ks) (modify (insert_order oid number customer campus st expires reason))"
  by (rule keys_modify) (simp add: insert_order_def)

lemma keys_sell: "preserves (keys_are ks) (with_facts oid sell_reserved)"
  unfolding sell_reserved_def move_counters_def by (intro keys_with_facts keys_update_inventory)

lemma created_key:
  assumes "create_pending_order q tm s = (Inr oid, t) \<or> create_wallet_paid_order q tm s = (Inr oid, t)"
  shows "key_order (tm_customer tm) (tm_key tm) t = Some oid"
proof -
  obtain m where run: "bindM (claim_key (tm_customer tm) (tm_key tm) (tm_hash tm)) (\<lambda>known. case known of Some oid \<Rightarrow> ret oid | None \<Rightarrow> m) s = (Inr oid, t)"
    and m: "\<And>ks. ends_settled (tm_customer tm) (tm_key tm) ks m"
  proof (cases "rq_items q = []")
    case True
    with assms show ?thesis by (simp add: create_pending_order_def create_wallet_paid_order_def prog_simps)
  next
    case False
    from assms show ?thesis
    proof
      assume "create_pending_order q tm s = (Inr oid, t)"
      with False show ?thesis
        by (intro that) (simp_all add: create_pending_order_def, auto intro!: ends_bind ends_then ends_settle keys_price keys_draw
            preserves_basic keys_insert keys_store keys_modify keys_emit split: prod.split)
    next
      assume "create_wallet_paid_order q tm s = (Inr oid, t)"
      with False show ?thesis
        by (intro that) (simp_all add: create_wallet_paid_order_def, auto intro!: ends_bind ends_then ends_settle keys_price keys_wallet
            preserves_basic keys_store keys_sell split: prod.split)
    qed
  qed
  obtain v u where claim: "claim_key (tm_customer tm) (tm_key tm) (tm_hash tm) s = (Inr v, u)"
    using run by (auto simp: bindM_app split: prod.splits sum.splits)
  from claim show ?thesis
  proof (cases rule: claim_key_cases)
    case (known oid')
    with run claim show ?thesis by (simp add: prog_simps)
  next
    case new
    with run claim have "m u = (Inr oid, t)" by (simp add: prog_simps)
    with m obtain w where w: "keys_are (idempotency_keys u) w" "t = snd (settle_key (tm_customer tm) (tm_key tm) oid w)"
      by (fastforce simp: ends_settled_def keys_are_def)
    then show ?thesis using new(2,3)
      by (simp add: keys_are_def settle_key_order key_matches_def)
  qed
qed

definition coded :: "uuid \<Rightarrow> string \<Rightarrow> 'z orders_db_scheme \<Rightarrow> bool" where
  "coded oid code s \<longleftrightarrow> Option.bind (lookup_by fa_order oid (order_facts s)) fa_code = Some code"

definition set_code :: "uuid \<Rightarrow> (order_facts \<Rightarrow> order_facts) \<Rightarrow> 'z orders_db_scheme \<Rightarrow> 'z orders_db_scheme" where
  "set_code oid f s = s\<lparr>order_facts := update_where (\<lambda>x. fa_order x = oid) f (order_facts s)\<rparr>"

lemma coded_set:
  assumes "lookup_by fa_order oid (order_facts s) = Some x" "\<And>y. fa_order (f y) = fa_order y" "fa_code (f x) = Some code"
  shows "coded oid code (set_code oid f s) \<and> idempotency_keys (set_code oid f s) = idempotency_keys s"
proof -
  have "fa_order x = oid" using lookup_by_Some [OF assms(1)] by simp
  with assms show ?thesis by (simp add: coded_def set_code_def lookup_update_where)
qed

lemma assign_step:
  "assign_code oid room (Suc n) s =
     (let s' = s\<lparr>codes_drawn := Suc (codes_drawn s)\<rparr>; code = pad_code (code_at s (codes_drawn s) mod 10000)
      in if oid \<in> fa_order ` set (order_facts s) \<and> \<not> code_taken oid code s'
         then (Inr code, set_code oid (\<lambda>f. f\<lparr>fa_room := room, fa_code := Some code\<rparr>) s')
         else assign_code oid room n s')"
  by (simp add: bindM_app thenM_app basic_app draw_code_def Let_def set_code_def)

declare assign_code.simps(2) [simp del]

lemma assign_code_coded:
  "assign_code oid room n s = (Inr code, t) \<Longrightarrow> coded oid code t \<and> idempotency_keys t = idempotency_keys s"
proof (induction n arbitrary: s)
  case (Suc n)
  let ?s = "s\<lparr>codes_drawn := Suc (codes_drawn s)\<rparr>" and ?c = "pad_code (code_at s (codes_drawn s) mod 10000)"
  let ?f = "\<lambda>f. f\<lparr>fa_room := room, fa_code := Some ?c\<rparr>"
  show ?case
  proof (cases "oid \<in> fa_order ` set (order_facts s) \<and> \<not> code_taken oid ?c ?s")
    case True
    with Suc.prems have t: "code = ?c" "t = set_code oid ?f ?s" by (auto simp: assign_step Let_def)
    from True obtain x where "lookup_by fa_order oid (order_facts ?s) = Some x"
      using lookup_by_None [of fa_order oid "order_facts s"] by (cases "lookup_by fa_order oid (order_facts s)") simp_all
    from coded_set [OF this, of ?f ?c] t show ?thesis by simp
  next
    case False
    with Suc.prems have "assign_code oid room n ?s = (Inr code, t)" by (simp add: assign_step Let_def)
    with Suc.IH [of ?s] show ?thesis by simp
  qed
qed (simp add: basic_app)

lemma ensure_metadata_app:
  "ensure_order_delivery_metadata oid room s =
     (case Option.bind (lookup_by fa_order oid (order_facts s)) fa_code of
        Some code \<Rightarrow> (Inr code, set_code oid (\<lambda>f. f\<lparr>fa_room := room\<rparr>) s)
      | None \<Rightarrow> assign_code oid room 10 s)"
  by (simp add: ensure_order_delivery_metadata_def bindM_app thenM_app basic_app set_code_def split: option.split)

lemma ensure_coded:
  assumes "ensure_order_delivery_metadata oid room s = (Inr code, t)"
  shows "coded oid code t \<and> idempotency_keys t = idempotency_keys s"
proof (cases "Option.bind (lookup_by fa_order oid (order_facts s)) fa_code")
  case None
  with assms have "assign_code oid room 10 s = (Inr code, t)" by (simp add: ensure_metadata_app)
  then show ?thesis by (rule assign_code_coded)
next
  case (Some c)
  then obtain x where x: "lookup_by fa_order oid (order_facts s) = Some x" "fa_code x = Some c" by (auto simp: bind_eq_Some_conv)
  have "code = c" "t = set_code oid (\<lambda>f. f\<lparr>fa_room := room\<rparr>) s" using assms Some by (simp_all add: ensure_metadata_app)
  with coded_set [OF x(1), of "\<lambda>f. f\<lparr>fa_room := room\<rparr>" c] x(2) show ?thesis by simp
qed

lemma ensure_again:
  assumes "coded oid code s"
  shows "\<exists>rows. ensure_order_delivery_metadata oid room s = (Inr code, s\<lparr>order_facts := rows\<rparr>)"
  using assms by (auto simp: ensure_metadata_app coded_def set_code_def)

lemma recorded_again:
  assumes "key_order (tm_customer tm) (tm_key tm) s = Some oid" "coded oid code s" "rq_items q \<noteq> []"
  shows "\<exists>rows. repository_create q tm s = (Inr (oid, code), s\<lparr>order_facts := rows\<rparr>) \<and>
    repository_create_wallet q tm s = (Inr (oid, code), s\<lparr>order_facts := rows\<rparr>)"
proof -
  from assms(1) obtain r where "find (key_matches (tm_customer tm) (tm_key tm)) (idempotency_keys s) = Some r" "ik_resource r = Some oid"
    by (auto simp: key_order_def bind_eq_Some_conv)
  then have "claim_key (tm_customer tm) (tm_key tm) (tm_hash tm) s = (Inr (Some oid), s)" by (simp add: claim_key_def prog_simps)
  then have "create_pending_order q tm s = (Inr oid, s)" "create_wallet_paid_order q tm s = (Inr oid, s)"
    using assms(3) by (simp_all add: create_pending_order_def create_wallet_paid_order_def prog_simps)
  moreover obtain rows where "ensure_order_delivery_metadata oid (normalize_room_number (rq_room q)) s = (Inr code, s\<lparr>order_facts := rows\<rparr>)"
    using ensure_again [OF assms(2)] by blast
  ultimately show ?thesis by (intro exI [of _ rows]) (simp add: repository_create_def repository_create_wallet_def prog_simps)
qed


section \<open>Lines that name an item twice\<close>

lemma update_inventory_Inr:
  assumes "update_inventory sel g s = (Inr (), t)"
  shows "t = s\<lparr>inventory := update_where (sel s) (g s) (inventory s)\<rparr>"
    and "\<forall>r\<in>set (inventory s). sel s r \<longrightarrow> inventory_check (g s r)"
  using assms by (auto simp: update_inventory_def prog_simps list_ex_iff split: if_splits)

lemma update_inventory_cases:
  "(\<exists>e. update_inventory sel g s = (Inl e, s)) \<or> update_inventory sel g s = (Inr (), s\<lparr>inventory := update_where (sel s) (g s) (inventory s)\<rparr>)"
  by (simp add: update_inventory_def prog_simps)

lemma updated_row: "r \<in> set rows \<Longrightarrow> P r \<Longrightarrow> f r \<in> set (update_where P f rows)"
  unfolding set_update_where by (rule image_eqI [of _ _ r]) simp_all

lemma in_update_where:
  assumes "x \<in> set (update_where P f rows)"
  obtains y where "y \<in> set rows" "x = (if P y then f y else y)"
  using assms unfolding set_update_where by blast

lemma expired_rows: "\<forall>x\<in>set (odb_orders (expire_order oid s)). ord_id x = oid \<longrightarrow> ord_status x = Expired"
proof (intro ballI impI)
  fix x assume x: "x \<in> set (odb_orders (expire_order oid s))" "ord_id x = oid"
  let ?f = "\<lambda>x. x\<lparr>ord_status := Expired, ord_cancelled_at := Some (odb_now s),
      ord_cancellation_reason := Some ''payment reservation expired''\<rparr>"
  from x(1) have "x \<in> set (update_where (\<lambda>x. ord_id x = oid) ?f (odb_orders s))" by (simp add: expire_order_def)
  then obtain y where "x = (if ord_id y = oid then ?f y else y)" by (rule in_update_where)
  with x(2) show "ord_status x = Expired" by (simp split: if_splits)
qed

lemma find_hd_filter: "filter P xs = x # ys \<Longrightarrow> find P xs = Some x"
  by (induction xs) (auto split: if_splits)

lemma release_order_Inr:
  assumes "lookup_by fa_order oid (order_facts s) = Some f" "release_order oid s = (Inr (), t)"
  obtains u where "release_reserved f s = (Inr (), u)" "t = expire_order oid u"
  using assms by (auto simp: release_order_def with_facts_def prog_simps split: prod.splits sum.splits)


section \<open>An order\<close>

definition shopper :: uuid where
  "shopper = ''buyer''"

definition orders_sample :: orders_db where
  "orders_sample = \<lparr>odb_now = 500000, odb_orders = [], odb_history = [], odb_outbox = [],
     db_uuid = (\<lambda>n. ''id-'' @ nat_str n), db_drawn = 1, wallets = [], ledger = [], accounts = [], settings = [],
     profiles = [\<lparr>prof_id = shopper, prof_email = None, prof_name = None, prof_phone = None\<rparr>],
     payments = [], issues = [], audit_logs = [], audit_fault = (\<lambda>e. False), deliveries = [], settlements = [], settlement_lines = [], transfers = [],
     payout_accounts = [], riders = [], vendors = [], px_calls = [], px_initiate = (\<lambda>n. Inl network_failure),
     px_fetched = [], px_fetch = (\<lambda>n. Inl network_failure), payment_events = [], processed_keys = [],
     refunds = [], support_notes = [], order_total_of = (\<lambda>oid. 0), py_log = [],
     py_checkout = (\<lambda>n. Inl network_failure), py_verify = (\<lambda>n. Inl network_failure), py_refund = (\<lambda>n. Inl network_failure),
     inventory = [\<lparr>inv_id = ''id-0'', inv_item = ''rice'', inv_day = 20000, inv_slot = ''noon'', inv_total = 10, inv_reserved = 0,
       inv_sold = 0, inv_adjusted = 0, inv_active = True, inv_version = 1\<rparr>],
     adjustments = [], unit_types = [\<lparr>ut_id = ''u1'', ut_code = ''portion'', ut_spoon = False, ut_takeaway = False, ut_max = None, ut_active = True\<rparr>],
     menu_items = [\<lparr>mi_id = ''rice'', mi_vendor = ''kitchen'', mi_name = ''Jollof rice'', mi_price = 150000, mi_soup = False, mi_unit = ''u1'', mi_active = True\<rparr>],
     slots = [\<lparr>ds_id = ''noon'', ds_campus = ''c1'', ds_active = True\<rparr>],
     item_slots = [\<lparr>av_owner = ''rice'', av_slot = ''noon'', av_dow = 5, av_available = True, av_since = None, av_until = None\<rparr>],
     store_slots = [\<lparr>av_owner = ''kitchen'', av_slot = ''noon'', av_dow = 5, av_available = True, av_since = None, av_until = None\<rparr>],
     stores = [\<lparr>sto_id = ''kitchen'', sto_campus = ''c1'', sto_approved = True, sto_active = True, sto_mode = ''takeaway'', sto_fee = None\<rparr>],
     vendor_users = [], is_campus_admin = (\<lambda>c u. False), cutoff_at = (\<lambda>d slot. Some 900000000),
     stored_lines = [], order_facts = [], promotions = [], redemptions = [], idempotency_keys = [],
     locations = [\<lparr>lc_id = ''hall'', lc_campus = ''c1'', lc_zone = ''z1'', lc_hostel = False, lc_active = True\<rparr>],
     zone_fee = (\<lambda>z. Some 50000), campus_fee_cap = (\<lambda>c. Some 20000), soups = [],
     order_number_at = (\<lambda>n. ''MD-'' @ nat_str n), code_at = (\<lambda>n. 42), codes_drawn = 0, slot_target = (\<lambda>d slot. 800000000)\<rparr>"

definition order_for :: "int list \<Rightarrow> order_request" where
  "order_for ns = \<lparr>rq_campus = ''c1'', rq_vendor = ''kitchen'', rq_day = 20000, rq_slot = ''noon'', rq_location = ''hall'',
     rq_mode = None, rq_promo = None, rq_instructions = None, rq_room = None, rq_accept = None, rq_method = None, rq_point = None,
     rq_items = map (\<lambda>n. \<lparr>rl_item = ''rice'', rl_quantity = n, rl_customization = None, rl_soup = None\<rparr>) ns\<rparr>"

definition sample_terms :: order_terms where
  "sample_terms = \<lparr>tm_customer = shopper, tm_key = ''key-1'', tm_hash = ''h'', tm_service_fee = 0, tm_max_total = Some 10000000,
     tm_bps = 100, tm_flat = 0, tm_accepted = False\<rparr>"

text \<open>The database function's run, read off in one evaluation.\<close>

definition created :: "int list \<Rightarrow> (exn + uuid) \<times> orders_db" where
  "created ns = create_pending_order (order_for ns) sample_terms orders_sample"

definition created_facts ::
  "int list \<Rightarrow> (exn + uuid) \<times> nat \<times> (uuid \<times> day \<times> uuid \<times> string option) list \<times> (uuid \<times> uuid \<times> int) list \<times> (uuid \<times> uuid \<times> day \<times> uuid \<times> int) list" where
  "created_facts ns = (case created ns of (r, s) \<Rightarrow> (r, code_at s (codes_drawn s),
     map (\<lambda>f. (fa_order f, fa_day f, fa_slot f, fa_code f)) (order_facts s),
     map (\<lambda>l. (ol_order l, ol_item l, ol_quantity l)) (stored_lines s),
     map (\<lambda>r. (inv_id r, inv_item r, inv_day r, inv_slot r, inv_reserved r)) (inventory s)))"

lemma created_runs:
  "created_facts [2] = (Inr ''id-1'', 42, [(''id-1'', 20000, ''noon'', None)], [(''id-1'', ''rice'', 2)], [(''id-0'', ''rice'', 20000, ''noon'', 2)])"
  "created_facts [2, 3] = (Inr ''id-1'', 42, [(''id-1'', 20000, ''noon'', None)], [(''id-1'', ''rice'', 2), (''id-1'', ''rice'', 3)],
     [(''id-0'', ''rice'', 20000, ''noon'', 5)])"
  by code_simp+

definition ordered :: "(exn + uuid \<times> string) \<times> orders_db" where
  "ordered = repository_create (order_for [2]) sample_terms orders_sample"

lemma run_pair: "fst p = x \<Longrightarrow> p = (x, snd p)"
  by (cases p) simp

lemma ordered_run: "fst ordered = Inr (''id-1'', ''0042'')" "inventory (snd ordered) = inventory (snd (created [2]))"
proof -
  obtain s f where s: "created [2] = (Inr ''id-1'', s)" "code_at s (codes_drawn s) = 42" "order_facts s = [f]" "fa_order f = ''id-1''" "fa_code f = None"
    using created_runs(1) by (cases "created [2]") (auto simp: created_facts_def map_eq_Cons_conv)
  have code: "pad_code (42 mod 10000) = ''0042''" by code_simp
  have "assign_code ''id-1'' room (Suc 9) s = (Inr ''0042'', set_code ''id-1'' (\<lambda>f. f\<lparr>fa_room := room, fa_code := Some ''0042''\<rparr>) (s\<lparr>codes_drawn := Suc (codes_drawn s)\<rparr>))" for room
    unfolding assign_step s(2) code Let_def using s(3,4) by (simp add: code_taken_def)
  then have "ensure_order_delivery_metadata ''id-1'' room s = (Inr ''0042'', set_code ''id-1'' (\<lambda>f. f\<lparr>fa_room := room, fa_code := Some ''0042''\<rparr>) (s\<lparr>codes_drawn := Suc (codes_drawn s)\<rparr>))" for room
    using s(3-5) by (simp add: ensure_metadata_app table_simps eval_nat_numeral)
  then have run: "ordered = (Inr (''id-1'', ''0042''), set_code ''id-1'' (\<lambda>f. f\<lparr>fa_room := normalize_room_number (rq_room (order_for [2])), fa_code := Some ''0042''\<rparr>)
      (s\<lparr>codes_drawn := Suc (codes_drawn s)\<rparr>))"
    using s(1) unfolding ordered_def repository_create_def created_def by (simp add: prog_simps)
  show "fst ordered = Inr (''id-1'', ''0042'')" "inventory (snd ordered) = inventory (snd (created [2]))"
    unfolding run s(1) by (simp_all add: set_code_def)
qed


definition leaked :: "(exn + unit) \<times> orders_db" where
  "leaked = release_order ''id-1'' (snd (created [2, 3]))"

lemma leaked_run: "fst leaked = Inr ()" by code_simp


end
