(* ===== verification/Stock.thy ===== *)
theory Stock
  imports Orders
begin

text \<open>
  The stock the orders hold: across creation, payment, expiry and the vendors' changes, what a row of
  the inventory has reserved is what the lines of the pending orders of its day and slot ask for. The
  accounts are kept on the parts of the tables that matter, as plain lists.
\<close>

section \<open>Accounts\<close>

definition quantity_in :: "uuid \<Rightarrow> uuid \<Rightarrow> (uuid \<times> uuid \<times> int) list \<Rightarrow> int" where
  "quantity_in oid item ls = (\<Sum>(a, b, n)\<leftarrow>filter (\<lambda>(a, b, n). a = oid \<and> b = item) ls. n)"

definition held_in ::
  "(uuid \<times> bool) list \<Rightarrow> (uuid \<times> day \<times> uuid) list \<Rightarrow> (uuid \<times> uuid \<times> int) list \<Rightarrow> uuid \<Rightarrow> day \<Rightarrow> uuid \<Rightarrow> int" where
  "held_in os fs ls item d slot =
     (\<Sum>(a, b, c)\<leftarrow>filter (\<lambda>(a, b, c). (a, True) \<in> set os \<and> b = d \<and> c = slot) fs. quantity_in a item ls)"

definition row_key :: "inventory_row \<Rightarrow> uuid \<times> day \<times> uuid" where
  "row_key r = (inv_item r, inv_day r, inv_slot r)"

definition rows_ok :: "inventory_row list \<Rightarrow> bool" where
  "rows_ok rows \<longleftrightarrow> distinct (map inv_id rows) \<and> distinct (map row_key rows) \<and> (\<forall>r\<in>set rows. inventory_check r)"

definition accounts_ok ::
  "(uuid \<times> bool) list \<Rightarrow> (uuid \<times> day \<times> uuid) list \<Rightarrow> (uuid \<times> uuid \<times> int) list \<Rightarrow> inventory_row list \<Rightarrow> uuid set \<Rightarrow> bool" where
  "accounts_ok os fs ls rows ids \<longleftrightarrow> rows_ok rows \<and>
     distinct (map fst os) \<and> distinct (map fst fs) \<and> distinct (map (\<lambda>(a, b, n). (a, b)) ls) \<and>
     fst ` set os \<union> fst ` set fs \<union> fst ` set ls \<union> inv_id ` set rows \<subseteq> ids \<and>
     (\<forall>(a, d, slot)\<in>set fs. \<forall>(b, item, n)\<in>set ls. b = a \<longrightarrow> (item, d, slot) \<in> row_key ` set rows) \<and>
     (\<forall>r\<in>set rows. inv_reserved r = held_in os fs ls (inv_item r) (inv_day r) (inv_slot r))"

lemma same_images: "map f xs = map f ys \<Longrightarrow> x \<in> set xs \<Longrightarrow> \<exists>y\<in>set ys. f y = f x"
  by (metis (no_types) imageE imageI list.set_map)

lemma covered_all:
  "(\<And>a d sl item n. (a, d, sl) \<in> set fs \<Longrightarrow> (a, item, n) \<in> set ls \<Longrightarrow> (item, d, sl) \<in> K) \<Longrightarrow>
   \<forall>(a, d, slot)\<in>set fs. \<forall>(b, item, n)\<in>set ls. b = a \<longrightarrow> (item, d, slot) \<in> K"
  by auto

lemma covered_one:
  "\<forall>(a, d, slot)\<in>set fs. \<forall>(b, item, n)\<in>set ls. b = a \<longrightarrow> (item, d, slot) \<in> K \<Longrightarrow>
   (a, d, sl) \<in> set fs \<Longrightarrow> (a, item, n) \<in> set ls \<Longrightarrow> (item, d, sl) \<in> K"
  by auto

lemma accounts_covered:
  assumes "accounts_ok os fs ls rows ids" "(a, d, slot) \<in> set fs" "(a, item, n) \<in> set ls"
  shows "(item, d, slot) \<in> row_key ` set rows"
proof -
  have "\<forall>(a, d, slot)\<in>set fs. \<forall>(b, item, n)\<in>set ls. b = a \<longrightarrow> (item, d, slot) \<in> row_key ` set rows"
    using assms(1) by (simp add: accounts_ok_def)
  from covered_one [OF this assms(2,3)] show ?thesis .
qed

lemma quantity_append: "quantity_in oid item (ls @ ls') = quantity_in oid item ls + quantity_in oid item ls'"
  by (simp add: quantity_in_def)

lemma quantity_absent: "oid \<notin> fst ` set ls \<Longrightarrow> quantity_in oid item ls = 0"
  unfolding quantity_in_def by (induction ls) auto

lemma quantity_own: "quantity_in oid item (map (Pair oid) its) = (\<Sum>(i, n)\<leftarrow>filter (\<lambda>(i, n). i = item) its. n)"
  unfolding quantity_in_def by (induction its) auto

lemma quantity_other: "a \<noteq> oid \<Longrightarrow> quantity_in a item (map (Pair oid) its) = 0"
  by (rule quantity_absent) auto

lemma held_append_line:
  assumes "oid \<notin> fst ` set fs"
  shows "held_in os fs (ls @ map (Pair oid) its) item d slot = held_in os fs ls item d slot"
  using assms unfolding held_in_def
  by (induction fs) (auto simp: quantity_append quantity_other)

lemma held_append_order:
  assumes "oid \<notin> fst ` set fs"
  shows "held_in (os @ [(oid, b)]) fs ls item d slot = held_in os fs ls item d slot"
  using assms unfolding held_in_def by (induction fs) auto

lemma held_append_facts:
  "held_in os (fs @ [(oid, d', slot')]) ls item d slot =
     held_in os fs ls item d slot + (if (oid, True) \<in> set os \<and> d' = d \<and> slot' = slot then quantity_in oid item ls else 0)"
  by (simp add: held_in_def)

lemma distinct_lines:
  assumes "distinct (map (\<lambda>(a, b, n). (a, b)) ls)" "oid \<notin> fst ` set ls" "distinct (map fst its)"
  shows "distinct (map (\<lambda>(a, b, n). (a, b)) (ls @ map (Pair oid) its))"
proof -
  have "map (\<lambda>(a, b, n). (a, b)) (map (Pair oid) its) = map (Pair oid) (map fst its)" by (induction its) auto
  moreover have "distinct (map (Pair oid) (map fst its))" using assms(3) by (simp add: distinct_map inj_on_def)
  ultimately have "distinct (map (\<lambda>(a, b, n). (a, b)) (map (Pair oid) its))" by (simp only:)
  moreover have "(\<lambda>(a, b, n). (a, b)) ` set ls \<inter> (\<lambda>(a, b, n). (a, b)) ` set (map (Pair oid) its) = {}"
    using assms(2) by (force simp: image_iff)
  ultimately show ?thesis using assms(1) by (simp only: map_append distinct_append set_map)
qed

text \<open>An order is added, with its lines; \<open>b\<close> says that it is pending and holds its stock.\<close>

lemma accounts_add:
  assumes ok: "accounts_ok os fs ls rows ids" and fresh: "oid \<notin> ids" and ids: "insert oid ids \<subseteq> ids'"
    and its: "distinct (map fst its)" "\<forall>(i, n)\<in>set its. (i, d, slot) \<in> row_key ` set rows"
    and rows': "rows_ok rows'" "map inv_id rows' = map inv_id rows" "map row_key rows' = map row_key rows"
    and moved: "\<forall>r'\<in>set rows'. \<exists>r\<in>set rows. row_key r = row_key r' \<and> inv_reserved r' = inv_reserved r +
      (if b \<and> inv_day r = d \<and> inv_slot r = slot then (\<Sum>(i, n)\<leftarrow>filter (\<lambda>(i, n). i = inv_item r) its. n) else 0)"
  shows "accounts_ok (os @ [(oid, b)]) (fs @ [(oid, d, slot)]) (ls @ map (Pair oid) its) rows' ids'"
proof -
  have new: "oid \<notin> fst ` set os" "oid \<notin> fst ` set fs" "oid \<notin> fst ` set ls" using ok fresh by (auto simp: accounts_ok_def)
  have keys: "row_key ` set rows' = row_key ` set rows" "inv_id ` set rows' = inv_id ` set rows"
    using arg_cong [OF rows'(3), of set] arg_cong [OF rows'(2), of set] by simp_all
  have lines: "distinct (map (\<lambda>(a, b, n). (a, b)) (ls @ map (Pair oid) its))"
    using ok new(3) its(1) by (intro distinct_lines) (simp_all add: accounts_ok_def)
  have held: "inv_reserved r' = held_in (os @ [(oid, b)]) (fs @ [(oid, d, slot)]) (ls @ map (Pair oid) its)
      (inv_item r') (inv_day r') (inv_slot r')" if "r' \<in> set rows'" for r'
  proof -
    from moved that obtain r where r: "r \<in> set rows" "row_key r = row_key r'" "inv_reserved r' = inv_reserved r +
      (if b \<and> inv_day r = d \<and> inv_slot r = slot then (\<Sum>(i, n)\<leftarrow>filter (\<lambda>(i, n). i = inv_item r) its. n) else 0)" by blast
    have "inv_reserved r = held_in os fs ls (inv_item r) (inv_day r) (inv_slot r)" using ok r(1) by (simp add: accounts_ok_def)
    with r new show ?thesis
      by (auto simp: held_append_facts held_append_order held_append_line quantity_append quantity_absent quantity_own row_key_def image_iff)
  qed
  have in_rows: "(item, d', sl) \<in> row_key ` set rows"
    if "(a, d', sl) \<in> insert (oid, d, slot) (set fs)" "(a, item, n) \<in> set ls \<union> Pair oid ` set its" for a d' sl item n
  proof (cases "a = oid")
    case True
    with that(1) new(2) have "d' = d \<and> sl = slot" by (force simp: image_iff)
    moreover from True that(2) new(3) have "(item, n) \<in> set its" by (force simp: image_iff)
    ultimately have "d' = d" "sl = slot" "(item, n) \<in> set its" by simp_all
    with its(2) show ?thesis by blast
  next
    case False
    with that have "(a, d', sl) \<in> set fs" "(a, item, n) \<in> set ls" by auto
    with accounts_covered [OF ok] show ?thesis by simp
  qed
  then have covered: "\<forall>(a, d', sl)\<in>set (fs @ [(oid, d, slot)]). \<forall>(c, item, n)\<in>set (ls @ map (Pair oid) its).
      c = a \<longrightarrow> (item, d', sl) \<in> row_key ` set rows'"
    unfolding keys(1) by (rule covered_all) (simp_all add: image_Un)
  show ?thesis
    using ok new ids rows'(1) lines held covered keys(2) unfolding accounts_ok_def by auto
qed

text \<open>A pending order stops holding its stock.\<close>

definition close_order :: "uuid \<Rightarrow> (uuid \<times> bool) list \<Rightarrow> (uuid \<times> bool) list" where
  "close_order oid os = map (\<lambda>(a, b). (a, b \<and> a \<noteq> oid)) os"

lemma close_fst: "map fst (close_order oid os) = map fst os"
  unfolding close_order_def by (induction os) auto

lemma close_member: "(a, True) \<in> set (close_order oid os) \<longleftrightarrow> (a, True) \<in> set os \<and> a \<noteq> oid"
  unfolding close_order_def by (induction os) auto

lemma held_close:
  assumes "distinct (map fst fs)" "(oid, True) \<in> set os"
  shows "held_in (close_order oid os) fs ls item d slot =
    held_in os fs ls item d slot - (if (oid, d, slot) \<in> set fs then quantity_in oid item ls else 0)"
  using assms(1)
proof (induction fs)
  case (Cons f fs)
  obtain a d' slot' where f: "f = (a, d', slot')" by (cases f)
  have step: "held_in os' (f # fs) ls item d slot =
      held_in os' fs ls item d slot + (if (a, True) \<in> set os' \<and> d' = d \<and> slot' = slot then quantity_in a item ls else 0)" for os'
    by (simp add: held_in_def f)
  have "a = oid \<Longrightarrow> (oid, d, slot) \<notin> set fs" using Cons.prems by (force simp: f)
  with Cons assms(2) show ?case unfolding step close_member by (auto simp: f)
qed (simp add: held_in_def)

lemma accounts_close:
  assumes ok: "accounts_ok os fs ls rows ids" and pending: "(oid, True) \<in> set os" and ids: "ids \<subseteq> ids'"
    and rows': "rows_ok rows'" "map inv_id rows' = map inv_id rows" "map row_key rows' = map row_key rows"
    and moved: "\<forall>r'\<in>set rows'. \<exists>r\<in>set rows. row_key r = row_key r' \<and> inv_reserved r' = inv_reserved r -
      (if (oid, inv_day r, inv_slot r) \<in> set fs then quantity_in oid (inv_item r) ls else 0)"
  shows "accounts_ok (close_order oid os) fs ls rows' ids'"
proof -
  have keys: "row_key ` set rows' = row_key ` set rows" "inv_id ` set rows' = inv_id ` set rows"
    using arg_cong [OF rows'(3), of set] arg_cong [OF rows'(2), of set] by simp_all
  have "fst ` set (close_order oid os) = fst ` set os" using arg_cong [OF close_fst, of set oid os] by simp
  moreover have "inv_reserved r' = held_in (close_order oid os) fs ls (inv_item r') (inv_day r') (inv_slot r')" if "r' \<in> set rows'" for r'
  proof -
    from moved that obtain r where r: "r \<in> set rows" "row_key r = row_key r'" "inv_reserved r' = inv_reserved r -
      (if (oid, inv_day r, inv_slot r) \<in> set fs then quantity_in oid (inv_item r) ls else 0)" by blast
    have "inv_reserved r = held_in os fs ls (inv_item r) (inv_day r) (inv_slot r)" using ok r(1) by (simp add: accounts_ok_def)
    with r ok pending show ?thesis by (simp add: held_close row_key_def accounts_ok_def)
  qed
  ultimately show ?thesis using ok ids rows'(1) keys unfolding accounts_ok_def close_fst by auto
qed

text \<open>The rows change and what they have reserved does not; new rows hold nothing.\<close>

lemma accounts_rows:
  assumes ok: "accounts_ok os fs ls rows ids" and ids: "ids \<subseteq> ids'"
    and rows': "rows_ok rows'" "map inv_id rows' = map inv_id rows" "map row_key rows' = map row_key rows"
    and kept: "\<forall>r'\<in>set rows'. \<exists>r\<in>set rows. row_key r = row_key r' \<and> inv_reserved r' = inv_reserved r"
  shows "accounts_ok os fs ls rows' ids'"
proof -
  have keys: "row_key ` set rows' = row_key ` set rows" "inv_id ` set rows' = inv_id ` set rows"
    using arg_cong [OF rows'(3), of set] arg_cong [OF rows'(2), of set] by simp_all
  have "inv_reserved r' = held_in os fs ls (inv_item r') (inv_day r') (inv_slot r')" if "r' \<in> set rows'" for r'
    using that ok kept by (fastforce simp: accounts_ok_def row_key_def)
  then show ?thesis using ok ids rows'(1) keys unfolding accounts_ok_def by auto
qed

lemma accounts_new_row:
  assumes ok: "accounts_ok os fs ls rows ids" and new: "row_key r \<notin> row_key ` set rows" "inv_id r \<notin> ids"
    and r: "inventory_check r" "inv_reserved r = 0" and ids: "insert (inv_id r) ids \<subseteq> ids'"
  shows "accounts_ok os fs ls (rows @ [r]) ids'"
proof -
  have "held_in os fs ls (inv_item r) (inv_day r) (inv_slot r) = 0"
  proof -
    have "quantity_in a (inv_item r) ls = 0" if "(a, inv_day r, inv_slot r) \<in> set fs" for a
    proof -
      have "(a, inv_item r) \<notin> (\<lambda>(a, b, n). (a, b)) ` set ls"
        using ok new(1) that by (fastforce simp: accounts_ok_def row_key_def)
      then show ?thesis unfolding quantity_in_def by (induction ls) auto
    qed
    then show ?thesis unfolding held_in_def by (induction fs) auto
  qed
  with assms show ?thesis unfolding accounts_ok_def rows_ok_def by auto
qed

section \<open>The parts of the tables\<close>

definition orders_part :: "'z order_db_scheme \<Rightarrow> (uuid \<times> bool) list" where
  "orders_part s = map (\<lambda>r. (ord_id r, ord_status r = Pending_Payment)) (odb_orders s)"

definition facts_part :: "'z orders_db_scheme \<Rightarrow> (uuid \<times> day \<times> uuid) list" where
  "facts_part s = map (\<lambda>f. (fa_order f, fa_day f, fa_slot f)) (order_facts s)"

definition lines_part :: "'z orders_db_scheme \<Rightarrow> (uuid \<times> uuid \<times> int) list" where
  "lines_part s = map (\<lambda>l. (ol_order l, ol_item l, ol_quantity l)) (stored_lines s)"

definition stock_ok :: "'z orders_db_scheme \<Rightarrow> bool" where
  "stock_ok s \<longleftrightarrow> inj (db_uuid s) \<and> accounts_ok (orders_part s) (facts_part s) (lines_part s) (inventory s) (drawn_ids s)"

text \<open>Programs that leave all of them alone, but for the rows of the inventory.\<close>

definition same_parts :: "'z orders_db_scheme \<Rightarrow> 'z orders_db_scheme \<Rightarrow> bool" where
  "same_parts s t \<longleftrightarrow> orders_part t = orders_part s \<and> facts_part t = facts_part s \<and> lines_part t = lines_part s \<and>
     db_uuid t = db_uuid s \<and> db_drawn s \<le> db_drawn t"

definition same_stock :: "'z orders_db_scheme \<Rightarrow> 'z orders_db_scheme \<Rightarrow> bool" where
  "same_stock s t \<longleftrightarrow> same_parts s t \<and> inventory t = inventory s"

lemmas part_defs = orders_part_def facts_part_def lines_part_def

lemma same_stock_refl: "same_stock s s"
  by (simp add: same_stock_def same_parts_def)

lemma same_parts_trans: "same_parts s t \<Longrightarrow> same_parts t u \<Longrightarrow> same_parts s u"
  by (simp add: same_parts_def)

lemma same_stock_trans: "same_stock s t \<Longrightarrow> same_stock t u \<Longrightarrow> same_stock s u"
  by (auto simp: same_stock_def intro: same_parts_trans)

lemma same_ids: "same_parts s t \<Longrightarrow> drawn_ids s \<subseteq> drawn_ids t"
  by (simp add: same_parts_def drawn_ids_mono)

lemma stock_ok_same: "stock_ok s \<Longrightarrow> same_stock s t \<Longrightarrow> stock_ok t"
  using same_ids [of s t] unfolding stock_ok_def same_stock_def same_parts_def accounts_ok_def by auto

lemma same_stock_modify:
  assumes "\<And>t. odb_orders (f t) = odb_orders t \<and> facts_part (f t) = facts_part t \<and> stored_lines (f t) = stored_lines t \<and>
    db_uuid (f t) = db_uuid t \<and> db_drawn (f t) = db_drawn t \<and> inventory (f t) = inventory t"
  shows "preserves (same_stock s) (modify f)"
  by (rule preserves_modify) (use assms in \<open>simp add: same_stock_def same_parts_def orders_part_def lines_part_def\<close>)

lemma draw_same_stock: "preserves (same_stock s) draw_uuid"
  by (rule preservesI) (simp add: draw_uuid_def same_stock_def same_parts_def part_defs)

lemma emit_same_stock: "preserves (same_stock s) (emit ty agg aid)"
  unfolding emit_def by (rule same_stock_modify) (simp add: facts_part_def)

lemma claim_same_stock: "preserves (same_stock s) (claim_key customer key hash)"
  unfolding claim_key_def
  by (auto intro!: preserves_intros same_stock_modify split: option.split prod.split) (simp add: facts_part_def)

lemma settle_same_stock: "preserves (same_stock s) (settle_key customer key oid)"
  unfolding settle_key_def by (rule same_stock_modify) (simp add: facts_part_def)

lemma ensure_wallet_same_stock: "preserves (same_stock s) (ensure_customer_wallet user)"
  unfolding ensure_customer_wallet_def
  by (auto intro!: preserves_intros same_stock_modify draw_same_stock emit_same_stock split: option.split) (simp add: facts_part_def)

lemma append_same_stock: "preserves (same_stock s) (append_wallet_ledger_entry wid ty amount oid reference act reason md)"
  unfolding append_wallet_ledger_entry_def
  by (auto intro!: preserves_intros same_stock_modify draw_same_stock to_int4_inv split: option.split) (simp_all add: facts_part_def)

lemma facts_update: "(\<And>f. fa_order (g f) = fa_order f \<and> fa_day (g f) = fa_day f \<and> fa_slot (g f) = fa_slot f) \<Longrightarrow>
   map (\<lambda>f. (fa_order f, fa_day f, fa_slot f)) (update_where P g fs) = map (\<lambda>f. (fa_order f, fa_day f, fa_slot f)) fs"
  by (rule map_update_where) simp

lemma set_code_same_stock:
  "(\<And>f. fa_order (g f) = fa_order f \<and> fa_day (g f) = fa_day f \<and> fa_slot (g f) = fa_slot f) \<Longrightarrow> same_stock s (set_code oid g s)"
  by (simp add: same_stock_def same_parts_def part_defs set_code_def facts_update)

lemma assign_same_stock: "same_stock s (snd (assign_code oid room n s))"
proof (induction n arbitrary: s)
  case (Suc n)
  let ?s = "s\<lparr>codes_drawn := Suc (codes_drawn s)\<rparr>"
  have s': "same_stock s ?s" by (simp add: same_stock_def same_parts_def part_defs)
  have "same_stock ?s (set_code oid (\<lambda>f. f\<lparr>fa_room := room, fa_code := c\<rparr>) ?s)" for c
    by (rule set_code_same_stock) simp
  with s' Suc.IH [of ?s] show ?case by (auto simp: assign_step Let_def intro: same_stock_trans)
qed (simp add: basic_app same_stock_refl)

lemma ensure_metadata_same_stock: "same_stock s (snd (ensure_order_delivery_metadata oid room s))"
proof -
  have "same_stock s (set_code oid (\<lambda>f. f\<lparr>fa_room := room\<rparr>) s)" by (rule set_code_same_stock) simp
  then show ?thesis by (simp add: ensure_metadata_app assign_same_stock split: option.split)
qed

section \<open>Reserving the lines\<close>

definition reserve_row :: "order_request \<Rightarrow> request_line \<Rightarrow> inventory_row \<Rightarrow> inventory_row" where
  "reserve_row q l r = (if row_key r = (rl_item l, rq_day q, rq_slot q)
     then r\<lparr>inv_reserved := inv_reserved r + rl_quantity l, inv_version := inv_version r + 1\<rparr> else r)"

lemma reserve_row_keys: "inv_id (reserve_row q l r) = inv_id r" "row_key (reserve_row q l r) = row_key r"
  by (simp_all add: reserve_row_def row_key_def)

lemma rows_ok_update:
  assumes "rows_ok rows" "\<forall>r\<in>set rows. P r \<longrightarrow> inventory_check (f r)" "\<And>r. inv_id (f r) = inv_id r \<and> row_key (f r) = row_key r"
  shows "rows_ok (update_where P f rows)" "map inv_id (update_where P f rows) = map inv_id rows"
    "map row_key (update_where P f rows) = map row_key rows"
proof -
  show ids: "map inv_id (update_where P f rows) = map inv_id rows" "map row_key (update_where P f rows) = map row_key rows"
    using assms(3) by (simp_all add: map_update_where)
  have "inventory_check x" if "x \<in> set (update_where P f rows)" for x
    using that assms(1,2) by (elim in_update_where) (simp add: rows_ok_def)
  with ids assms(1) show "rows_ok (update_where P f rows)" by (simp add: rows_ok_def)
qed

lemma row_by_key:
  assumes "rows_ok rows" "r \<in> set rows" "x \<in> set rows"
  shows "inv_id x = inv_id r \<longleftrightarrow> row_key x = row_key r"
  using assms unfolding rows_ok_def distinct_map by (metis inj_onD)

lemma check_soup_state: "check_soup v m soup s = (r, t) \<Longrightarrow> t = s"
  by (auto simp: check_soup_def prog_simps split: if_splits option.splits)

lemma reserve_line_Inr:
  assumes run: "reserve_line q l s = (Inr x, t)" and ok: "rows_ok (inventory s)"
  shows "t = s\<lparr>inventory := map (reserve_row q l) (inventory s)\<rparr>" "rows_ok (inventory t)"
    "(rl_item l, rq_day q, rq_slot q) \<in> row_key ` set (inventory s)"
proof -
  obtain m u where cat: "catalog_entry (rq_vendor q) (rl_item l) s = Some (m, u)" "0 < rl_quantity l"
    using run by (cases "catalog_entry (rq_vendor q) (rl_item l) s") (auto simp: reserve_line_def prog_simps split: if_splits)
  define row where "row = find (\<lambda>r. inventory_of (rq_day q) (rq_slot q) (rl_item l) r \<and> inv_active r) (inventory s)"
  let ?sel = "\<lambda>r (s :: 'a orders_db_scheme) x. inv_id x = inv_id (r :: inventory_row)"
  let ?f = "\<lambda>(s :: 'a orders_db_scheme) x. x\<lparr>inv_reserved := inv_reserved x + rl_quantity l, inv_version := inv_version x + 1\<rparr>"
  obtain w where soup: "check_soup (rq_vendor q) m (rl_soup l) s = (w, s)"
    using check_soup_state [of "rq_vendor q" m "rl_soup l" s] by (cases "check_soup (rq_vendor q) m (rl_soup l) s") simp
  obtain r where r: "row = Some r" and upd: "update_inventory (?sel r) ?f s = (Inr (), t)"
    using run cat soup unfolding row_def [symmetric]
    by (cases w; cases row) (auto simp: reserve_line_def prog_simps row_def split: if_splits prod.splits sum.splits)
  from find_SomeD [OF r [unfolded row_def]] have rs: "r \<in> set (inventory s)" "row_key r = (rl_item l, rq_day q, rq_slot q)"
    by (simp_all add: inventory_of_def row_key_def)
  note eff = update_inventory_Inr [OF upd]
  have "update_where (?sel r s) (?f s) (inventory s) = map (reserve_row q l) (inventory s)"
    unfolding update_where_def by (rule map_cong) (simp_all add: reserve_row_def row_by_key [OF ok rs(1)] rs(2))
  with eff(1) show t: "t = s\<lparr>inventory := map (reserve_row q l) (inventory s)\<rparr>" by simp
  show "rows_ok (inventory t)"
    unfolding eff(1) using rows_ok_update(1) [OF ok eff(2)] by (simp add: row_key_def)
  show "(rl_item l, rq_day q, rq_slot q) \<in> row_key ` set (inventory s)" using rs by (metis imageI)
qed

definition reserve_all :: "order_request \<Rightarrow> request_line list \<Rightarrow> inventory_row \<Rightarrow> inventory_row" where
  "reserve_all q ls r = fold (reserve_row q) ls r"

lemma reserve_all_keys: "inv_id (reserve_all q ls r) = inv_id r" "row_key (reserve_all q ls r) = row_key r"
  unfolding reserve_all_def by (induction ls arbitrary: r) (simp_all add: reserve_row_keys)

lemma reserve_all_reserved:
  "inv_reserved (reserve_all q ls r) = inv_reserved r +
     (if inv_day r = rq_day q \<and> inv_slot r = rq_slot q
      then (\<Sum>(i, n)\<leftarrow>filter (\<lambda>(i, n). i = inv_item r) (map (\<lambda>l. (rl_item l, rl_quantity l)) ls). n) else 0)"
proof (induction ls arbitrary: r)
  case (Cons l ls)
  have "row_key (reserve_row q l r) = row_key r" by (rule reserve_row_keys)
  then have "inv_day (reserve_row q l r) = inv_day r" "inv_slot (reserve_row q l r) = inv_slot r" "inv_item (reserve_row q l r) = inv_item r"
    by (simp_all add: row_key_def)
  with Cons [of "reserve_row q l r"] show ?case by (auto simp: reserve_all_def reserve_row_def row_key_def)
qed (simp add: reserve_all_def)

lemma add_line_Inr:
  assumes "add_line q acc l s = (Inr x, t)"
  obtains y where "reserve_line q l s = (Inr y, t)"
proof -
  obtain y u where y: "reserve_line q l s = (Inr y, u)" and rest: "(case y of (m, v) \<Rightarrow>
      bindM (to_int4 (mi_price m * rl_quantity l)) (\<lambda>amount. bindM (to_int4 (fst acc + amount)) (\<lambda>subtotal.
      bindM (to_int4 (snd acc + (if ut_spoon v then rl_quantity l else 0))) (\<lambda>spoons. ret (subtotal, spoons))))) u = (Inr x, t)"
    using assms unfolding add_line_def by (rule bindM_InrE)
  from rest have "t = u" by (auto simp: prog_simps to_int4_app split: prod.splits if_splits)
  with y that show ?thesis by simp
qed

lemma add_lines_Inr:
  "foldM (add_line q) acc ls s = (Inr x, t) \<Longrightarrow> rows_ok (inventory s) \<Longrightarrow>
   t = s\<lparr>inventory := map (reserve_all q ls) (inventory s)\<rparr> \<and> rows_ok (inventory t) \<and>
   (\<forall>l\<in>set ls. (rl_item l, rq_day q, rq_slot q) \<in> row_key ` set (inventory s))"
proof (induction ls arbitrary: acc s)
  case Nil
  then show ?case by (simp add: basic_app reserve_all_def [abs_def])
next
  case (Cons l ls)
  from Cons.prems(1) obtain acc' u where step: "add_line q acc l s = (Inr acc', u)" and rest: "foldM (add_line q) acc' ls u = (Inr x, t)"
    by (auto elim: bindM_InrE)
  from add_line_Inr [OF step] obtain y where "reserve_line q l s = (Inr y, u)" by blast
  note u = reserve_line_Inr [OF this Cons.prems(2)]
  note t = Cons.IH [OF rest u(2)]
  have keys: "row_key ` set (inventory u) = row_key ` set (inventory s)"
    unfolding u(1) by (simp add: image_image reserve_row_keys)
  have "u\<lparr>inventory := map (reserve_all q ls) (inventory u)\<rparr> = s\<lparr>inventory := map (reserve_all q (l # ls)) (inventory s)\<rparr>"
    unfolding u(1) by (simp add: reserve_all_def [abs_def] o_def)
  with t u(3) show ?case unfolding keys by (metis set_ConsD)
qed

section \<open>Reading parts of an order\<close>

lemma delivery_fee_reads: "preserves I (delivery_fee_of q)"
  unfolding delivery_fee_of_def by (auto intro!: preserves_intros to_int4_inv platform_setting_int_inv split: option.split)

lemma discount_reads: "preserves I (discount_of customer code n)"
  unfolding discount_of_def Let_def by (auto intro!: preserves_intros to_int4_inv split: option.split prod.split discount_type.split)

lemma amount_reads: "preserves I (total_of tm n fee service d)"
  unfolding total_of_def by (auto intro!: preserves_intros to_int4_inv split: option.split)

definition reserved_for :: "order_request \<Rightarrow> 'z orders_db_scheme \<Rightarrow> 'z orders_db_scheme \<Rightarrow> bool" where
  "reserved_for q s t \<longleftrightarrow> t = s\<lparr>inventory := map (reserve_all q (rq_items q)) (inventory s)\<rparr> \<and> rows_ok (inventory t) \<and>
     (\<forall>l\<in>set (rq_items q). (rl_item l, rq_day q, rq_slot q) \<in> row_key ` set (inventory s))"

lemma price_reserves:
  assumes "rows_ok (inventory s)"
  shows "gives (price_and_reserve q tm) s (\<lambda>c. reserved_for q s)"
proof -
  have lines: "gives (reserve_lines q) s P" if "\<And>x t. reserved_for q s t \<Longrightarrow> P x t" for P
    unfolding reserve_lines_def using add_lines_Inr [OF _ assms] by (intro givesI that) (simp add: reserved_for_def)
  show ?thesis
    unfolding price_and_reserve_def
    by (intro gives_intros gives_reads [OF delivery_fee_reads] gives_reads [OF discount_reads] gives_reads [OF amount_reads] lines)
qed

section \<open>Moving an order's lines\<close>

lemma quantity_line:
  "distinct (map (\<lambda>l. (ol_order l, ol_item l)) ls) \<Longrightarrow>
   quantity_in oid item (map (\<lambda>l. (ol_order l, ol_item l, ol_quantity l)) ls) =
     (case find (\<lambda>l. ol_order l = oid \<and> ol_item l = item) ls of None \<Rightarrow> 0 | Some l \<Rightarrow> ol_quantity l)"
proof (induction ls)
  case (Cons l ls)
  have step: "quantity_in oid item (map (\<lambda>l. (ol_order l, ol_item l, ol_quantity l)) (l # ls)) =
      (if ol_order l = oid \<and> ol_item l = item then ol_quantity l else 0) +
      quantity_in oid item (map (\<lambda>l. (ol_order l, ol_item l, ol_quantity l)) ls)" by (simp add: quantity_in_def)
  show ?case
  proof (cases "ol_order l = oid \<and> ol_item l = item")
    case True
    have "find (\<lambda>l. ol_order l = oid \<and> ol_item l = item) ls = None"
      using Cons.prems True by (force simp: find_None_iff image_iff)
    with Cons True show ?thesis unfolding step by simp
  qed (use Cons step in auto)
qed (simp add: quantity_in_def)

lemma quantity_line_for:
  assumes "distinct (map (\<lambda>(a, b, n). (a, b)) (lines_part s))"
  shows "quantity_in oid (inv_item r) (lines_part s) = (case line_for oid s r of None \<Rightarrow> 0 | Some l \<Rightarrow> ol_quantity l)"
  using assms quantity_line [of "stored_lines s" oid "inv_item r"] unfolding lines_part_def line_for_def by (simp add: o_def)

definition keeps_row :: "int \<Rightarrow> (int \<Rightarrow> inventory_row \<Rightarrow> inventory_row) \<Rightarrow> bool" where
  "keeps_row k g \<longleftrightarrow> (\<forall>n r. inv_id (g n r) = inv_id r \<and> row_key (g n r) = row_key r \<and> inv_reserved (g n r) = inv_reserved r - k * n)"

definition taken_off :: "int \<Rightarrow> order_facts \<Rightarrow> (uuid \<times> uuid \<times> int) list \<Rightarrow> inventory_row \<Rightarrow> inventory_row \<Rightarrow> bool" where
  "taken_off k f ls r r' \<longleftrightarrow> row_key r = row_key r' \<and> inv_reserved r' = inv_reserved r -
     k * (if inv_day r = fa_day f \<and> inv_slot r = fa_slot f then quantity_in (fa_order f) (inv_item r) ls else 0)"

definition moved_off :: "int \<Rightarrow> order_facts \<Rightarrow> 'z orders_db_scheme \<Rightarrow> 'z orders_db_scheme \<Rightarrow> bool" where
  "moved_off k f s t \<longleftrightarrow> (\<exists>rows. t = s\<lparr>inventory := rows\<rparr>) \<and> rows_ok (inventory t) \<and>
     map inv_id (inventory t) = map inv_id (inventory s) \<and> map row_key (inventory t) = map row_key (inventory s) \<and>
     (\<forall>r'\<in>set (inventory t). \<exists>r\<in>set (inventory s). taken_off k f (lines_part s) r r')"

lemma moved_counters:
  assumes ok: "rows_ok (inventory s)" "distinct (map (\<lambda>(a, b, n). (a, b)) (lines_part s))" and g: "keeps_row k g"
  shows "gives (move_counters f g) s (\<lambda>_. moved_off k f s)"
proof (rule givesI)
  fix x t
  let ?sel = "\<lambda>(s :: 'a orders_db_scheme) r. inv_day r = fa_day f \<and> inv_slot r = fa_slot f \<and> line_for (fa_order f) s r \<noteq> None"
  let ?f = "\<lambda>(s :: 'a orders_db_scheme) r. (g (ol_quantity (the (line_for (fa_order f) s r))) r)\<lparr>inv_version := inv_version r + 1\<rparr>"
  assume "move_counters f g s = (Inr x, t)"
  then have run: "update_inventory ?sel ?f s = (Inr (), t)" by (simp add: move_counters_def)
  note eff = update_inventory_Inr [OF run]
  have keeps: "inv_id (?f s r) = inv_id r \<and> row_key (?f s r) = row_key r" for r
    using g by (simp add: keeps_row_def row_key_def)
  note rows = rows_ok_update [OF ok(1) eff(2) keeps]
  have "\<exists>r\<in>set (inventory s). taken_off k f (lines_part s) r r'" if "r' \<in> set (inventory t)" for r'
  proof -
    from that have "r' \<in> set (update_where (?sel s) (?f s) (inventory s))" by (simp add: eff(1))
    then obtain r where r: "r \<in> set (inventory s)" "r' = (if ?sel s r then ?f s r else r)" by (rule in_update_where)
    have reserved: "inv_reserved (?f s r) = inv_reserved r - k * ol_quantity (the (line_for (fa_order f) s r))"
      using g by (simp add: keeps_row_def)
    have "taken_off k f (lines_part s) r r'"
    proof (cases "?sel s r")
      case True
      then show ?thesis using r(2) keeps [of r] reserved by (auto simp: taken_off_def quantity_line_for [OF ok(2)])
    next
      case False
      then show ?thesis using r(2) by (auto simp: taken_off_def quantity_line_for [OF ok(2)])
    qed
    with r(1) show ?thesis by blast
  qed
  with rows show "moved_off k f s t" unfolding moved_off_def by (auto simp: eff(1))
qed

lemma sell_moves: "keeps_row 1 (\<lambda>n r. r\<lparr>inv_reserved := inv_reserved r - n, inv_sold := inv_sold r + n\<rparr>)"
  by (simp add: keeps_row_def row_key_def)

lemma release_moves: "keeps_row 1 (\<lambda>n r. r\<lparr>inv_reserved := inv_reserved r - n\<rparr>)"
  by (simp add: keeps_row_def row_key_def)

lemma late_moves: "keeps_row 0 (\<lambda>n r. r\<lparr>inv_sold := inv_sold r + n,
     inv_adjusted := inv_adjusted r + max 0 (inv_reserved r + inv_sold r + n - (inv_total r + inv_adjusted r))\<rparr>)"
  by (simp add: keeps_row_def row_key_def)

lemmas moves = moved_counters [OF _ _ sell_moves, folded sell_reserved_def]
  moved_counters [OF _ _ release_moves, folded release_reserved_def]
  moved_counters [OF _ _ late_moves, folded sell_late_def]

section \<open>A new order\<close>

definition wanted :: "order_request \<Rightarrow> (uuid \<times> int) list" where
  "wanted q = map (\<lambda>l. (rl_item l, rl_quantity l)) (rq_items q)"

text \<open>The tables with the order's row, and with its facts and lines.\<close>

definition placing :: "bool \<Rightarrow> order_request \<Rightarrow> 'z orders_db_scheme \<Rightarrow> uuid \<Rightarrow> 'z orders_db_scheme \<Rightarrow> bool" where
  "placing b q s oid t \<longleftrightarrow> orders_part t = orders_part s @ [(oid, b)] \<and> facts_part t = facts_part s \<and> lines_part t = lines_part s \<and>
     inventory t = map (reserve_all q (rq_items q)) (inventory s) \<and> db_uuid t = db_uuid s \<and> insert oid (drawn_ids s) \<subseteq> drawn_ids t"

definition placed :: "bool \<Rightarrow> order_request \<Rightarrow> 'z orders_db_scheme \<Rightarrow> uuid \<Rightarrow> 'z orders_db_scheme \<Rightarrow> bool" where
  "placed b q s oid t \<longleftrightarrow> orders_part t = orders_part s @ [(oid, b)] \<and> facts_part t = facts_part s @ [(oid, rq_day q, rq_slot q)] \<and>
     lines_part t = lines_part s @ map (Pair oid) (wanted q) \<and>
     inventory t = map (reserve_all q (rq_items q)) (inventory s) \<and> db_uuid t = db_uuid s \<and> insert oid (drawn_ids s) \<subseteq> drawn_ids t"

lemma placing_same: "placing b q s oid t \<Longrightarrow> same_stock t u \<Longrightarrow> placing b q s oid u"
  using same_ids [of t u] unfolding placing_def same_stock_def same_parts_def by fastforce

lemma placed_same: "placed b q s oid t \<Longrightarrow> same_stock t u \<Longrightarrow> placed b q s oid u"
  using same_ids [of t u] unfolding placed_def same_stock_def same_parts_def by fastforce

lemma gives_same: "preserves (same_stock s) m \<Longrightarrow> (\<And>x t. same_stock s t \<Longrightarrow> P x t) \<Longrightarrow> gives m s P"
  by (rule gives_keeps [where I = "same_stock s"]) (simp_all add: same_stock_refl)

lemma line_stored:
  "(\<And>r. stored_line_of oid l s = Some r \<Longrightarrow> P () (s\<lparr>stored_lines := stored_lines s @ [r]\<rparr>)) \<Longrightarrow> gives (store_line oid l) s P"
  unfolding store_line_def by (intro gives_intros) auto

lemma lines_stored:
  "gives (for_each (store_line oid) ls) s (\<lambda>_ t. lines_part t = lines_part s @ map (Pair oid) (map (\<lambda>l. (rl_item l, rl_quantity l)) ls) \<and>
     orders_part t = orders_part s \<and> facts_part t = facts_part s \<and> inventory t = inventory s \<and> db_uuid t = db_uuid s \<and> db_drawn t = db_drawn s)"
proof (induction ls arbitrary: s)
  case Nil
  then show ?case by (simp add: gives_def basic_app)
next
  case (Cons l ls)
  have "gives (for_each (store_line oid) ls) (s\<lparr>stored_lines := stored_lines s @ [r]\<rparr>) (\<lambda>_ t.
      lines_part t = lines_part s @ map (Pair oid) (map (\<lambda>l. (rl_item l, rl_quantity l)) (l # ls)) \<and>
      orders_part t = orders_part s \<and> facts_part t = facts_part s \<and> inventory t = inventory s \<and> db_uuid t = db_uuid s \<and> db_drawn t = db_drawn s)"
    if "stored_line_of oid l s = Some r" for r
  proof -
    have "ol_order r = oid \<and> ol_item r = rl_item l \<and> ol_quantity r = rl_quantity l"
      using that by (auto simp: stored_line_of_def bind_eq_Some_conv)
    then show ?thesis
      by (intro gives_weaken [OF Cons.IH]) (simp add: lines_part_def orders_part_def facts_part_def)
  qed
  then show ?case unfolding for_each.simps by (intro gives_thenM line_stored)
qed

lemma order_stored:
  assumes "placing b q s oid t"
  shows "gives (store_order oid q tm method c) t (\<lambda>_. placed b q s oid)"
  unfolding store_order_def
  by (intro gives_intros gives_weaken [OF lines_stored])
    (use assms in \<open>auto simp: placing_def placed_def wanted_def orders_part_def facts_part_def lines_part_def facts_of_def drawn_ids_def\<close>)

definition reserving :: "order_request \<Rightarrow> 'z orders_db_scheme \<Rightarrow> 'z orders_db_scheme \<Rightarrow> bool" where
  "reserving q s t \<longleftrightarrow> orders_part t = orders_part s \<and> facts_part t = facts_part s \<and> lines_part t = lines_part s \<and>
     inventory t = map (reserve_all q (rq_items q)) (inventory s) \<and> db_uuid t = db_uuid s \<and> db_drawn s \<le> db_drawn t"

lemma reserved_reserving: "reserved_for q s t \<Longrightarrow> reserving q s t"
  by (auto simp: reserved_for_def reserving_def part_defs)

lemma reserving_same: "reserving q s t \<Longrightarrow> same_stock t u \<Longrightarrow> reserving q s u"
  unfolding reserving_def same_stock_def same_parts_def by simp

lemma inserted:
  assumes "reserving q s t" "oid = db_uuid t (db_drawn t)" "st = Pending_Payment \<longleftrightarrow> b"
  shows "placing b q s oid (insert_order oid number customer campus st expires reason (t\<lparr>db_drawn := Suc (db_drawn t)\<rparr>))"
  using assms by (auto simp: reserving_def placing_def orders_part_def facts_part_def lines_part_def insert_order_def drawn_ids_def lessThan_Suc)


lemma stock_ok_placed:
  assumes ok: "stock_ok s" and fresh: "oid \<notin> drawn_ids s" and items: "distinct (map rl_item (rq_items q))"
    and parts: "orders_part t = orders_part s @ [(oid, b)]" "facts_part t = facts_part s @ [(oid, rq_day q, rq_slot q)]"
      "lines_part t = lines_part s @ map (Pair oid) (wanted q)" "db_uuid t = db_uuid s" "insert oid (drawn_ids s) \<subseteq> drawn_ids t"
    and rows: "\<forall>l\<in>set (rq_items q). (rl_item l, rq_day q, rq_slot q) \<in> row_key ` set (inventory s)"
      "rows_ok (inventory t)" "map inv_id (inventory t) = map inv_id (inventory s)" "map row_key (inventory t) = map row_key (inventory s)"
    and moved: "\<forall>r'\<in>set (inventory t). \<exists>r\<in>set (inventory s). row_key r = row_key r' \<and> inv_reserved r' = inv_reserved r +
      (if b \<and> inv_day r = rq_day q \<and> inv_slot r = rq_slot q then (\<Sum>(i, n)\<leftarrow>filter (\<lambda>(i, n). i = inv_item r) (wanted q). n) else 0)"
  shows "stock_ok t"
proof -
  have "distinct (map fst (wanted q))" using items by (simp add: wanted_def o_def)
  moreover have "\<forall>(i, n)\<in>set (wanted q). (i, rq_day q, rq_slot q) \<in> row_key ` set (inventory s)" using rows(1) by (auto simp: wanted_def)
  moreover have "accounts_ok (orders_part s) (facts_part s) (lines_part s) (inventory s) (drawn_ids s)" using ok by (simp add: stock_ok_def)
  ultimately have "accounts_ok (orders_part t) (facts_part t) (lines_part t) (inventory t) (drawn_ids t)"
    unfolding parts(1-3) using accounts_add [OF _ fresh parts(5) _ _ rows(2-4) moved] by blast
  with ok parts(4) show ?thesis by (simp add: stock_ok_def)
qed

lemma reserved_rows:
  "map inv_id (map (reserve_all q (rq_items q)) rows) = map inv_id rows"
    "map row_key (map (reserve_all q (rq_items q)) rows) = map row_key rows"
    "\<forall>r'\<in>set (map (reserve_all q (rq_items q)) rows). \<exists>r\<in>set rows. row_key r = row_key r' \<and> inv_reserved r' = inv_reserved r +
      (if inv_day r = rq_day q \<and> inv_slot r = rq_slot q then (\<Sum>(i, n)\<leftarrow>filter (\<lambda>(i, n). i = inv_item r) (wanted q). n) else 0)"
proof -
  show "map inv_id (map (reserve_all q (rq_items q)) rows) = map inv_id rows"
    "map row_key (map (reserve_all q (rq_items q)) rows) = map row_key rows"
    by (simp_all add: o_def reserve_all_keys)
  show "\<forall>r'\<in>set (map (reserve_all q (rq_items q)) rows). \<exists>r\<in>set rows. row_key r = row_key r' \<and> inv_reserved r' = inv_reserved r +
      (if inv_day r = rq_day q \<and> inv_slot r = rq_slot q then (\<Sum>(i, n)\<leftarrow>filter (\<lambda>(i, n). i = inv_item r) (wanted q). n) else 0)"
    unfolding set_map wanted_def by (intro ballI, elim imageE) (auto simp: reserve_all_keys reserve_all_reserved)
qed

lemma pending_placed:
  assumes "stock_ok s" "oid \<notin> drawn_ids s" "distinct (map rl_item (rq_items q))" "reserved_for q s u" "placed True q s oid t"
  shows "stock_ok t"
proof -
  have ok: "rows_ok (map (reserve_all q (rq_items q)) (inventory s))"
    "\<forall>l\<in>set (rq_items q). (rl_item l, rq_day q, rq_slot q) \<in> row_key ` set (inventory s)" using assms(4) by (auto simp: reserved_for_def)
  have t: "orders_part t = orders_part s @ [(oid, True)]" "facts_part t = facts_part s @ [(oid, rq_day q, rq_slot q)]"
      "lines_part t = lines_part s @ map (Pair oid) (wanted q)" "db_uuid t = db_uuid s" "insert oid (drawn_ids s) \<subseteq> drawn_ids t"
      "inventory t = map (reserve_all q (rq_items q)) (inventory s)" using assms(5) by (simp_all only: placed_def)
  have moved: "\<forall>r'\<in>set (inventory t). \<exists>r\<in>set (inventory s). row_key r = row_key r' \<and> inv_reserved r' = inv_reserved r +
      (if True \<and> inv_day r = rq_day q \<and> inv_slot r = rq_slot q then (\<Sum>(i, n)\<leftarrow>filter (\<lambda>(i, n). i = inv_item r) (wanted q). n) else 0)"
    unfolding t(6) simp_thms by (rule reserved_rows)
  show ?thesis
    by (rule stock_ok_placed [OF assms(1-3) t(1-5) ok(2) _ _ _ moved]) (simp_all only: t(6) ok(1) reserved_rows)
qed

text \<open>An order that is paid from the wallet: what its lines reserve is sold at once.\<close>

lemma sold_placed:
  assumes ok: "stock_ok s" "oid \<notin> drawn_ids s" "distinct (map rl_item (rq_items q))" and placed: "placed False q s oid u"
    and keys: "\<forall>l\<in>set (rq_items q). (rl_item l, rq_day q, rq_slot q) \<in> row_key ` set (inventory s)"
    and f: "fa_order f = oid" "fa_day f = rq_day q" "fa_slot f = rq_slot q" and t: "moved_off 1 f u t"
  shows "stock_ok t"
proof -
  note u = placed [unfolded placed_def]
  from t obtain rows where rows: "t = u\<lparr>inventory := rows\<rparr>" by (auto simp: moved_off_def)
  have parts: "orders_part t = orders_part u" "facts_part t = facts_part u" "lines_part t = lines_part u" "db_uuid t = db_uuid u"
    "drawn_ids t = drawn_ids u" by (simp_all add: rows part_defs drawn_ids_def)
  have new: "oid \<notin> fst ` set (lines_part s)" using ok(1,2) by (auto simp: stock_ok_def accounts_ok_def)
  have "\<exists>r\<in>set (inventory s). row_key r = row_key r' \<and> inv_reserved r' = inv_reserved r" if "r' \<in> set (inventory t)" for r'
  proof -
    from t that obtain r where r: "r \<in> set (inventory u)" "taken_off 1 f (lines_part u) r r'" by (auto simp: moved_off_def)
    from r(1) u obtain r0 where r0: "r0 \<in> set (inventory s)" "r = reserve_all q (rq_items q) r0" by auto
    have "row_key r = row_key r0" by (simp add: r0(2) reserve_all_keys)
    then have key: "inv_item r = inv_item r0" "inv_day r = inv_day r0" "inv_slot r = inv_slot r0" by (simp_all add: row_key_def)
    have "quantity_in oid (inv_item r0) (lines_part u) = (\<Sum>(i, n)\<leftarrow>filter (\<lambda>(i, n). i = inv_item r0) (wanted q). n)"
      using u new by (simp add: quantity_append quantity_absent quantity_own)
    then have "inv_reserved r' = inv_reserved r0" using r(2) f reserve_all_reserved [of q "rq_items q" r0]
      by (simp add: taken_off_def key wanted_def r0(2) [symmetric])
    moreover have "row_key r0 = row_key r'" using r(2) by (simp add: taken_off_def r0(2) reserve_all_keys)
    ultimately show ?thesis using r0(1) by auto
  qed
  then have moved: "\<forall>r'\<in>set (inventory t). \<exists>r\<in>set (inventory s). row_key r = row_key r' \<and> inv_reserved r' = inv_reserved r +
      (if False \<and> inv_day r = rq_day q \<and> inv_slot r = rq_slot q then (\<Sum>(i, n)\<leftarrow>filter (\<lambda>(i, n). i = inv_item r) (wanted q). n) else 0)"
    by simp
  have same: "map inv_id (inventory u) = map inv_id (inventory s)" "map row_key (inventory u) = map row_key (inventory s)"
    using u by (simp_all add: o_def reserve_all_keys)
  show ?thesis
    by (rule stock_ok_placed [OF ok _ _ _ _ _ keys _ _ _ moved]) (use u parts same t in \<open>simp_all add: moved_off_def\<close>)
qed

section \<open>Creation\<close>

lemma claimed:
  "stock_ok s \<Longrightarrow> (\<And>x t. stock_ok t \<Longrightarrow> P x t) \<Longrightarrow> gives (claim_key customer key hash) s P"
  by (rule gives_same [OF claim_same_stock]) (simp add: stock_ok_same)

lemma priced:
  assumes "stock_ok s" "\<And>c t. reserved_for q s t \<Longrightarrow> P c t"
  shows "gives (price_and_reserve q tm) s P"
  by (rule gives_weaken [OF price_reserves]) (use assms in \<open>simp_all add: stock_ok_def accounts_ok_def\<close>)

lemma drawn:
  "P (db_uuid s (db_drawn s)) (s\<lparr>db_drawn := Suc (db_drawn s)\<rparr>) \<Longrightarrow> gives draw_uuid s P"
  by (simp add: gives_def draw_uuid_def)

lemma fresh_stock_uuid:
  assumes "stock_ok s" "db_uuid t = db_uuid s" "db_drawn s \<le> db_drawn t"
  shows "db_uuid t (db_drawn t) \<notin> drawn_ids s"
  using assms by (auto simp: stock_ok_def drawn_ids_def dest: injD)

lemma stored_ok:
  assumes "stock_ok s" "reserved_for q s u" "distinct (map rl_item (rq_items q))"
    and "\<And>t. stock_ok t \<Longrightarrow> P () t"
  shows "gives (store_order (db_uuid u (db_drawn u)) q tm method c)
    (insert_order (db_uuid u (db_drawn u)) number customer campus Pending_Payment expires reason (u\<lparr>db_drawn := Suc (db_drawn u)\<rparr>)) P"
proof -
  have "db_uuid u (db_drawn u) \<notin> drawn_ids s" using assms(2) by (intro fresh_stock_uuid [OF assms(1)]) (auto simp: reserved_for_def)
  note ok = pending_placed [OF assms(1) this assms(3,2)]
  have "placing True q s (db_uuid u (db_drawn u)) (insert_order (db_uuid u (db_drawn u)) number customer campus Pending_Payment expires reason
      (u\<lparr>db_drawn := Suc (db_drawn u)\<rparr>))"
    by (rule inserted [OF reserved_reserving [OF assms(2)] refl]) simp
  from order_stored [OF this] show ?thesis by (rule gives_weaken) (use ok assms(4) in simp)
qed

lemma emitted: "stock_ok s \<Longrightarrow> (\<And>x t. stock_ok t \<Longrightarrow> P x t) \<Longrightarrow> gives (emit ty agg aid) s P"
  by (rule gives_same [OF emit_same_stock]) (simp add: stock_ok_same)

lemma settled: "stock_ok s \<Longrightarrow> (\<And>x t. stock_ok t \<Longrightarrow> P x t) \<Longrightarrow> gives (settle_key customer key oid) s P"
  by (rule gives_same [OF settle_same_stock]) (simp add: stock_ok_same)

lemma same_stock_payment: "same_stock s (s\<lparr>db_drawn := Suc (db_drawn s), payments := ps\<rparr>)"
  by (simp add: same_stock_def same_parts_def part_defs)

lemmas stock_ok_payment = stock_ok_same [OF _ same_stock_payment]

lemma pending_keeps_stock:
  assumes ok: "stock_ok s" and items: "distinct (map rl_item (rq_items q))"
  shows "gives (create_pending_order q tm) s (\<lambda>_ t. stock_ok t)"
  unfolding create_pending_order_def
  by (intro gives_intros claimed priced drawn stored_ok emitted settled) (auto intro: ok items stock_ok_payment)

lemma wallet_places:
  assumes ok: "stock_ok s" and res: "reserved_for q s u" and P: "\<And>oid t. placing False q s oid t \<Longrightarrow> oid \<notin> drawn_ids s \<Longrightarrow> P oid t"
  shows "gives (pay_order_from_wallet customer campus number due cutoff) u P"
proof -
  have fresh: "db_uuid t (db_drawn t) \<notin> drawn_ids s" if "reserving q s t" for t
    using that by (intro fresh_stock_uuid [OF ok]) (simp_all add: reserving_def)
  have wallet: "gives (ensure_customer_wallet customer) u P" if "\<And>x t. reserving q s t \<Longrightarrow> P x t" for P
    by (rule gives_same [OF ensure_wallet_same_stock]) (rule that [OF reserving_same [OF reserved_reserving [OF res]]])
  have entry: "gives (append_wallet_ledger_entry wid ty amount x reference act reason md) t P"
    if "placing False q s oid t" "\<And>x t. placing False q s oid t \<Longrightarrow> P x t" for wid ty amount x reference act reason md oid P and t :: "'a orders_db_scheme"
    by (rule gives_same [OF append_same_stock]) (rule that(2) [OF placing_same [OF that(1)]])
  have event: "gives (emit ty agg aid) t P"
    if "placing False q s oid t" "\<And>x t. placing False q s oid t \<Longrightarrow> P x t" for ty agg aid oid P and t :: "'a orders_db_scheme"
    by (rule gives_same [OF emit_same_stock]) (rule that(2) [OF placing_same [OF that(1)]])
  show ?thesis
    unfolding pay_order_from_wallet_def
    by (intro gives_intros wallet drawn entry event) (auto intro: inserted dest: fresh intro!: P placing_same [OF _ same_stock_payment])
qed

lemma sold_order:
  assumes ok: "stock_ok s" and res: "reserved_for q s u" and items: "distinct (map rl_item (rq_items q))"
    and oid: "oid \<notin> drawn_ids s" and t: "placed False q s oid t" and P: "\<And>x t. stock_ok t \<Longrightarrow> P x t"
  shows "gives (with_facts oid sell_reserved) t P"
proof -
  have new: "oid \<notin> fst ` set (facts_part s)" using ok oid by (auto simp: stock_ok_def accounts_ok_def)
  have facts: "facts_part t = facts_part s @ [(oid, rq_day q, rq_slot q)]" using t by (simp add: placed_def)
  then have "oid \<in> fst ` set (facts_part t)" by simp
  then have "oid \<in> fa_order ` set (order_facts t)" by (auto simp: facts_part_def)
  then obtain f where f: "lookup_by fa_order oid (order_facts t) = Some f"
    using lookup_by_None [of fa_order oid "order_facts t"] by (cases "lookup_by fa_order oid (order_facts t)") auto
  from lookup_by_Some [OF f] have fs: "fa_order f = oid" "(oid, fa_day f, fa_slot f) \<in> set (facts_part t)"
    by (auto simp: facts_part_def)
  with new have day: "fa_day f = rq_day q" "fa_slot f = rq_slot q" unfolding facts by (auto simp: image_iff)
  have keys: "\<forall>l\<in>set (rq_items q). (rl_item l, rq_day q, rq_slot q) \<in> row_key ` set (inventory s)" using res by (simp add: reserved_for_def)
  have rows: "rows_ok (inventory t)" using res t by (auto simp: reserved_for_def placed_def)
  have lines: "distinct (map (\<lambda>(a, b, n). (a, b)) (lines_part t))"
  proof -
    have "lines_part t = lines_part s @ map (Pair oid) (wanted q)" using t by (simp only: placed_def)
    then show ?thesis using ok oid items by (simp only:, intro distinct_lines) (auto simp: stock_ok_def accounts_ok_def wanted_def o_def)
  qed
  have "gives (sell_reserved f) t (\<lambda>_. moved_off 1 f t)" by (rule moves(1) [OF rows lines])
  then have "gives (sell_reserved f) t P"
    by (rule gives_weaken) (rule P, rule sold_placed [OF ok oid items t keys fs(1) day])
  then show ?thesis unfolding with_facts_def by (intro gives_bindM gives_basic) (simp add: f)
qed

lemma stored_placed:
  "placing b q s oid t \<Longrightarrow> (\<And>x u. placed b q s oid u \<Longrightarrow> P x u) \<Longrightarrow> gives (store_order oid q tm method c) t P"
  by (rule gives_weaken [OF order_stored])

lemma wallet_keeps_stock:
  assumes ok: "stock_ok s" and items: "distinct (map rl_item (rq_items q))"
  shows "gives (create_wallet_paid_order q tm) s (\<lambda>_ t. stock_ok t)"
  unfolding create_wallet_paid_order_def
  by (intro gives_intros claimed priced drawn ok, simp, rule wallet_places, assumption+, intro gives_intros stored_placed, assumption,
      rule sold_order [OF _ _ items], assumption+, intro gives_intros settled)

section \<open>The end of a reservation\<close>

lemma close_absent: "(oid, True) \<notin> set os \<Longrightarrow> close_order oid os = os"
  unfolding close_order_def by (induction os) auto

text \<open>The inventory half: the order's lines are taken off, if the order has any facts.\<close>

definition freed :: "int \<Rightarrow> uuid \<Rightarrow> 'z orders_db_scheme \<Rightarrow> 'z orders_db_scheme \<Rightarrow> bool" where
  "freed k oid s t \<longleftrightarrow> (case lookup_by fa_order oid (order_facts s) of None \<Rightarrow> t = s | Some f \<Rightarrow> moved_off k f s t)"

lemma freed_rows:
  assumes "freed k oid s t"
  shows "\<exists>rows. t = s\<lparr>inventory := rows\<rparr>"
proof (cases "lookup_by fa_order oid (order_facts s)")
  case None
  with assms have "t = s\<lparr>inventory := inventory s\<rparr>" by (simp add: freed_def)
  then show ?thesis ..
next
  case (Some f)
  with assms show ?thesis by (simp add: freed_def moved_off_def)
qed

lemma freed_closes:
  assumes ok: "stock_ok s" and pending: "(oid, True) \<in> set (orders_part s)" and free: "freed 1 oid m u"
    and m: "inventory m = inventory s" "lines_part m = lines_part s" "order_facts m = order_facts s"
    and t: "orders_part t = close_order oid (orders_part s)" "facts_part t = facts_part s" "lines_part t = lines_part s"
      "inventory t = inventory u" "db_uuid t = db_uuid s" "db_drawn t = db_drawn s"
  shows "stock_ok t"
proof -
  have acc: "accounts_ok (orders_part s) (facts_part s) (lines_part s) (inventory s) (drawn_ids s)" using ok by (simp add: stock_ok_def)
  have rows: "rows_ok (inventory u) \<and> map inv_id (inventory u) = map inv_id (inventory s) \<and> map row_key (inventory u) = map row_key (inventory s) \<and>
    (\<forall>r'\<in>set (inventory u). \<exists>r\<in>set (inventory s). row_key r = row_key r' \<and> inv_reserved r' = inv_reserved r -
      (if (oid, inv_day r, inv_slot r) \<in> set (facts_part s) then quantity_in oid (inv_item r) (lines_part s) else 0))"
  proof (cases "lookup_by fa_order oid (order_facts s)")
    case None
    then have none: "(oid, d, slot) \<notin> set (facts_part s)" for d slot unfolding lookup_by_None by (auto simp: facts_part_def)
    have "u = m" using None free m(3) by (simp add: freed_def)
    moreover have "rows_ok (inventory s)" using acc by (simp add: accounts_ok_def)
    ultimately show ?thesis using none m(1) by auto
  next
    case (Some f)
    from lookup_by_Some [OF Some] have f: "fa_order f = oid" "(oid, fa_day f, fa_slot f) \<in> set (facts_part s)" by (auto simp: facts_part_def)
    have "distinct (map fst (facts_part s))" using acc by (simp add: accounts_ok_def)
    with f(2) have "(oid, d, slot) \<in> set (facts_part s) \<longleftrightarrow> d = fa_day f \<and> slot = fa_slot f" for d slot
      by (auto dest: eq_key_imp_eq_value)
    moreover have "moved_off 1 f m u" using Some free m(3) by (simp add: freed_def)
    ultimately show ?thesis using m(1,2) f(1) by (simp add: moved_off_def taken_off_def cong: if_cong split del: if_split)
  qed
  have "accounts_ok (orders_part t) (facts_part t) (lines_part t) (inventory t) (drawn_ids t)"
    unfolding t(1-4) by (rule accounts_close [OF acc pending]) (use rows t(5,6) in \<open>simp_all add: drawn_ids_def\<close>)
  with ok t(5) show ?thesis by (simp add: stock_ok_def)
qed

lemma freed_keeps:
  assumes ok: "stock_ok s" and free: "freed 0 oid s t"
  shows "stock_ok t"
proof (cases "lookup_by fa_order oid (order_facts s)")
  case None
  with assms show ?thesis by (simp add: freed_def)
next
  case (Some f)
  with free have t: "moved_off 0 f s t" by (simp add: freed_def)
  then obtain rows where "t = s\<lparr>inventory := rows\<rparr>" by (auto simp: moved_off_def)
  then have parts: "orders_part t = orders_part s" "facts_part t = facts_part s" "lines_part t = lines_part s" "db_uuid t = db_uuid s" "drawn_ids t = drawn_ids s"
    by (simp_all add: part_defs drawn_ids_def)
  have acc: "accounts_ok (orders_part s) (facts_part s) (lines_part s) (inventory s) (drawn_ids s)" using ok by (simp add: stock_ok_def)
  have "accounts_ok (orders_part t) (facts_part t) (lines_part t) (inventory t) (drawn_ids t)"
    unfolding parts by (rule accounts_rows [OF acc]) (use t in \<open>simp_all add: moved_off_def taken_off_def\<close>)
  with ok parts(4) show ?thesis by (simp add: stock_ok_def)
qed

lemma frees:
  assumes "stock_ok s" "inventory m = inventory s" "lines_part m = lines_part s" and P: "\<And>x t. freed k oid m t \<Longrightarrow> P x t"
    and move: "\<And>f. rows_ok (inventory m) \<Longrightarrow> distinct (map (\<lambda>(a, b, n). (a, b)) (lines_part m)) \<Longrightarrow> gives (move f) m (\<lambda>_. moved_off k f m)"
  shows "gives (with_facts oid move) m P"
proof -
  have "rows_ok (inventory m)" "distinct (map (\<lambda>(a, b, n). (a, b)) (lines_part m))"
    using assms(1-3) by (simp_all add: stock_ok_def accounts_ok_def)
  then show ?thesis
    unfolding with_facts_def by (intro gives_intros P gives_weaken [OF move]) (simp_all add: freed_def)
qed

lemma expire_part: "orders_part (expire_order oid s) = close_order oid (orders_part s)"
  by (simp add: orders_part_def expire_order_def close_order_def update_where_def o_def)

lemma release_keeps:
  assumes ok: "stock_ok s" and pending: "(oid, True) \<in> set (orders_part s)"
  shows "gives (release_order oid) s (\<lambda>_ t. stock_ok t \<and> orders_part t = close_order oid (orders_part s))"
proof -
  have "stock_ok (expire_order oid t) \<and> orders_part (expire_order oid t) = close_order oid (orders_part s)" if t: "freed 1 oid s t" for t
  proof -
    from freed_rows [OF t] obtain rows where rows: "t = s\<lparr>inventory := rows\<rparr>" ..
    have part: "orders_part (expire_order oid t) = close_order oid (orders_part s)"
      by (simp add: expire_part) (simp add: rows orders_part_def)
    have "stock_ok (expire_order oid t)"
      by (rule freed_closes [OF ok pending t _ _ _ part]) (simp_all add: rows expire_order_def facts_part_def lines_part_def)
    with part show ?thesis by simp
  qed
  then have "gives (with_facts oid release_reserved) s (\<lambda>_ t. gives (modify (expire_order oid)) t
      (\<lambda>_ t. stock_ok t \<and> orders_part t = close_order oid (orders_part s)))"
    by (intro frees [OF ok refl refl _ moves(2)] gives_modify)
  then show ?thesis unfolding release_order_def by (rule gives_thenM)
qed

lemma releases_keep:
  "stock_ok s \<Longrightarrow> distinct due \<Longrightarrow> \<forall>oid\<in>set due. (oid, True) \<in> set (orders_part s) \<Longrightarrow>
   gives (for_each release_order due) s (\<lambda>_ t. stock_ok t)"
proof (induction due arbitrary: s)
  case (Cons oid due)
  have "gives (for_each release_order due) t (\<lambda>_ t. stock_ok t)"
    if "stock_ok t \<and> orders_part t = close_order oid (orders_part s)" for t :: "'a orders_db_scheme"
    by (rule Cons.IH) (use that Cons.prems in \<open>auto simp: close_member\<close>)
  with Cons.prems show ?case unfolding for_each.simps by (intro gives_thenM gives_weaken [OF release_keeps]) simp_all
qed (simp add: gives_def basic_app)

lemma sweep_keeps_stock: "stock_ok s \<Longrightarrow> gives release_expired_orders s (\<lambda>_ t. stock_ok t)"
proof -
  assume ok: "stock_ok s"
  let ?due = "filter (reservation_expired (odb_now s)) (odb_orders s)"
  have "map fst (orders_part s) = map ord_id (odb_orders s)" by (simp add: orders_part_def)
  then have "distinct (map ord_id (odb_orders s))" using ok by (simp add: stock_ok_def accounts_ok_def)
  then have "distinct (map ord_id ?due)" by (simp add: distinct_map_filter)
  moreover have "\<forall>oid\<in>set (map ord_id ?due). (oid, True) \<in> set (orders_part s)"
    by (force simp: orders_part_def reservation_expired_def image_iff)
  ultimately have "gives (for_each release_order (map ord_id ?due)) s (\<lambda>_ t. stock_ok t)" by (rule releases_keep [OF ok])
  then show ?thesis unfolding release_expired_orders_def by (intro gives_intros) (rule gives_weaken, assumption, intro gives_intros)
qed

section \<open>A verified payment\<close>

definition paid_order :: "order_status option \<Rightarrow> uuid \<Rightarrow> 'z orders_db_scheme \<Rightarrow> 'z orders_db_scheme \<Rightarrow> bool" where
  "paid_order st oid s t \<longleftrightarrow> order_facts t = order_facts s \<and> stored_lines t = stored_lines s \<and> inventory t = inventory s \<and>
     db_uuid t = db_uuid s \<and> db_drawn t = db_drawn s \<and>
     (if st = Some Pending_Payment then (oid, True) \<in> set (orders_part s) \<and> orders_part t = close_order oid (orders_part s)
      else orders_part t = orders_part s)"

lemma pending_part:
  assumes "distinct (map fst (orders_part s))" "lookup_by ord_id oid (odb_orders s) = Some r"
  shows "(oid, True) \<in> set (orders_part s) \<longleftrightarrow> ord_status r = Pending_Payment"
proof -
  have "(oid, ord_status r = Pending_Payment) \<in> set (orders_part s)" using lookup_by_Some [OF assms(2)] by (force simp: orders_part_def)
  with assms(1) show ?thesis by (auto dest: eq_key_imp_eq_value)
qed

lemma order_marked:
  assumes "distinct (map fst (orders_part s))"
  shows "gives (mark_order_paid oid) s (\<lambda>_. paid_order (map_option ord_status (lookup_by ord_id oid (odb_orders s))) oid s)"
proof (cases "lookup_by ord_id oid (odb_orders s)")
  case None
  then show ?thesis by (simp add: mark_order_paid_def gives_def prog_simps paid_order_def)
next
  case (Some r)
  have close: "orders_part (s\<lparr>odb_orders := update_where (\<lambda>x. ord_id x = oid) (\<lambda>x. x\<lparr>ord_status := Paid, ord_paid_at := n,
      ord_cancelled_at := None, ord_cancellation_reason := None\<rparr>) (odb_orders s), odb_history := h, odb_outbox := es\<rparr>) =
      close_order oid (orders_part s)" for n h es
    by (simp add: orders_part_def close_order_def update_where_def o_def)
  note pending = pending_part [OF assms Some]
  show ?thesis
  proof (cases "ord_status r = Pending_Payment \<or> ord_status r = Expired")
    case True
    then show ?thesis
      unfolding mark_order_paid_def using Some pending close_absent [of oid "orders_part s"]
      by (intro gives_intros) (auto simp: paid_order_def close)
  next
    case False
    then show ?thesis using Some by (simp add: mark_order_paid_def gives_def prog_simps paid_order_def orders_part_def)
  qed
qed

definition status_before :: "payment_provider \<Rightarrow> string \<Rightarrow> 'z orders_db_scheme \<Rightarrow> order_status option" where
  "status_before provider reference s = Option.bind (find_payment provider reference s) (\<lambda>p.
     if pay_status p = Pay_Successful then None else map_option ord_status (lookup_by ord_id (pay_order p) (odb_orders s)))"

lemma payments_part: "orders_part (t\<lparr>payments := ps\<rparr>) = orders_part t"
  by (simp add: orders_part_def)

lemma paid_order_same: "paid_order st oid s t \<Longrightarrow> paid_order st oid s (t\<lparr>payments := ps\<rparr>)"
  by (simp add: paid_order_def payments_part)

lemma payment_marked:
  assumes "stock_ok s"
  shows "gives (mark_verified_payment_successful provider reference txid paid body) s
    (\<lambda>oid. paid_order (status_before provider reference s) oid s)"
proof (cases "find_payment provider reference s")
  case None
  then show ?thesis by (simp add: mark_verified_payment_successful_def gives_def prog_simps)
next
  case (Some p)
  have ids: "distinct (map fst (orders_part s))" using assms by (simp add: stock_ok_def accounts_ok_def)
  show ?thesis
  proof (cases "pay_status p = Pay_Successful")
    case True
    with Some show ?thesis by (simp add: mark_verified_payment_successful_def gives_def prog_simps status_before_def paid_order_def)
  next
    case False
    with Some have "status_before provider reference s = map_option ord_status (lookup_by ord_id (pay_order p) (odb_orders s))"
      by (simp add: status_before_def)
    with Some False show ?thesis
      unfolding mark_verified_payment_successful_def whenM_def
      by (intro gives_intros gives_weaken [OF order_marked [OF ids]]) (auto intro: paid_order_same)
  qed
qed

lemma paid_ok:
  assumes "stock_ok s" "paid_order st oid s t" "st \<noteq> Some Pending_Payment"
  shows "stock_ok t"
  by (rule stock_ok_same [OF assms(1)]) (use assms(2,3) in \<open>simp add: same_stock_def same_parts_def paid_order_def facts_part_def lines_part_def\<close>)

lemma paid_sold:
  assumes ok: "stock_ok s" and paid: "paid_order (Some Pending_Payment) oid s t" and P: "\<And>x u. stock_ok u \<Longrightarrow> P x u"
  shows "gives (with_facts oid sell_reserved) t P"
proof (rule frees [OF ok])
  show same: "inventory t = inventory s" "lines_part t = lines_part s" using paid by (simp_all add: paid_order_def lines_part_def)
  show "gives (sell_reserved f) t (\<lambda>_. moved_off 1 f t)" if "rows_ok (inventory t)" "distinct (map (\<lambda>(a, b, n). (a, b)) (lines_part t))" for f
    using that by (rule moves(1))
  fix x u assume u: "freed 1 oid t u"
  have "\<exists>rows. u = t\<lparr>inventory := rows\<rparr>" using u by (rule freed_rows)
  then obtain rows where rows: "u = t\<lparr>inventory := rows\<rparr>" ..
  have "orders_part u = close_order oid (orders_part s)" using paid by (simp add: rows paid_order_def) (simp add: orders_part_def)
  then have "stock_ok u"
    using paid by (intro freed_closes [OF ok _ u same]) (simp_all add: paid_order_def rows facts_part_def lines_part_def)
  then show "P x u" by (rule P)
qed

lemma payment_keeps_stock:
  assumes ok: "stock_ok s"
  shows "gives (book_verified_payment provider reference txid paid body) s (\<lambda>_ t. stock_ok t)"
proof -
  have late: "gives (with_facts oid sell_late) t P" if "stock_ok t" "\<And>x u. stock_ok u \<Longrightarrow> P x u"
    for P oid and t :: "'a orders_db_scheme"
    by (rule frees [OF that(1) refl refl]) (auto intro: that(2) freed_keeps [OF that(1)] moves(3))
  have rest: "gives (if status_before provider reference s = Some Pending_Payment then with_facts oid sell_reserved
      else if status_before provider reference s = Some Expired then with_facts oid sell_late else ret ()) t P"
    if "paid_order (status_before provider reference s) oid s t" "\<And>x u. stock_ok u \<Longrightarrow> P x u" for P oid and t :: "'a orders_db_scheme"
    using that paid_sold [OF ok] late [OF paid_ok [OF ok that(1)]] paid_ok [OF ok that(1)] by (auto simp: gives_basic)
  show ?thesis
    unfolding book_verified_payment_def status_before_def [symmetric]
    by (intro gives_intros gives_weaken [OF payment_marked [OF ok]] rest)
qed

section \<open>The vendors' changes\<close>

lemma stock_ok_rows:
  assumes ok: "stock_ok s"
    and rows: "rows_ok rows" "map inv_id rows = map inv_id (inventory s)" "map row_key rows = map row_key (inventory s)"
      "\<forall>r'\<in>set rows. \<exists>r\<in>set (inventory s). row_key r = row_key r' \<and> inv_reserved r' = inv_reserved r"
  shows "stock_ok (s\<lparr>inventory := rows\<rparr>)"
proof -
  have acc: "accounts_ok (orders_part s) (facts_part s) (lines_part s) (inventory s) (drawn_ids s)" and inj: "inj (db_uuid s)"
    using ok by (simp_all add: stock_ok_def)
  have "accounts_ok (orders_part s) (facts_part s) (lines_part s) rows (drawn_ids s)"
    by (rule accounts_rows [OF acc subset_refl rows])
  with inj show ?thesis by (simp add: stock_ok_def part_defs drawn_ids_def)
qed

lemma counter_keeps_stock:
  assumes "\<And>s r. inv_id (f s r) = inv_id r \<and> row_key (f s r) = row_key r \<and> inv_reserved (f s r) = inv_reserved r"
  shows "preserves stock_ok (update_inventory sel f)"
proof (rule preservesI)
  fix s :: "'a orders_db_scheme"
  assume ok: "stock_ok s"
  show "stock_ok (snd (update_inventory sel f s))"
  proof (cases "update_inventory sel f s")
    case (Pair r t)
    show ?thesis
    proof (cases r)
      case (Inl e)
      with Pair ok update_inventory_cases [of sel f s] show ?thesis by auto
    next
      case (Inr x)
      with Pair have run: "update_inventory sel f s = (Inr (), t)" by simp
      note eff = update_inventory_Inr [OF run]
      have rows: "rows_ok (inventory s)" using ok by (simp add: stock_ok_def accounts_ok_def)
      have keep: "inv_id (f s r) = inv_id r \<and> row_key (f s r) = row_key r" for r using assms by simp
      have "\<exists>r\<in>set (inventory s). row_key r = row_key r' \<and> inv_reserved r' = inv_reserved r"
        if "r' \<in> set (update_where (sel s) (f s) (inventory s))" for r'
        using that by (elim in_update_where) (auto simp: assms intro!: bexI)
      then have "stock_ok (s\<lparr>inventory := update_where (sel s) (f s) (inventory s)\<rparr>)"
        by (intro stock_ok_rows [OF ok rows_ok_update [OF rows eff(2) keep]]) simp
      with Pair show ?thesis by (simp add: eff(1))
    qed
  qed
qed

lemma row_generated: "preserves stock_ok (generate_row d p)"
proof (rule preservesI)
  fix s :: "'a orders_db_scheme"
  assume ok: "stock_ok s"
  let ?i = "db_uuid s (db_drawn s)"
  let ?r = "\<lparr>inv_id = ?i, inv_item = fst p, inv_day = d, inv_slot = snd p, inv_total = 0, inv_reserved = 0, inv_sold = 0,
    inv_adjusted = 0, inv_active = True, inv_version = 1\<rparr>"
  let ?t = "s\<lparr>db_drawn := Suc (db_drawn s), inventory := inventory s @ [?r]\<rparr>"
  have acc: "accounts_ok (orders_part s) (facts_part s) (lines_part s) (inventory s) (drawn_ids s)" and inj: "inj (db_uuid s)"
    using ok by (simp_all add: stock_ok_def)
  have "stock_ok ?t" if "row_key ?r \<notin> row_key ` set (inventory s)"
  proof -
    have "accounts_ok (orders_part s) (facts_part s) (lines_part s) (inventory s @ [?r]) (drawn_ids ?t)"
      by (rule accounts_new_row [OF acc that])
        (use fresh_stock_uuid [OF ok refl order_refl] in \<open>simp_all add: inventory_check_def drawn_ids_def lessThan_Suc\<close>)
    with inj show ?thesis by (simp add: stock_ok_def part_defs)
  qed
  then show "stock_ok (snd (generate_row d p s))"
    using ok by (cases "row_key ?r \<in> row_key ` set (inventory s)")
      (auto simp: generate_row_def prog_simps draw_uuid_def list_ex_iff row_key_def image_iff)
qed

lemma generation_keeps_stock: "preserves stock_ok (generate_menu_item_inventory d v)"
  unfolding generate_menu_item_inventory_def by (auto intro!: preserves_intros row_generated)

lemma access_keeps: "preserves I (assert_actor_can_use_vendor a)"
  unfolding assert_actor_can_use_vendor_def by (auto intro!: preserves_intros split: option.split)

lemma listing_keeps_stock: "preserves stock_ok (list_inventory a d slot)"
  unfolding list_inventory_def by (auto intro!: preserves_intros generation_keeps_stock access_keeps)

lemma update_keeps_stock: "preserves stock_ok (update_inventory_row a i n expected)"
  unfolding update_inventory_row_def check_update_def write_update_def update_inventory_total_def
  by (auto intro!: preserves_intros access_keeps counter_keeps_stock simp: row_key_def split: option.split)

lemma same_keeps_stock: "(\<And>s. preserves (same_stock s) m) \<Longrightarrow> preserves stock_ok m"
  by (rule preservesI) (erule stock_ok_same, rule preservesD, assumption, rule same_stock_refl)

lemma adjustment_keeps_stock: "preserves stock_ok (record_inventory_adjustment i n reason user metadata)"
  unfolding record_inventory_adjustment_def
  by (auto intro!: preserves_intros counter_keeps_stock same_keeps_stock [OF draw_same_stock] same_keeps_stock [OF same_stock_modify]
      simp: row_key_def facts_part_def)

lemma create_adjustment_keeps_stock: "preserves stock_ok (create_adjustment a i n reason metadata)"
  unfolding create_adjustment_def record_adjustment_def
  by (auto intro!: preserves_intros access_keeps adjustment_keeps_stock split: option.split prod.split)

section \<open>Runs\<close>

lemma metadata_keeps: "stock_ok s \<Longrightarrow> (\<And>x t. stock_ok t \<Longrightarrow> P x t) \<Longrightarrow> gives (ensure_order_delivery_metadata oid room) s P"
  using ensure_metadata_same_stock [of s oid room] by (auto simp: gives_def dest: stock_ok_same)

lemma order_keeps_stock:
  assumes "distinct (map rl_item (rq_items q))"
  shows "preserves stock_ok (create_order env hash a q key)"
proof -
  have "preserves stock_ok (repository_create q tm)" "preserves stock_ok (repository_create_wallet q tm)" for tm
    unfolding repository_create_def repository_create_wallet_def
    by (rule gives_transaction; intro gives_bindM gives_weaken [OF pending_keeps_stock [OF _ assms]] gives_weaken [OF wallet_keeps_stock [OF _ assms]]
        metadata_keeps gives_basic; assumption)+
  then show ?thesis
    unfolding create_order_def build_quote_def assert_room_number_when_hostel_def
    by (auto intro!: preserves_intros split: prod.split)
qed

text \<open>
  A step of the program: an order whose lines name different items, the sweep, a verified payment, a
  vendor's change, or anything that leaves the orders' status and lines and the inventory alone.
\<close>

inductive stock_step :: "orders_db \<Rightarrow> orders_db \<Rightarrow> bool" where
  order: "distinct (map rl_item (rq_items q)) \<Longrightarrow> stock_step s (snd (create_order env hash a q key s))"
| sweep: "stock_step s (snd (transaction release_expired_orders s))"
| payment: "stock_step s (snd (transaction (book_verified_payment provider reference txid paid body) s))"
| listing: "stock_step s (snd (list_inventory a d slot s))"
| change: "stock_step s (snd (update_inventory_row a i n expected s))"
| adjustment: "stock_step s (snd (create_adjustment a i n reason metadata s))"
| elsewhere: "same_stock s t \<Longrightarrow> stock_step s t"

lemma step_keeps_stock: "stock_step s t \<Longrightarrow> stock_ok s \<Longrightarrow> stock_ok t"
  by (induction rule: stock_step.induct)
    (auto intro: stock_ok_same preservesD [OF order_keeps_stock] preservesD [OF listing_keeps_stock] preservesD [OF update_keeps_stock]
      preservesD [OF create_adjustment_keeps_stock] preservesD [OF gives_transaction [OF sweep_keeps_stock]]
      preservesD [OF gives_transaction [OF payment_keeps_stock]])

lemma steps_keep_stock: "stock_step\<^sup>*\<^sup>* s t \<Longrightarrow> stock_ok s \<Longrightarrow> stock_ok t"
  by (induction rule: rtranclp_induct) (auto intro: step_keeps_stock)

text \<open>What the pending orders of a day and slot ask of an item.\<close>

definition held_by_orders :: "orders_db \<Rightarrow> inventory_row \<Rightarrow> int" where
  "held_by_orders s r = held_in (orders_part s) (facts_part s) (lines_part s) (inv_item r) (inv_day r) (inv_slot r)"

text \<open>
  Property C2: however orders are placed, paid for from the card or the wallet, expired by the sweep and
  booked late, and however vendors list, resize and adjust their stock, a row of the inventory has
  reserved exactly what the lines of the pending orders of its day and slot ask for, and never promises
  more than there is: as long as no order names an item on two lines.
\<close>

theorem reserved_is_held_by_pending_orders:
  assumes "stock_step\<^sup>*\<^sup>* s t" "stock_ok s" "r \<in> set (inventory t)"
  shows "inv_reserved r = held_by_orders t r \<and> 0 \<le> inv_reserved r \<and> inv_reserved r + inv_sold r \<le> inv_total r + inv_adjusted r"
  using steps_keep_stock [OF assms(1,2)] assms(3)
  by (auto simp: stock_ok_def accounts_ok_def rows_ok_def held_by_orders_def inventory_check_def)

definition sample_env :: order_env where
  "sample_env = \<lparr>oe_max_total = 10000000, oe_delivery_fee = 50000, oe_service_fee = 0, oe_bps = 100, oe_flat = 0\<rparr>"

definition sample_customer :: actor where
  "sample_customer = \<lparr>user_id = shopper, role = Customer, email = None, campus_id = None, vendor_id = None, rider_id = None\<rparr>"

lemma sample_quote:
  "case fst (build_quote sample_env (order_for [2]) orders_sample) of Inl e \<Rightarrow> False | Inr (quote, fee) \<Rightarrow> \<not> qt_exceeds quote \<and> fee = 0"
  by code_simp

lemma sample_order_created: "create_order sample_env (\<lambda>q. ''h'') sample_customer (order_for [2]) ''key-1'' orders_sample = ordered"
proof -
  have keeps: "preserves I (build_quote sample_env (order_for [2]))" for I :: "orders_db \<Rightarrow> bool"
    unfolding build_quote_def by (auto intro!: preserves_intros split: prod.split)
  obtain quote where quote: "build_quote sample_env (order_for [2]) orders_sample = (Inr (quote, 0), orders_sample)" "\<not> qt_exceeds quote"
    using sample_quote preserves_result [OF keeps, of "\<lambda>u. u = orders_sample" orders_sample]
    by (cases "build_quote sample_env (order_for [2]) orders_sample") (auto split: sum.splits)
  have "terms_for sample_env (\<lambda>q. ''h'') sample_customer (order_for [2]) ''key-1'' 0 = sample_terms"
    by (simp add: terms_for_def sample_env_def sample_customer_def sample_terms_def order_for_def)
  moreover have "orders_customer_only sample_customer = Inr ()" by (simp add: orders_customer_only_def sample_customer_def)
  moreover have "find_location_is_hostel (rq_location (order_for [2])) orders_sample = Some False"
    by (simp add: find_location_is_hostel_def order_for_def orders_sample_def table_simps)
  moreover have "rq_method (order_for [2]) = None" by (simp add: order_for_def)
  ultimately show ?thesis
    unfolding create_order_def ordered_def assert_room_number_when_hostel_def using quote by (simp add: prog_simps)
qed

lemma orders_sample_ok: "stock_ok orders_sample"
proof -
  have uuid: "db_uuid orders_sample = (\<lambda>k. ''id-'' @ nat_str k)" "db_drawn orders_sample = Suc 0" by (simp_all add: orders_sample_def)
  have "nat_str 0 = ''0''" by code_simp
  with uuid have "drawn_ids orders_sample = {''id-0''}" "inj (db_uuid orders_sample)"
    by (auto simp: drawn_ids_def inj_def nat_str_inj)
  then show ?thesis
    by (simp add: stock_ok_def accounts_ok_def rows_ok_def part_defs orders_sample_def inventory_check_def held_in_def)
qed

theorem reserved_is_held_by_pending_orders_witness:
  "\<exists>r\<in>set (inventory (snd ordered)). inv_reserved r = 2 \<and> inv_reserved r = held_by_orders (snd ordered) r \<and> 0 \<le> inv_reserved r \<and>
     inv_reserved r + inv_sold r \<le> inv_total r + inv_adjusted r"
proof -
  obtain r where r: "inventory (snd ordered) = [r]" "inv_reserved r = 2"
    using created_runs(1) unfolding ordered_run(2) by (cases "created [2]") (auto simp: created_facts_def map_eq_Cons_conv)
  have "distinct (map rl_item (rq_items (order_for [2])))" by (simp add: order_for_def)
  then have "stock_step orders_sample (snd ordered)" unfolding sample_order_created [symmetric] by (rule stock_step.order)
  then have "stock_step\<^sup>*\<^sup>* orders_sample (snd ordered)" by blast
  from reserved_is_held_by_pending_orders [OF this orders_sample_ok, of r] r show ?thesis by simp
qed

end
