(* ===== verification/Batches.thy ===== *)
theory Batches
  imports Orders Worker
begin

text \<open>
  Delivery batches: the database functions that fill and close them (add_paid_order_to_batch,
  close_batches_at_cutoff) and hand them to riders (fleet_assign_batch), the vendor's endpoints
  (modules/vendors/vendor-orders.*.ts, modules/batches) and the administrators' ones (modules/admin).
  Names and other display columns of joined rows are left out; foreign keys hold, so those joins
  drop no row. A batch has one assignment and an order one batch (unique constraints). The triggers of
  an assignment (chat, event, notification) are those of \<open>Worker\<close> and are left out here.
\<close>

section \<open>Tables\<close>

datatype batch_status = Ba_Open | Ba_Closed | Ba_Assigned | Ba_In_Progress | Ba_Completed | Ba_Cancelled

record delivery_batch =
  bt_id :: uuid
  bt_campus :: uuid
  bt_vendor :: uuid
  bt_day :: day
  bt_slot :: uuid
  bt_zone :: uuid
  bt_mode :: string
  bt_status :: batch_status
  bt_orders :: int
  bt_earnings :: int
  bt_cutoff :: time
  bt_closed :: "time option"

record delivery_assignment = assignment_row +
  as_by :: "uuid option"
  as_accepted :: "time option"
  as_picked_up :: "time option"
  as_completed :: "time option"

record courier = Worker.rider_row +
  cr_phone :: string
  cr_verified_at :: "time option"

record partner = fleet_row +
  fp_campus :: uuid
  fp_can_dispatch :: bool

text \<open>\<open>batched\<close> lists the pairs of a batch and an order in the order they were added.\<close>

record batches_db = orders_db +
  batch_rows :: "delivery_batch list"
  batched :: "(uuid \<times> uuid) list"
  assignment_rows :: "delivery_assignment list"
  couriers :: "courier list"
  partners :: "partner list"

definition status_of :: "uuid \<Rightarrow> 'z order_db_scheme \<Rightarrow> order_status option" where
  "status_of oid s = map_option ord_status (lookup_by ord_id oid (odb_orders s))"

definition orders_in :: "uuid \<Rightarrow> 'z batches_db_scheme \<Rightarrow> uuid list" where
  "orders_in bid s = map snd (filter (\<lambda>p. fst p = bid) (batched s))"

definition update_batches ::
  "('z batches_db_scheme \<Rightarrow> delivery_batch \<Rightarrow> bool) \<Rightarrow> ('z batches_db_scheme \<Rightarrow> delivery_batch \<Rightarrow> delivery_batch) \<Rightarrow>
   ('z batches_db_scheme, unit) prog" where
  "update_batches sel f = modify (\<lambda>s. s\<lparr>batch_rows := update_where (sel s) (f s) (batch_rows s)\<rparr>)"

definition update_assignments ::
  "('z batches_db_scheme \<Rightarrow> delivery_assignment \<Rightarrow> bool) \<Rightarrow>
   ('z batches_db_scheme \<Rightarrow> delivery_assignment \<Rightarrow> delivery_assignment) \<Rightarrow> ('z batches_db_scheme, unit) prog" where
  "update_assignments sel f = modify (\<lambda>s. s\<lparr>assignment_rows := update_where (sel s) (f s) (assignment_rows s)\<rparr>)"

section \<open>Filling and closing (database functions)\<close>

definition batchable :: "order_status \<Rightarrow> bool" where
  "batchable st \<longleftrightarrow> st \<in> {Paid, Ready, Out_For_Delivery, Delivered, Administratively_Completed}"

text \<open>The zone of an order is that of its location when it was placed; locations keep their zone here.\<close>

definition zone_of :: "order_facts \<Rightarrow> 'z orders_db_scheme \<Rightarrow> uuid" where
  "zone_of f s = (case lookup_by lc_id (fa_location f) (locations s) of None \<Rightarrow> [] | Some l \<Rightarrow> lc_zone l)"

definition batch_for :: "order_row \<Rightarrow> order_facts \<Rightarrow> uuid \<Rightarrow> delivery_batch \<Rightarrow> bool" where
  "batch_for r f zone b \<longleftrightarrow> bt_campus b = ord_campus r \<and> bt_vendor b = fa_vendor f \<and> bt_day b = fa_day f \<and>
     bt_slot b = fa_slot f \<and> bt_zone b = zone \<and> bt_mode b = fa_mode f"

definition new_batch :: "uuid \<Rightarrow> order_row \<Rightarrow> order_facts \<Rightarrow> uuid \<Rightarrow> time \<Rightarrow> delivery_batch" where
  "new_batch i r f zone cutoff =
     \<lparr>bt_id = i, bt_campus = ord_campus r, bt_vendor = fa_vendor f, bt_day = fa_day f, bt_slot = fa_slot f, bt_zone = zone,
      bt_mode = fa_mode f, bt_status = Ba_Open, bt_orders = 0, bt_earnings = 0, bt_cutoff = cutoff, bt_closed = None\<rparr>"

definition rider_shares :: "uuid list \<Rightarrow> 'z fee_db_scheme \<Rightarrow> int" where
  "rider_shares oids s = sum_list (map (\<lambda>oid. case Option.bind (lookup_by dr_order oid (deliveries s)) dr_rider_share of
     None \<Rightarrow> 0 | Some n \<Rightarrow> n) oids)"

text \<open>A batch without orders has no row of counts, and is left alone.\<close>

definition recount :: "uuid \<Rightarrow> ('z batches_db_scheme, unit) prog" where
  "recount bid =
     bindM (gets (orders_in bid)) (\<lambda>oids.
     if oids = [] then ret ()
     else bindM (gets (rider_shares oids)) (\<lambda>total_share. bindM (to_int4 total_share) (\<lambda>earned.
       if earned < 0 then raise (pg_error ''23514'' ''new row for relation delivery_batches violates check constraint'')
       else update_batches (\<lambda>s b. bt_id b = bid) (\<lambda>s b. b\<lparr>bt_orders := int (length oids), bt_earnings := earned\<rparr>))))"

definition logical_batch :: "order_row \<Rightarrow> order_facts \<Rightarrow> ('z batches_db_scheme, uuid) prog" where
  "logical_batch r f =
     bindM (gets (\<lambda>s. (cutoff_at s (fa_day f) (fa_slot f), zone_of f s, find (batch_for r f (zone_of f s)) (batch_rows s))))
       (\<lambda>(cutoff, zone, found).
       case (cutoff, found) of
         (None, _) \<Rightarrow> raise (pg_error ''23502'' ''null value in column cutoff_at of relation delivery_batches'')
       | (Some t, Some b) \<Rightarrow> ret (bt_id b)
       | (Some t, None) \<Rightarrow> bindM draw_uuid (\<lambda>i.
           thenM (modify (\<lambda>s. s\<lparr>batch_rows := batch_rows s @ [new_batch i r f zone t]\<rparr>)) (ret i)))"

definition add_paid_order_to_batch :: "uuid \<Rightarrow> ('z batches_db_scheme, uuid) prog" where
  "add_paid_order_to_batch oid =
     bindM (gets (\<lambda>s. (lookup_by ord_id oid (odb_orders s), lookup_by fa_order oid (order_facts s)))) (\<lambda>found.
       case found of
         (Some r, Some f) \<Rightarrow>
           if \<not> batchable (ord_status r) then raise (pg_error ''23514'' ''only paid or operational orders can be batched'')
           else bindM (logical_batch r f) (\<lambda>bid.
             thenM (modify (\<lambda>s. if oid \<in> snd ` set (batched s) then s else s\<lparr>batched := batched s @ [(bid, oid)]\<rparr>))
            (thenM (recount bid) (ret bid)))
       | _ \<Rightarrow> raise (pg_error ''P0002'' (''order '' @ oid @ '' not found'')))"

definition close_batches_at_cutoff :: "('z batches_db_scheme, nat) prog" where
  "close_batches_at_cutoff =
     bindM (gets (\<lambda>s. length (filter (\<lambda>b. bt_status b = Ba_Open \<and> bt_cutoff b \<le> odb_now s) (batch_rows s)))) (\<lambda>n.
     thenM (update_batches (\<lambda>s b. bt_status b = Ba_Open \<and> bt_cutoff b \<le> odb_now s)
       (\<lambda>s b. b\<lparr>bt_status := Ba_Closed, bt_closed := Some (odb_now s)\<rparr>)) (ret n))"

section \<open>Assigning (administrators and fleet partners)\<close>

text \<open>insert into delivery_assignments ... on conflict (batch_id) do update, with the snapshot of the rider's fleet.\<close>

definition fleet_snapshot :: "uuid option \<Rightarrow> 'z batches_db_scheme \<Rightarrow> uuid option" where
  "fleet_snapshot rider s = Option.bind rider (\<lambda>r. Option.bind (lookup_by rd_id r (couriers s)) rd_fleet)"

definition new_assignment :: "uuid \<Rightarrow> uuid \<Rightarrow> uuid option \<Rightarrow> uuid option \<Rightarrow> uuid \<Rightarrow> 'z batches_db_scheme \<Rightarrow> delivery_assignment" where
  "new_assignment i bid rider vendor user s =
     \<lparr>as_id = i, as_batch = bid, as_rider = rider, as_vendor = vendor, as_fleet = fleet_snapshot rider s, as_status = As_Assigned,
      as_assigned = odb_now s, as_by = Some user, as_accepted = None, as_picked_up = None, as_completed = None\<rparr>"

definition fulfiller_known :: "uuid option \<Rightarrow> uuid option \<Rightarrow> 'z batches_db_scheme \<Rightarrow> bool" where
  "fulfiller_known rider vendor s \<longleftrightarrow> (case rider of None \<Rightarrow> True | Some r \<Rightarrow> r \<in> rd_id ` set (couriers s)) \<and>
     (case vendor of None \<Rightarrow> True | Some v \<Rightarrow> v \<in> sto_id ` set (stores s))"

definition upsert_assignment :: "uuid \<Rightarrow> uuid option \<Rightarrow> uuid option \<Rightarrow> uuid \<Rightarrow> ('z batches_db_scheme, uuid) prog" where
  "upsert_assignment bid rider vendor user =
     (if (rider = None) = (vendor = None)
      then raise (pg_error ''23514'' ''new row for relation delivery_assignments violates check constraint delivery_assignments_one_fulfiller'')
      else bindM (gets (\<lambda>s. (fulfiller_known rider vendor s, find (\<lambda>a. as_batch a = bid) (assignment_rows s)))) (\<lambda>(known, found).
        if \<not> known then raise (pg_error ''23503'' ''insert or update on table delivery_assignments violates foreign key constraint'')
        else case found of
          None \<Rightarrow> bindM draw_uuid (\<lambda>i.
            thenM (modify (\<lambda>s. s\<lparr>assignment_rows := assignment_rows s @ [new_assignment i bid rider vendor user s]\<rparr>)) (ret i))
        | Some a \<Rightarrow> thenM (update_assignments (\<lambda>s x. as_batch x = bid) (\<lambda>s x. new_assignment (as_id x) bid rider vendor user s))
            (ret (as_id a))))"

definition assign_batch :: "uuid \<Rightarrow> uuid \<Rightarrow> uuid option \<Rightarrow> uuid option \<Rightarrow> ('z batches_db_scheme, unit) prog" where
  "assign_batch bid user rider vendor =
     thenM (transaction (upsert_assignment bid rider vendor user))
       (update_batches (\<lambda>s b. bt_id b = bid) (\<lambda>s b. b\<lparr>bt_status := Ba_Assigned\<rparr>))"

definition close_batch :: "uuid \<Rightarrow> ('z batches_db_scheme, unit) prog" where
  "close_batch bid = update_batches (\<lambda>s b. bt_id b = bid)
     (\<lambda>s b. b\<lparr>bt_status := Ba_Closed, bt_closed := (case bt_closed b of None \<Rightarrow> Some (odb_now s) | x \<Rightarrow> x)\<rparr>)"

definition cancel_assignment :: "uuid \<Rightarrow> ('z batches_db_scheme, unit) prog" where
  "cancel_assignment bid = update_assignments (\<lambda>s a. as_batch a = bid) (\<lambda>s a. a\<lparr>as_status := As_Cancelled\<rparr>)"

definition admin_batch :: "uuid \<Rightarrow> uuid option \<Rightarrow> 'z batches_db_scheme \<Rightarrow> delivery_batch option" where
  "admin_batch bid campus s = find (\<lambda>b. bt_id b = bid \<and> (campus = None \<or> campus = Some (bt_campus b))) (batch_rows s)"

text \<open>admin.service.ts: each operation on a batch of the administrator's campus.\<close>

definition on_admin_batch :: "uuid option \<Rightarrow> uuid \<Rightarrow> ('z batches_db_scheme, unit) prog \<Rightarrow> ('z batches_db_scheme, delivery_batch) prog" where
  "on_admin_batch campus bid m =
     bindM (gets (admin_batch bid campus)) (\<lambda>found.
       case found of
         None \<Rightarrow> raise (not_found ''Batch was not found.'')
       | Some b \<Rightarrow> thenM m (bindM (gets (admin_batch bid None)) (\<lambda>after.
           case after of None \<Rightarrow> raise (not_found ''Batch was not found.'') | Some x \<Rightarrow> ret x)))"

definition dispatch_conflict :: "delivery_assignment \<Rightarrow> uuid \<Rightarrow> string option" where
  "dispatch_conflict a fleet =
     (if as_status a = As_Cancelled then None
      else if as_status a \<in> {As_Accepted, As_Picked_Up, As_Completed} then Some ''Batch is already in progress with its rider.''
      else if as_vendor a \<noteq> None \<or> as_fleet a \<noteq> Some fleet then Some ''Batch is already assigned outside this fleet.''
      else None)"

definition fleet_assign_batch :: "uuid \<Rightarrow> uuid \<Rightarrow> uuid \<Rightarrow> uuid \<Rightarrow> ('z batches_db_scheme, uuid) prog" where
  "fleet_assign_batch fleet bid rider user =
     bindM (gets (\<lambda>s. (lookup_by fp_id fleet (partners s), lookup_by bt_id bid (batch_rows s), lookup_by rd_id rider (couriers s),
         find (\<lambda>a. as_batch a = bid) (assignment_rows s)))) (\<lambda>(partner, batch, courier, existing).
       case partner of None \<Rightarrow> raise (pg_error ''FP404'' ''Fleet partner was not found.'')
       | Some p \<Rightarrow>
       if fp_status p \<noteq> Fleet_Active then raise (pg_error ''FP403'' ''Fleet partner is not active.'')
       else if \<not> fp_can_dispatch p then raise (pg_error ''FP403'' ''Dispatch is disabled for this fleet partner.'')
       else case batch of None \<Rightarrow> raise (pg_error ''FP404'' ''Batch was not found.'')
       | Some b \<Rightarrow>
       if bt_campus b \<noteq> fp_campus p then raise (pg_error ''FP404'' ''Batch was not found.'')
       else if bt_mode b \<noteq> ''meal_direct_rider'' then raise (pg_error ''FP409'' ''Batch is delivered by the vendor, not a rider.'')
       else if bt_status b \<notin> {Ba_Open, Ba_Closed, Ba_Assigned} then raise (pg_error ''FP409'' ''Batch can no longer be assigned.'')
       else case courier of None \<Rightarrow> raise (pg_error ''FP404'' ''Rider was not found in this fleet.'')
       | Some c \<Rightarrow>
       if rd_fleet c \<noteq> Some fleet then raise (pg_error ''FP404'' ''Rider was not found in this fleet.'')
       else if rd_status c \<noteq> Rider_Verified \<or> \<not> rd_active c
       then raise (pg_error ''FP422'' ''Rider must be verified and active before dispatch.'')
       else case Option.bind existing (\<lambda>a. dispatch_conflict a fleet) of Some m \<Rightarrow> raise (pg_error ''FP409'' m)
       | None \<Rightarrow>
         bindM (upsert_assignment bid (Some rider) None user) (\<lambda>aid.
         thenM (update_batches (\<lambda>s b. bt_id b = bid) (\<lambda>s b. b\<lparr>bt_status := Ba_Assigned\<rparr>)) (ret aid)))"

section \<open>The vendor's batches (modules/batches)\<close>

definition require_vendor :: "actor \<Rightarrow> ('z shop_db_scheme, uuid) prog" where
  "require_vendor a =
     (case vendor_id a of
        Some v \<Rightarrow>
          if role a \<noteq> Vendor \<or> v = [] then raise (forbidden ''Vendor access is required.'')
          else bindM (gets (has_vendor_access v (user_id a))) (\<lambda>granted.
            if granted then ret v else raise (forbidden ''Vendor access is required.''))
      | None \<Rightarrow> raise (forbidden ''Vendor access is required.''))"

definition list_vendor_batches ::
  "uuid \<Rightarrow> batch_status option \<Rightarrow> day option \<Rightarrow> 'z batches_db_scheme \<Rightarrow> delivery_batch list" where
  "list_vendor_batches v st d s = rev (filter (\<lambda>b. bt_vendor b = v \<and> (st = None \<or> st = Some (bt_status b)) \<and>
     (d = None \<or> d = Some (bt_day b))) (batch_rows s))"

definition find_vendor_batch :: "uuid \<Rightarrow> uuid \<Rightarrow> 'z batches_db_scheme \<Rightarrow> delivery_batch option" where
  "find_vendor_batch v bid s = find (\<lambda>b. bt_vendor b = v \<and> bt_id b = bid) (batch_rows s)"

definition order_view_of :: "uuid \<Rightarrow> 'z orders_db_scheme \<Rightarrow> order_view option" where
  "order_view_of oid s =
     Option.bind (lookup_by ord_id oid (odb_orders s)) (\<lambda>r.
       map_option (\<lambda>f. \<lparr>ov_order = r, ov_facts = f, ov_total = order_total_of s oid,
           ov_lines = filter (\<lambda>l. ol_order l = oid) (stored_lines s), ov_payment = find_latest_payment oid s\<rparr>)
         (lookup_by fa_order oid (order_facts s)))"

definition find_batch_orders :: "uuid \<Rightarrow> 'z batches_db_scheme \<Rightarrow> order_view list" where
  "find_batch_orders bid s = map the (filter (\<lambda>v. v \<noteq> None) (map (\<lambda>oid. order_view_of oid s) (orders_in bid s)))"

definition list_batches :: "actor \<Rightarrow> batch_status option \<Rightarrow> day option \<Rightarrow> ('z batches_db_scheme, delivery_batch list) prog" where
  "list_batches a st d = bindM (require_vendor a) (\<lambda>v. gets (list_vendor_batches v st d))"

definition get_batch :: "actor \<Rightarrow> uuid \<Rightarrow> ('z batches_db_scheme, delivery_batch \<times> order_view list) prog" where
  "get_batch a bid =
     bindM (require_vendor a) (\<lambda>v.
     bindM (gets (find_vendor_batch v bid)) (\<lambda>found.
       case found of
         None \<Rightarrow> raise (not_found ''Batch was not found.'')
       | Some b \<Rightarrow> bindM (gets (find_batch_orders bid)) (\<lambda>rows. ret (b, rows))))"

definition pickup_rows :: "uuid \<Rightarrow> ('z batches_db_scheme, unit) prog" where
  "pickup_rows bid =
     thenM (update_batches (\<lambda>s b. bt_id b = bid) (\<lambda>s b. b\<lparr>bt_status := Ba_In_Progress\<rparr>))
    (thenM (update_assignments (\<lambda>s a. as_batch a = bid \<and> as_status a \<in> {As_Assigned, As_Accepted})
       (\<lambda>s a. a\<lparr>as_status := As_Picked_Up, as_picked_up := Some (odb_now s)\<rparr>))
    (bindM (gets (orders_in bid)) (\<lambda>oids.
       for_each (\<lambda>oid. bindM (transition_with_shares oid Out_For_Delivery None True) (\<lambda>_. ret ())) oids)))"

definition pickup_batch :: "actor \<Rightarrow> uuid \<Rightarrow> ('z batches_db_scheme, delivery_batch \<times> order_view list) prog" where
  "pickup_batch a bid =
     bindM (require_vendor a) (\<lambda>v.
     bindM (gets (find_vendor_batch v bid)) (\<lambda>found.
       case found of
         None \<Rightarrow> raise (not_found ''Batch was not found.'')
       | Some b \<Rightarrow>
           thenM (catchM (transaction (pickup_rows bid)) (\<lambda>e. raise (forbidden (error_message e)))) (get_batch a bid)))"

section \<open>The vendor's orders (vendor-orders.service.ts, vendor-orders.repository.ts)\<close>

definition vendor_sees :: "uuid \<Rightarrow> order_view \<Rightarrow> bool" where
  "vendor_sees v x \<longleftrightarrow> fa_vendor (ov_facts x) = v \<and> ord_paid_at (ov_order x) \<noteq> None \<and>
     ord_status (ov_order x) \<notin> {Expired, Pending_Payment}"

definition find_vendor_order_by_id :: "uuid \<Rightarrow> uuid \<Rightarrow> 'z orders_db_scheme \<Rightarrow> order_view option" where
  "find_vendor_order_by_id v oid s =
     Option.bind (order_view_of oid s) (\<lambda>x. if vendor_sees v x then Some x else None)"

text \<open>The newest orders first; pages are numbered from 1.\<close>

definition list_vendor_orders ::
  "uuid \<Rightarrow> order_status option \<Rightarrow> day option \<Rightarrow> nat \<Rightarrow> nat \<Rightarrow> 'z orders_db_scheme \<Rightarrow> order_view list" where
  "list_vendor_orders v st d page_no max_rows s =
     take max_rows (drop ((page_no - 1) * max_rows) (rev (filter (\<lambda>x. vendor_sees v x \<and>
         (st = None \<or> st = Some (ord_status (ov_order x))) \<and> (d = None \<or> d = Some (fa_day (ov_facts x))))
       (map the (filter (\<lambda>x. x \<noteq> None) (map (\<lambda>r. order_view_of (ord_id r) s) (odb_orders s)))))))"

definition vendor_orders ::
  "actor \<Rightarrow> order_status option \<Rightarrow> day option \<Rightarrow> nat option \<Rightarrow> nat option \<Rightarrow> ('z orders_db_scheme, order_view list) prog" where
  "vendor_orders a st d page_no max_rows =
     bindM (require_vendor a) (\<lambda>v. gets (list_vendor_orders v st d
       (case page_no of None \<Rightarrow> 1 | Some n \<Rightarrow> n) (case max_rows of None \<Rightarrow> 20 | Some n \<Rightarrow> n)))"

definition get_vendor_order :: "actor \<Rightarrow> uuid \<Rightarrow> ('z orders_db_scheme, order_view) prog" where
  "get_vendor_order a oid =
     bindM (require_vendor a) (\<lambda>v.
     bindM (gets (find_vendor_order_by_id v oid)) (\<lambda>found.
       case found of None \<Rightarrow> raise (not_found ''Order was not found.'') | Some x \<Rightarrow> ret x))"

definition ready_order :: "actor \<Rightarrow> uuid \<Rightarrow> ('z orders_db_scheme, order_view) prog" where
  "ready_order a oid =
     bindM (require_vendor a) (\<lambda>v.
     bindM (gets (find_vendor_order_by_id v oid)) (\<lambda>found.
       case found of
         None \<Rightarrow> raise (not_found ''Order was not found.'')
       | Some x \<Rightarrow>
           thenM (catchM (bindM (transition_with_shares oid Ready None True) (\<lambda>_. ret ())) (\<lambda>e. raise (forbidden (error_message e))))
          (bindM (gets (find_vendor_order_by_id v oid)) (\<lambda>after.
             case after of None \<Rightarrow> raise (not_found ''Order was not found.'') | Some y \<Rightarrow> ret y))))"

section \<open>What a transition does\<close>

lemma reads_settings: "preserves I (platform_setting_int key fallback)" "preserves I (to_int4 n)"
  by (auto simp: platform_setting_int_def to_int4_def intro!: preserves_intros split: option.split json.split js_num.split)

lemma resolve_keeps:
  "(\<And>s xs. I s \<Longrightarrow> I (s\<lparr>deliveries := xs\<rparr>)) \<Longrightarrow> preserves I (resolve_order_delivery_shares oid)"
  unfolding resolve_order_delivery_shares_def read_share_settings_def Let_def
  by (auto intro!: preserves_intros preserves_modify reads_settings split: option.split prod.split)

lemma transition_keeps:
  assumes "\<And>s xs. I s \<Longrightarrow> I (s\<lparr>odb_orders := xs\<rparr>)" "\<And>s xs. I s \<Longrightarrow> I (s\<lparr>odb_history := xs\<rparr>)"
    "\<And>s xs. I s \<Longrightarrow> I (s\<lparr>odb_outbox := xs\<rparr>)" "\<And>s xs. I s \<Longrightarrow> I (s\<lparr>deliveries := xs\<rparr>)"
  shows "preserves I (transition_with_shares oid to reason ready)"
  unfolding transition_with_shares_def transition_order_status_def
  by (auto intro!: preserves_intros preserves_modify resolve_keeps assms split: option.split)

text \<open>What a transition does to the statuses.\<close>

definition moved :: "uuid \<Rightarrow> order_status \<Rightarrow> 'z order_db_scheme \<Rightarrow> 'z order_db_scheme \<Rightarrow> bool" where
  "moved oid to s t \<longleftrightarrow> (\<forall>x. status_of x t = (if x = oid then Some to else status_of x s))"

definition may_move :: "uuid \<Rightarrow> order_status \<Rightarrow> 'z order_db_scheme \<Rightarrow> bool" where
  "may_move oid to s \<longleftrightarrow> status_of oid s = Some to \<or> (\<exists>st. status_of oid s = Some st \<and> sql_transition_allowed st to)"

lemma stamp_fields: "ord_id (stamp_transition n to why rdy q) = ord_id q" "ord_status (stamp_transition n to why rdy q) = to"
  by (simp_all add: stamp_transition_def)

lemma transition_order_moves:
  "gives (transition_order_status oid to reason ready) s (\<lambda>_ t. moved oid to s t \<and> may_move oid to s)"
  unfolding transition_order_status_def
  by (intro gives_intros) (auto simp: may_move_def status_of_def moved_def lookup_update_same lookup_update_other stamp_fields)

lemma transition_moves:
  "gives (transition_with_shares oid to reason ready) s (\<lambda>_ t. moved oid to s t \<and> may_move oid to s)"
proof -
  have shares: "gives (whenM b (resolve_order_delivery_shares oid)) t (\<lambda>_ u. moved oid to s u \<and> may_move oid to s)"
    if "moved oid to s t \<and> may_move oid to s" for b t
    using that by (intro gives_keeps [where I = "\<lambda>u. moved oid to s u \<and> may_move oid to s"] preserves_intros resolve_keeps)
      (simp_all add: moved_def status_of_def)
  show ?thesis unfolding transition_with_shares_def
    by (intro gives_in_transaction gives_bindM gives_thenM gives_basic gives_weaken [OF transition_order_moves] gives_weaken [OF shares])
qed


text \<open>The fee of a delivered order is split without remainder.\<close>

definition fee_split :: "uuid \<Rightarrow> 'z fee_db_scheme \<Rightarrow> bool" where
  "fee_split oid s \<longleftrightarrow> (\<exists>d rider vendor platform. lookup_by dr_order oid (deliveries s) = Some d \<and>
     dr_rider_share d = Some rider \<and> dr_vendor_share d = Some vendor \<and> dr_platform_share d = Some platform \<and>
     0 \<le> rider \<and> 0 \<le> vendor \<and> 0 \<le> platform \<and> rider + vendor + platform = dr_fee d)"

lemma gives_int4: "(int4 n \<Longrightarrow> P n s) \<Longrightarrow> gives (to_int4 n) s P"
  by (simp add: gives_def to_int4_app)

lemma read_shares_state: "preserves I read_share_settings"
  unfolding read_share_settings_def by (intro preserves_intros reads_settings)

lemma resolve_splits: "gives (resolve_order_delivery_shares oid) s (\<lambda>_ t. fee_split oid t)"
proof -
  have "gives (resolve_order_delivery_shares oid) u (\<lambda>_ t. fee_split oid t)" if "u = s" for u
    unfolding resolve_order_delivery_shares_def Let_def
    by (intro gives_bindM gives_keeps [OF read_shares_state refl] gives_intros gives_int4)
      (auto simp: fee_split_def lookup_update_same dest: lookup_by_Some)
  then show ?thesis by simp
qed

lemma delivered_splits:
  assumes "status_of oid s = Some Out_For_Delivery"
  shows "gives (transition_with_shares oid Delivered why rdy) s (\<lambda>_ t. fee_split oid t)"
proof -
  obtain r where r: "lookup_by ord_id oid (odb_orders s) = Some r" "ord_status r = Out_For_Delivery"
    using assms by (auto simp: status_of_def)
  show ?thesis unfolding transition_with_shares_def
    by (intro gives_in_transaction gives_bindM gives_basic gives_weaken [OF transition_order_moves] gives_thenM)
      (simp add: r whenM_def gives_ret resolve_splits)
qed

end
