(* ===== verification/Riders.thy ===== *)
theory Riders
  imports Batches
begin

text \<open>
  modules/riders (riders.service.ts, riders.repository.ts) and the database functions that count wrong
  delivery codes (register_delivery_code_failure, reset_delivery_code_attempts): onboarding and profile,
  the rider's assignments, and the orders the rider takes out and delivers, by id or by the customer's
  code. Times are milliseconds; \<open>time_text\<close> is how the database prints one. Writing the claims of
  an account (Supabase Auth) is not under src/: \<open>auth_answers\<close> are its answers, \<open>auth_log\<close> the calls.
\<close>

section \<open>Tables\<close>

record code_attempts =
  at_rider :: uuid
  at_failed :: int
  at_window :: time
  at_locked :: "time option"

record escalation_row =
  es_id :: uuid
  es_order :: uuid
  es_by :: uuid
  es_category :: string
  es_description :: string
  es_opened :: time

record riders_db = batches_db +
  attempts :: "code_attempts list"
  escalations :: "escalation_row list"
  campus_ids :: "uuid list"
  time_text :: "time \<Rightarrow> string"
  auth_answers :: "nat \<Rightarrow> exn option"
  auth_log :: "(uuid \<times> json) list"

definition too_many_requests :: "string \<Rightarrow> exn" where
  "too_many_requests m = Http_Error 429 ''RATE_LIMITED'' m"

section \<open>The repository: riders (riders.repository.ts)\<close>

definition active_then_newest :: "bool \<times> time \<Rightarrow> bool \<times> time \<Rightarrow> bool" where
  "active_then_newest p q \<longleftrightarrow> (\<not> fst p \<and> fst q) \<or> (fst p = fst q \<and> snd p < snd q)"

definition find_rider_profile_for_actor :: "uuid \<Rightarrow> uuid option \<Rightarrow> 'z batches_db_scheme \<Rightarrow> courier option" where
  "find_rider_profile_for_actor user rid s =
     (case newest_first active_then_newest (\<lambda>c. (rd_active c, rd_created c))
         (filter (\<lambda>c. rd_user c = user \<and> (rid = None \<or> rid = Some (rd_id c))) (couriers s)) of
        [] \<Rightarrow> None | c # cs \<Rightarrow> Some c)"

definition find_rider_id_for_user :: "uuid \<Rightarrow> 'z batches_db_scheme \<Rightarrow> uuid option" where
  "find_rider_id_for_user user s = map_option rd_id (find_rider_profile_for_actor user None s)"

definition has_rider_access :: "uuid \<Rightarrow> uuid \<Rightarrow> 'z batches_db_scheme \<Rightarrow> bool" where
  "has_rider_access rid user s \<longleftrightarrow>
     list_ex (\<lambda>c. rd_id c = rid \<and> rd_user c = user \<and> rd_active c) (couriers s) \<or>
     list_ex (\<lambda>c. rd_id c = rid \<and> is_campus_admin s (rd_campus c) user) (couriers s)"

text \<open>The check riders_phone_shape: a digit or a plus sign, then 6 to 24 digits, spaces, brackets and hyphens.\<close>

definition phone_shape :: "string \<Rightarrow> bool" where
  "phone_shape p \<longleftrightarrow> p \<noteq> [] \<and> hd p \<in> set ''+0123456789'' \<and> set (tl p) \<subseteq> set ''0123456789 ()-'' \<and>
     6 \<le> length (tl p) \<and> length (tl p) \<le> 24"

definition insert_rider :: "uuid \<Rightarrow> uuid \<Rightarrow> string \<Rightarrow> string \<Rightarrow> ('z riders_db_scheme, courier) prog" where
  "insert_rider campus user name phone =
     bindM (gets (\<lambda>s. (campus \<in> set (campus_ids s) \<and> user \<in> prof_id ` set (profiles s),
         list_ex (\<lambda>c. rd_campus c = campus \<and> rd_user c = user) (couriers s), odb_now s))) (\<lambda>(known, linked, now).
     if \<not> phone_shape phone then raise (pg_error ''23514'' ''new row for relation riders violates check constraint riders_phone_shape'')
     else if linked then raise (pg_error ''23505'' ''duplicate key value violates unique constraint riders_campus_user_unique'')
     else if \<not> known then raise (pg_error ''23503'' ''insert or update on table riders violates foreign key constraint'')
     else bindM draw_uuid (\<lambda>i.
       let c = \<lparr>rd_id = i, rd_user = user, rd_campus = campus, rd_name = name, rd_available = False, rd_active = False,
                rd_status = Rider_Pending, rd_fleet = None, rd_created = now, cr_phone = phone, cr_verified_at = None\<rparr>
       in thenM (modify (\<lambda>s. s\<lparr>couriers := couriers s @ [c]\<rparr>)) (ret c)))"

definition update_courier ::
  "uuid \<Rightarrow> uuid \<Rightarrow> (courier \<Rightarrow> courier) \<Rightarrow> ('z batches_db_scheme, courier option) prog" where
  "update_courier rid user f =
     thenM (modify (\<lambda>s. s\<lparr>couriers := update_where (\<lambda>c. rd_id c = rid \<and> rd_user c = user) f (couriers s)\<rparr>))
       (gets (\<lambda>s. find (\<lambda>c. rd_id c = rid \<and> rd_user c = user) (couriers s)))"

definition update_rider_profile ::
  "uuid \<Rightarrow> uuid \<Rightarrow> string option \<Rightarrow> string option \<Rightarrow> ('z batches_db_scheme, courier option) prog" where
  "update_rider_profile rid user name phone =
     (if (\<exists>p\<in>set_option phone. \<not> phone_shape p)
      then bindM (gets (\<lambda>s. list_ex (\<lambda>c. rd_id c = rid \<and> rd_user c = user) (couriers s))) (\<lambda>found.
        if found then raise (pg_error ''23514'' ''new row for relation riders violates check constraint riders_phone_shape'') else ret None)
      else update_courier rid user (\<lambda>c. c\<lparr>rd_name := (case name of None \<Rightarrow> rd_name c | Some x \<Rightarrow> x),
        cr_phone := (case phone of None \<Rightarrow> cr_phone c | Some x \<Rightarrow> x)\<rparr>))"

definition set_rider_availability :: "uuid \<Rightarrow> uuid \<Rightarrow> bool \<Rightarrow> ('z batches_db_scheme, courier option) prog" where
  "set_rider_availability rid user b = update_courier rid user (\<lambda>c. c\<lparr>rd_available := b\<rparr>)"

section \<open>The repository: assignments\<close>

definition find_assignment :: "uuid \<Rightarrow> uuid \<Rightarrow> 'z batches_db_scheme \<Rightarrow> (delivery_assignment \<times> delivery_batch) option" where
  "find_assignment rid aid s =
     Option.bind (find (\<lambda>a. as_rider a = Some rid \<and> as_id a = aid) (assignment_rows s)) (\<lambda>a.
       map_option (Pair a) (lookup_by bt_id (as_batch a) (batch_rows s)))"

definition accept_assignment_row :: "uuid \<Rightarrow> uuid \<Rightarrow> ('z batches_db_scheme, (delivery_assignment \<times> delivery_batch) option) prog" where
  "accept_assignment_row rid aid =
     thenM (update_assignments (\<lambda>s a. as_rider a = Some rid \<and> as_id a = aid \<and> as_status a = As_Assigned)
       (\<lambda>s a. a\<lparr>as_status := As_Accepted, as_accepted := (case as_accepted a of None \<Rightarrow> Some (odb_now s) | x \<Rightarrow> x)\<rparr>))
     (gets (find_assignment rid aid))"

text \<open>Declining reopens the batch only when the assignment was there to decline.\<close>

definition decline_rows :: "uuid \<Rightarrow> uuid \<Rightarrow> uuid \<Rightarrow> ('z batches_db_scheme, unit) prog" where
  "decline_rows rid aid bid =
     bindM (gets (\<lambda>s. list_ex (\<lambda>a. as_rider a = Some rid \<and> as_id a = aid \<and> as_status a \<in> {As_Assigned, As_Accepted}) (assignment_rows s)))
       (\<lambda>landed.
     thenM (update_assignments (\<lambda>s a. as_rider a = Some rid \<and> as_id a = aid \<and> as_status a \<in> {As_Assigned, As_Accepted})
         (\<lambda>s a. a\<lparr>as_status := As_Cancelled\<rparr>))
       (whenM landed (update_batches (\<lambda>s b. bt_id b = bid \<and> bt_status b = Ba_Assigned) (\<lambda>s b. b\<lparr>bt_status := Ba_Closed\<rparr>))))"

definition decline_assignment_row :: "uuid \<Rightarrow> uuid \<Rightarrow> ('z batches_db_scheme, (delivery_assignment \<times> delivery_batch) option) prog" where
  "decline_assignment_row rid aid =
     bindM (gets (find_assignment rid aid)) (\<lambda>found.
       case found of
         None \<Rightarrow> ret None
       | Some (a, b) \<Rightarrow> thenM (transaction (decline_rows rid aid (bt_id b))) (gets (find_assignment rid aid)))"

text \<open>Picking up writes the batch whether or not the assignment could be picked up.\<close>

definition picked_up_rows :: "uuid \<Rightarrow> uuid \<Rightarrow> uuid \<Rightarrow> ('z batches_db_scheme, unit) prog" where
  "picked_up_rows rid aid bid =
     thenM (update_assignments (\<lambda>s a. as_rider a = Some rid \<and> as_id a = aid \<and> as_status a \<in> {As_Assigned, As_Accepted, As_Picked_Up})
       (\<lambda>s a. a\<lparr>as_status := As_Picked_Up, as_picked_up := (case as_picked_up a of None \<Rightarrow> Some (odb_now s) | x \<Rightarrow> x)\<rparr>))
     (update_batches (\<lambda>s b. bt_id b = bid \<and> bt_status b \<in> {Ba_Assigned, Ba_Closed, Ba_In_Progress}) (\<lambda>s b. b\<lparr>bt_status := Ba_In_Progress\<rparr>))"

definition mark_picked_up_row :: "uuid \<Rightarrow> uuid \<Rightarrow> ('z batches_db_scheme, (delivery_assignment \<times> delivery_batch) option) prog" where
  "mark_picked_up_row rid aid =
     bindM (gets (find_assignment rid aid)) (\<lambda>found.
       case found of
         None \<Rightarrow> ret None
       | Some (a, b) \<Rightarrow> thenM (transaction (picked_up_rows rid aid (bt_id b))) (gets (find_assignment rid aid)))"

section \<open>The repository: orders on the way\<close>

definition carries :: "uuid \<Rightarrow> uuid \<Rightarrow> 'z batches_db_scheme \<Rightarrow> bool" where
  "carries rid bid s \<longleftrightarrow> list_ex (\<lambda>a. as_batch a = bid \<and> as_rider a = Some rid) (assignment_rows s)"

record rider_order =
  ro_view :: order_view
  ro_assignment :: delivery_assignment

definition find_assigned_order :: "uuid \<Rightarrow> uuid \<Rightarrow> 'z batches_db_scheme \<Rightarrow> rider_order option" where
  "find_assigned_order rid oid s =
     Option.bind (find (\<lambda>p. snd p = oid \<and> carries rid (fst p) s) (batched s)) (\<lambda>p.
     Option.bind (find (\<lambda>a. as_batch a = fst p \<and> as_rider a = Some rid) (assignment_rows s)) (\<lambda>a.
       map_option (\<lambda>v. \<lparr>ro_view = v, ro_assignment = a\<rparr>) (order_view_of oid s)))"

definition finished :: "order_status \<Rightarrow> bool" where
  "finished st \<longleftrightarrow> st \<in> {Delivered, Administratively_Completed, Refunded}"

definition batch_pending :: "uuid \<Rightarrow> 'z batches_db_scheme \<Rightarrow> bool" where
  "batch_pending bid s \<longleftrightarrow> list_ex (\<lambda>oid. case status_of oid s of None \<Rightarrow> False | Some st \<Rightarrow> \<not> finished st) (orders_in bid s)"

definition complete_assignment_if_all_orders_delivered :: "uuid \<Rightarrow> uuid \<Rightarrow> ('z batches_db_scheme, unit) prog" where
  "complete_assignment_if_all_orders_delivered rid bid =
     thenM (update_assignments (\<lambda>s a. as_rider a = Some rid \<and> as_batch a = bid \<and> \<not> batch_pending bid s)
       (\<lambda>s a. a\<lparr>as_status := As_Completed, as_completed := (case as_completed a of None \<Rightarrow> Some (odb_now s) | x \<Rightarrow> x)\<rparr>))
     (update_batches (\<lambda>s b. bt_id b = bid \<and> \<not> batch_pending bid s) (\<lambda>s b. b\<lparr>bt_status := Ba_Completed\<rparr>))"

definition transition_assigned_order_status ::
  "uuid \<Rightarrow> uuid \<Rightarrow> order_status \<Rightarrow> bool option \<Rightarrow> ('z batches_db_scheme, order_status) prog" where
  "transition_assigned_order_status rid oid to food_was_ready =
     bindM (gets (find_assigned_order rid oid)) (\<lambda>found.
       case found of
         None \<Rightarrow> raise (Plain_Error ''Order was not found for this rider.'')
       | Some x \<Rightarrow>
           bindM (transition_with_shares oid to None (case food_was_ready of None \<Rightarrow> True | Some b \<Rightarrow> b)) (\<lambda>st.
           thenM (whenM (to = Delivered) (complete_assignment_if_all_orders_delivered rid (as_batch (ro_assignment x))))
             (ret st)))"

definition out_with_code :: "uuid \<Rightarrow> string \<Rightarrow> 'z batches_db_scheme \<Rightarrow> bool" where
  "out_with_code oid code s \<longleftrightarrow> status_of oid s = Some Out_For_Delivery \<and>
     Option.bind (lookup_by fa_order oid (order_facts s)) fa_code = Some code"

definition rider_code_taken :: "uuid \<Rightarrow> uuid \<Rightarrow> string \<Rightarrow> 'z batches_db_scheme \<Rightarrow> bool" where
  "rider_code_taken rid oid code s \<longleftrightarrow>
     list_ex (\<lambda>p. snd p \<noteq> oid \<and> carries rid (fst p) s \<and> out_with_code (snd p) code s) (batched s)"

fun draw_delivery_code :: "uuid \<Rightarrow> uuid \<Rightarrow> nat \<Rightarrow> ('z batches_db_scheme, string) prog" where
  "draw_delivery_code rid oid 0 = raise (Plain_Error ''Could not assign a unique delivery code after several attempts.'')"
| "draw_delivery_code rid oid (Suc n) =
     bindM draw_code (\<lambda>code.
     bindM (gets (\<lambda>s. status_of oid s = Some Out_For_Delivery \<and> \<not> rider_code_taken rid oid code s)) (\<lambda>free.
       if free then thenM (modify (\<lambda>s. s\<lparr>order_facts := update_where (\<lambda>f. fa_order f = oid) (\<lambda>f. f\<lparr>fa_code := Some code\<rparr>)
           (order_facts s)\<rparr>)) (ret code)
       else draw_delivery_code rid oid n))"

definition assign_delivery_code :: "uuid \<Rightarrow> uuid \<Rightarrow> ('z batches_db_scheme, string) prog" where
  "assign_delivery_code rid oid =
     bindM (gets (\<lambda>s. (Option.bind (lookup_by fa_order oid (order_facts s)) fa_code,
         status_of oid s = Some Out_For_Delivery, \<lambda>code. rider_code_taken rid oid code s))) (\<lambda>(existing, out, taken).
       case existing of
         Some code \<Rightarrow> if out \<and> \<not> taken code then ret code else draw_delivery_code rid oid 10
       | None \<Rightarrow> draw_delivery_code rid oid 10)"

definition active_orders_with_code :: "uuid \<Rightarrow> string \<Rightarrow> 'z batches_db_scheme \<Rightarrow> uuid list" where
  "active_orders_with_code rid code s =
     map snd (filter (\<lambda>p. carries rid (fst p) s \<and> out_with_code (snd p) code s) (batched s))"

definition find_active_order_id_by_delivery_code :: "uuid \<Rightarrow> string \<Rightarrow> 'z batches_db_scheme \<Rightarrow> uuid option \<times> nat" where
  "find_active_order_id_by_delivery_code rid code s =
     (case take 2 (active_orders_with_code rid code s) of
        [] \<Rightarrow> (None, 0) | [oid] \<Rightarrow> (Some oid, 1) | _ \<Rightarrow> (None, 2))"

section \<open>Wrong codes\<close>

definition attempt_window :: time where
  "attempt_window = 15 * 60000"

definition max_attempts :: int where
  "max_attempts = 5"

definition get_delivery_code_lock :: "uuid \<Rightarrow> 'z riders_db_scheme \<Rightarrow> time option" where
  "get_delivery_code_lock rid s =
     Option.bind (lookup_by at_rider rid (attempts s)) (\<lambda>a.
       case at_locked a of None \<Rightarrow> None | Some t \<Rightarrow> if odb_now s < t then Some t else None)"

definition next_code_attempt :: "time \<Rightarrow> code_attempts \<Rightarrow> code_attempts" where
  "next_code_attempt now a =
     (let expired = at_window a < now - attempt_window;
          n = (if expired then 0 else at_failed a) + 1
      in a\<lparr>at_failed := n, at_window := (if expired then now else at_window a),
           at_locked := (if max_attempts \<le> n then Some (now + attempt_window) else None)\<rparr>)"

definition register_delivery_code_failure :: "uuid \<Rightarrow> ('z riders_db_scheme, int \<times> time option) prog" where
  "register_delivery_code_failure rid =
     bindM (gets (\<lambda>s. (odb_now s, lookup_by at_rider rid (attempts s)))) (\<lambda>(now, found).
       case found of
         None \<Rightarrow> thenM (modify (\<lambda>s. s\<lparr>attempts := attempts s @
             [\<lparr>at_rider = rid, at_failed = 1, at_window = now, at_locked = None\<rparr>]\<rparr>)) (ret (1, None))
       | Some a \<Rightarrow> let b = next_code_attempt now a in
           thenM (modify (\<lambda>s. s\<lparr>attempts := update_where (\<lambda>x. at_rider x = rid) (next_code_attempt now) (attempts s)\<rparr>))
             (ret (at_failed b, at_locked b)))"

definition reset_delivery_code_attempts :: "uuid \<Rightarrow> ('z riders_db_scheme, unit) prog" where
  "reset_delivery_code_attempts rid = modify (\<lambda>s. s\<lparr>attempts := filter (\<lambda>a. at_rider a \<noteq> rid) (attempts s)\<rparr>)"

definition create_order_issue ::
  "uuid \<Rightarrow> uuid \<Rightarrow> uuid \<Rightarrow> string \<Rightarrow> string \<Rightarrow> ('z riders_db_scheme, escalation_row option) prog" where
  "create_order_issue rid oid user category description =
     bindM (gets (\<lambda>s. (find_assigned_order rid oid s, user \<in> prof_id ` set (profiles s), odb_now s))) (\<lambda>(found, known, now).
       case found of
         None \<Rightarrow> ret None
       | Some x \<Rightarrow>
           if btrim description = [] then raise (pg_error ''23514'' ''new row for relation escalations violates check constraint'')
           else if \<not> known then raise (pg_error ''23503'' ''insert or update on table escalations violates foreign key constraint'')
           else bindM draw_uuid (\<lambda>i.
             let e = \<lparr>es_id = i, es_order = oid, es_by = user, es_category = ''rider_'' @ category, es_description = description,
                      es_opened = now\<rparr>
             in thenM (modify (\<lambda>s. s\<lparr>escalations := escalations s @ [e]\<rparr>)) (ret (Some e))))"

section \<open>The service (riders.service.ts)\<close>

definition resolve_rider_profile :: "bool \<Rightarrow> actor \<Rightarrow> ('z batches_db_scheme, courier) prog" where
  "resolve_rider_profile active_verified a =
     (if role a \<noteq> Rider then raise (forbidden ''Rider access is required.'')
      else bindM (gets (find_rider_profile_for_actor (user_id a) (rider_id a))) (\<lambda>found.
        case found of
          None \<Rightarrow> raise (not_found ''Rider profile was not found.'')
        | Some c \<Rightarrow>
            if active_verified \<and> (\<not> rd_active c \<or> rd_status c \<noteq> Rider_Verified)
            then raise (forbidden ''Verified active rider access is required.'')
            else bindM (gets (has_rider_access (rd_id c) (user_id a))) (\<lambda>granted.
              if active_verified \<and> \<not> granted then raise (forbidden ''Verified active rider access is required.'') else ret c)))"

definition set_user_app_metadata :: "uuid \<Rightarrow> json \<Rightarrow> ('z riders_db_scheme, unit) prog" where
  "set_user_app_metadata user claims =
     bindM (gets (\<lambda>s. auth_answers s (length (auth_log s)))) (\<lambda>answer.
     thenM (modify (\<lambda>s. s\<lparr>auth_log := auth_log s @ [(user, claims)]\<rparr>))
       (case answer of None \<Rightarrow> ret () | Some e \<Rightarrow> raise e))"

definition onboarding_error :: "exn \<Rightarrow> exn" where
  "onboarding_error e =
     (case e of
        Database_Error (Some code) m d \<Rightarrow>
          if code = ''23503'' then bad_request ''Campus was not found.''
          else if code = ''23505'' then conflict ''This account is already linked to a rider.'' else e
      | _ \<Rightarrow> e)"

definition onboard_rider :: "actor \<Rightarrow> uuid \<Rightarrow> string \<Rightarrow> string \<Rightarrow> ('z riders_db_scheme, courier) prog" where
  "onboard_rider a campus name phone =
     (if role a \<noteq> Rider then raise (forbidden ''Rider access is required.'')
      else bindM (gets (find_rider_id_for_user (user_id a))) (\<lambda>linked.
        if linked \<noteq> None then raise (conflict ''This account is already linked to a rider.'')
        else bindM (catchM (insert_rider campus (user_id a) (js_trim name) (js_trim phone)) (\<lambda>e. raise (onboarding_error e))) (\<lambda>c.
          thenM (set_user_app_metadata (user_id a) (JObj [(''meal_direct_role'', JStr ''rider''), (''rider_id'', JStr (rd_id c))]))
            (ret c))))"

definition found_or :: "string \<Rightarrow> 'a option \<Rightarrow> ('s, 'a) prog" where
  "found_or m v = (case v of None \<Rightarrow> raise (not_found m) | Some x \<Rightarrow> ret x)"

definition get_rider_profile :: "actor \<Rightarrow> ('z batches_db_scheme, courier) prog" where
  "get_rider_profile a = resolve_rider_profile False a"

definition update_profile :: "actor \<Rightarrow> string option \<Rightarrow> string option \<Rightarrow> ('z batches_db_scheme, courier) prog" where
  "update_profile a name phone =
     bindM (resolve_rider_profile False a) (\<lambda>c.
     bindM (update_rider_profile (rd_id c) (user_id a) (map_option js_trim name) (map_option js_trim phone))
       (found_or ''Rider profile was not found.''))"

definition set_availability :: "actor \<Rightarrow> bool \<Rightarrow> ('z batches_db_scheme, courier) prog" where
  "set_availability a b =
     bindM (resolve_rider_profile True a) (\<lambda>c.
     bindM (set_rider_availability (rd_id c) (user_id a) b) (found_or ''Rider profile was not found.''))"

type_synonym assignment_view = "delivery_assignment \<times> delivery_batch \<times> order_view list"

definition assignment_detail :: "delivery_assignment \<times> delivery_batch \<Rightarrow> ('z batches_db_scheme, assignment_view) prog" where
  "assignment_detail x = bindM (gets (find_batch_orders (as_batch (fst x)))) (\<lambda>rows. ret (fst x, snd x, rows))"

definition get_assignment :: "actor \<Rightarrow> uuid \<Rightarrow> ('z batches_db_scheme, assignment_view) prog" where
  "get_assignment a aid =
     bindM (resolve_rider_profile True a) (\<lambda>c.
     bindM (gets (find_assignment (rd_id c) aid)) (\<lambda>found.
     bindM (found_or ''Assignment was not found.'' found) assignment_detail))"

definition accept_assignment :: "actor \<Rightarrow> uuid \<Rightarrow> ('z batches_db_scheme, assignment_view) prog" where
  "accept_assignment a aid =
     bindM (resolve_rider_profile True a) (\<lambda>c.
     bindM (accept_assignment_row (rd_id c) aid) (\<lambda>found.
     bindM (found_or ''Assignment was not found.'' found) (\<lambda>x.
       if as_status (fst x) \<noteq> As_Accepted then raise (bad_request ''Assignment cannot be accepted from its current status.'')
       else assignment_detail x)))"

definition assignment_status_text :: "assignment_status \<Rightarrow> string" where
  "assignment_status_text st = (case st of As_Assigned \<Rightarrow> ''assigned'' | As_Accepted \<Rightarrow> ''accepted'' | As_Picked_Up \<Rightarrow> ''picked_up''
     | As_Completed \<Rightarrow> ''completed'' | As_Cancelled \<Rightarrow> ''cancelled'')"

definition decline_assignment :: "actor \<Rightarrow> uuid \<Rightarrow> string option \<Rightarrow> ('z batches_db_scheme, assignment_view) prog" where
  "decline_assignment a aid reason =
     bindM (resolve_rider_profile True a) (\<lambda>c.
     bindM (gets (find_assignment (rd_id c) aid)) (\<lambda>known.
     bindM (found_or ''Assignment was not found.'' known) (\<lambda>before.
       if as_status (fst before) \<notin> {As_Assigned, As_Accepted}
       then raise (bad_request ''Assignment cannot be declined from its current status.'')
       else bindM (decline_assignment_row (rd_id c) aid) (\<lambda>found.
         bindM (found_or ''Assignment was not found.'' found) (\<lambda>x.
         thenM (record_audit
           \<lparr>au_actor = user_id a, au_actor_type = actor_type_for_role (role a), au_campus = None,
            au_action = ''assignment.declined'', au_entity_type = ''delivery_assignment'', au_entity_id = Some aid,
            au_before = Some (JObj [(''status'', JStr (assignment_status_text (as_status (fst before))))]),
            au_after = Some (JObj [(''status'', JStr (assignment_status_text (as_status (fst x))))]),
            au_metadata = JObj ((''batchId'', JStr (as_batch (fst before))) #
              (case reason of None \<Rightarrow> [] | Some r \<Rightarrow> [(''reason'', JStr r)]))\<rparr>)
          (assignment_detail x))))))"

definition mark_assignment_picked_up :: "actor \<Rightarrow> uuid \<Rightarrow> ('z batches_db_scheme, assignment_view) prog" where
  "mark_assignment_picked_up a aid =
     bindM (resolve_rider_profile True a) (\<lambda>c.
     bindM (mark_picked_up_row (rd_id c) aid) (\<lambda>found.
     bindM (found_or ''Assignment was not found.'' found) (\<lambda>x.
       if as_status (fst x) \<noteq> As_Picked_Up then raise (bad_request ''Assignment cannot be marked picked up from its current status.'')
       else assignment_detail x)))"

definition require_assigned_order :: "uuid \<Rightarrow> uuid \<Rightarrow> ('z batches_db_scheme, rider_order) prog" where
  "require_assigned_order rid oid = bindM (gets (find_assigned_order rid oid)) (found_or ''Order was not found.'')"

definition get_rider_order :: "actor \<Rightarrow> uuid \<Rightarrow> ('z batches_db_scheme, rider_order) prog" where
  "get_rider_order a oid = bindM (resolve_rider_profile True a) (\<lambda>c. require_assigned_order (rd_id c) oid)"

definition transition_order_for_profile :: "uuid \<Rightarrow> uuid \<Rightarrow> order_status \<Rightarrow> bool option \<Rightarrow> ('z batches_db_scheme, unit) prog" where
  "transition_order_for_profile rid oid to food_was_ready =
     bindM (gets (find_assigned_order rid oid)) (\<lambda>before.
     bindM (found_or ''Order was not found.'' before) (\<lambda>_.
       catchM (bindM (transition_assigned_order_status rid oid to food_was_ready) (\<lambda>_. ret ()))
         (\<lambda>e. raise (bad_request (error_message e)))))"

definition mark_order_out_for_delivery :: "actor \<Rightarrow> uuid \<Rightarrow> bool option \<Rightarrow> ('z batches_db_scheme, rider_order) prog" where
  "mark_order_out_for_delivery a oid food_was_ready =
     bindM (resolve_rider_profile True a) (\<lambda>c.
     thenM (transition_order_for_profile (rd_id c) oid Out_For_Delivery (Some (case food_was_ready of None \<Rightarrow> True | Some b \<Rightarrow> b)))
    (thenM (assign_delivery_code (rd_id c) oid)
     (require_assigned_order (rd_id c) oid)))"

definition mark_order_delivered :: "actor \<Rightarrow> uuid \<Rightarrow> ('z batches_db_scheme, rider_order) prog" where
  "mark_order_delivered a oid =
     bindM (resolve_rider_profile True a) (\<lambda>c.
     thenM (transition_order_for_profile (rd_id c) oid Delivered None)
     (require_assigned_order (rd_id c) oid))"

text \<open>Confirming by code: the lock is read first, and what follows is a request of its own.\<close>

definition locked_out :: "time \<Rightarrow> 'z riders_db_scheme \<Rightarrow> exn" where
  "locked_out t s = too_many_requests (''Too many incorrect codes. Try again after '' @ time_text s t @ ''.'')"

definition check_delivery_code_lock :: "uuid \<Rightarrow> ('z riders_db_scheme, unit) prog" where
  "check_delivery_code_lock rid =
     bindM (gets (\<lambda>s. map_option (\<lambda>t. locked_out t s) (get_delivery_code_lock rid s))) (\<lambda>locked.
       case locked of None \<Rightarrow> ret () | Some e \<Rightarrow> raise e)"

definition try_delivery_code :: "uuid \<Rightarrow> string \<Rightarrow> ('z riders_db_scheme, rider_order) prog" where
  "try_delivery_code rid code =
     bindM (gets (find_active_order_id_by_delivery_code rid code)) (\<lambda>(oid, n).
       if 1 < n then raise (conflict ''This code matches more than one active order. Contact support.'')
       else case oid of
         None \<Rightarrow>
           bindM (register_delivery_code_failure rid) (\<lambda>(failed, locked).
             case locked of
               Some t \<Rightarrow> bindM (gets (locked_out t)) raise
             | None \<Rightarrow> raise (not_found ''No active delivery matches that code.''))
       | Some x \<Rightarrow>
           thenM (transition_order_for_profile rid x Delivered None)
          (thenM (reset_delivery_code_attempts rid)
           (require_assigned_order rid x)))"

definition confirm_delivery_by_code :: "actor \<Rightarrow> string \<Rightarrow> ('z riders_db_scheme, rider_order) prog" where
  "confirm_delivery_by_code a code =
     bindM (resolve_rider_profile True a) (\<lambda>c.
     thenM (check_delivery_code_lock (rd_id c)) (try_delivery_code (rd_id c) code))"

definition create_issue :: "actor \<Rightarrow> uuid \<Rightarrow> string \<Rightarrow> string \<Rightarrow> ('z riders_db_scheme, escalation_row) prog" where
  "create_issue a oid category description =
     bindM (resolve_rider_profile True a) (\<lambda>c.
     bindM (create_order_issue (rd_id c) oid (user_id a) category description) (found_or ''Order was not found.''))"

section \<open>What a rider's move does\<close>

definition desk :: "'z batches_db_scheme \<Rightarrow> (uuid \<times> uuid) list \<times> (uuid \<times> uuid option) list \<times> courier list" where
  "desk s = (batched s, map (\<lambda>a. (as_batch a, as_rider a)) (assignment_rows s), couriers s)"

lemma carries_desk:
  fixes s t :: "'z batches_db_scheme"
  assumes "desk t = desk s"
  shows "carries rid bid t \<longleftrightarrow> carries rid bid s"
proof -
  have "carries rid bid u \<longleftrightarrow> (bid, Some rid) \<in> set (fst (snd (desk u)))" for u :: "'z batches_db_scheme"
    by (auto simp: carries_def desk_def list_ex_iff)
  then show ?thesis using assms by simp
qed

lemma desk_update:
  "(\<And>s a. as_batch (g s a) = as_batch a) \<Longrightarrow> (\<And>s a. as_rider (g s a) = as_rider a) \<Longrightarrow>
   preserves (\<lambda>s. desk s = d) (update_assignments sel g)"
  "preserves (\<lambda>s. desk s = d) (update_batches sel' g')"
  unfolding update_assignments_def update_batches_def
  by (intro preserves_modify; auto simp: desk_def update_where_def)+

lemma complete_keeps:
  assumes "\<And>s xs. I s \<Longrightarrow> I (s\<lparr>batch_rows := xs\<rparr>)" "\<And>s xs. I s \<Longrightarrow> I (s\<lparr>assignment_rows := xs\<rparr>)"
  shows "preserves I (complete_assignment_if_all_orders_delivered rid bid)"
  unfolding complete_assignment_if_all_orders_delivered_def update_assignments_def update_batches_def
  by (intro preserves_intros preserves_modify assms)

lemma complete_desk: "preserves (\<lambda>s. desk s = d) (complete_assignment_if_all_orders_delivered rid bid)"
  unfolding complete_assignment_if_all_orders_delivered_def by (intro preserves_intros desk_update) simp_all

definition rider_moved :: "uuid \<Rightarrow> order_status \<Rightarrow> 'z batches_db_scheme \<Rightarrow> 'z batches_db_scheme \<Rightarrow> bool" where
  "rider_moved oid to s t \<longleftrightarrow> moved oid to s t \<and> may_move oid to s \<and> desk t = desk s \<and> order_facts t = order_facts s"

lemma rider_moves:
  "gives (transition_order_for_profile rid oid to rdy) s (\<lambda>_ t. rider_moved oid to s t \<and>
     (status_of oid s = Some Out_For_Delivery \<and> to = Delivered \<longrightarrow> fee_split oid t))"
proof -
  let ?P = "\<lambda>t. rider_moved oid to s t \<and> (status_of oid s = Some Out_For_Delivery \<and> to = Delivered \<longrightarrow> fee_split oid t)"
  have kept: "preserves (\<lambda>t. desk t = desk s \<and> order_facts t = order_facts s) (transition_with_shares oid to None r)" for r
    by (rule transition_keeps) (simp_all add: desk_def)
  have step: "gives (transition_with_shares oid to None r) s (\<lambda>_. ?P)" for r
    using transition_moves [of oid to None r s] delivered_splits [of oid s None r]
      preserves_result [OF kept [of r], of s]
    unfolding rider_moved_def gives_def by blast
  have finish: "gives (whenM b (complete_assignment_if_all_orders_delivered rid bid)) t (\<lambda>_. ?P)" if "?P t" for b bid t
  proof -
    let ?Q = "\<lambda>t. moved oid to s t \<and> may_move oid to s \<and> order_facts t = order_facts s \<and>
      (status_of oid s = Some Out_For_Delivery \<and> to = Delivered \<longrightarrow> fee_split oid t)"
    have "preserves (\<lambda>t. desk t = desk s \<and> ?Q t) (whenM b (complete_assignment_if_all_orders_delivered rid bid))"
      by (intro preserves_whenM preserves_conj complete_desk complete_keeps) (simp_all add: moved_def status_of_def fee_split_def)
    from gives_keeps [OF this] that show ?thesis by (simp add: rider_moved_def)
  qed
  show ?thesis
    unfolding transition_order_for_profile_def transition_assigned_order_status_def found_or_def
    by (intro gives_bindM gives_thenM gives_basic gives_option gives_catch_raise gives_weaken [OF step] gives_weaken [OF finish])
qed

lemma resolve_reads: "snd (resolve_rider_profile b a s) = s"
  by (simp add: resolve_rider_profile_def prog_simps split: option.split)

lemma resolve_app:
  assumes "fst (resolve_rider_profile b a s) = Inr c"
  shows "resolve_rider_profile b a s = (Inr c, s)"
  using assms resolve_reads [of b a s] by (metis prod.collapse)

end
