(* ===== verification/Dispatch.thy ===== *)
theory Dispatch
  imports Riders
begin

text \<open>
  The life of a delivery batch over runs of the whole program: \<open>batch_invariant\<close> is what an invariant of
  the batch tables must keep, and gives it for every operation of vendors, riders, administrators and
  fleet partners; its interpretations are the well-formedness of the tables (\<open>batches_ok\<close>) and the
  batch that waits for a cancelled order (\<open>held_up\<close>). Then what is left of a declined assignment.
\<close>

section \<open>Runs\<close>

text \<open>
  What happens to batches: the cron and the payments fill and close them, administrators and fleet
  partners assign them, vendors and riders move them, support moves an order. The rest of the program
  writes other tables and adds orders: it keeps what there is (\<open>kept\<close>).
\<close>

definition batch_tables :: "'z batches_db_scheme \<Rightarrow> delivery_batch list \<times> (uuid \<times> uuid) list \<times> delivery_assignment list" where
  "batch_tables s = (batch_rows s, batched s, assignment_rows s)"

definition order_key :: "uuid \<Rightarrow> 'z orders_db_scheme \<Rightarrow> (uuid \<times> uuid \<times> day \<times> uuid \<times> uuid \<times> string) option" where
  "order_key x s = Option.bind (lookup_by ord_id x (odb_orders s)) (\<lambda>r.
     map_option (\<lambda>f. (ord_campus r, fa_vendor f, fa_day f, fa_slot f, zone_of f s, fa_mode f)) (lookup_by fa_order x (order_facts s)))"

definition kept :: "'z batches_db_scheme \<Rightarrow> 'z batches_db_scheme \<Rightarrow> bool" where
  "kept s t \<longleftrightarrow> batch_tables t = batch_tables s \<and> (\<forall>x. status_of x s = Some Cancelled \<longrightarrow> status_of x t = Some Cancelled) \<and>
     (\<forall>x k. order_key x s = Some k \<longrightarrow> order_key x t = Some k) \<and> db_uuid t = db_uuid s \<and> db_drawn s \<le> db_drawn t"

inductive delivery_step :: "'z riders_db_scheme \<Rightarrow> 'z riders_db_scheme \<Rightarrow> bool" where
  fill: "delivery_step s (snd (transaction (add_paid_order_to_batch oid) s))"
| cutoff: "delivery_step s (snd (close_batches_at_cutoff s))"
| admin_closes: "delivery_step s (snd (on_admin_batch campus bid (close_batch bid) s))"
| admin_assigns: "delivery_step s (snd (on_admin_batch campus bid (assign_batch bid user rider vendor) s))"
| admin_cancels: "delivery_step s (snd (on_admin_batch campus bid (cancel_assignment bid) s))"
| fleet_assigns: "delivery_step s (snd (transaction (fleet_assign_batch fleet bid rider user) s))"
| vendor_ready: "delivery_step s (snd (ready_order a oid s))"
| vendor_hands_over: "delivery_step s (snd (pickup_batch a bid s))"
| accepts: "delivery_step s (snd (accept_assignment a aid s))"
| declines: "delivery_step s (snd (decline_assignment a aid reason s))"
| picks_up: "delivery_step s (snd (mark_assignment_picked_up a aid s))"
| takes_out: "delivery_step s (snd (mark_order_out_for_delivery a oid rdy s))"
| delivers: "delivery_step s (snd (mark_order_delivered a oid s))"
| confirms: "delivery_step s (snd (confirm_delivery_by_code a code s))"
| support: "delivery_step s (snd (transition_with_shares oid to reason rdy s))"
| payment: "delivery_step s (snd (mark_order_paid oid s))"
| expiry: "status_of oid s = Some Pending_Payment \<Longrightarrow> delivery_step s (expire_order oid s)"
| elsewhere: "kept s t \<Longrightarrow> delivery_step s t"

inductive delivery_run :: "'z riders_db_scheme \<Rightarrow> 'z riders_db_scheme \<Rightarrow> bool" where
  here: "delivery_run s s"
| next_step: "delivery_run s t \<Longrightarrow> delivery_step t u \<Longrightarrow> delivery_run s u"

section \<open>What keeps an invariant of the batches\<close>

lemma kept_refl: "kept s s"
  by (simp add: kept_def)

lemma kept_trans: "kept s t \<Longrightarrow> kept t u \<Longrightarrow> kept s u"
  by (auto simp: kept_def)

lemma order_key_update:
  assumes "\<And>r. ord_id (f r) = ord_id r" "\<And>r. ord_campus (f r) = ord_campus r"
    and "odb_orders t = update_where p f (odb_orders s)" "order_facts t = order_facts s" "locations t = locations s"
  shows "order_key x t = order_key x s"
proof -
  have "zone_of f t = zone_of f s" for f by (simp add: zone_of_def assms(5))
  then show ?thesis using assms(1-4)
    by (cases "lookup_by ord_id x (odb_orders s)") (simp_all add: order_key_def lookup_update_where)
qed

lemma kept_orders:
  assumes "\<And>r. ord_id (f r) = ord_id r" "\<And>r. ord_campus (f r) = ord_campus r"
    and "\<And>r. p r \<Longrightarrow> lookup_by ord_id (ord_id r) (odb_orders s) = Some r \<Longrightarrow> ord_status r = Cancelled \<Longrightarrow> ord_status (f r) = Cancelled"
    and "odb_orders t = update_where p f (odb_orders s)" "batch_tables t = batch_tables s" "order_facts t = order_facts s"
      "locations t = locations s" "db_uuid t = db_uuid s" "db_drawn t = db_drawn s"
  shows "kept s t"
proof -
  have "status_of x t = Some Cancelled" if "status_of x s = Some Cancelled" for x
  proof -
    from that obtain r where r: "lookup_by ord_id x (odb_orders s) = Some r" "ord_status r = Cancelled" by (auto simp: status_of_def)
    then have "ord_id r = x" using lookup_by_Some [OF r(1)] by simp
    with r assms(3) [of r] assms(1,4) show ?thesis by (simp add: status_of_def lookup_update_where)
  qed
  moreover have "order_key x t = order_key x s" for x
    by (rule order_key_update [OF assms(1,2,4,6,7)])
  ultimately show ?thesis using assms(5,8,9) by (simp add: kept_def)
qed

text \<open>Other tables.\<close>

lemma kept_same:
  "batch_tables t = batch_tables s \<Longrightarrow> odb_orders t = odb_orders s \<Longrightarrow> order_facts t = order_facts s \<Longrightarrow> locations t = locations s \<Longrightarrow>
   db_uuid t = db_uuid s \<Longrightarrow> db_drawn s \<le> db_drawn t \<Longrightarrow> kept s t"
  by (simp add: kept_def status_of_def order_key_def zone_of_def)

lemma kept_code: "kept s (s\<lparr>order_facts := update_where (\<lambda>f. fa_order f = x) (\<lambda>f. f\<lparr>fa_code := c\<rparr>) (order_facts s)\<rparr>)"
proof -
  let ?t = "s\<lparr>order_facts := update_where (\<lambda>f. fa_order f = x) (\<lambda>f. f\<lparr>fa_code := c\<rparr>) (order_facts s)\<rparr>"
  have "order_key y ?t = order_key y s" for y
    by (cases "lookup_by ord_id y (odb_orders s)"; cases "lookup_by fa_order y (order_facts s)")
      (simp_all add: order_key_def lookup_update_where zone_of_def)
  then show ?thesis by (simp add: kept_def batch_tables_def status_of_def)
qed


lemma keeps_modify: "(\<And>u. kept u (f u)) \<Longrightarrow> preserves (kept s) (modify f)"
  by (rule preserves_modify) (blast intro: kept_trans)

lemma keeps_resolve: "preserves (kept s) (resolve_order_delivery_shares oid)"
  by (rule resolve_keeps, erule kept_trans, rule kept_same) (simp_all add: batch_tables_def)

lemma keeps_order_transition: "preserves (kept s) (transition_order_status oid to reason rdy)"
proof (rule preservesI)
  fix u assume k: "kept s u"
  have "kept u (snd (transition_order_status oid to reason rdy u))"
  proof (cases "lookup_by ord_id oid (odb_orders u)")
    case (Some r)
    show ?thesis
    proof (cases "ord_status r \<noteq> to \<and> sql_transition_allowed (ord_status r) to")
      case True
      then show ?thesis using Some
        by (intro kept_orders [where p = "\<lambda>x. ord_id x = oid" and f = "stamp_transition (odb_now u) to reason rdy"])
          (auto simp: transition_order_status_def prog_simps stamp_transition_def sql_transition_allowed_def batch_tables_def)
    qed (use Some in \<open>auto simp: transition_order_status_def prog_simps kept_refl\<close>)
  qed (simp add: transition_order_status_def prog_simps kept_refl)
  with k show "kept s (snd (transition_order_status oid to reason rdy u))" by (rule kept_trans)
qed

lemma keeps_transition: "preserves (kept s) (transition_with_shares oid to reason rdy)"
  unfolding transition_with_shares_def by (intro preserves_intros keeps_order_transition keeps_resolve)

lemma kept_payment: "kept s (snd (mark_order_paid oid s))"
proof (cases "lookup_by ord_id oid (odb_orders s)")
  case (Some r)
  show ?thesis
  proof (cases "ord_status r = Pending_Payment \<or> ord_status r = Expired")
    case True
    then show ?thesis using Some
      by (intro kept_orders [where p = "\<lambda>x. ord_id x = oid" and f = "\<lambda>x. x\<lparr>ord_status := Paid, ord_paid_at := Some (odb_now s),
          ord_cancelled_at := None, ord_cancellation_reason := None\<rparr>"])
        (auto simp: mark_order_paid_def prog_simps batch_tables_def)
  next
    case False
    with Some show ?thesis by (intro kept_same) (auto simp: mark_order_paid_def prog_simps batch_tables_def)
  qed
qed (simp add: mark_order_paid_def prog_simps kept_refl)

lemma kept_expiry: "status_of oid s \<noteq> Some Cancelled \<Longrightarrow> kept s (expire_order oid s)"
  by (rule kept_orders [where p = "\<lambda>x. ord_id x = oid" and f = "\<lambda>x. x\<lparr>ord_status := Expired, ord_cancelled_at := Some (odb_now s),
      ord_cancellation_reason := Some ''payment reservation expired''\<rparr>"])
    (auto simp: expire_order_def batch_tables_def status_of_def)


text \<open>Updates of batches that leave an order to be delivered in no completed batch, and fields of a batch alone.\<close>

definition status_only ::
  "('z batches_db_scheme \<Rightarrow> delivery_batch \<Rightarrow> bool) \<Rightarrow> ('z batches_db_scheme \<Rightarrow> delivery_batch \<Rightarrow> delivery_batch) \<Rightarrow> bool" where
  "status_only sel g \<longleftrightarrow> (\<forall>s b. sel s b \<longrightarrow> (\<exists>st t. g s b = b\<lparr>bt_status := st, bt_closed := t\<rparr> \<and>
     (st = Ba_Completed \<longrightarrow> \<not> batch_pending (bt_id b) s)))"

lemma status_onlyI:
  assumes "\<And>s b. sel s b \<Longrightarrow> st = Ba_Completed \<Longrightarrow> \<not> batch_pending (bt_id b) s"
  shows "status_only sel (\<lambda>s b. b\<lparr>bt_status := st\<rparr>)" "status_only sel (\<lambda>s b. b\<lparr>bt_status := st, bt_closed := c s b\<rparr>)"
proof -
  have "b\<lparr>bt_status := st\<rparr> = b\<lparr>bt_status := st, bt_closed := bt_closed b\<rparr>" for b by simp
  with assms show "status_only sel (\<lambda>s b. b\<lparr>bt_status := st\<rparr>)" unfolding status_only_def by metis
  show "status_only sel (\<lambda>s b. b\<lparr>bt_status := st, bt_closed := c s b\<rparr>)" using assms unfolding status_only_def by metis
qed

locale batch_invariant =
  fixes I :: "'z riders_db_scheme \<Rightarrow> bool"
  assumes frame: "I s \<Longrightarrow> kept s t \<Longrightarrow> I t"
    and status: "status_only sel g \<Longrightarrow> preserves I (update_batches sel g)"
    and assigned: "(\<And>s a. asel s a \<Longrightarrow> as_batch (h s a) = as_batch a) \<Longrightarrow> preserves I (update_assignments asel h)"
    and new_assignment: "I s \<Longrightarrow> as_batch a \<notin> as_batch ` set (assignment_rows s) \<Longrightarrow> I (s\<lparr>assignment_rows := assignment_rows s @ [a]\<rparr>)"
    and fill: "preserves I (transaction (add_paid_order_to_batch x))"
begin

lemma frame_modify: "(\<And>s. kept s (f s)) \<Longrightarrow> preserves I (modify f)"
  by (rule preserves_modify) (blast intro: frame)

lemma framed: "(\<And>s. preserves (kept s) m) \<Longrightarrow> preserves I m"
  by (meson frame kept_refl preserves_def)

lemma order_steps:
  "preserves I (transition_with_shares oid to reason rdy)" "preserves I (mark_order_paid oid)"
  by (blast intro: framed keeps_transition) (auto intro: preservesI frame kept_payment)

lemma completes: "preserves I (complete_assignment_if_all_orders_delivered rid bid)"
  unfolding complete_assignment_if_all_orders_delivered_def
  by (intro preserves_intros assigned status status_onlyI) auto

lemma reads:
  "preserves I (resolve_rider_profile b a)" "preserves I (require_vendor a)" "preserves I (found_or m v)"
  "preserves I (assignment_detail x)" "preserves I (require_assigned_order rid oid)"
  unfolding resolve_rider_profile_def require_vendor_def found_or_def assignment_detail_def require_assigned_order_def
  by (auto intro!: preserves_intros split: option.split)

lemma draws: "preserves I draw_uuid" "preserves I draw_code"
  by (rule preservesI, erule frame, rule kept_same; simp add: draw_uuid_def draw_code_def batch_tables_def)+

lemma upserts: "preserves I (upsert_assignment bid rider vendor user)"
proof (rule preservesI)
  fix s assume I: "I s"
  show "I (snd (upsert_assignment bid rider vendor user s))"
  proof (cases "find (\<lambda>a. as_batch a = bid) (assignment_rows s)")
    case None
    let ?u = "s\<lparr>db_drawn := Suc (db_drawn s)\<rparr>"
    have "I ?u" using I by (rule frame) (rule kept_same; simp add: batch_tables_def)
    moreover have "bid \<notin> as_batch ` set (assignment_rows ?u)" using None by (auto simp: find_None_iff)
    ultimately have "I (?u\<lparr>assignment_rows := assignment_rows ?u @ [new_assignment i bid rider vendor user ?u]\<rparr>)" for i
      by (intro new_assignment) (simp_all add: new_assignment_def)
    with I None show ?thesis by (auto simp: upsert_assignment_def prog_simps draw_uuid_def)
  next
    case (Some a)
    have "preserves I (update_assignments (\<lambda>s x. as_batch x = bid) (\<lambda>s x. new_assignment (as_id x) bid rider vendor user s))"
      by (rule assigned) (simp add: new_assignment_def)
    then have "I (snd (update_assignments (\<lambda>s x. as_batch x = bid) (\<lambda>s x. new_assignment (as_id x) bid rider vendor user s) s))"
      using I by (rule preservesD)
    with I Some show ?thesis by (auto simp: upsert_assignment_def prog_simps update_assignments_def)
  qed
qed

lemma assign_steps:
  "preserves I (on_admin_batch campus bid (assign_batch b user rider vendor))" "preserves I (transaction (fleet_assign_batch fleet b rid user))"
  unfolding on_admin_batch_def assign_batch_def fleet_assign_batch_def
  by (auto intro!: preserves_intros upserts status status_onlyI split: option.split prod.split)

lemma vendor_steps: "preserves I (ready_order a oid)" "preserves I (pickup_batch a bid)"
  unfolding ready_order_def pickup_batch_def pickup_rows_def get_batch_def
  by (auto intro!: preserves_intros reads order_steps assigned status status_onlyI split: option.split)

lemma admin_steps:
  "preserves I (close_batches_at_cutoff)" "preserves I (on_admin_batch campus bid (close_batch bid))"
  "preserves I (on_admin_batch campus bid (cancel_assignment bid))"
  unfolding close_batches_at_cutoff_def on_admin_batch_def close_batch_def cancel_assignment_def
  by (auto intro!: preserves_intros assigned status status_onlyI split: option.split)

lemma assignment_steps:
  "preserves I (accept_assignment a aid)" "preserves I (decline_assignment a aid reason)" "preserves I (mark_assignment_picked_up a aid)"
  unfolding accept_assignment_def accept_assignment_row_def decline_assignment_def decline_assignment_row_def decline_rows_def
    mark_assignment_picked_up_def mark_picked_up_row_def picked_up_rows_def record_audit_def
  by (auto intro!: preserves_intros reads assigned status status_onlyI frame_modify kept_same simp: batch_tables_def split: option.split prod.split)

lemma delivers: "preserves I (transition_order_for_profile rid oid to rdy)"
  unfolding transition_order_for_profile_def transition_assigned_order_status_def
  by (auto intro!: preserves_intros order_steps completes reads split: option.split)

lemma codes: "preserves I (draw_delivery_code rid oid n)"
  by (induction n) (auto intro!: preserves_intros draws frame_modify kept_code)

lemma order_moves:
  "preserves I (mark_order_out_for_delivery a oid rdy)" "preserves I (mark_order_delivered a oid)" "preserves I (confirm_delivery_by_code a code)"
  unfolding mark_order_out_for_delivery_def mark_order_delivered_def assign_delivery_code_def confirm_delivery_by_code_def
    check_delivery_code_lock_def try_delivery_code_def register_delivery_code_failure_def reset_delivery_code_attempts_def Let_def
  by (auto intro!: preserves_intros reads delivers codes frame_modify kept_same simp: batch_tables_def split: option.split prod.split)

lemma holds_after_step: "delivery_step s t \<Longrightarrow> I s \<Longrightarrow> I t"
proof (induction rule: delivery_step.induct)
  case (expiry oid s)
  then show ?case by (intro frame [OF _ kept_expiry]) simp_all
qed (auto intro: preservesD fill vendor_steps admin_steps assign_steps assignment_steps order_moves order_steps frame)

lemma holds_after_run: "delivery_run s t \<Longrightarrow> I s \<Longrightarrow> I t"
  by (induction rule: delivery_run.induct) (auto intro: holds_after_step)

end


section \<open>A cancelled order holds up its batch\<close>

definition held_up :: "uuid \<Rightarrow> uuid \<Rightarrow> 'z batches_db_scheme \<Rightarrow> bool" where
  "held_up bid oid s \<longleftrightarrow> (bid, oid) \<in> set (batched s) \<and> status_of oid s = Some Cancelled \<and>
     \<not> list_ex (\<lambda>b. bt_id b = bid \<and> bt_status b = Ba_Completed) (batch_rows s)"

lemma held_up_pending: "held_up bid oid s \<Longrightarrow> batch_pending bid s"
  by (force simp: held_up_def batch_pending_def list_ex_iff orders_in_def finished_def split: option.split)

lemma held_up_updates:
  fixes sel :: "'z batches_db_scheme \<Rightarrow> delivery_batch \<Rightarrow> bool"
  assumes "\<And>s b. held_up bid oid s \<Longrightarrow> b \<in> set (batch_rows s) \<Longrightarrow> sel s b \<Longrightarrow> bt_id (g s b) = bid \<Longrightarrow> bt_status (g s b) \<noteq> Ba_Completed"
  shows "preserves (held_up bid oid) (update_batches sel g)"
  unfolding update_batches_def
proof (rule preserves_modify)
  fix s :: "'z batches_db_scheme" assume h: "held_up bid oid s"
  then have "\<not> list_ex (\<lambda>b. bt_id b = bid \<and> bt_status b = Ba_Completed) (update_where (sel s) (g s) (batch_rows s))"
    using assms [OF h] by (auto simp: held_up_def list_ex_iff update_where_def)
  with h show "held_up bid oid (s\<lparr>batch_rows := update_where (sel s) (g s) (batch_rows s)\<rparr>)"
    by (simp add: held_up_def status_of_def)
qed

lemma held_up_fill: "preserves (held_up bid oid :: 'a batches_db_scheme \<Rightarrow> bool) (transaction (add_paid_order_to_batch x))"
proof -
  have new: "held_up bid oid s \<Longrightarrow> held_up bid oid (s\<lparr>batch_rows := batch_rows s @ [new_batch i r f z t]\<rparr>)"
    and added: "held_up bid oid s \<Longrightarrow> held_up bid oid (if b then s else s\<lparr>batched := batched s @ [p]\<rparr>)"
    and drawn: "held_up bid oid s \<Longrightarrow> held_up bid oid (s\<lparr>db_drawn := n\<rparr>)"
    for s :: "'a batches_db_scheme" and i r f z t b p n
    by (simp_all add: held_up_def new_batch_def status_of_def)
  let ?H = "held_up bid oid :: 'a batches_db_scheme \<Rightarrow> bool"
  have draw: "preserves ?H draw_uuid" by (rule preservesI) (simp add: draw_uuid_def drawn)
  have count: "preserves ?H (recount b)" for b
    unfolding recount_def
    by (intro preserves_intros held_up_updates) (auto simp: to_int4_def held_up_def list_ex_iff intro!: preserves_intros)
  show ?thesis
    unfolding add_paid_order_to_batch_def logical_batch_def
    by (auto intro!: preserves_intros preserves_modify draw new added count split: prod.split option.split)
qed

interpretation held_up: batch_invariant "held_up bid oid" for bid oid
proof
  show "held_up bid oid t" if "held_up bid oid s" "kept s t" for s t :: "'a riders_db_scheme"
    using that by (simp add: held_up_def kept_def batch_tables_def)
  show "preserves (held_up bid oid) (update_batches sel g)" if "status_only sel g" for sel :: "'a riders_db_scheme \<Rightarrow> delivery_batch \<Rightarrow> bool" and g
  proof (rule held_up_updates)
    fix s :: "'a riders_db_scheme" and b
    assume h: "held_up bid oid s" "sel s b" "bt_id (g s b) = bid"
    with \<open>status_only sel g\<close> obtain st t where "g s b = b\<lparr>bt_status := st, bt_closed := t\<rparr>" "st = Ba_Completed \<longrightarrow> \<not> batch_pending (bt_id b) s"
      unfolding status_only_def by blast
    with h held_up_pending [OF h(1)] show "bt_status (g s b) \<noteq> Ba_Completed" by auto
  qed
qed (auto simp: held_up_def status_of_def update_assignments_def intro!: preserves_modify held_up_fill)


lemma cancelled_stops:
  "oid \<in> set oids \<Longrightarrow> status_of oid s = Some Cancelled \<Longrightarrow>
   gives (for_each (\<lambda>x. bindM (transition_with_shares x Out_For_Delivery None True) (\<lambda>_. ret ())) oids) s (\<lambda>_ _. False)"
proof (induction oids arbitrary: s)
  case (Cons x oids)
  have "gives (for_each (\<lambda>x. bindM (transition_with_shares x Out_For_Delivery None True) (\<lambda>_. ret ())) oids) u (\<lambda>_ _. False)"
    if "moved x Out_For_Delivery s u \<and> may_move x Out_For_Delivery s" for u
    using that Cons.prems by (intro Cons.IH) (auto simp: moved_def may_move_def sql_transition_allowed_def)
  then show ?case unfolding for_each.simps
    by (intro gives_thenM gives_bindM gives_weaken [OF transition_moves]) (simp add: gives_ret)
qed simp

text \<open>
  Property C21: a batch with a cancelled order is stuck. Whatever riders, vendors, administrators and the
  rest of the program do afterwards, the batch never becomes completed, though every other order of it
  may be delivered, and the vendor can never hand it over: the request fails and changes nothing.
\<close>

theorem cancelled_order_holds_up_its_batch:
  assumes "delivery_run s t" and "(bid, oid) \<in> set (batched s)" and "status_of oid s = Some Cancelled"
    and "\<forall>b\<in>set (batch_rows s). bt_id b = bid \<longrightarrow> bt_status b \<noteq> Ba_Completed"
  shows "(\<forall>b\<in>set (batch_rows t). bt_id b = bid \<longrightarrow> bt_status b \<noteq> Ba_Completed) \<and> (\<exists>e. pickup_batch a bid t = (Inl e, t))"
proof -
  have h: "held_up bid oid t"
    by (rule held_up.holds_after_run [OF assms(1)]) (use assms in \<open>auto simp: held_up_def list_ex_iff\<close>)
  have "gives (pickup_rows bid) t (\<lambda>_ _. False)"
    unfolding pickup_rows_def update_batches_def update_assignments_def using h
    by (intro gives_thenM gives_bindM gives_modify gives_basic cancelled_stops)
      (auto simp: held_up_def orders_in_def status_of_def image_iff)
  then obtain e where "transaction (pickup_rows bid) t = (Inl e, t)"
    by (cases "pickup_rows bid t"; cases "fst (pickup_rows bid t)") (auto simp: gives_def transaction_app)
  then have "\<exists>e. pickup_batch a bid t = (Inl e, t)"
    by (auto simp: pickup_batch_def require_vendor_def prog_simps split: option.split)
  with h show ?thesis by (auto simp: held_up_def list_ex_iff)
qed


section \<open>The tables of batches stay well-formed\<close>

definition batch_key :: "delivery_batch \<Rightarrow> uuid \<times> uuid \<times> day \<times> uuid \<times> uuid \<times> string" where
  "batch_key b = (bt_campus b, bt_vendor b, bt_day b, bt_slot b, bt_zone b, bt_mode b)"

definition counts_right :: "uuid set \<Rightarrow> 'z batches_db_scheme \<Rightarrow> bool" where
  "counts_right except s \<longleftrightarrow> (\<forall>b\<in>set (batch_rows s). bt_id b \<notin> except \<longrightarrow> bt_orders b = int (length (orders_in (bt_id b) s)))"

definition batches_linked :: "'z batches_db_scheme \<Rightarrow> bool" where
  "batches_linked s \<longleftrightarrow> distinct (map bt_id (batch_rows s)) \<and> distinct (map batch_key (batch_rows s)) \<and> distinct (map snd (batched s)) \<and>
     distinct (map as_batch (assignment_rows s)) \<and> bt_id ` set (batch_rows s) \<subseteq> drawn_ids s \<and> inj (db_uuid s) \<and>
     (\<forall>p\<in>set (batched s). \<exists>b\<in>set (batch_rows s). bt_id b = fst p \<and> order_key (snd p) s = Some (batch_key b))"

definition batches_ok :: "'z batches_db_scheme \<Rightarrow> bool" where
  "batches_ok s \<longleftrightarrow> batches_linked s \<and> counts_right {} s"

lemma drawn_mono: "db_uuid t = db_uuid s \<Longrightarrow> db_drawn s \<le> db_drawn t \<Longrightarrow> drawn_ids s \<subseteq> drawn_ids t"
  by (auto simp: drawn_ids_def)

lemma linked_kept:
  assumes "batches_linked s" "kept s t"
  shows "batches_linked t"
proof -
  have "drawn_ids s \<subseteq> drawn_ids t" using assms(2) by (intro drawn_mono) (simp_all add: kept_def)
  then have ids: "bt_id ` set (batch_rows s) \<subseteq> drawn_ids t" using assms(1) unfolding batches_linked_def by blast
  have "order_key x t = Some k" if "order_key x s = Some k" for x k using assms(2) that unfolding kept_def by blast
  then have keys: "\<forall>p\<in>set (batched s). \<exists>b\<in>set (batch_rows s). bt_id b = fst p \<and> order_key (snd p) t = Some (batch_key b)"
    using assms(1) unfolding batches_linked_def by blast
  have "batch_rows t = batch_rows s" "batched t = batched s" "assignment_rows t = assignment_rows s" "db_uuid t = db_uuid s"
    using assms(2) by (simp_all add: kept_def batch_tables_def)
  with assms(1) ids keys show ?thesis by (simp add: batches_linked_def)
qed

lemma linked_batch_update:
  assumes "batches_linked s" "\<And>b. sel b \<Longrightarrow> bt_id (g b) = bt_id b" "\<And>b. sel b \<Longrightarrow> batch_key (g b) = batch_key b"
  shows "batches_linked (s\<lparr>batch_rows := update_where sel g (batch_rows s)\<rparr>)"
proof -
  let ?rows = "update_where sel g (batch_rows s)"
  have same: "map bt_id ?rows = map bt_id (batch_rows s)" "map batch_key ?rows = map batch_key (batch_rows s)"
    using assms(2,3) by (auto simp: update_where_def)
  have "\<exists>b'\<in>set ?rows. bt_id b' = bt_id b \<and> batch_key b' = batch_key b" if "b \<in> set (batch_rows s)" for b
    using that assms(2,3) by (intro bexI [of _ "if sel b then g b else b"]) (auto simp: update_where_def)
  moreover have "order_key x (s\<lparr>batch_rows := ?rows\<rparr>) = order_key x s" for x by (simp add: order_key_def zone_of_def)
  moreover have "bt_id ` set ?rows = bt_id ` set (batch_rows s)" by (metis list.set_map same(1))
  ultimately show ?thesis using assms(1) same
    by (simp add: batches_linked_def drawn_ids_def) metis
qed


lemma batches_ok_update:
  assumes "batches_ok s" "\<And>b. sel b \<Longrightarrow> bt_id (g b) = bt_id b" "\<And>b. sel b \<Longrightarrow> batch_key (g b) = batch_key b"
    "\<And>b. sel b \<Longrightarrow> bt_orders (g b) = bt_orders b"
  shows "batches_ok (s\<lparr>batch_rows := update_where sel g (batch_rows s)\<rparr>)"
proof -
  have "counts_right {} (s\<lparr>batch_rows := update_where sel g (batch_rows s)\<rparr>)"
    using assms(1,2,4) by (auto simp: batches_ok_def counts_right_def orders_in_def update_where_def)
  with linked_batch_update [OF _ assms(2,3), of s] assms(1) show ?thesis by (simp add: batches_ok_def)
qed

lemma linked_assignments:
  "batches_linked (s\<lparr>assignment_rows := rows\<rparr>) \<longleftrightarrow> batches_linked s \<and> distinct (map as_batch rows)" if "batches_linked s"
  using that by (auto simp: batches_linked_def order_key_def zone_of_def drawn_ids_def)

lemma counts_assignments: "counts_right B (s\<lparr>assignment_rows := rows\<rparr>) = counts_right B s"
  by (simp add: counts_right_def orders_in_def)

text \<open>Filling: the batch of the order's key, then the pair, then the count.\<close>

definition fits :: "uuid \<Rightarrow> uuid \<Rightarrow> 'z batches_db_scheme \<Rightarrow> bool" where
  "fits oid bid s \<longleftrightarrow> (\<exists>b\<in>set (batch_rows s). bt_id b = bid \<and> order_key oid s = Some (batch_key b))"

lemma linked_ids: "batches_linked s \<Longrightarrow> p \<in> set (batched s) \<Longrightarrow> fst p \<in> bt_id ` set (batch_rows s)"
  unfolding batches_linked_def by force

lemma logical_batch_ok:
  assumes ok: "batches_ok s" and r: "lookup_by ord_id oid (odb_orders s) = Some r" and f: "lookup_by fa_order oid (order_facts s) = Some f"
  shows "gives (logical_batch r f) s (\<lambda>bid t. batches_ok t \<and> fits oid bid t)"
proof -
  have key: "order_key oid s = Some (ord_campus r, fa_vendor f, fa_day f, fa_slot f, zone_of f s, fa_mode f)"
    using r f by (simp add: order_key_def)
  have found: "fits oid (bt_id b) s" if "find (batch_for r f (zone_of f s)) (batch_rows s) = Some b" for b
    using find_SomeD [OF that] key by (auto simp: fits_def batch_for_def batch_key_def intro!: bexI [of _ b])
  let ?u = "s\<lparr>db_drawn := Suc (db_drawn s)\<rparr>" and ?i = "db_uuid s (db_drawn s)"
  have made: "batches_ok (?u\<lparr>batch_rows := batch_rows ?u @ [new_batch ?i r f (zone_of f s) t]\<rparr>) \<and>
      fits oid ?i (?u\<lparr>batch_rows := batch_rows ?u @ [new_batch ?i r f (zone_of f s) t]\<rparr>)"
    if none: "find (batch_for r f (zone_of f s)) (batch_rows s) = None" for t
  proof -
    let ?b = "new_batch ?i r f (zone_of f s) t" let ?t = "?u\<lparr>batch_rows := batch_rows ?u @ [?b]\<rparr>"
    have "?i \<notin> drawn_ids s" using ok by (auto simp: batches_ok_def batches_linked_def drawn_ids_def dest: injD)
    then have new: "?i \<notin> bt_id ` set (batch_rows s)" using ok by (auto simp: batches_ok_def batches_linked_def)
    have bkey: "batch_key ?b = (ord_campus r, fa_vendor f, fa_day f, fa_slot f, zone_of f s, fa_mode f)"
      by (simp add: batch_key_def new_batch_def)
    have nokey: "batch_key ?b \<notin> batch_key ` set (batch_rows s)"
      using none by (auto simp: find_None_iff batch_for_def batch_key_def new_batch_def)
    have keys: "order_key x ?t = order_key x s" for x by (simp add: order_key_def zone_of_def)
    have empty: "orders_in ?i ?t = []"
      using ok new linked_ids [of s] by (force simp: orders_in_def filter_empty_conv batches_ok_def)
    have "batches_linked ?t"
      using ok new nokey unfolding batches_ok_def batches_linked_def keys
      by (auto simp: drawn_ids_def lessThan_Suc new_batch_def [of ?i])
    moreover have "counts_right {} ?t"
      using ok empty by (auto simp: batches_ok_def counts_right_def orders_in_def new_batch_def)
    moreover have "fits oid ?i ?t" unfolding fits_def keys key
      by (rule bexI [of _ ?b]) (simp_all add: bkey, simp add: new_batch_def)
    ultimately show ?thesis by (simp add: batches_ok_def)
  qed
  show ?thesis unfolding logical_batch_def
    by (intro gives_bindM gives_basic gives_pair) (use made in \<open>auto simp: gives_def draw_uuid_def prog_simps found ok split: option.splits\<close>)
qed


lemma added_linked:
  assumes "batches_linked s" "fits oid bid s" "oid \<notin> snd ` set (batched s)"
  shows "batches_linked (s\<lparr>batched := batched s @ [(bid, oid)]\<rparr>)"
proof -
  have keys: "order_key x (s\<lparr>batched := batched s @ [(bid, oid)]\<rparr>) = order_key x s" for x by (simp add: order_key_def zone_of_def)
  show ?thesis using assms unfolding batches_linked_def fits_def keys by (auto simp: drawn_ids_def)
qed

lemma recount_ok:
  assumes "batches_linked s" "counts_right {bid} s" "orders_in bid s = [] \<Longrightarrow> counts_right {} s"
  shows "gives (recount bid) s (\<lambda>_ t. batches_ok t)"
proof -
  let ?g = "\<lambda>n b. b\<lparr>bt_orders := int (length (orders_in bid s)), bt_earnings := n\<rparr>"
  have "batches_ok (s\<lparr>batch_rows := update_where (\<lambda>b. bt_id b = bid) (?g n) (batch_rows s)\<rparr>)" for n
  proof -
    have "counts_right {} (s\<lparr>batch_rows := update_where (\<lambda>b. bt_id b = bid) (?g n) (batch_rows s)\<rparr>)"
      using assms(2) by (auto simp: counts_right_def orders_in_def update_where_def)
    moreover have "batches_linked (s\<lparr>batch_rows := update_where (\<lambda>b. bt_id b = bid) (?g n) (batch_rows s)\<rparr>)"
      using assms(1) by (rule linked_batch_update) (simp_all add: batch_key_def)
    ultimately show ?thesis by (simp add: batches_ok_def)
  qed
  with assms show ?thesis unfolding recount_def update_batches_def
    by (intro gives_bindM gives_basic gives_if gives_int4 gives_modify) (simp_all add: batches_ok_def)
qed

lemma batches_ok_fill: "preserves batches_ok (transaction (add_paid_order_to_batch oid))"
proof (rule gives_transaction)
  fix s :: "'a batches_db_scheme" assume ok: "batches_ok s"
  have count: "gives (recount bid) (if oid \<in> snd ` set (batched t) then t else t\<lparr>batched := batched t @ [(bid, oid)]\<rparr>) (\<lambda>_ u. batches_ok u)"
    if "batches_ok t \<and> fits oid bid t" for bid and t :: "'a batches_db_scheme"
  proof (rule recount_ok)
    let ?t = "if oid \<in> snd ` set (batched t) then t else t\<lparr>batched := batched t @ [(bid, oid)]\<rparr>"
    show "batches_linked ?t" using that added_linked [of t oid bid] by (simp add: batches_ok_def)
    show "counts_right {bid} ?t" using that by (auto simp: batches_ok_def counts_right_def orders_in_def)
    show "counts_right {} ?t" if "orders_in bid ?t = []"
      using \<open>batches_ok t \<and> fits oid bid t\<close> that by (auto simp: batches_ok_def orders_in_def split: if_splits)
  qed
  have main: "gives (bindM (logical_batch r f) (\<lambda>bid.
      thenM (modify (\<lambda>s. if oid \<in> snd ` set (batched s) then s else s\<lparr>batched := batched s @ [(bid, oid)]\<rparr>))
        (thenM (recount bid) (ret bid)))) s (\<lambda>_ t. batches_ok t)"
    if "lookup_by ord_id oid (odb_orders s) = Some r" "lookup_by fa_order oid (order_facts s) = Some f" for r f
    by (intro gives_bindM gives_weaken [OF logical_batch_ok [OF ok that]] gives_thenM gives_modify gives_weaken [OF count])
      (simp_all add: gives_ret)
  show "gives (add_paid_order_to_batch oid) s (\<lambda>_ t. batches_ok t)"
    unfolding add_paid_order_to_batch_def
    by (intro gives_bindM gives_basic) (use main in \<open>simp add: gives_basic(1) split: option.split\<close>)
qed

interpretation batches_ok: batch_invariant batches_ok
proof
  show "batches_ok t" if "batches_ok s" "kept s t" for s t :: "'a riders_db_scheme"
    using that linked_kept [of s t] by (simp add: batches_ok_def counts_right_def kept_def batch_tables_def orders_in_def)
  show "preserves batches_ok (update_batches sel g)" if "status_only sel g" for sel :: "'a riders_db_scheme \<Rightarrow> delivery_batch \<Rightarrow> bool" and g
    unfolding update_batches_def
  proof (rule preserves_modify)
    fix s :: "'a riders_db_scheme" assume ok: "batches_ok s"
    have same: "bt_id (g s b) = bt_id b \<and> batch_key (g s b) = batch_key b \<and> bt_orders (g s b) = bt_orders b" if chosen: "sel s b" for b
    proof -
      obtain st t where "g s b = b\<lparr>bt_status := st, bt_closed := t\<rparr>" using \<open>status_only sel g\<close> chosen unfolding status_only_def by blast
      then show ?thesis by (simp add: batch_key_def)
    qed
    show "batches_ok (s\<lparr>batch_rows := update_where (sel s) (g s) (batch_rows s)\<rparr>)"
      by (rule batches_ok_update [OF ok]) (simp_all add: same)
  qed
  show "preserves batches_ok (update_assignments asel h)" if "\<And>s a. asel s a \<Longrightarrow> as_batch (h s a) = as_batch a"
    for asel :: "'a riders_db_scheme \<Rightarrow> delivery_assignment \<Rightarrow> bool" and h
    unfolding update_assignments_def
  proof (rule preserves_modify)
    fix s :: "'a riders_db_scheme" assume ok: "batches_ok s"
    have "map as_batch (update_where (asel s) (h s) (assignment_rows s)) = map as_batch (assignment_rows s)"
      using that by (simp add: update_where_def)
    moreover have "batches_linked s" "distinct (map as_batch (assignment_rows s))" using ok by (simp_all add: batches_ok_def batches_linked_def)
    ultimately show "batches_ok (s\<lparr>assignment_rows := update_where (asel s) (h s) (assignment_rows s)\<rparr>)"
      using ok linked_assignments [of s] by (simp add: batches_ok_def counts_assignments)
  qed
  show "batches_ok (s\<lparr>assignment_rows := assignment_rows s @ [a]\<rparr>)" if "batches_ok s" "as_batch a \<notin> as_batch ` set (assignment_rows s)"
    for s :: "'a riders_db_scheme" and a
  proof -
    from that have "batches_linked s" "distinct (map as_batch (assignment_rows s))" by (simp_all add: batches_ok_def batches_linked_def)
    with that linked_assignments [of s] show ?thesis by (simp add: batches_ok_def counts_assignments)
  qed
qed (rule batches_ok_fill)



section \<open>A declined batch\<close>

lemma find_distinct:
  assumes "distinct (map key rows)" "r \<in> set rows" "P r" "\<And>q. q \<in> set rows \<Longrightarrow> P q \<Longrightarrow> key q = key r"
  shows "find P rows = Some r"
proof (cases "find P rows")
  case None
  then show ?thesis using assms(2,3) by (simp add: find_None_iff)
next
  case (Some q)
  then have "q \<in> set rows" "P q" by (auto dest: find_SomeD)
  then have "q = r" using assms by (metis distinct_map inj_onD)
  with Some show ?thesis by simp
qed

lemma resolve_same:
  assumes "couriers t = couriers s" "is_campus_admin t = is_campus_admin s"
  shows "fst (resolve_rider_profile b a t) = fst (resolve_rider_profile b a s)"
proof -
  have "find_rider_profile_for_actor u r t = find_rider_profile_for_actor u r s" "has_rider_access i u t = has_rider_access i u s" for u r i
    by (simp_all add: find_rider_profile_for_actor_def has_rider_access_def assms)
  then show ?thesis by (cases "find_rider_profile_for_actor (user_id a) (rider_id a) s") (auto simp: resolve_rider_profile_def prog_simps)
qed

definition declined_rows :: "uuid \<Rightarrow> uuid \<Rightarrow> uuid \<Rightarrow> 'z batches_db_scheme \<Rightarrow> 'z batches_db_scheme" where
  "declined_rows rid aid bid s = s\<lparr>
     assignment_rows := update_where (\<lambda>a. as_rider a = Some rid \<and> as_id a = aid \<and> as_status a \<in> {As_Assigned, As_Accepted})
       (\<lambda>a. a\<lparr>as_status := As_Cancelled\<rparr>) (assignment_rows s),
     batch_rows := update_where (\<lambda>b. bt_id b = bid \<and> bt_status b = Ba_Assigned) (\<lambda>b. b\<lparr>bt_status := Ba_Closed\<rparr>) (batch_rows s)\<rparr>"

lemma decline_rows_app:
  assumes "find_assignment rid aid s = Some (x, b)" "as_status x \<in> {As_Assigned, As_Accepted}"
  shows "decline_rows rid aid bid s = (Inr (), declined_rows rid aid bid s)"
proof -
  have "list_ex (\<lambda>a. as_rider a = Some rid \<and> as_id a = aid \<and> as_status a \<in> {As_Assigned, As_Accepted}) (assignment_rows s)"
    using assms by (auto simp: find_assignment_def bind_eq_Some_conv list_ex_iff dest!: find_SomeD)
  then show ?thesis by (simp add: decline_rows_def declined_rows_def prog_simps update_assignments_def update_batches_def)
qed

lemma declined_found:
  assumes "find_assignment rid aid s = Some (x, b)" "as_status x \<in> {As_Assigned, As_Accepted}"
  shows "\<exists>b'. find_assignment rid aid (declined_rows rid aid bid s) = Some (x\<lparr>as_status := As_Cancelled\<rparr>, b') \<and> bt_id b' = as_batch x"
proof -
  from assms have x: "find (\<lambda>a. as_rider a = Some rid \<and> as_id a = aid) (assignment_rows s) = Some x" "as_rider x = Some rid" "as_id x = aid"
    and b: "lookup_by bt_id (as_batch x) (batch_rows s) = Some b"
    by (auto simp: find_assignment_def bind_eq_Some_conv dest!: find_SomeD)
  then have "bt_id b = as_batch x" by (auto dest: lookup_by_Some)
  with x b assms(2) show ?thesis
    by (auto simp: find_assignment_def declined_rows_def find_update lookup_update_where)
qed

lemma decline_gives:
  "gives (decline_assignment a aid reason) s (\<lambda>d t. \<exists>c. fst (resolve_rider_profile True a t) = Inr c \<and>
     find_assignment (rd_id c) aid t = Some (fst d, fst (snd d)) \<and> as_status (fst d) = As_Cancelled \<and> bt_id (fst (snd d)) = as_batch (fst d))"
proof (rule givesI)
  fix d t assume run: "decline_assignment a aid reason s = (Inr d, t)"
  show "\<exists>c. fst (resolve_rider_profile True a t) = Inr c \<and>
     find_assignment (rd_id c) aid t = Some (fst d, fst (snd d)) \<and> as_status (fst d) = As_Cancelled \<and> bt_id (fst (snd d)) = as_batch (fst d)"
  proof (cases "fst (resolve_rider_profile True a s)")
    case (Inl e)
    with run resolve_reads [of True a s] show ?thesis
      by (cases "resolve_rider_profile True a s") (simp add: decline_assignment_def prog_simps)
  next
    case (Inr c)
    note c = resolve_app [OF Inr]
    obtain x b where known: "find_assignment (rd_id c) aid s = Some (x, b)" "as_status x \<in> {As_Assigned, As_Accepted}"
      using run by (auto simp: decline_assignment_def prog_simps c found_or_def split: option.splits if_splits)
    let ?u = "declined_rows (rd_id c) aid (bt_id b) s"
    obtain b' where after: "find_assignment (rd_id c) aid ?u = Some (x\<lparr>as_status := As_Cancelled\<rparr>, b')" "bt_id b' = as_batch x"
      using declined_found [OF known] by blast
    have "decline_assignment_row (rd_id c) aid s = (Inr (Some (x\<lparr>as_status := As_Cancelled\<rparr>, b')), ?u)"
      using known(1) decline_rows_app [OF known] after by (simp add: decline_assignment_row_def prog_simps)
    then obtain logs where "d = (x\<lparr>as_status := As_Cancelled\<rparr>, b', find_batch_orders (as_batch x) t)" "t = ?u\<lparr>audit_logs := logs\<rparr> \<or> t = ?u"
      using run known by (auto simp: decline_assignment_def prog_simps c found_or_def record_audit_def assignment_detail_def split: if_splits)
    moreover have "find_assignment (rd_id c) aid (?u\<lparr>audit_logs := logs\<rparr>) = find_assignment (rd_id c) aid ?u" by (simp add: find_assignment_def)
    moreover have "fst (resolve_rider_profile True a t) = fst (resolve_rider_profile True a s)" if "t = ?u\<lparr>audit_logs := logs\<rparr> \<or> t = ?u"
      using that by (intro resolve_same) (auto simp: declined_rows_def)
    ultimately show ?thesis using Inr after by auto
  qed
qed


lemma picked_up_declined:
  assumes "fst (resolve_rider_profile True a t) = Inr c" and x: "find_assignment (rd_id c) aid t = Some (x, b)" "as_status x = As_Cancelled"
    and "bt_status b = Ba_Closed" "bt_id b = as_batch x"
  shows "mark_assignment_picked_up a aid t = (Inl (bad_request ''Assignment cannot be marked picked up from its current status.''),
     snd (picked_up_rows (rd_id c) aid (bt_id b) t))"
    and "lookup_by bt_id (bt_id b) (batch_rows (snd (picked_up_rows (rd_id c) aid (bt_id b) t))) = Some (b\<lparr>bt_status := Ba_In_Progress\<rparr>)"
proof -
  have row: "find (\<lambda>a. as_rider a = Some (rd_id c) \<and> as_id a = aid) (assignment_rows t) = Some x" "lookup_by bt_id (bt_id b) (batch_rows t) = Some b"
    using x assms(5) by (auto simp: find_assignment_def bind_eq_Some_conv)
  show looked: "lookup_by bt_id (bt_id b) (batch_rows (snd (picked_up_rows (rd_id c) aid (bt_id b) t))) = Some (b\<lparr>bt_status := Ba_In_Progress\<rparr>)"
    using row(2) assms(4) by (simp add: picked_up_rows_def update_assignments_def update_batches_def prog_simps lookup_update_where)
  have "find_assignment (rd_id c) aid (snd (picked_up_rows (rd_id c) aid (bt_id b) t)) = Some (x, b\<lparr>bt_status := Ba_In_Progress\<rparr>)"
    using row x(2) assms(4,5)
    by (simp add: find_assignment_def picked_up_rows_def update_assignments_def update_batches_def prog_simps find_update lookup_update_where)
  moreover have "transaction (picked_up_rows (rd_id c) aid (bt_id b)) t = (Inr (), snd (picked_up_rows (rd_id c) aid (bt_id b) t))"
    by (simp add: picked_up_rows_def update_assignments_def update_batches_def prog_simps)
  ultimately show "mark_assignment_picked_up a aid t = (Inl (bad_request ''Assignment cannot be marked picked up from its current status.''),
     snd (picked_up_rows (rd_id c) aid (bt_id b) t))"
    using x by (simp add: mark_assignment_picked_up_def mark_picked_up_row_def resolve_app [OF assms(1)] prog_simps found_or_def)
qed

lemma fleet_refuses:
  assumes "fst (fleet_assign_batch fleet bid rider user t) = Inr i"
    and "lookup_by bt_id bid (batch_rows t) = Some b" "lookup_by bt_id bid (batch_rows u) = Some (b\<lparr>bt_status := Ba_In_Progress\<rparr>)"
    and "partners u = partners t" "couriers u = couriers t"
  shows "fst (fleet_assign_batch fleet bid rider user u) = Inl (pg_error ''FP409'' ''Batch can no longer be assigned.'')"
proof -
  obtain p where "lookup_by fp_id fleet (partners t) = Some p" "fp_status p = Fleet_Active" "fp_can_dispatch p" "bt_campus b = fp_campus p"
    "bt_mode b = ''meal_direct_rider''"
    using assms(1,2) by (auto simp: fleet_assign_batch_def prog_simps split: option.splits if_splits)
  then show ?thesis using assms(3-5) by (simp add: fleet_assign_batch_def prog_simps)
qed

text \<open>
  Property C32: picking up a declined batch blocks it. A rider who has declined an assignment and then
  reports it picked up is answered that it cannot be, but the batch is left in progress all the same:
  a fleet manager who could have given it to another rider before is refused from then on.
\<close>

theorem declined_pick_up_blocks_the_batch:
  assumes "decline_assignment a aid reason s = (Inr (x, b, rows), t)" and "bt_status b = Ba_Closed"
    and "fst (fleet_assign_batch fleet (bt_id b) rider user t) = Inr i"
  shows "\<exists>u. mark_assignment_picked_up a aid t = (Inl (bad_request ''Assignment cannot be marked picked up from its current status.''), u) \<and>
     lookup_by bt_id (bt_id b) (batch_rows u) = Some (b\<lparr>bt_status := Ba_In_Progress\<rparr>) \<and>
     fst (fleet_assign_batch fleet (bt_id b) rider user u) = Inl (pg_error ''FP409'' ''Batch can no longer be assigned.'')"
proof -
  obtain c where c: "fst (resolve_rider_profile True a t) = Inr c" "find_assignment (rd_id c) aid t = Some (x, b)"
    "as_status x = As_Cancelled" "bt_id b = as_batch x"
    using givesD [OF decline_gives assms(1)] by auto
  let ?u = "snd (picked_up_rows (rd_id c) aid (bt_id b) t)"
  note picked = picked_up_declined [OF c(1-3) assms(2) c(4)]
  have "lookup_by bt_id (bt_id b) (batch_rows t) = Some b" using c(2,4) by (auto simp: find_assignment_def bind_eq_Some_conv)
  moreover have "partners ?u = partners t" "couriers ?u = couriers t"
    by (simp_all add: picked_up_rows_def update_assignments_def update_batches_def prog_simps)
  ultimately have "fst (fleet_assign_batch fleet (bt_id b) rider user ?u) = Inl (pg_error ''FP409'' ''Batch can no longer be assigned.'')"
    by (intro fleet_refuses [OF assms(3) _ picked(2)])
  with picked show ?thesis by blast
qed


lemma assigned_found:
  assumes "batches_ok t" "(bid, oid) \<in> set (batched t)" "x \<in> set (assignment_rows t)" "as_batch x = bid" "as_rider x = Some rid"
  shows "\<exists>v. find_assigned_order rid oid t = Some \<lparr>ro_view = v, ro_assignment = x\<rparr>"
proof -
  have linked: "batches_linked t" using assms(1) by (simp add: batches_ok_def)
  then have once: "distinct (map snd (batched t))" "distinct (map as_batch (assignment_rows t))"
    and keyed: "\<forall>p\<in>set (batched t). \<exists>b\<in>set (batch_rows t). bt_id b = fst p \<and> order_key (snd p) t = Some (batch_key b)"
    unfolding batches_linked_def by blast+
  have carried: "carries rid bid t" using assms(3-5) by (auto simp: carries_def list_ex_iff)
  have pair: "find (\<lambda>p. snd p = oid \<and> carries rid (fst p) t) (batched t) = Some (bid, oid)"
    by (rule find_distinct [OF once(1) assms(2)]) (simp_all add: carried)
  have row: "find (\<lambda>a. as_batch a = bid \<and> as_rider a = Some rid) (assignment_rows t) = Some x"
    by (rule find_distinct [OF once(2) assms(3)]) (simp_all add: assms(4,5))
  obtain b where "order_key oid t = Some (batch_key b)" using bspec [OF keyed assms(2)] unfolding snd_conv by blast
  then obtain v where "order_view_of oid t = Some v"
    unfolding order_key_def order_view_of_def bind_eq_Some_conv by auto
  with pair row show ?thesis by (simp add: find_assigned_order_def)
qed

lemma takes_out_ready:
  assumes "status_of oid t = Some Ready"
  shows "fst (transition_with_shares oid Out_For_Delivery None rdy t) = Inr Out_For_Delivery"
  using assms by (auto simp: status_of_def transition_with_shares_def transition_order_status_def prog_simps sql_transition_allowed_def)

lemma orders_kept:
  "preserves (\<lambda>v. odb_orders v = os) (draw_delivery_code rid oid n)" "preserves (\<lambda>v. odb_orders v = os) (assign_delivery_code rid oid)"
  "preserves (\<lambda>v. odb_orders v = os) (require_assigned_order rid oid)"
proof -
  have code: "preserves (\<lambda>v. odb_orders v = os) draw_code" by (rule preservesI) (simp add: draw_code_def)
  show draw: "preserves (\<lambda>v. odb_orders v = os) (draw_delivery_code rid oid n)" for n
    by (induction n) (auto intro!: preserves_intros preserves_modify code)
  show "preserves (\<lambda>v. odb_orders v = os) (assign_delivery_code rid oid)" unfolding assign_delivery_code_def
    by (auto intro!: preserves_intros draw split: option.split)
  show "preserves (\<lambda>v. odb_orders v = os) (require_assigned_order rid oid)" unfolding require_assigned_order_def found_or_def
    by (auto intro!: preserves_intros split: option.split)
qed

text \<open>
  Declining does not take the orders away. After a rider has declined a batch, they still
  see each of its orders, under the cancelled assignment, and can take a ready one out for delivery.
\<close>

theorem declined_rider_takes_orders_out:
  assumes "decline_assignment a aid reason s = (Inr (x, b, rows), t)" and "batches_ok t"
    and "(bt_id b, oid) \<in> set (batched t)" and "status_of oid t = Some Ready"
  shows "as_status x = As_Cancelled \<and> (\<exists>v. get_rider_order a oid t = (Inr \<lparr>ro_view = v, ro_assignment = x\<rparr>, t)) \<and>
    status_of oid (snd (mark_order_out_for_delivery a oid rdy t)) = Some Out_For_Delivery"
proof -
  obtain c where c: "fst (resolve_rider_profile True a t) = Inr c" "find_assignment (rd_id c) aid t = Some (x, b)"
    "as_status x = As_Cancelled" "bt_id b = as_batch x"
    using givesD [OF decline_gives assms(1)] by auto
  have "x \<in> set (assignment_rows t)" "as_rider x = Some (rd_id c)"
    using c(2) by (auto simp: find_assignment_def bind_eq_Some_conv dest!: find_SomeD)
  with assigned_found [OF assms(2,3), of x "rd_id c"] c(4)
  obtain v where v: "find_assigned_order (rd_id c) oid t = Some \<lparr>ro_view = v, ro_assignment = x\<rparr>" by auto
  then have seen: "get_rider_order a oid t = (Inr \<lparr>ro_view = v, ro_assignment = x\<rparr>, t)"
    by (simp add: get_rider_order_def require_assigned_order_def found_or_def prog_simps resolve_app [OF c(1)])
  let ?r = "case rdy of None \<Rightarrow> True | Some b \<Rightarrow> b"
  obtain u where u: "transition_with_shares oid Out_For_Delivery None ?r t = (Inr Out_For_Delivery, u)"
    using takes_out_ready [OF assms(4), of ?r] by (cases "transition_with_shares oid Out_For_Delivery None ?r t") simp
  then have "transition_order_for_profile (rd_id c) oid Out_For_Delivery (Some ?r) t = (Inr (), u)"
    using v by (simp add: transition_order_for_profile_def transition_assigned_order_status_def found_or_def prog_simps)
  then have out: "mark_order_out_for_delivery a oid rdy t = thenM (assign_delivery_code (rd_id c) oid) (require_assigned_order (rd_id c) oid) u"
    by (simp add: mark_order_out_for_delivery_def prog_simps resolve_app [OF c(1)])
  have "status_of oid u = Some Out_For_Delivery" using givesD [OF transition_moves u] by (simp add: moved_def)
  moreover have "odb_orders (snd (mark_order_out_for_delivery a oid rdy t)) = odb_orders u" unfolding out
    by (rule preservesD [where I = "\<lambda>v. odb_orders v = odb_orders u"]) (intro preserves_intros orders_kept, simp)
  ultimately show ?thesis using c(3) seen by (auto simp: status_of_def)
qed

section \<open>A batch on its way\<close>

definition ann :: actor where
  "ann = \<lparr>user_id = ''ann'', role = Rider, email = None, campus_id = None, vendor_id = None, rider_id = Some ''r1''\<rparr>"

definition some_courier :: "uuid \<Rightarrow> uuid \<Rightarrow> uuid option \<Rightarrow> courier" where
  "some_courier i user fleet = \<lparr>rd_id = i, rd_user = user, rd_campus = ''c1'', rd_name = user, rd_available = True, rd_active = True,
     rd_status = Rider_Verified, rd_fleet = fleet, rd_created = 0, cr_phone = ''+2348000000'', cr_verified_at = Some 0\<rparr>"

definition ready_row :: "uuid \<Rightarrow> order_row" where
  "ready_row i = \<lparr>ord_id = i, ord_number = i, ord_customer = shopper, ord_campus = ''c1'', ord_status = Ready, ord_paid_at = Some 1000,
     ord_ready_at = Some 2000, ord_delivered_at = None, ord_confirmed_at = None, ord_cancelled_at = None,
     ord_cancellation_reason = None, ord_rider_confirmed_ready = None, ord_reservation_expires_at = None\<rparr>"

definition some_facts :: "uuid \<Rightarrow> order_facts" where
  "some_facts i = \<lparr>fa_order = i, fa_vendor = ''kitchen'', fa_day = 20000, fa_slot = ''noon'', fa_location = ''hall'',
     fa_mode = ''meal_direct_rider'', fa_point = False, fa_subtotal = 150000, fa_delivery_fee = 30000, fa_service_fee = 0,
     fa_discount = 0, fa_surcharge = 0, fa_method = Wallet_Payment, fa_instructions = None, fa_room = None, fa_code = None\<rparr>"

definition some_delivery :: "uuid \<Rightarrow> delivery_row" where
  "some_delivery i = \<lparr>dr_order = i, dr_meal_direct_rider = True, dr_point = False, dr_fee = 30000, dr_target = 800000000,
     dr_rider_share = None, dr_vendor_share = None, dr_platform_share = None, dr_ready_on_time = None, dr_delivered_on_time = None\<rparr>"

text \<open>Two ready orders in one batch, assigned to Ann; Ben rides for the fleet \<open>f1\<close>.\<close>

definition delivery_sample :: riders_db where
  "delivery_sample = batches_db.extend
     (orders_db.extend
       (orders_sample\<lparr>odb_orders := [ready_row ''o1'', ready_row ''o2''], order_facts := [some_facts ''o1'', some_facts ''o2''],
          deliveries := [some_delivery ''o1'', some_delivery ''o2'']\<rparr>)
       (batches_db.fields
         [\<lparr>bt_id = ''id-0'', bt_campus = ''c1'', bt_vendor = ''kitchen'', bt_day = 20000, bt_slot = ''noon'', bt_zone = ''z1'',
            bt_mode = ''meal_direct_rider'', bt_status = Ba_Assigned, bt_orders = 2, bt_earnings = 0, bt_cutoff = 400000, bt_closed = None\<rparr>]
         [(''id-0'', ''o1''), (''id-0'', ''o2'')]
         [\<lparr>as_id = ''a1'', as_batch = ''id-0'', as_rider = Some ''r1'', as_vendor = None, as_fleet = None, as_status = As_Assigned,
            as_assigned = 0, as_by = None, as_accepted = None, as_picked_up = None, as_completed = None\<rparr>]
         [some_courier ''r1'' ''ann'' None, some_courier ''r2'' ''ben'' (Some ''f1'')]
         [\<lparr>fp_id = ''f1'', fp_status = Fleet_Active, fp_priority = 0, fp_campus = ''c1'', fp_can_dispatch = True\<rparr>]))
     (riders_db.fields [] [] [''c1''] (\<lambda>t. ''later'') (\<lambda>n. None) [])"

lemmas sample_defs = delivery_sample_def batches_db.defs orders_db.defs riders_db.defs orders_sample_def ready_row_def some_facts_def
  some_delivery_def some_courier_def

lemma sample_ok: "batches_ok delivery_sample"
proof -
  have "''id-0'' = db_uuid delivery_sample 0" by code_simp
  moreover have "db_drawn delivery_sample = 1" by code_simp
  ultimately have drawn: "''id-0'' \<in> drawn_ids delivery_sample" by (simp add: drawn_ids_def)
  have "inj (db_uuid delivery_sample)" by (rule injI) (simp add: sample_defs nat_str_inj)
  moreover have "order_key ''o1'' delivery_sample = Some (''c1'', ''kitchen'', 20000, ''noon'', ''z1'', ''meal_direct_rider'')"
    "order_key ''o2'' delivery_sample = Some (''c1'', ''kitchen'', 20000, ''noon'', ''z1'', ''meal_direct_rider'')" by code_simp+
  ultimately show ?thesis using drawn
    by (simp add: batches_ok_def batches_linked_def counts_right_def) (simp add: sample_defs batch_key_def orders_in_def)
qed

definition ann_declined :: "(exn + assignment_view) \<times> riders_db" where
  "ann_declined = decline_assignment ann ''a1'' None delivery_sample"

lemma declined_runs: "is_ok (fst ann_declined)" "fst (fleet_assign_batch ''f1'' ''id-0'' ''r2'' ''boss'' (snd ann_declined)) = Inr ''a1''"
  "map (\<lambda>b. (bt_id b, bt_status b)) (batch_rows (snd ann_declined)) = [(''id-0'', Ba_Closed)]"
  by code_simp+


lemma is_okE: "is_ok (fst p) \<Longrightarrow> \<exists>x. p = (Inr x, snd p)"
  by (cases p; cases "fst p") simp_all

lemma declined_batch:
  obtains x b rows where "decline_assignment ann ''a1'' None delivery_sample = (Inr (x, b, rows), snd ann_declined)" "bt_id b = ''id-0''" "bt_status b = Ba_Closed"
proof -
  obtain x b rows where run: "ann_declined = (Inr (x, b, rows), snd ann_declined)" using is_okE [OF declined_runs(1)] by (metis prod_cases3)
  from run have "\<exists>r. find_assignment r ''a1'' (snd ann_declined) = Some (x, b)"
    using givesD [OF decline_gives, of ann "''a1''" None delivery_sample "(x, b, rows)" "snd ann_declined"] by (auto simp: ann_declined_def)
  then have "b \<in> set (batch_rows (snd ann_declined))" by (auto simp: find_assignment_def bind_eq_Some_conv dest: lookup_by_Some)
  with declined_runs(3) have "bt_id b = ''id-0''" "bt_status b = Ba_Closed" by (auto simp: map_eq_Cons_conv)
  with run that show thesis by (simp add: ann_declined_def)
qed

lemma declined_pick_up_blocks_the_batch_witness:
  "\<exists>u. mark_assignment_picked_up ann ''a1'' (snd ann_declined) = (Inl (bad_request ''Assignment cannot be marked picked up from its current status.''), u) \<and>
     fst (fleet_assign_batch ''f1'' ''id-0'' ''r2'' ''boss'' u) = Inl (pg_error ''FP409'' ''Batch can no longer be assigned.'')"
proof -
  obtain x b rows where b: "decline_assignment ann ''a1'' None delivery_sample = (Inr (x, b, rows), snd ann_declined)" "bt_id b = ''id-0''" "bt_status b = Ba_Closed"
    by (rule declined_batch)
  show ?thesis
    using declined_pick_up_blocks_the_batch [OF b(1,3), of "''f1''" "''r2''" "''boss''" "''a1''"] declined_runs(2) b(2) by auto
qed

lemma declined_ok: "batches_ok (snd ann_declined)"
  unfolding ann_declined_def using sample_ok by (rule batches_ok.holds_after_step [OF delivery_step.declines])

lemma declined_reads: "(''id-0'', ''o1'') \<in> set (batched (snd ann_declined))" "status_of ''o1'' (snd ann_declined) = Some Ready"
  by code_simp+

lemma declined_rider_takes_orders_out_witness:
  "status_of ''o1'' (snd (mark_order_out_for_delivery ann ''o1'' None (snd ann_declined))) = Some Out_For_Delivery"
proof -
  obtain x b rows where b: "decline_assignment ann ''a1'' None delivery_sample = (Inr (x, b, rows), snd ann_declined)" "bt_id b = ''id-0''" "bt_status b = Ba_Closed"
    by (rule declined_batch)
  show ?thesis using declined_rider_takes_orders_out [OF b(1) declined_ok, of "''o1''" None] declined_reads b(2) by simp
qed


definition half_cancelled :: riders_db where
  "half_cancelled = snd (transition_with_shares ''o2'' Cancelled (Some ''sold out'') True delivery_sample)"

lemma half_cancelled_reads:
  "(''id-0'', ''o2'') \<in> set (batched half_cancelled)" "status_of ''o2'' half_cancelled = Some Cancelled"
  "map bt_status (batch_rows half_cancelled) = [Ba_Assigned]"
  by code_simp+

lemma cancelled_order_holds_up_its_batch_witness:
  "\<exists>e. pickup_batch ann ''id-0'' (snd (mark_order_out_for_delivery ann ''o1'' None half_cancelled)) =
     (Inl e, snd (mark_order_out_for_delivery ann ''o1'' None half_cancelled))"
  using cancelled_order_holds_up_its_batch [OF delivery_run.next_step [OF delivery_run.here delivery_step.takes_out [of half_cancelled ann "''o1''" None]]
      half_cancelled_reads(1,2), of ann] half_cancelled_reads(3)
  by (auto simp: map_eq_Cons_conv)

end
