(* ===== verification/Delivery_Codes.thy ===== *)
theory Delivery_Codes
  imports Dispatch
begin

text \<open>
  The codes that confirm a delivery (riders.service.ts, confirmDeliveryByCode): a code handed out finds
  its order, a confirmation delivers that order only, wrong codes are rationed when they come one after
  the other, and are not when they overlap.
\<close>

section \<open>Guessing a code\<close>

text \<open>A wrong code leaves one trace, the rider's counter.\<close>

definition guessed :: "uuid \<Rightarrow> 'z riders_db_scheme \<Rightarrow> 'z riders_db_scheme" where
  "guessed rid s =
     (if get_delivery_code_lock rid s \<noteq> None then s
      else case lookup_by at_rider rid (attempts s) of
        None \<Rightarrow> s\<lparr>attempts := attempts s @ [\<lparr>at_rider = rid, at_failed = 1, at_window = odb_now s, at_locked = None\<rparr>]\<rparr>
      | Some a \<Rightarrow> s\<lparr>attempts := update_where (\<lambda>x. at_rider x = rid) (next_code_attempt (odb_now s)) (attempts s)\<rparr>)"

lemma resolve_frame:
  "fst (resolve_rider_profile b a (s\<lparr>attempts := xs\<rparr>)) = fst (resolve_rider_profile b a s)"
  "fst (resolve_rider_profile b a (s\<lparr>odb_now := t\<rparr>)) = fst (resolve_rider_profile b a s)"
  by (simp_all add: resolve_rider_profile_def prog_simps find_rider_profile_for_actor_def has_rider_access_def split: option.split)

lemma orders_frame:
  "active_orders_with_code rid code (s\<lparr>attempts := xs\<rparr>) = active_orders_with_code rid code s"
  "active_orders_with_code rid code (s\<lparr>odb_now := t\<rparr>) = active_orders_with_code rid code s"
  by (simp_all add: active_orders_with_code_def carries_def out_with_code_def status_of_def)

lemma confirm_wrong:
  assumes "fst (resolve_rider_profile True a s) = Inr c" and "active_orders_with_code (rd_id c) code s = []"
  shows "\<exists>e. confirm_delivery_by_code a code s = (Inl e, guessed (rd_id c) s)"
  using assms(2) resolve_app [OF assms(1)]
  by (auto simp: confirm_delivery_by_code_def check_delivery_code_lock_def try_delivery_code_def prog_simps
      find_active_order_id_by_delivery_code_def register_delivery_code_failure_def guessed_def Let_def
      split: option.split sum.split)

fun tested_guesses :: "actor \<Rightarrow> uuid \<Rightarrow> (time \<times> string) list \<Rightarrow> 'z riders_db_scheme \<Rightarrow> time list" where
  "tested_guesses a rid [] s = []"
| "tested_guesses a rid ((t, code) # gs) s =
     (let u = s\<lparr>odb_now := t\<rparr>; rest = tested_guesses a rid gs (snd (confirm_delivery_by_code a code u))
      in if get_delivery_code_lock rid u = None then t # rest else rest)"

text \<open>What is left to guess before \<open>start + attempt_window\<close>, by the rider's counter.\<close>

definition guesses_left :: "time \<Rightarrow> code_attempts option \<Rightarrow> int" where
  "guesses_left start row =
     (case row of
        None \<Rightarrow> 5
      | Some a \<Rightarrow>
          if (case at_locked a of None \<Rightarrow> False | Some l \<Rightarrow> start + attempt_window \<le> l) then 0
          else if start \<le> at_window a then max 1 (5 - at_failed a)
          else if at_failed a < 5 then 9 - at_failed a else 5)"

definition counted :: "code_attempts option \<Rightarrow> bool" where
  "counted row \<longleftrightarrow> (case row of None \<Rightarrow> True | Some a \<Rightarrow> 1 \<le> at_failed a)"

abbreviation counter :: "uuid \<Rightarrow> 'z riders_db_scheme \<Rightarrow> code_attempts option" where
  "counter rid s \<equiv> lookup_by at_rider rid (attempts s)"

lemma counter_guessed:
  "counter rid (guessed rid s) =
     (if get_delivery_code_lock rid s \<noteq> None then counter rid s
      else Some (case counter rid s of None \<Rightarrow> \<lparr>at_rider = rid, at_failed = 1, at_window = odb_now s, at_locked = None\<rparr>
        | Some a \<Rightarrow> next_code_attempt (odb_now s) a))"
proof (cases "counter rid s")
  case (Some a)
  have "at_rider (next_code_attempt t x) = at_rider x" for t x by (simp add: next_code_attempt_def Let_def)
  then show ?thesis using Some lookup_by_Some [OF Some] by (simp add: guessed_def lookup_update_where)
qed (simp add: guessed_def table_simps)

lemma counted_guessed: "counted (counter rid s) \<Longrightarrow> counted (counter rid (guessed rid s))"
  by (auto simp: counter_guessed counted_def next_code_attempt_def Let_def split: option.splits)

lemma guesses_left_range: "0 \<le> guesses_left start row" "counted row \<Longrightarrow> guesses_left start row \<le> 8"
  by (auto simp: guesses_left_def counted_def le_max_iff_disj max.bounded_iff split: option.splits)

lemma tested_times: "set (tested_guesses a rid gs s) \<subseteq> fst ` set gs"
  by (induction a rid gs s rule: tested_guesses.induct) (auto simp: Let_def)

lemma guess_uses_one:
  assumes "counted (counter rid s)" "get_delivery_code_lock rid s = None" "start \<le> odb_now s" "odb_now s < start + attempt_window"
  shows "guesses_left start (counter rid (guessed rid s)) + 1 \<le> guesses_left start (counter rid s)"
  using assms
  by (auto simp: counter_guessed guesses_left_def next_code_attempt_def counted_def get_delivery_code_lock_def max_attempts_def
      attempt_window_def Let_def split: option.splits if_splits)

lemma locked_guess: "get_delivery_code_lock rid s \<noteq> None \<Longrightarrow> guessed rid s = s"
  by (simp add: guessed_def)

definition wrong_guesses :: "actor \<Rightarrow> uuid \<Rightarrow> (time \<times> string) list \<Rightarrow> 'z riders_db_scheme \<Rightarrow> bool" where
  "wrong_guesses a rid gs s \<longleftrightarrow> (\<exists>c. fst (resolve_rider_profile True a s) = Inr c \<and> rd_id c = rid) \<and>
     list_all (\<lambda>g. active_orders_with_code rid (snd g) s = []) gs \<and> sorted (map fst gs) \<and> counted (counter rid s)"

lemma wrong_guesses_Cons:
  assumes "wrong_guesses a rid ((t, code) # gs) s"
  shows "snd (confirm_delivery_by_code a code (s\<lparr>odb_now := t\<rparr>)) = guessed rid (s\<lparr>odb_now := t\<rparr>)"
    and "wrong_guesses a rid gs (guessed rid (s\<lparr>odb_now := t\<rparr>))"
proof -
  let ?u = "s\<lparr>odb_now := t\<rparr>"
  obtain c where c: "fst (resolve_rider_profile True a ?u) = Inr c" "rd_id c = rid"
    using assms by (auto simp: wrong_guesses_def resolve_frame)
  with confirm_wrong [of a ?u c code] assms show "snd (confirm_delivery_by_code a code ?u) = guessed rid ?u"
    by (auto simp: wrong_guesses_def orders_frame)
  obtain xs where xs: "guessed rid ?u = ?u\<lparr>attempts := xs\<rparr>"
    by (cases "counter rid ?u"; cases "get_delivery_code_lock rid ?u") (auto simp: guessed_def intro: that [of "attempts ?u"])
  have "counted (counter rid ?u)" using assms by (simp add: wrong_guesses_def)
  then have "counted (counter rid (guessed rid ?u))" by (rule counted_guessed)
  with assms c show "wrong_guesses a rid gs (guessed rid ?u)"
    by (auto simp: wrong_guesses_def xs resolve_frame orders_frame)
qed

lemma tested_after_start:
  assumes "wrong_guesses a rid gs s" and "\<forall>t\<in>fst ` set gs. start \<le> t"
  shows "int (length (filter (\<lambda>t. t < start + attempt_window) (tested_guesses a rid gs s))) \<le> guesses_left start (counter rid s)"
  using assms
proof (induction gs arbitrary: s)
  case Nil
  then show ?case by (simp add: guesses_left_range)
next
  case (Cons g gs)
  obtain t code where g: "g = (t, code)" by (cases g)
  let ?u = "s\<lparr>odb_now := t\<rparr>"
  note next_run = wrong_guesses_Cons [OF Cons.prems(1) [unfolded g]]
  have ih: "int (length (filter (\<lambda>t. t < start + attempt_window) (tested_guesses a rid gs (guessed rid ?u))))
      \<le> guesses_left start (counter rid (guessed rid ?u))"
    using Cons.prems(2) by (intro Cons.IH next_run(2)) simp
  have counted: "counted (counter rid ?u)" using Cons.prems(1) by (simp add: wrong_guesses_def)
  show ?case
  proof (cases "get_delivery_code_lock rid ?u")
    case None
    show ?thesis
    proof (cases "t < start + attempt_window")
      case True
      have "guesses_left start (counter rid (guessed rid ?u)) + 1 \<le> guesses_left start (counter rid ?u)"
        using Cons.prems(2) True None counted by (intro guess_uses_one) (simp_all add: g)
      with ih None show ?thesis by (simp add: g next_run(1) Let_def True)
    next
      case False
      then have "\<forall>x\<in>set (tested_guesses a rid (g # gs) s). \<not> x < start + attempt_window"
        using Cons.prems(1) tested_times [of a rid "g # gs" s] by (fastforce simp: g wrong_guesses_def)
      then have "filter (\<lambda>t. t < start + attempt_window) (tested_guesses a rid (g # gs) s) = []"
        by (simp add: filter_empty_conv)
      then show ?thesis by (simp add: guesses_left_range)
    qed
  next
    case (Some l)
    with ih locked_guess [of rid ?u] show ?thesis by (simp add: g next_run(1) Let_def)
  qed
qed

lemma tested_split:
  assumes "wrong_guesses a rid gs s"
  shows "int (length (filter (\<lambda>t. start \<le> t \<and> t < start + attempt_window) (tested_guesses a rid gs s))) \<le> 8"
  using assms
proof (induction gs arbitrary: s)
  case (Cons g gs)
  obtain t code where g: "g = (t, code)" by (cases g)
  note next_run = wrong_guesses_Cons [OF Cons.prems [unfolded g]]
  show ?case
  proof (cases "start \<le> t")
    case True
    then have later: "\<forall>x\<in>fst ` set (g # gs). start \<le> x" using Cons.prems by (auto simp: g wrong_guesses_def)
    then have "filter (\<lambda>t. start \<le> t \<and> t < start + attempt_window) (tested_guesses a rid (g # gs) s) =
        filter (\<lambda>t. t < start + attempt_window) (tested_guesses a rid (g # gs) s)"
      using tested_times [of a rid "g # gs" s] by (intro filter_cong) auto
    with tested_after_start [OF Cons.prems later] guesses_left_range(2) [of "counter rid s" start] Cons.prems show ?thesis
      by (simp add: wrong_guesses_def)
  next
    case False
    with Cons.IH [OF next_run(2)] show ?thesis by (simp add: g next_run(1) Let_def)
  qed
qed simp


text \<open>
  Property C15: the lock rations guesses that come one after the other. However often a rider tries
  wrong codes, at most eight of the guesses of any 15 minutes are looked up; the others are turned
  away by the lock.
\<close>

theorem guesses_are_rationed:
  assumes "fst (resolve_rider_profile True a s) = Inr c" and "\<forall>g\<in>set gs. active_orders_with_code (rd_id c) (snd g) s = []"
    and "sorted (map fst gs)" and "\<forall>r\<in>set (attempts s). 1 \<le> at_failed r"
  shows "length (filter (\<lambda>t. start \<le> t \<and> t < start + attempt_window) (tested_guesses a (rd_id c) gs s)) \<le> 8"
proof -
  have "counted (counter (rd_id c) s)" using assms(4) by (auto simp: counted_def split: option.split dest: lookup_by_Some)
  with assms(1-3) have "wrong_guesses a (rd_id c) gs s" by (auto simp: wrong_guesses_def list_all_iff)
  from tested_split [OF this, of start] show ?thesis by simp
qed

section \<open>Overlapping guesses\<close>

text \<open>Delivering an order neither reads nor writes the counters.\<close>

lemma attempts_frame:
  "commutes (\<lambda>s. s\<lparr>attempts := xs\<rparr>) (platform_setting_int key fallback)"
  "commutes (\<lambda>s. s\<lparr>attempts := xs\<rparr>) (to_int4 n)"
  by (auto simp: platform_setting_int_def to_int4_def intro!: commutes_intros commutes_gets split: option.split json.split js_num.split)

lemma attempts_frame_transition: "commutes (\<lambda>s. s\<lparr>attempts := xs\<rparr>) (transition_with_shares oid to reason ready)"
  unfolding transition_with_shares_def transition_order_status_def resolve_order_delivery_shares_def read_share_settings_def Let_def
  by (auto intro!: commutes_intros commutes_gets commutes_modify attempts_frame split: option.split prod.split)

lemma attempts_frame_finds: "find_assigned_order rid oid (s\<lparr>attempts := xs\<rparr>) = find_assigned_order rid oid s"
  by (simp add: find_assigned_order_def carries_def order_view_of_def find_latest_payment_def)

lemma attempts_frame_rows:
  "(\<And>s. sel (s\<lparr>attempts := xs\<rparr>) = sel s) \<Longrightarrow> (\<And>s. g (s\<lparr>attempts := xs\<rparr>) = g s) \<Longrightarrow>
   commutes (\<lambda>s. s\<lparr>attempts := xs\<rparr>) (update_assignments sel g)"
  "(\<And>s. sel' (s\<lparr>attempts := xs\<rparr>) = sel' s) \<Longrightarrow> (\<And>s. g' (s\<lparr>attempts := xs\<rparr>) = g' s) \<Longrightarrow>
   commutes (\<lambda>s. s\<lparr>attempts := xs\<rparr>) (update_batches sel' g')"
  unfolding update_assignments_def update_batches_def by (intro commutes_modify; simp)+

lemma attempts_frame_complete: "commutes (\<lambda>s. s\<lparr>attempts := xs\<rparr>) (complete_assignment_if_all_orders_delivered rid bid)"
  unfolding complete_assignment_if_all_orders_delivered_def batch_pending_def orders_in_def status_of_def
  by (intro commutes_intros attempts_frame_rows) (simp_all add: fun_eq_iff cong: option.case_cong)

lemma attempts_frame_deliver: "commutes (\<lambda>s. s\<lparr>attempts := xs\<rparr>) (transition_order_for_profile rid oid to ready)"
  unfolding transition_order_for_profile_def transition_assigned_order_status_def found_or_def
  by (intro commutes_intros commutes_gets attempts_frame_transition attempts_frame_complete attempts_frame_finds)

lemma try_match:
  assumes "active_orders_with_code rid code s = [oid]" and "transition_order_for_profile rid oid Delivered None s = (Inr (), t)"
    and "find_assigned_order rid oid t = Some x"
  shows "try_delivery_code rid code (s\<lparr>attempts := xs\<rparr>) = (Inr x, t\<lparr>attempts := filter (\<lambda>a. at_rider a \<noteq> rid) xs\<rparr>)"
  using assms commutesD [OF attempts_frame_deliver [of xs] assms(2)]
  by (simp add: try_delivery_code_def prog_simps find_active_order_id_by_delivery_code_def orders_frame
      reset_delivery_code_attempts_def require_assigned_order_def found_or_def attempts_frame_finds)

text \<open>\<open>n\<close> requests with wrong codes that read the lock before any of them failed.\<close>

definition failed :: "uuid \<Rightarrow> nat \<Rightarrow> 'z riders_db_scheme \<Rightarrow> code_attempts list" where
  "failed rid n s = (if n = 0 then attempts s else attempts s @
     [\<lparr>at_rider = rid, at_failed = int n, at_window = odb_now s,
       at_locked = (if 5 \<le> n then Some (odb_now s + attempt_window) else None)\<rparr>])"

lemma try_wrong:
  assumes "active_orders_with_code rid code s = []" "counter rid s = None" 
  shows "snd (try_delivery_code rid code (s\<lparr>attempts := failed rid n s\<rparr>)) = s\<lparr>attempts := failed rid (Suc n) s\<rparr>"
proof -
  have none: "update_where (\<lambda>x. at_rider x = rid) f (attempts s) = attempts s" for f
    using assms(2) unfolding lookup_by_None update_where_def by (intro map_idI) auto
  show ?thesis using assms
    by (cases n) (auto simp: try_delivery_code_def prog_simps find_active_order_id_by_delivery_code_def orders_frame
      register_delivery_code_failure_def failed_def Let_def table_simps next_code_attempt_def max_attempts_def attempt_window_def
      update_where_def [of _ _ "xs @ ys" for xs ys] none [unfolded update_where_def] split: option.split)
qed

definition try_all :: "uuid \<Rightarrow> string list \<Rightarrow> 'z riders_db_scheme \<Rightarrow> 'z riders_db_scheme" where
  "try_all rid codes s = fold (\<lambda>code u. snd (try_delivery_code rid code u)) codes s"

lemma try_all_wrong:
  assumes "counter rid s = None" "list_all (\<lambda>code. active_orders_with_code rid code s = []) codes"
  shows "try_all rid codes (s\<lparr>attempts := failed rid n s\<rparr>) = s\<lparr>attempts := failed rid (n + length codes) s\<rparr>"
  using assms(2)
proof (induction codes arbitrary: n)
  case (Cons code codes)
  with Cons.IH [of "Suc n"] show ?case by (simp add: try_all_def try_wrong [OF _ assms(1)])
qed (simp add: try_all_def)

text \<open>
  Property C31: the lock does not stop guesses that overlap. Of requests for one rider that read the
  lock together, each looks its code up, however many fail before it: after five of them the rider is
  locked out and a request that comes then is turned away, but one that had passed the lock with the
  right code still marks the order delivered.
\<close>

theorem overlapping_guesses_pass_the_lock:
  assumes "counter rid s = None" and "list_all (\<lambda>w. active_orders_with_code rid w s = []) wrong" and "5 \<le> length wrong"
    and "active_orders_with_code rid code s = [oid]" and "transition_order_for_profile rid oid Delivered None s = (Inr (), t)"
    and "find_assigned_order rid oid t = Some x" and "u = try_all rid wrong s"
  shows "check_delivery_code_lock rid s = (Inr (), s) \<and>
    check_delivery_code_lock rid u = (Inl (locked_out (odb_now s + attempt_window) s), u) \<and> fst (try_delivery_code rid code u) = Inr x"
proof -
  have "check_delivery_code_lock rid s = (Inr (), s)"
    using assms(1) by (simp add: check_delivery_code_lock_def prog_simps get_delivery_code_lock_def)
  moreover have u: "u = s\<lparr>attempts := failed rid (length wrong) s\<rparr>"
    using try_all_wrong [OF assms(1,2), of 0] assms(7) by (simp add: failed_def)
  moreover have "get_delivery_code_lock rid (s\<lparr>attempts := failed rid (length wrong) s\<rparr>) = Some (odb_now s + attempt_window)"
    using assms(1,3) by (auto simp: get_delivery_code_lock_def failed_def table_simps attempt_window_def)
  ultimately show ?thesis
    using try_match [OF assms(4-6)] by (simp add: check_delivery_code_lock_def prog_simps locked_out_def)
qed


section \<open>Delivering by code\<close>

lemma take_two_single: "take (Suc (Suc 0)) xs = [x] \<longleftrightarrow> xs = [x]"
  by (cases xs; cases "tl xs") auto

lemma confirm_InrE:
  assumes "confirm_delivery_by_code a code s = (Inr x, t)"
  obtains c oid u where "fst (resolve_rider_profile True a s) = Inr c" "get_delivery_code_lock (rd_id c) s = None"
    "active_orders_with_code (rd_id c) code s = [oid]" "transition_order_for_profile (rd_id c) oid Delivered None s = (Inr (), u)"
    "t = u\<lparr>attempts := filter (\<lambda>r. at_rider r \<noteq> rd_id c) (attempts u)\<rparr>" "find_assigned_order (rd_id c) oid t = Some x"
proof -
  obtain c v where c: "resolve_rider_profile True a s = (Inr c, v)" and checked: "thenM (check_delivery_code_lock (rd_id c)) (try_delivery_code (rd_id c) code) v = (Inr x, t)"
    using assms unfolding confirm_delivery_by_code_def by (rule bindM_InrE)
  from c resolve_reads [of True a s] have v: "v = s" by simp
  obtain w where "check_delivery_code_lock (rd_id c) s = (Inr (), w)" and tried: "try_delivery_code (rd_id c) code w = (Inr x, t)"
    using checked unfolding v by (auto elim: thenM_InrE)
  then have lock: "get_delivery_code_lock (rd_id c) s = None" "w = s"
    by (auto simp: check_delivery_code_lock_def prog_simps split: option.splits)
  obtain oid where oid: "active_orders_with_code (rd_id c) code s = [oid]"
    using tried by (auto simp: lock(2) try_delivery_code_def prog_simps find_active_order_id_by_delivery_code_def numeral_2_eq_2 take_two_single register_delivery_code_failure_def
        Let_def split: list.splits option.splits if_splits)
  then have "thenM (transition_order_for_profile (rd_id c) oid Delivered None) (thenM (reset_delivery_code_attempts (rd_id c)) (require_assigned_order (rd_id c) oid)) s = (Inr x, t)"
    using tried by (simp add: lock(2) try_delivery_code_def bindM_app basic_app find_active_order_id_by_delivery_code_def)
  then obtain u where u: "transition_order_for_profile (rd_id c) oid Delivered None s = (Inr (), u)"
    "thenM (reset_delivery_code_attempts (rd_id c)) (require_assigned_order (rd_id c) oid) u = (Inr x, t)" by (auto elim: thenM_InrE)
  with that [of c oid u] c lock(1) oid show thesis
    by (auto simp: reset_delivery_code_attempts_def require_assigned_order_def found_or_def prog_simps split: option.splits)
qed

text \<open>
  Property C8: a code confirms one delivery of the rider's own, and the right one. When a confirmation
  by code succeeds the rider was verified, active and not locked out, exactly one order in the rider's
  batches was out for delivery with that code, and it is the one that is now delivered, with its fee
  split between rider, vendor and platform; no other order has changed its status, and the count of
  the rider's wrong codes is cleared.
\<close>

theorem code_delivers_the_one_order:
  assumes "confirm_delivery_by_code a code s = (Inr x, t)"
  shows "\<exists>c oid. resolve_rider_profile True a s = (Inr c, s) \<and> get_delivery_code_lock (rd_id c) s = None \<and>
    active_orders_with_code (rd_id c) code s = [oid] \<and> status_of oid s = Some Out_For_Delivery \<and>
    ord_id (ov_order (ro_view x)) = oid \<and> as_rider (ro_assignment x) = Some (rd_id c) \<and> fee_split oid t \<and>
    (\<forall>y. status_of y t = (if y = oid then Some Delivered else status_of y s)) \<and> lookup_by at_rider (rd_id c) (attempts t) = None"
proof -
  obtain c oid u where run: "fst (resolve_rider_profile True a s) = Inr c" "get_delivery_code_lock (rd_id c) s = None"
    "active_orders_with_code (rd_id c) code s = [oid]" "transition_order_for_profile (rd_id c) oid Delivered None s = (Inr (), u)"
    "t = u\<lparr>attempts := filter (\<lambda>r. at_rider r \<noteq> rd_id c) (attempts u)\<rparr>" "find_assigned_order (rd_id c) oid t = Some x"
    using assms by (rule confirm_InrE)
  have "oid \<in> set (active_orders_with_code (rd_id c) code s)" by (simp add: run(3))
  then have out: "status_of oid s = Some Out_For_Delivery" by (auto simp: active_orders_with_code_def out_with_code_def)
  have "rider_moved oid Delivered s u \<and> fee_split oid u" using givesD [OF rider_moves run(4)] out by simp
  then have "moved oid Delivered s t" "fee_split oid t" by (simp_all add: run(5) rider_moved_def moved_def status_of_def fee_split_def)
  moreover have "ord_id (ov_order (ro_view x)) = oid" "as_rider (ro_assignment x) = Some (rd_id c)"
    using run(6) by (auto simp: find_assigned_order_def order_view_of_def bind_eq_Some_conv dest!: lookup_by_Some find_SomeD)
  moreover have "lookup_by at_rider (rd_id c) (attempts t) = None" by (auto simp: run(5) lookup_by_None)
  ultimately show ?thesis using resolve_app [OF run(1)] run(2,3) out by (auto simp: moved_def)
qed


section \<open>Handing out a code\<close>

definition coded_out :: "uuid \<Rightarrow> uuid \<Rightarrow> 'z batches_db_scheme \<Rightarrow> string \<Rightarrow> 'z batches_db_scheme \<Rightarrow> bool" where
  "coded_out rid oid s code t \<longleftrightarrow> desk t = desk s \<and> odb_orders t = odb_orders s \<and> status_of oid t = Some Out_For_Delivery \<and>
     \<not> rider_code_taken rid oid code t \<and> (\<forall>f. lookup_by fa_order oid (order_facts t) = Some f \<longrightarrow> fa_code f = Some code)"

lemma taken_frame:
  fixes s t :: "'z batches_db_scheme"
  assumes "desk t = desk s" "odb_orders t = odb_orders s"
    and "\<And>x. x \<noteq> oid \<Longrightarrow> lookup_by fa_order x (order_facts t) = lookup_by fa_order x (order_facts s)"
  shows "rider_code_taken rid oid code t \<longleftrightarrow> rider_code_taken rid oid code s"
proof -
  have "batched t = batched s" using assms(1) by (simp add: desk_def)
  then show ?thesis using assms(2,3) carries_desk [OF assms(1)]
    by (auto simp: rider_code_taken_def list_ex_iff out_with_code_def status_of_def)
qed

lemma draw_codes: "gives (draw_delivery_code rid oid n) s (coded_out rid oid s)"
proof (induction n arbitrary: s)
  case (Suc n)
  let ?c = "pad_code (code_at s (codes_drawn s) mod 10000)" and ?u = "s\<lparr>codes_drawn := Suc (codes_drawn s)\<rparr>"
  have rest: "gives (draw_delivery_code rid oid n) ?u (coded_out rid oid s)"
    by (rule gives_weaken [OF Suc.IH]) (simp add: coded_out_def desk_def)
  have hit: "coded_out rid oid s ?c (?u\<lparr>order_facts := update_where (\<lambda>f. fa_order f = oid) (\<lambda>f. f\<lparr>fa_code := Some ?c\<rparr>) (order_facts ?u)\<rparr>)"
    if "status_of oid ?u = Some Out_For_Delivery" "\<not> rider_code_taken rid oid ?c ?u"
  proof -
    let ?t = "?u\<lparr>order_facts := update_where (\<lambda>f. fa_order f = oid) (\<lambda>f. f\<lparr>fa_code := Some ?c\<rparr>) (order_facts ?u)\<rparr>"
    have "\<not> rider_code_taken rid oid ?c ?t"
      using that(2) by (subst taken_frame [of ?t ?u]) (simp_all add: desk_def lookup_update_other)
    with that(1) show ?thesis by (auto simp: coded_out_def desk_def status_of_def lookup_update_same)
  qed
  show ?case unfolding draw_delivery_code.simps draw_code_def
    by (rule gives_bindM) (use hit in \<open>auto simp: gives_def prog_simps dest: givesD [OF rest]\<close>)
qed (simp add: gives_basic)

lemma assign_codes: "gives (assign_delivery_code rid oid) s (coded_out rid oid s)"
  unfolding assign_delivery_code_def
  by (intro gives_bindM gives_basic gives_pair gives_option gives_if draw_codes) (auto simp: coded_out_def)

lemma find_assigned_pair: "find_assigned_order rid oid s = Some x \<Longrightarrow>
  \<exists>bid f. (bid, oid) \<in> set (batched s) \<and> carries rid bid s \<and> lookup_by fa_order oid (order_facts s) = Some f \<and> ov_facts (ro_view x) = f"
  by (auto simp: find_assigned_order_def order_view_of_def bind_eq_Some_conv dest!: find_SomeD)

lemma filter_single: "distinct (map snd ps) \<Longrightarrow> p \<in> set ps \<Longrightarrow> Q p \<Longrightarrow> (\<And>q. q \<in> set ps \<Longrightarrow> Q q \<Longrightarrow> snd q = snd p) \<Longrightarrow>
  map snd (filter Q ps) = [snd p]"
proof (induction ps)
  case (Cons q ps)
  have fresh: "snd q \<notin> snd ` set ps" using Cons.prems(1) by simp
  show ?case
  proof (cases "q = p")
    case True
    have "\<not> Q r" if "r \<in> set ps" for r
      using that fresh True Cons.prems(4) [of r] by (auto simp: image_iff)
    then have "filter Q ps = []" by (simp add: filter_empty_conv)
    with True Cons.prems(3) show ?thesis by simp
  next
    case False
    then have p: "p \<in> set ps" using Cons.prems(2) by simp
    then have "\<not> Q q" using fresh Cons.prems(4) [of q] by (auto simp: image_iff)
    moreover have "map snd (filter Q ps) = [snd p]"
    proof (rule Cons.IH [OF _ p Cons.prems(3)])
      show "distinct (map snd ps)" using Cons.prems(1) by simp
      show "snd r = snd p" if "r \<in> set ps" "Q r" for r using that Cons.prems(4) [of r] by simp
    qed
    ultimately show ?thesis by simp
  qed
qed simp

text \<open>
  Property C24: the code a customer is given finds their order. When a rider takes an order out, the code
  it then carries is carried by no other order the rider has out, so looking it up yields that order.
\<close>

theorem handed_out_code_finds_the_order:
  assumes "mark_order_out_for_delivery a oid rdy s = (Inr x, t)" and "distinct (map snd (batched s))"
  shows "\<exists>c code. resolve_rider_profile True a s = (Inr c, s) \<and> fa_code (ov_facts (ro_view x)) = Some code \<and>
    status_of oid t = Some Out_For_Delivery \<and> find_active_order_id_by_delivery_code (rd_id c) code t = (Some oid, 1)"
proof -
  obtain c v where c: "resolve_rider_profile True a s = (Inr c, v)" and run: "thenM (transition_order_for_profile (rd_id c) oid Out_For_Delivery (Some (case rdy of None \<Rightarrow> True | Some b \<Rightarrow> b)))
     (thenM (assign_delivery_code (rd_id c) oid) (require_assigned_order (rd_id c) oid)) v = (Inr x, t)"
    using assms(1) unfolding mark_order_out_for_delivery_def by (rule bindM_InrE)
  from c resolve_reads [of True a s] have v: "v = s" by simp
  obtain u where u: "transition_order_for_profile (rd_id c) oid Out_For_Delivery (Some (case rdy of None \<Rightarrow> True | Some b \<Rightarrow> b)) s = (Inr (), u)"
    and "thenM (assign_delivery_code (rd_id c) oid) (require_assigned_order (rd_id c) oid) u = (Inr x, t)"
    using run unfolding v by (auto elim: thenM_InrE)
  then obtain code w where w: "assign_delivery_code (rd_id c) oid u = (Inr code, w)" "require_assigned_order (rd_id c) oid w = (Inr x, t)"
    by (auto elim: thenM_InrE)
  then have t: "t = w" "find_assigned_order (rd_id c) oid t = Some x"
    by (auto simp: require_assigned_order_def found_or_def prog_simps split: option.splits)
  have coded: "coded_out (rd_id c) oid u code t" using givesD [OF assign_codes w(1)] t by simp
  obtain bid f where f: "(bid, oid) \<in> set (batched t)" "carries (rd_id c) bid t" "lookup_by fa_order oid (order_facts t) = Some f"
    "ov_facts (ro_view x) = f" using find_assigned_pair [OF t(2)] by blast
  have "batched t = batched s" using coded givesD [OF rider_moves u] by (simp add: coded_out_def rider_moved_def desk_def)
  with assms(2) have once: "distinct (map snd (batched t))" by simp
  have "out_with_code oid code t" "\<not> rider_code_taken (rd_id c) oid code t" using coded f(3) by (simp_all add: coded_out_def out_with_code_def)
  then have "map snd (filter (\<lambda>p. carries (rd_id c) (fst p) t \<and> out_with_code (snd p) code t) (batched t)) = [snd (bid, oid)]"
    using f by (intro filter_single [OF once]) (auto simp: rider_code_taken_def list_ex_iff)
  then have "find_active_order_id_by_delivery_code (rd_id c) code t = (Some oid, 1)"
    by (simp add: find_active_order_id_by_delivery_code_def active_orders_with_code_def)
  with c v coded f show ?thesis by (auto simp: coded_out_def)
qed

section \<open>Ann delivers\<close>

definition ann_out :: "(exn + rider_order) \<times> riders_db" where
  "ann_out = mark_order_out_for_delivery ann ''o1'' None delivery_sample"

lemma taken_out_runs: "is_ok (fst ann_out)" "is_ok (fst (confirm_delivery_by_code ann ''0042'' (snd ann_out)))"
  by code_simp+

lemma handed_out_code_finds_the_order_witness:
  "\<exists>c code. resolve_rider_profile True ann delivery_sample = (Inr c, delivery_sample) \<and>
    find_active_order_id_by_delivery_code (rd_id c) code (snd ann_out) = (Some ''o1'', 1)"
proof -
  obtain x where "mark_order_out_for_delivery ann ''o1'' None delivery_sample = (Inr x, snd ann_out)"
    using is_okE [OF taken_out_runs(1)] by (auto simp: ann_out_def)
  moreover have "distinct (map snd (batched delivery_sample))" by code_simp
  ultimately show ?thesis using handed_out_code_finds_the_order [of ann "''o1''" None delivery_sample x "snd ann_out"] by blast
qed

lemma code_delivers_the_one_order_witness:
  "\<exists>x t c oid. resolve_rider_profile True ann (snd ann_out) = (Inr c, snd ann_out) \<and>
     confirm_delivery_by_code ann ''0042'' (snd ann_out) = (Inr x, t) \<and> active_orders_with_code (rd_id c) ''0042'' (snd ann_out) = [oid] \<and>
     ord_id (ov_order (ro_view x)) = oid \<and> fee_split oid t"
proof -
  obtain x where x: "confirm_delivery_by_code ann ''0042'' (snd ann_out) = (Inr x, snd (confirm_delivery_by_code ann ''0042'' (snd ann_out)))"
    using is_okE [OF taken_out_runs(2)] by blast
  with code_delivers_the_one_order [OF x] show ?thesis by blast
qed

definition out_facts :: "riders_db \<Rightarrow> (uuid \<times> order_status option \<times> string option) list \<times> code_attempts list \<times> time \<times> uuid \<times> uuid list" where
  "out_facts s = (map (\<lambda>p. (snd p, status_of (snd p) s, Option.bind (lookup_by fa_order (snd p) (order_facts s)) fa_code)) (batched s),
     attempts s, odb_now s, (case fst (resolve_rider_profile True ann s) of Inr c \<Rightarrow> rd_id c | Inl e \<Rightarrow> []),
     active_orders_with_code ''r1'' ''0042'' s)"

lemma taken_out_facts:
  "out_facts (snd ann_out) = ([(''o1'', Some Out_For_Delivery, Some ''0042''), (''o2'', Some Ready, None)], [], 500000, ''r1'', [''o1''])"
  by code_simp

lemmas taken_out_reads = taken_out_facts [unfolded out_facts_def prod.inject]

lemma wrong_code: "w \<noteq> ''0042'' \<Longrightarrow> active_orders_with_code rid w (snd ann_out) = []"
  using taken_out_reads by (auto simp: active_orders_with_code_def filter_empty_conv out_with_code_def map_eq_Cons_conv)

lemma ann_rides: obtains c where "fst (resolve_rider_profile True ann (snd ann_out)) = Inr c" "rd_id c = ''r1''"
  using taken_out_reads by (cases "fst (resolve_rider_profile True ann (snd ann_out))") simp_all

text \<open>Nine wrong guesses, a second apart: no more than eight are looked up.\<close>

lemma guesses_are_rationed_witness:
  "length (filter (\<lambda>t. 600000 \<le> t \<and> t < 600000 + attempt_window)
     (tested_guesses ann ''r1'' (map (\<lambda>n. (600000 + 1000 * int n, ''9999'')) [0..<9]) (snd ann_out))) \<le> 8"
proof -
  obtain c where "fst (resolve_rider_profile True ann (snd ann_out)) = Inr c" "rd_id c = ''r1''" by (rule ann_rides)
  then show ?thesis
    using guesses_are_rationed [of ann "snd ann_out" c "map (\<lambda>n. (600000 + 1000 * int n, ''9999'')) [0..<9]" 600000]
    by (simp add: wrong_code taken_out_reads upt_rec)
qed

definition ann_delivered :: "(exn + unit) \<times> riders_db" where
  "ann_delivered = transition_order_for_profile ''r1'' ''o1'' Delivered None (snd ann_out)"

lemma delivered_runs: "fst ann_delivered = Inr ()" "find_assigned_order ''r1'' ''o1'' (snd ann_delivered) \<noteq> None"
  by code_simp+

lemma overlapping_guesses_pass_the_lock_witness:
  "\<exists>x u. u = try_all ''r1'' (replicate 5 ''9999'') (snd ann_out) \<and>
     check_delivery_code_lock ''r1'' u = (Inl (locked_out (500000 + attempt_window) (snd ann_out)), u) \<and>
     fst (try_delivery_code ''r1'' ''0042'' u) = Inr x"
proof -
  obtain x where "find_assigned_order ''r1'' ''o1'' (snd ann_delivered) = Some x" using delivered_runs(2) by blast
  moreover have "transition_order_for_profile ''r1'' ''o1'' Delivered None (snd ann_out) = (Inr (), snd ann_delivered)"
    using delivered_runs(1) unfolding ann_delivered_def by (rule run_pair)
  ultimately show ?thesis
    using overlapping_guesses_pass_the_lock [of "''r1''" "snd ann_out" "replicate 5 ''9999''" "''0042''" "''o1''" "snd ann_delivered" x]
    by (simp add: taken_out_reads table_simps wrong_code list_all_iff)
qed

end
