(* ===== verification/Route.thy ===== *)
theory Route
  imports Js_Number "HOL-Library.Multiset"
begin

text \<open>
  domain/geo.ts: the order of a rider's stops and the estimates of their arrival. The great-circle
  distance is made of Math.sin, Math.cos and Math.asin, whose results ECMAScript leaves to the
  implementation: \<open>away\<close> is the double that haversineMeters returns, and the lemmas hold for every such
  function. Products and quotients of doubles are rounded; counts of metres and seconds are exact.
\<close>

section \<open>Legs\<close>

record latlng =
  latitude :: rat
  longitude :: rat

type_synonym distance = "latlng \<Rightarrow> latlng \<Rightarrow> rat"

definition detour_factor :: rat where
  "detour_factor = dbl (135/100)"

definition stop_dwell_seconds :: int where
  "stop_dwell_seconds = 120"

definition estimate_leg_meters :: "distance \<Rightarrow> latlng \<Rightarrow> latlng \<Rightarrow> int" where
  "estimate_leg_meters away p q = math_round (dbl (away p q * detour_factor))"

definition estimate_leg_seconds :: "int \<Rightarrow> rat \<Rightarrow> int" where
  "estimate_leg_seconds meters kmh = math_round (dbl (of_int meters / dbl (dbl (kmh * 1000) / 3600)))"

section \<open>The order of the stops\<close>

record route_stop =
  rs_key :: string
  rs_point :: "latlng option"

text \<open>The forEach over the remaining stops; \<open>None\<close> is the infinite best distance it starts with.\<close>

fun nearest :: "distance \<Rightarrow> latlng \<Rightarrow> nat \<Rightarrow> nat \<times> rat option \<Rightarrow> 'z route_stop_scheme list \<Rightarrow> nat \<times> rat option" where
  "nearest away here i best [] = best"
| "nearest away here i best (x # xs) = nearest away here (Suc i)
     (case rs_point x of
        None \<Rightarrow> best
      | Some p \<Rightarrow> if (case snd best of None \<Rightarrow> True | Some d \<Rightarrow> away here p < d) then (i, Some (away here p)) else best) xs"

definition best_index :: "distance \<Rightarrow> latlng \<Rightarrow> 'z route_stop_scheme list \<Rightarrow> nat" where
  "best_index away here xs = fst (nearest away here 0 (0, None) xs)"

definition spliced :: "nat \<Rightarrow> 'a list \<Rightarrow> 'a list" where
  "spliced i xs = take i xs @ drop (Suc i) xs"

partial_function (option) visit ::
  "distance \<Rightarrow> latlng \<Rightarrow> 'z route_stop_scheme list \<Rightarrow> 'z route_stop_scheme list \<Rightarrow> 'z route_stop_scheme list option" where
  "visit away here remaining ordered =
     (if remaining = [] then Some ordered
      else let i = best_index away here remaining in
        if length remaining \<le> i then Some ordered
        else case rs_point (remaining ! i) of
          None \<Rightarrow> Some ordered
        | Some p \<Rightarrow> visit away p (spliced i remaining) (ordered @ [remaining ! i]))"

definition located :: "'z route_stop_scheme list \<Rightarrow> 'z route_stop_scheme list" where
  "located xs = filter (\<lambda>x. rs_point x \<noteq> None) xs"

definition unlocated :: "'z route_stop_scheme list \<Rightarrow> 'z route_stop_scheme list" where
  "unlocated xs = filter (\<lambda>x. rs_point x = None) xs"

definition order_by_nearest_neighbour ::
  "distance \<Rightarrow> latlng option \<Rightarrow> 'z route_stop_scheme list \<Rightarrow> 'z route_stop_scheme list option" where
  "order_by_nearest_neighbour away start stops =
     (case start of
        None \<Rightarrow> Some (located stops @ unlocated stops)
      | Some here \<Rightarrow> map_option (\<lambda>ordered. ordered @ unlocated stops) (visit away here (located stops) []))"

section \<open>The plan\<close>

record 'a planned_stop =
  pl_stop :: 'a
  pl_sequence :: nat
  pl_leg :: "int option"
  pl_eta :: "time option"
  pl_minutes :: "int option"

record 'a route_plan =
  rp_stops :: "'a planned_stop list"
  rp_total :: "int option"
  rp_final :: "time option"

text \<open>The variables that the walk over the stops updates.\<close>

record trip =
  tp_here :: "latlng option"
  tp_elapsed :: int
  tp_eta_known :: bool
  tp_distance :: int
  tp_distance_known :: bool

definition plan_stop ::
  "distance \<Rightarrow> time \<Rightarrow> rat \<Rightarrow> nat \<Rightarrow> 'z route_stop_scheme \<Rightarrow> trip \<Rightarrow> 'z route_stop_scheme planned_stop \<times> trip" where
  "plan_stop away now kmh i x t =
     (let leg = (case (tp_here t, rs_point x) of (Some p, Some q) \<Rightarrow> Some (estimate_leg_meters away p q) | _ \<Rightarrow> None);
          t1 = (case leg of Some m \<Rightarrow> t\<lparr>tp_distance := tp_distance t + m\<rparr> | None \<Rightarrow> t\<lparr>tp_distance_known := False\<rparr>);
          (eta, minutes, t2) = (case leg of
            Some m \<Rightarrow>
              if tp_eta_known t1 then
                let secs = tp_elapsed t1 + estimate_leg_seconds m kmh
                in (Some (now + secs * 1000), Some (max 1 \<lceil>of_int secs / 60 :: rat\<rceil>), t1\<lparr>tp_elapsed := secs + stop_dwell_seconds\<rparr>)
              else (None, None, t1\<lparr>tp_eta_known := False\<rparr>)
          | None \<Rightarrow> (None, None, t1\<lparr>tp_eta_known := False\<rparr>))
      in (\<lparr>pl_stop = x, pl_sequence = i + 1, pl_leg = leg, pl_eta = eta, pl_minutes = minutes\<rparr>, t2\<lparr>tp_here := rs_point x\<rparr>))"

fun plan_stops ::
  "distance \<Rightarrow> time \<Rightarrow> rat \<Rightarrow> nat \<Rightarrow> 'z route_stop_scheme list \<Rightarrow> trip \<Rightarrow> 'z route_stop_scheme planned_stop list \<times> trip" where
  "plan_stops away now kmh i [] t = ([], t)"
| "plan_stops away now kmh i (x # xs) t =
     (let (p, u) = plan_stop away now kmh i x t; (ps, v) = plan_stops away now kmh (Suc i) xs u in (p # ps, v))"

definition trip_from :: "latlng option \<Rightarrow> trip" where
  "trip_from origin = \<lparr>tp_here = origin, tp_elapsed = 0, tp_eta_known = (origin \<noteq> None), tp_distance = 0,
     tp_distance_known = (origin \<noteq> None)\<rparr>"

definition plan_route ::
  "distance \<Rightarrow> latlng option \<Rightarrow> 'z route_stop_scheme list \<Rightarrow> time \<Rightarrow> rat \<Rightarrow> 'z route_stop_scheme route_plan" where
  "plan_route away origin stops now kmh =
     (let (ps, t) = plan_stops away now kmh 0 stops (trip_from origin)
      in \<lparr>rp_stops = ps, rp_total = (if tp_distance_known t \<and> ps \<noteq> [] then Some (tp_distance t) else None),
          rp_final = (if ps = [] then None else pl_eta (last ps))\<rparr>)"

section \<open>Every stop is visited once, the nearest one next\<close>

text \<open>A best index and distance describe a nearest located stop of a list, or that there is none.\<close>

definition best_of :: "distance \<Rightarrow> latlng \<Rightarrow> 'z route_stop_scheme list \<Rightarrow> nat \<times> rat option \<Rightarrow> bool" where
  "best_of away here xs b \<longleftrightarrow> (case snd b of
     None \<Rightarrow> \<forall>x\<in>set xs. rs_point x = None
   | Some d \<Rightarrow> fst b < length xs \<and> (\<exists>p. rs_point (xs ! fst b) = Some p \<and> d = away here p) \<and>
       (\<forall>x\<in>set xs. \<forall>p. rs_point x = Some p \<longrightarrow> d \<le> away here p))"

lemma nearest_best:
  "best_of away here pre b \<Longrightarrow> best_of away here (pre @ xs) (nearest away here (length pre) b xs)"
proof (induction xs arbitrary: pre b)
  case (Cons x xs)
  let ?b = "case rs_point x of None \<Rightarrow> b
    | Some p \<Rightarrow> if (case snd b of None \<Rightarrow> True | Some d \<Rightarrow> away here p < d) then (length pre, Some (away here p)) else b"
  have "best_of away here (pre @ [x]) ?b"
    using Cons.prems by (fastforce simp: best_of_def nth_append split: option.splits)
  from Cons.IH [OF this] show ?case by simp
qed simp

lemma best_index_nearest:
  assumes "xs \<noteq> []" "\<forall>x\<in>set xs. rs_point x \<noteq> None"
  obtains p where "best_index away here xs < length xs" "rs_point (xs ! best_index away here xs) = Some p"
    "\<forall>x\<in>set xs. \<forall>q. rs_point x = Some q \<longrightarrow> away here p \<le> away here q"
proof -
  have "best_of away here xs (nearest away here 0 (0, None) xs)"
    using nearest_best [of away here "[]" "(0, None)" xs] by (simp add: best_of_def)
  with assms that show thesis
    by (cases "snd (nearest away here 0 (0, None) xs)") (auto simp: best_of_def best_index_def neq_Nil_conv)
qed

lemma mset_spliced: "i < length xs \<Longrightarrow> add_mset (xs ! i) (mset (spliced i xs)) = mset xs"
proof -
  assume "i < length xs"
  then have "xs = take i xs @ xs ! i # drop (Suc i) xs" by (rule id_take_nth_drop)
  then have "mset xs = mset (take i xs @ xs ! i # drop (Suc i) xs)" by simp
  also have "\<dots> = add_mset (xs ! i) (mset (spliced i xs))" by (simp add: spliced_def)
  finally show ?thesis by simp
qed

fun greedy :: "distance \<Rightarrow> latlng \<Rightarrow> 'z route_stop_scheme list \<Rightarrow> bool" where
  "greedy away here [] = True"
| "greedy away here (x # xs) = (case rs_point x of None \<Rightarrow> False
     | Some p \<Rightarrow> (\<forall>y\<in>set xs. \<forall>q. rs_point y = Some q \<longrightarrow> away here p \<le> away here q) \<and> greedy away p xs)"

lemma visit_all:
  "\<forall>x\<in>set xs. rs_point x \<noteq> None \<Longrightarrow>
   \<exists>ys. visit away here xs acc = Some (acc @ ys) \<and> mset ys = mset xs \<and> greedy away here ys"
proof (induction "length xs" arbitrary: xs here acc)
  case 0
  then show ?case by (simp add: visit.simps)
next
  case (Suc n)
  let ?i = "best_index away here xs"
  from Suc.hyps(2) have "xs \<noteq> []" by auto
  then obtain p where i: "?i < length xs" and p: "rs_point (xs ! ?i) = Some p"
    and near: "\<forall>x\<in>set xs. \<forall>q. rs_point x = Some q \<longrightarrow> away here p \<le> away here q"
    using best_index_nearest Suc.prems by metis
  have m: "add_mset (xs ! ?i) (mset (spliced ?i xs)) = mset xs" using i by (rule mset_spliced)
  then have sub: "set (spliced ?i xs) \<subseteq> set xs" by (metis set_mset_mset set_mset_add_mset_insert subset_insertI)
  have len: "n = length (spliced ?i xs)" using m Suc.hyps(2) by (metis size_mset size_add_mset diff_Suc_1)
  obtain ys where ys: "visit away p (spliced ?i xs) (acc @ [xs ! ?i]) = Some ((acc @ [xs ! ?i]) @ ys)"
    "mset ys = mset (spliced ?i xs)" "greedy away p ys"
    using Suc.hyps(1) [OF len] Suc.prems sub by blast
  have "visit away here xs acc = visit away p (spliced ?i xs) (acc @ [xs ! ?i])"
    using i p \<open>xs \<noteq> []\<close> by (subst visit.simps) (simp add: Let_def)
  moreover have "set ys \<subseteq> set xs" using ys(2) sub by (metis set_mset_mset)
  ultimately have "visit away here xs acc = Some (acc @ xs ! ?i # ys) \<and> mset (xs ! ?i # ys) = mset xs \<and> greedy away here (xs ! ?i # ys)"
    using ys m near p by auto
  then show ?case by blast
qed

text \<open>
  Property C27: ordering the stops always ends, and visits each stop once. Whatever the distances, the
  located stops come first, each of them as often as it was given, and the others follow as they stood;
  from a known start each stop is followed by one of the nearest that are left.
\<close>

theorem route_visits_every_stop:
  "\<exists>ys. order_by_nearest_neighbour away start stops = Some (ys @ unlocated stops) \<and> mset ys = mset (located stops) \<and>
     (case start of None \<Rightarrow> ys = located stops | Some here \<Rightarrow> greedy away here ys)"
proof (cases start)
  case (Some here)
  have "\<forall>x\<in>set (located stops). rs_point x \<noteq> None" by (simp add: located_def)
  from visit_all [OF this, of away here "[]"] show ?thesis by (auto simp: order_by_nearest_neighbour_def Some)
qed (simp add: order_by_nearest_neighbour_def)

section \<open>Arrivals\<close>

lemma estimates_nonneg: "0 \<le> away p q \<Longrightarrow> 0 \<le> estimate_leg_meters away p q" "0 \<le> n \<Longrightarrow> 0 < kmh \<Longrightarrow> 0 \<le> estimate_leg_seconds n kmh"
proof -
  have dbl: "0 \<le> dbl x" if "0 \<le> x" for x
    using that by (intro order_trans [OF _ dbl_lower] mult_nonneg_nonneg) simp_all
  have round: "0 \<le> math_round x" if "0 \<le> x" for x using math_round_mono [OF that] by simp
  show "0 \<le> away p q \<Longrightarrow> 0 \<le> estimate_leg_meters away p q"
    unfolding estimate_leg_meters_def detour_factor_def by (intro round dbl mult_nonneg_nonneg) simp_all
  show "0 \<le> n \<Longrightarrow> 0 < kmh \<Longrightarrow> 0 \<le> estimate_leg_seconds n kmh"
    unfolding estimate_leg_seconds_def by (intro round dbl divide_nonneg_nonneg mult_nonneg_nonneg) simp_all
qed

definition apart :: "time \<Rightarrow> time \<Rightarrow> bool" where
  "apart a b \<longleftrightarrow> a + stop_dwell_seconds * 1000 \<le> b"

definition leg_known :: "'a planned_stop \<Rightarrow> bool" where
  "leg_known p \<longleftrightarrow> pl_leg p \<noteq> None"

text \<open>Known arrivals form a prefix of the plan and lie apart.\<close>

definition arrivals :: "time \<Rightarrow> bool \<Rightarrow> 'a planned_stop list \<Rightarrow> time list \<Rightarrow> bool" where
  "arrivals earliest known ps ets \<longleftrightarrow> map pl_eta ps = map Some ets @ replicate (length ps - length ets) None \<and>
     length ets = (if known then length (takeWhile leg_known ps) else 0) \<and>
     sorted_wrt apart ets \<and> list_all (\<lambda>e. earliest \<le> e) ets"

lemma arrivals_unknown: "arrivals n False ps [] \<longleftrightarrow> map pl_eta ps = replicate (length ps) None"
  by (simp add: arrivals_def)

lemma arrivals_Cons:
  assumes "arrivals m known ps ets" "pl_eta p = Some e" "leg_known p" "n \<le> e" "known" "apart e m" "e \<le> m"
  shows "arrivals n True (p # ps) (e # ets)"
  using assms unfolding arrivals_def by (auto simp: list_all_iff apart_def)

lemma plan_stop_known:
  assumes "tp_here t = Some p" "rs_point x = Some q"
  shows "plan_stop away now kmh i x t =
    (let m = estimate_leg_meters away p q; secs = tp_elapsed t + estimate_leg_seconds m kmh in
     if tp_eta_known t
     then (\<lparr>pl_stop = x, pl_sequence = i + 1, pl_leg = Some m, pl_eta = Some (now + secs * 1000),
            pl_minutes = Some (max 1 \<lceil>of_int secs / 60 :: rat\<rceil>)\<rparr>,
           t\<lparr>tp_here := Some q, tp_elapsed := secs + stop_dwell_seconds, tp_distance := tp_distance t + m\<rparr>)
     else (\<lparr>pl_stop = x, pl_sequence = i + 1, pl_leg = Some m, pl_eta = None, pl_minutes = None\<rparr>,
           t\<lparr>tp_here := Some q, tp_eta_known := False, tp_distance := tp_distance t + m\<rparr>))"
  using assms by (simp add: plan_stop_def Let_def)

lemma plan_stop_unknown:
  assumes "tp_here t = None \<or> rs_point x = None"
  shows "plan_stop away now kmh i x t =
    (\<lparr>pl_stop = x, pl_sequence = i + 1, pl_leg = None, pl_eta = None, pl_minutes = None\<rparr>,
     t\<lparr>tp_here := rs_point x, tp_eta_known := False, tp_distance_known := False\<rparr>)"
  using assms by (auto simp: plan_stop_def Let_def split: option.split)

lemma plan_stops_frame:
  "map pl_stop (fst (plan_stops away now kmh i xs t)) = xs"
  "map pl_sequence (fst (plan_stops away now kmh i xs t)) = [i + 1..<i + 1 + length xs]"
  by (induction xs arbitrary: i t) (simp_all add: plan_stop_def Let_def split_beta upt_rec split: option.split)

lemma plan_stops_length: "length (fst (plan_stops away now kmh i xs t)) = length xs"
  using arg_cong [OF plan_stops_frame(1) [of away now kmh i xs t], of length] by simp

definition total_of_legs :: "'a planned_stop list \<Rightarrow> int" where
  "total_of_legs ps = sum_list (map (\<lambda>p. case pl_leg p of None \<Rightarrow> 0 | Some m \<Rightarrow> m) ps)"

lemma plan_stops_total:
  "tp_distance (snd (plan_stops away now kmh i xs t)) = tp_distance t + total_of_legs (fst (plan_stops away now kmh i xs t))"
  "tp_distance_known (snd (plan_stops away now kmh i xs t)) \<longleftrightarrow>
     tp_distance_known t \<and> list_all leg_known (fst (plan_stops away now kmh i xs t))"
  by (induction xs arbitrary: i t)
    (auto simp: plan_stop_def Let_def split_beta total_of_legs_def leg_known_def split: option.split)

lemma plan_stops_unknown:
  "\<not> tp_eta_known t \<Longrightarrow> map pl_eta (fst (plan_stops away now kmh i xs t)) = replicate (length xs) None"
  by (induction xs arbitrary: i t) (simp_all add: plan_stop_def Let_def split_beta split: option.split)

lemma plan_stops_arrivals:
  assumes "\<And>p q. 0 \<le> away p q" "0 < kmh"
  shows "\<exists>ets. arrivals (now + tp_elapsed t * 1000) (tp_eta_known t) (fst (plan_stops away now kmh i xs t)) ets"
proof (induction xs arbitrary: i t)
  case Nil
  show ?case by (auto simp: arrivals_def)
next
  case (Cons x xs)
  have unknown: ?case if "pl_eta (fst (plan_stop away now kmh i x t)) = None" "\<not> tp_eta_known (snd (plan_stop away now kmh i x t))"
    "tp_eta_known t \<Longrightarrow> \<not> leg_known (fst (plan_stop away now kmh i x t))"
    using that plan_stops_unknown [OF that(2), of away now kmh "Suc i" xs]
    by (intro exI [of _ "[]"]) (simp add: arrivals_def split_beta plan_stops_length)
  show ?case
  proof (cases "tp_here t = None \<or> rs_point x = None \<or> \<not> tp_eta_known t")
    case True
    then show ?thesis
      by (intro unknown) (auto simp: plan_stop_def Let_def leg_known_def split: option.split)
  next
    case False
    then obtain p q where pq: "tp_here t = Some p" "rs_point x = Some q" "tp_eta_known t" by auto
    let ?m = "estimate_leg_meters away p q" and ?u = "snd (plan_stop away now kmh i x t)"
    let ?secs = "tp_elapsed t + estimate_leg_seconds ?m kmh"
    note stop = plan_stop_known [OF pq(1,2), of away now kmh i, unfolded Let_def]
    obtain ets where ets: "arrivals (now + tp_elapsed ?u * 1000) (tp_eta_known ?u) (fst (plan_stops away now kmh (Suc i) xs ?u)) ets"
      using Cons.IH by blast
    have "0 \<le> estimate_leg_seconds ?m kmh" using assms by (intro estimates_nonneg)
    then have "arrivals (now + tp_elapsed t * 1000) True
        (fst (plan_stop away now kmh i x t) # fst (plan_stops away now kmh (Suc i) xs ?u)) ((now + ?secs * 1000) # ets)"
      using ets pq(3) by (intro arrivals_Cons [OF ets]) (simp_all add: stop leg_known_def apart_def stop_dwell_seconds_def algebra_simps)
    then show ?thesis using pq(3) by (auto simp: split_beta)
  qed
qed

text \<open>
  Property C33: a plan promises what it can measure. The stops keep their order and are numbered from 1;
  arrivals are given for the stops before the first leg that cannot be measured and for no other, none of
  them is in the past, and each is at least the two minutes at a stop after the one before; the total is
  the sum of the legs when all are known, and otherwise missing.
\<close>

theorem plan_promises_what_it_measures:
  assumes "\<And>p q. 0 \<le> away p q" and "0 < kmh" and "r = plan_route away origin stops now kmh"
  shows "map pl_stop (rp_stops r) = stops \<and> map pl_sequence (rp_stops r) = [1..<length stops + 1] \<and>
    (\<exists>ets. arrivals now (origin \<noteq> None) (rp_stops r) ets) \<and>
    rp_total r = (if stops \<noteq> [] \<and> list_all leg_known (rp_stops r) then Some (total_of_legs (rp_stops r)) else None)"
proof -
  let ?t = "trip_from origin"
  have t: "tp_elapsed ?t = 0" "tp_distance ?t = 0" "tp_eta_known ?t = (origin \<noteq> None)" "tp_distance_known ?t = (origin \<noteq> None)"
    "tp_here ?t = origin" by (simp_all add: trip_from_def)
  have r: "rp_stops r = fst (plan_stops away now kmh 0 stops ?t)" by (simp add: assms(3) plan_route_def split_beta)
  have first: "stops \<noteq> [] \<Longrightarrow> list_all leg_known (rp_stops r) \<Longrightarrow> origin \<noteq> None"
    by (cases stops; cases origin) (auto simp: r trip_from_def plan_stop_unknown leg_known_def split_beta)
  have "rp_stops r = [] \<longleftrightarrow> stops = []" using plan_stops_length [of away now kmh 0 stops ?t] by (metis r length_0_conv)
  then have "rp_total r = (if stops \<noteq> [] \<and> list_all leg_known (rp_stops r) then Some (total_of_legs (rp_stops r)) else None)"
    using first by (auto simp: r assms(3) plan_route_def split_beta plan_stops_total t)
  moreover obtain ets where "arrivals now (origin \<noteq> None) (rp_stops r) ets"
    using plan_stops_arrivals [where away = away, OF assms(1,2), where now = now and t = ?t and i = 0 and xs = stops] by (auto simp: r t)
  ultimately show ?thesis using plan_stops_frame [of away now kmh 0 stops ?t] by (auto simp: r)
qed

text \<open>A vendor, a hall and a place without a pin, with distances along a grid.\<close>

definition grid :: distance where
  "grid p q = 100000 * (\<bar>latitude p - latitude q\<bar> + \<bar>longitude p - longitude q\<bar>)"

definition sample_stops :: "route_stop list" where
  "sample_stops = [\<lparr>rs_key = ''kitchen'', rs_point = Some \<lparr>latitude = 7 + 1/100, longitude = 4\<rparr>\<rparr>,
     \<lparr>rs_key = ''hall'', rs_point = Some \<lparr>latitude = 7, longitude = 4 + 1/200\<rparr>\<rparr>, \<lparr>rs_key = ''gate'', rs_point = None\<rparr>]"

definition sample_route :: "route_stop route_plan" where
  "sample_route = plan_route grid (Some \<lparr>latitude = 7, longitude = 4\<rparr>) sample_stops 0 15"

theorem plan_promises_what_it_measures_witness:
  "map pl_stop (rp_stops sample_route) = sample_stops \<and> map pl_sequence (rp_stops sample_route) = [1..<length sample_stops + 1] \<and>
   (\<exists>ets. arrivals 0 True (rp_stops sample_route) ets) \<and> rp_total sample_route = None \<and>
   map pl_eta (rp_stops sample_route) = [Some 324000, Some 930000, None]"
proof -
  have "\<not> list_all leg_known (rp_stops sample_route)" "map pl_eta (rp_stops sample_route) = [Some 324000, Some 930000, None]"
    by code_simp+
  moreover have nonneg: "0 \<le> grid p q" for p q by (simp add: grid_def)
  ultimately show ?thesis
    using plan_promises_what_it_measures [where away = grid and kmh = 15 and r = sample_route and stops = sample_stops
        and origin = "Some \<lparr>latitude = 7, longitude = 4\<rparr>" and now = 0, OF nonneg] by (simp add: sample_route_def)
qed

end
