(* ===== verification/Tracking.thy ===== *)
theory Tracking
  imports Route Dispatch
begin

text \<open>
  modules/tracking (tracking.service.ts, tracking.repository.ts): the position a rider shares, the route
  of an assignment and what a customer sees of it, the map of the administrators, and the triggers that
  forget positions. Times are milliseconds, the process clock is the argument \<open>now\<close>. Names of places and
  the distance are given; the map of a fleet and the list of map points are left out.
\<close>

section \<open>Tables\<close>

record position =
  po_rider :: uuid
  po_point :: latlng
  po_accuracy :: "int option"
  po_heading :: "int option"
  po_speed :: "rat option"
  po_recorded :: time
  po_received :: time

text \<open>A pin is set as a whole or not at all.\<close>

record tracking_db = riders_db +
  positions :: "position list"
  location_pins :: "(uuid \<times> latlng) list"
  vendor_pins :: "(uuid \<times> latlng) list"
  place_names :: "uuid \<Rightarrow> string"

record tracking_env =
  te_away :: distance
  te_speed :: rat

definition open_status :: "assignment_status \<Rightarrow> bool" where
  "open_status st \<longleftrightarrow> st \<in> {As_Assigned, As_Accepted, As_Picked_Up}"

definition open_assignments :: "uuid \<Rightarrow> 'z batches_db_scheme \<Rightarrow> nat" where
  "open_assignments rid s = length (filter (\<lambda>a. as_rider a = Some rid \<and> open_status (as_status a)) (assignment_rows s))"

section \<open>The repository (tracking.repository.ts)\<close>

record location_fix =
  lf_point :: latlng
  lf_accuracy :: "int option"
  lf_heading :: "int option"
  lf_speed :: "rat option"
  lf_recorded :: "time option"

text \<open>numeric(9,6) and numeric(6,2) keep so many decimals.\<close>

definition to_scale :: "nat \<Rightarrow> rat \<Rightarrow> rat" where
  "to_scale k q = of_int (numeric_to_int (q * 10 ^ k)) / 10 ^ k"

definition stored_point :: "latlng \<Rightarrow> latlng" where
  "stored_point p = \<lparr>latitude = to_scale 6 (latitude p), longitude = to_scale 6 (longitude p)\<rparr>"

definition on_globe :: "latlng \<Rightarrow> bool" where
  "on_globe p \<longleftrightarrow> \<bar>latitude p\<bar> \<le> 90 \<and> \<bar>longitude p\<bar> \<le> 180"

definition position_ok :: "position \<Rightarrow> bool" where
  "position_ok p \<longleftrightarrow> on_globe (po_point p) \<and> (case po_accuracy p of None \<Rightarrow> True | Some n \<Rightarrow> 0 \<le> n) \<and>
     (case po_heading p of None \<Rightarrow> True | Some n \<Rightarrow> 0 \<le> n \<and> n \<le> 359) \<and> (case po_speed p of None \<Rightarrow> True | Some q \<Rightarrow> 0 \<le> q)"

definition position_of :: "uuid \<Rightarrow> location_fix \<Rightarrow> time \<Rightarrow> time \<Rightarrow> position" where
  "position_of rid f recorded received =
     \<lparr>po_rider = rid, po_point = stored_point (lf_point f), po_accuracy = lf_accuracy f, po_heading = lf_heading f,
      po_speed = map_option (to_scale 2) (lf_speed f), po_recorded = recorded, po_received = received\<rparr>"

definition upsert_rider_location :: "uuid \<Rightarrow> location_fix \<Rightarrow> time \<Rightarrow> ('z tracking_db_scheme, bool) prog" where
  "upsert_rider_location rid f recorded =
     bindM (gets (\<lambda>s. (position_of rid f recorded (odb_now s), lookup_by po_rider rid (positions s), rid \<in> rd_id ` set (couriers s))))
       (\<lambda>(p, found, known).
       if \<not> position_ok p then raise (pg_error ''23514'' ''new row for relation rider_locations violates check constraint'')
       else if \<not> known then raise (pg_error ''23503'' ''insert or update on table rider_locations violates foreign key constraint'')
       else case found of
         None \<Rightarrow> thenM (modify (\<lambda>s. s\<lparr>positions := positions s @ [p]\<rparr>)) (ret True)
       | Some q \<Rightarrow>
           if po_recorded q < recorded
           then thenM (modify (\<lambda>s. s\<lparr>positions := update_where (\<lambda>x. po_rider x = rid) (\<lambda>_. p) (positions s)\<rparr>)) (ret True)
           else ret False)"

definition forget_position :: "uuid \<Rightarrow> 'z tracking_db_scheme \<Rightarrow> 'z tracking_db_scheme" where
  "forget_position rid s = s\<lparr>positions := filter (\<lambda>p. po_rider p \<noteq> rid) (positions s)\<rparr>"

definition get_rider_location :: "uuid \<Rightarrow> 'z tracking_db_scheme \<Rightarrow> position option" where
  "get_rider_location rid s = lookup_by po_rider rid (positions s)"

definition find_tracked_assignment :: "uuid \<Rightarrow> 'z batches_db_scheme \<Rightarrow> (delivery_assignment \<times> uuid \<times> delivery_batch) option" where
  "find_tracked_assignment aid s =
     Option.bind (lookup_by as_id aid (assignment_rows s)) (\<lambda>a.
     Option.bind (as_rider a) (\<lambda>rid.
       map_option (\<lambda>b. (a, rid, b)) (lookup_by bt_id (as_batch a) (batch_rows s))))"

record dropoff_order =
  do_order :: uuid
  do_number :: string
  do_location :: uuid
  do_name :: string
  do_point :: "latlng option"

definition to_hand_over :: "order_status \<Rightarrow> bool" where
  "to_hand_over st \<longleftrightarrow> st \<in> {Paid, Ready, Out_For_Delivery}"

definition dropoff_of :: "'z tracking_db_scheme \<Rightarrow> uuid \<Rightarrow> dropoff_order option" where
  "dropoff_of s oid =
     Option.bind (lookup_by ord_id oid (odb_orders s)) (\<lambda>r.
     Option.bind (lookup_by fa_order oid (order_facts s)) (\<lambda>f.
       if to_hand_over (ord_status r)
       then Some \<lparr>do_order = oid, do_number = ord_number r, do_location = fa_location f, do_name = place_names s (fa_location f),
                  do_point = map_of (location_pins s) (fa_location f)\<rparr>
       else None))"

definition place_before :: "string \<times> string \<Rightarrow> string \<times> string \<Rightarrow> bool" where
  "place_before k l \<longleftrightarrow> text_before (fst l) (fst k) \<or> fst l = fst k \<and> text_before (snd l) (snd k)"

definition list_open_dropoffs :: "uuid \<Rightarrow> 'z tracking_db_scheme \<Rightarrow> dropoff_order list" where
  "list_open_dropoffs bid s =
     newest_first place_before (\<lambda>d. (do_name d, do_number d)) (List.map_filter (dropoff_of s) (orders_in bid s))"

record tracking_context =
  tc_order :: order_row
  tc_mode :: string
  tc_assignment :: "(delivery_assignment \<times> uuid) option"
  tc_rider_name :: "string option"

definition live_assignment :: "uuid \<Rightarrow> 'z batches_db_scheme \<Rightarrow> (delivery_assignment \<times> uuid) option" where
  "live_assignment oid s =
     Option.bind (find (\<lambda>p. snd p = oid) (batched s)) (\<lambda>p.
     Option.bind (find (\<lambda>a. as_batch a = fst p \<and> as_status a \<noteq> As_Cancelled \<and> as_rider a \<noteq> None) (assignment_rows s)) (\<lambda>a.
       map_option (Pair a) (as_rider a)))"

definition find_order_tracking_context :: "uuid \<Rightarrow> uuid \<Rightarrow> 'z tracking_db_scheme \<Rightarrow> tracking_context option" where
  "find_order_tracking_context oid customer s =
     Option.bind (find (\<lambda>r. ord_id r = oid \<and> ord_customer r = customer) (odb_orders s)) (\<lambda>r.
       map_option (\<lambda>f. \<lparr>tc_order = r, tc_mode = fa_mode f, tc_assignment = live_assignment oid s,
           tc_rider_name = Option.bind (live_assignment oid s) (\<lambda>(a, rid). map_option rd_name (lookup_by rd_id rid (couriers s)))\<rparr>)
         (lookup_by fa_order oid (order_facts s)))"

record map_entry =
  me_rider :: courier
  me_position :: position
  me_open :: nat
  me_stale :: bool

definition list_rider_positions :: "uuid option \<Rightarrow> uuid option \<Rightarrow> time \<Rightarrow> 'z tracking_db_scheme \<Rightarrow> map_entry list" where
  "list_rider_positions campus fleet stale_after s =
     newest_first place_before (\<lambda>e. (rd_name (me_rider e), rd_id (me_rider e)))
       (List.map_filter (\<lambda>p. Option.bind (lookup_by rd_id (po_rider p) (couriers s)) (\<lambda>c.
          if (campus = None \<or> campus = Some (rd_campus c)) \<and> (fleet = None \<or> fleet = rd_fleet c)
          then Some \<lparr>me_rider = c, me_position = p, me_open = open_assignments (rd_id c) s,
                     me_stale = (po_recorded p < odb_now s - stale_after * 1000)\<rparr>
          else None)) (positions s))"

section \<open>The rider's position (tracking.service.ts)\<close>

definition location_fresh_seconds :: time where
  "location_fresh_seconds = 5 * 60"

definition max_fix_age_seconds :: time where
  "max_fix_age_seconds = 15 * 60"

definition max_fix_future_seconds :: time where
  "max_fix_future_seconds = 2 * 60"

definition is_fresh :: "time \<Rightarrow> time \<Rightarrow> bool" where
  "is_fresh recorded now \<longleftrightarrow> now - recorded \<le> location_fresh_seconds * 1000"

definition require_rider :: "actor \<Rightarrow> ('z batches_db_scheme, courier) prog" where
  "require_rider a = bindM (gets (find_rider_profile_for_actor (user_id a) (rider_id a)))
     (found_or ''Rider profile was not found. Complete rider onboarding first.'')"

definition record_rider_location :: "actor \<Rightarrow> location_fix \<Rightarrow> time \<Rightarrow> ('z tracking_db_scheme, bool \<times> time) prog" where
  "record_rider_location a f now =
     bindM (require_rider a) (\<lambda>c.
     if rd_status c \<noteq> Rider_Verified \<or> \<not> rd_active c then raise (forbidden ''Only verified, active riders can share their location.'')
     else bindM (gets (open_assignments (rd_id c))) (\<lambda>n.
       if \<not> rd_available c \<and> n = 0 then raise (conflict ''Go on shift to share your location.'')
       else let recorded = (case lf_recorded f of None \<Rightarrow> now | Some t \<Rightarrow> t) in
         if now - recorded < - max_fix_future_seconds * 1000
         then raise (bad_request ''recordedAt is in the future. Check the device clock.'')
         else if max_fix_age_seconds * 1000 < now - recorded then ret (False, recorded)
         else bindM (upsert_rider_location (rd_id c) f recorded) (\<lambda>accepted. ret (accepted, recorded))))"

definition stop_sharing_location :: "actor \<Rightarrow> ('z tracking_db_scheme, unit) prog" where
  "stop_sharing_location a = bindM (require_rider a) (\<lambda>c. modify (forget_position (rd_id c)))"

section \<open>Stops and routes\<close>

datatype stop_type = Pickup | Dropoff

record stop_draft = route_stop +
  sd_type :: stop_type
  sd_vendor :: "uuid option"
  sd_location :: "uuid option"
  sd_name :: string
  sd_orders :: "uuid list"
  sd_numbers :: "string list"

text \<open>One stop per location, in the order in which the locations first occur.\<close>

fun add_dropoff :: "dropoff_order \<Rightarrow> stop_draft list \<Rightarrow> stop_draft list" where
  "add_dropoff d [] = [\<lparr>rs_key = ''location:'' @ do_location d, rs_point = do_point d, sd_type = Dropoff, sd_vendor = None,
     sd_location = Some (do_location d), sd_name = do_name d, sd_orders = [do_order d], sd_numbers = [do_number d]\<rparr>]"
| "add_dropoff d (x # xs) =
     (if sd_location x = Some (do_location d)
      then x\<lparr>sd_orders := sd_orders x @ [do_order d], sd_numbers := sd_numbers x @ [do_number d]\<rparr> # xs
      else x # add_dropoff d xs)"

definition build_dropoff_stops :: "dropoff_order list \<Rightarrow> stop_draft list" where
  "build_dropoff_stops ds = foldl (\<lambda>stops d. add_dropoff d stops) [] ds"

definition pickup_stop :: "delivery_batch \<Rightarrow> dropoff_order list \<Rightarrow> 'z tracking_db_scheme \<Rightarrow> stop_draft" where
  "pickup_stop b ds s = \<lparr>rs_key = ''vendor:'' @ bt_vendor b, rs_point = map_of (vendor_pins s) (bt_vendor b), sd_type = Pickup,
     sd_vendor = Some (bt_vendor b), sd_location = None, sd_name = place_names s (bt_vendor b),
     sd_orders = map do_order ds, sd_numbers = map do_number ds\<rparr>"

record assignment_route =
  ar_assignment :: uuid
  ar_status :: assignment_status
  ar_origin :: "position option"
  ar_plan :: "stop_draft route_plan"

definition no_plan :: "stop_draft route_plan" where
  "no_plan = \<lparr>rp_stops = [], rp_total = None, rp_final = None\<rparr>"

text \<open>The ordering always ends, so that \<open>the\<close> reads its result.\<close>

definition route_stops ::
  "tracking_env \<Rightarrow> delivery_assignment \<Rightarrow> delivery_batch \<Rightarrow> position option \<Rightarrow> 'z tracking_db_scheme \<Rightarrow> stop_draft list" where
  "route_stops env a b origin s =
     (let ds = list_open_dropoffs (bt_id b) s;
          needs_pickup = (as_status a \<noteq> As_Picked_Up);
          start = (if needs_pickup then map_of (vendor_pins s) (bt_vendor b) else map_option po_point origin)
      in (if needs_pickup then [pickup_stop b ds s] else []) @
         the (order_by_nearest_neighbour (te_away env) start (build_dropoff_stops ds)))"

definition fresh_origin :: "uuid \<Rightarrow> time \<Rightarrow> 'z tracking_db_scheme \<Rightarrow> position option" where
  "fresh_origin rid now s = Option.bind (get_rider_location rid s) (\<lambda>p. if is_fresh (po_recorded p) now then Some p else None)"

definition build_route ::
  "tracking_env \<Rightarrow> time \<Rightarrow> delivery_assignment \<times> uuid \<times> delivery_batch \<Rightarrow> 'z tracking_db_scheme \<Rightarrow> assignment_route" where
  "build_route env now = (\<lambda>(a, rid, b) s.
     if \<not> open_status (as_status a) then \<lparr>ar_assignment = as_id a, ar_status = as_status a, ar_origin = None, ar_plan = no_plan\<rparr>
     else let origin = fresh_origin rid now s in
       \<lparr>ar_assignment = as_id a, ar_status = as_status a, ar_origin = origin,
        ar_plan = plan_route (te_away env) (map_option po_point origin) (route_stops env a b origin s) now (te_speed env)\<rparr>)"

definition get_rider_assignment_route ::
  "tracking_env \<Rightarrow> actor \<Rightarrow> uuid \<Rightarrow> time \<Rightarrow> ('z tracking_db_scheme, assignment_route) prog" where
  "get_rider_assignment_route env a aid now =
     bindM (require_rider a) (\<lambda>c.
     bindM (gets (find_tracked_assignment aid)) (\<lambda>found.
       case found of
         None \<Rightarrow> raise (not_found ''Assignment was not found.'')
       | Some x \<Rightarrow>
           if fst (snd x) \<noteq> rd_id c then raise (not_found ''Assignment was not found.'')
           else gets (build_route env now x)))"

section \<open>What the customer sees\<close>

datatype tracking_phase = Awaiting_Payment | Preparing | Awaiting_Pickup | On_The_Way | Ph_Delivered | Ph_Closed

definition tracking_phase_of :: "order_status \<Rightarrow> assignment_status option \<Rightarrow> tracking_phase" where
  "tracking_phase_of st asg =
     (case st of Pending_Payment \<Rightarrow> Awaiting_Payment | Paid \<Rightarrow> Preparing
      | Ready \<Rightarrow> if asg = Some As_Picked_Up then On_The_Way else Awaiting_Pickup
      | Out_For_Delivery \<Rightarrow> On_The_Way | Delivered \<Rightarrow> Ph_Delivered | Administratively_Completed \<Rightarrow> Ph_Delivered
      | Cancelled \<Rightarrow> Ph_Closed | Expired \<Rightarrow> Ph_Closed | Refunded \<Rightarrow> Ph_Closed)"

record rider_glimpse =
  rg_name :: string
  rg_position :: "position option"
  rg_stale :: bool

record order_tracking =
  ot_order :: order_row
  ot_phase :: tracking_phase
  ot_rider :: "rider_glimpse option"
  ot_before :: "nat option"
  ot_distance :: "int option"
  ot_eta :: "time option"
  ot_minutes :: "int option"

text \<open>The first word of a name: what comes before its first white space.\<close>

definition rider_for_customer :: "tracking_context \<Rightarrow> time \<Rightarrow> 'z tracking_db_scheme \<Rightarrow> rider_glimpse option" where
  "rider_for_customer c now s = map_option (\<lambda>(a, rid).
     let p = get_rider_location rid s;
         full = (case tc_rider_name c of None \<Rightarrow> ''Your rider'' | Some n \<Rightarrow> n)
     in \<lparr>rg_name = takeWhile (\<lambda>ch. \<not> js_space ch) full, rg_position = p,
         rg_stale = (case p of None \<Rightarrow> True | Some q \<Rightarrow> \<not> is_fresh (po_recorded q) now)\<rparr>) (tc_assignment c)"

definition is_stop_for :: "uuid \<Rightarrow> stop_draft planned_stop \<Rightarrow> bool" where
  "is_stop_for oid x \<longleftrightarrow> sd_type (pl_stop x) = Dropoff \<and> oid \<in> set (sd_orders (pl_stop x))"

definition distance_over :: "'a planned_stop list \<Rightarrow> int option" where
  "distance_over ps = foldl (\<lambda>d x. case (d, pl_leg x) of (Some n, Some m) \<Rightarrow> Some (n + m) | _ \<Rightarrow> None) (Some 0) ps"

definition tracked_stop ::
  "uuid \<Rightarrow> stop_draft planned_stop list \<Rightarrow> stop_draft planned_stop option \<times> nat option \<times> int option" where
  "tracked_stop oid ps =
     (let i = length (takeWhile (\<lambda>x. \<not> is_stop_for oid x) ps)
      in if i = length ps then (None, None, None) else (Some (ps ! i), Some i, distance_over (take (Suc i) ps)))"

definition untracked :: "order_row \<Rightarrow> tracking_phase \<Rightarrow> order_tracking" where
  "untracked r ph = \<lparr>ot_order = r, ot_phase = ph, ot_rider = None, ot_before = None, ot_distance = None, ot_eta = None, ot_minutes = None\<rparr>"

definition get_order_tracking :: "tracking_env \<Rightarrow> actor \<Rightarrow> uuid \<Rightarrow> time \<Rightarrow> ('z tracking_db_scheme, order_tracking) prog" where
  "get_order_tracking env a oid now =
     bindM (gets (find_order_tracking_context oid (user_id a))) (\<lambda>found.
     bindM (found_or ''Order was not found.'' found) (\<lambda>c.
       let ph = tracking_phase_of (ord_status (tc_order c)) (map_option (as_status \<circ> fst) (tc_assignment c))
       in if tc_mode c \<noteq> ''meal_direct_rider'' \<or> tc_assignment c = None \<or> (ph \<noteq> Awaiting_Pickup \<and> ph \<noteq> On_The_Way)
          then ret (untracked (tc_order c) ph)
          else bindM (gets (\<lambda>s. Option.bind (tc_assignment c) (\<lambda>x. find_tracked_assignment (as_id (fst x)) s))) (\<lambda>asg.
            case asg of
              None \<Rightarrow> ret (untracked (tc_order c) ph)
            | Some x \<Rightarrow> bindM (gets (build_route env now x)) (\<lambda>route.
                let (stop, before, away) = tracked_stop oid (rp_stops (ar_plan route)) in
                bindM (gets (rider_for_customer c now)) (\<lambda>glimpse.
                  ret \<lparr>ot_order = tc_order c, ot_phase = ph, ot_rider = (if ph = On_The_Way then glimpse else None),
                       ot_before = before, ot_distance = away, ot_eta = Option.bind stop pl_eta, ot_minutes = Option.bind stop pl_minutes\<rparr>)))))"

section \<open>Maps and pins\<close>

definition can_admin_campus :: "actor \<Rightarrow> uuid \<Rightarrow> bool" where
  "can_admin_campus a campus \<longleftrightarrow> role a = Super_Admin \<or> role a = Campus_Admin \<and> Access.campus_id a = Some campus"

definition admin_campus_filter :: "actor \<Rightarrow> uuid option \<Rightarrow> ('s, uuid option) prog" where
  "admin_campus_filter a requested =
     (if role a = Super_Admin then ret requested
      else if role a \<noteq> Campus_Admin \<or> Access.campus_id a = None then raise (forbidden ''Campus admin campus scope is required.'')
      else if requested \<noteq> None \<and> requested \<noteq> Access.campus_id a then raise (forbidden ''Campus scope is not allowed for this admin.'')
      else ret (Access.campus_id a))"

definition list_riders_for_admin :: "actor \<Rightarrow> uuid option \<Rightarrow> ('z tracking_db_scheme, map_entry list) prog" where
  "list_riders_for_admin a requested =
     bindM (admin_campus_filter a requested) (\<lambda>campus. gets (list_rider_positions campus None location_fresh_seconds))"

datatype point_kind = Location_Point | Vendor_Point

definition find_point_campus :: "point_kind \<Rightarrow> uuid \<Rightarrow> 'z tracking_db_scheme \<Rightarrow> uuid option" where
  "find_point_campus kind i s = (case kind of Location_Point \<Rightarrow> map_option lc_campus (lookup_by lc_id i (locations s))
     | Vendor_Point \<Rightarrow> map_option sto_campus (lookup_by sto_id i (stores s)))"

definition set_pin :: "uuid \<Rightarrow> latlng option \<Rightarrow> (uuid \<times> latlng) list \<Rightarrow> (uuid \<times> latlng) list" where
  "set_pin i p pins = filter (\<lambda>x. fst x \<noteq> i) pins @ (case p of None \<Rightarrow> [] | Some q \<Rightarrow> [(i, stored_point q)])"

definition set_point_coordinates_row :: "point_kind \<Rightarrow> uuid \<Rightarrow> latlng option \<Rightarrow> ('z tracking_db_scheme, unit) prog" where
  "set_point_coordinates_row kind i p =
     (if (case p of None \<Rightarrow> False | Some q \<Rightarrow> \<not> on_globe (stored_point q))
      then raise (pg_error ''23514'' ''new row violates check constraint'')
      else modify (\<lambda>s. case kind of Location_Point \<Rightarrow> s\<lparr>location_pins := set_pin i p (location_pins s)\<rparr>
        | Vendor_Point \<Rightarrow> s\<lparr>vendor_pins := set_pin i p (vendor_pins s)\<rparr>))"

definition set_point_coordinates :: "actor \<Rightarrow> point_kind \<Rightarrow> uuid \<Rightarrow> latlng option \<Rightarrow> ('z tracking_db_scheme, latlng option) prog" where
  "set_point_coordinates a kind i p =
     (let missing = not_found (case kind of Location_Point \<Rightarrow> ''Location was not found.'' | Vendor_Point \<Rightarrow> ''Vendor was not found.'') in
      bindM (gets (find_point_campus kind i)) (\<lambda>campus.
        case campus of
          None \<Rightarrow> raise missing
        | Some c \<Rightarrow>
            if \<not> can_admin_campus a c then raise missing
            else thenM (set_point_coordinates_row kind i p)
              (gets (\<lambda>s. map_of (case kind of Location_Point \<Rightarrow> location_pins s | Vendor_Point \<Rightarrow> vendor_pins s) i))))"

section \<open>Forgetting positions (triggers)\<close>

definition nothing_to_deliver :: "uuid \<Rightarrow> 'z batches_db_scheme \<Rightarrow> bool" where
  "nothing_to_deliver rid s \<longleftrightarrow> open_assignments rid s = 0"

definition clear_rider_location_when_off_duty :: "uuid \<Rightarrow> ('z tracking_db_scheme, unit) prog" where
  "clear_rider_location_when_off_duty rid =
     bindM (gets (\<lambda>s. lookup_by rd_id rid (couriers s))) (\<lambda>found.
       case found of
         None \<Rightarrow> ret ()
       | Some c \<Rightarrow>
           whenM (\<not> rd_available c \<or> \<not> rd_active c \<or> rd_status c \<noteq> Rider_Verified)
             (modify (\<lambda>s. if \<not> rd_available c \<and> nothing_to_deliver rid s then forget_position rid s else s)))"

definition clear_rider_location_after_assignment :: "delivery_assignment \<Rightarrow> ('z tracking_db_scheme, unit) prog" where
  "clear_rider_location_after_assignment a =
     (case as_rider a of
        None \<Rightarrow> ret ()
      | Some rid \<Rightarrow> whenM (as_status a \<in> {As_Completed, As_Cancelled})
          (modify (\<lambda>s. if \<not> list_ex (\<lambda>c. rd_id c = rid \<and> rd_available c) (couriers s) \<and> nothing_to_deliver rid s
             then forget_position rid s else s)))"

text \<open>A statement on the assignment of a batch, followed by the trigger of its status.\<close>

definition with_assignment_trigger :: "uuid \<Rightarrow> ('z tracking_db_scheme, unit) prog \<Rightarrow> ('z tracking_db_scheme, unit) prog" where
  "with_assignment_trigger bid m =
     thenM m (bindM (gets (\<lambda>s. filter (\<lambda>a. as_batch a = bid) (assignment_rows s))) (for_each clear_rider_location_after_assignment))"

definition set_availability_tracked :: "actor \<Rightarrow> bool \<Rightarrow> ('z tracking_db_scheme, courier) prog" where
  "set_availability_tracked a b =
     bindM (set_availability a b) (\<lambda>c. thenM (clear_rider_location_when_off_duty (rd_id c)) (ret c))"

definition assign_batch_tracked :: "uuid \<Rightarrow> uuid \<Rightarrow> uuid option \<Rightarrow> uuid option \<Rightarrow> ('z tracking_db_scheme, unit) prog" where
  "assign_batch_tracked bid user rider vendor = with_assignment_trigger bid (assign_batch bid user rider vendor)"

definition cancel_assignment_tracked :: "uuid \<Rightarrow> ('z tracking_db_scheme, unit) prog" where
  "cancel_assignment_tracked bid = with_assignment_trigger bid (cancel_assignment bid)"

section \<open>A route serves every open order\<close>

lemma add_dropoff_orders:
  "mset (concat (map sd_orders (add_dropoff d xs))) = add_mset (do_order d) (mset (concat (map sd_orders xs)))"
  by (induction xs) simp_all

lemma add_dropoff_type: "list_all (\<lambda>x. sd_type x = Dropoff) xs \<Longrightarrow> list_all (\<lambda>x. sd_type x = Dropoff) (add_dropoff d xs)"
  by (induction xs) simp_all

lemma build_dropoff_stops_gen:
  "list_all (\<lambda>x. sd_type x = Dropoff) xs \<Longrightarrow>
   list_all (\<lambda>x. sd_type x = Dropoff) (foldl (\<lambda>stops d. add_dropoff d stops) xs ds) \<and>
   mset (concat (map sd_orders (foldl (\<lambda>stops d. add_dropoff d stops) xs ds))) = mset (map do_order ds) + mset (concat (map sd_orders xs))"
proof (induction ds arbitrary: xs)
  case (Cons d ds)
  from Cons.IH [OF add_dropoff_type [OF Cons.prems, of d]] show ?case by (simp add: add_dropoff_orders)
qed simp

lemma build_dropoff_stops_orders:
  "list_all (\<lambda>x. sd_type x = Dropoff) (build_dropoff_stops ds)"
  "mset (concat (map sd_orders (build_dropoff_stops ds))) = mset (map do_order ds)"
  using build_dropoff_stops_gen [of "[]" ds] by (simp_all add: build_dropoff_stops_def)

lemma located_unlocated: "mset (located xs) + mset (unlocated xs) = mset xs"
  by (induction xs) (auto simp: located_def unlocated_def)

lemma ordered_stops: "mset (the (order_by_nearest_neighbour away start xs)) = mset xs"
proof (cases start)
  case (Some here)
  have "\<forall>x\<in>set (located xs). rs_point x \<noteq> None" by (simp add: located_def)
  from visit_all [OF this, of away here "[]"] show ?thesis
    by (auto simp: order_by_nearest_neighbour_def Some located_unlocated)
qed (simp add: order_by_nearest_neighbour_def located_unlocated)

lemma mset_concat_map: "mset (concat (map f xs)) = sum_mset (image_mset (\<lambda>x. mset (f x)) (mset xs))"
  by (induction xs) simp_all

lemma plan_keeps_stops: "map pl_stop (rp_stops (plan_route away origin stops now kmh)) = stops"
  by (simp add: plan_route_def split_beta plan_stops_frame)

definition dropoffs_of :: "assignment_route \<Rightarrow> stop_draft list" where
  "dropoffs_of r = filter (\<lambda>x. sd_type x = Dropoff) (map pl_stop (rp_stops (ar_plan r)))"


section \<open>Who sees a rider\<close>

text \<open>
  Property C25: a customer sees the rider of their own order only, and only while it is on its way. The
  tracking of an order is answered to the customer who placed it; a rider is shown only when the order is
  out for delivery, or ready and picked up, by a rider whose assignment of the order's batch is not
  cancelled, and the position shown is that rider's.
\<close>

theorem customer_sees_rider_only_on_the_way:
  assumes "get_order_tracking env a oid now s = (Inr x, t)" and "ot_rider x = Some g"
  shows "ord_id (ot_order x) = oid \<and> ord_customer (ot_order x) = user_id a \<and> ot_phase x = On_The_Way \<and>
    (\<exists>asg rid. live_assignment oid s = Some (asg, rid) \<and> as_status asg \<noteq> As_Cancelled \<and> as_rider asg = Some rid \<and>
       (ord_status (ot_order x) = Out_For_Delivery \<or> ord_status (ot_order x) = Ready \<and> as_status asg = As_Picked_Up) \<and>
       rg_position g = get_rider_location rid s)"
proof -
  obtain c where c: "find_order_tracking_context oid (user_id a) s = Some c" "ot_order x = tc_order c"
    "ot_phase x = tracking_phase_of (ord_status (tc_order c)) (map_option (as_status \<circ> fst) (tc_assignment c))"
    "ot_phase x = On_The_Way" "rider_for_customer c now s = Some g"
    using assms by (auto simp: get_order_tracking_def found_or_def prog_simps untracked_def Let_def split: option.splits if_splits prod.splits)
  obtain asg rid where asg: "tc_assignment c = Some (asg, rid)" "rg_position g = get_rider_location rid s"
    using c(5) by (auto simp: rider_for_customer_def Let_def)
  moreover have "ord_id (tc_order c) = oid" "ord_customer (tc_order c) = user_id a" "tc_assignment c = live_assignment oid s"
    using c(1) by (auto simp: find_order_tracking_context_def bind_eq_Some_conv dest!: find_SomeD)
  moreover have "as_status asg \<noteq> As_Cancelled" "as_rider asg = Some rid"
    using asg(1) calculation(5) by (auto simp: live_assignment_def bind_eq_Some_conv dest!: find_SomeD)
  moreover have "ord_status (tc_order c) = Out_For_Delivery \<or> ord_status (tc_order c) = Ready \<and> as_status asg = As_Picked_Up"
    using c(3,4) asg(1) by (auto simp: tracking_phase_of_def split: order_status.splits if_splits)
  ultimately show ?thesis using c(2,4) by auto
qed

section \<open>The newest position wins\<close>

definition fixes_stored :: "uuid \<Rightarrow> (location_fix \<times> time) list \<Rightarrow> 'z tracking_db_scheme \<Rightarrow> 'z tracking_db_scheme" where
  "fixes_stored rid fs s = fold (\<lambda>(f, r) u. snd (upsert_rider_location rid f r u)) fs s"

definition fix_ok :: "uuid \<Rightarrow> 'z tracking_db_scheme \<Rightarrow> location_fix \<times> time \<Rightarrow> bool" where
  "fix_ok rid s x \<longleftrightarrow> position_ok (position_of rid (fst x) (snd x) (odb_now s)) \<and> rid \<in> rd_id ` set (couriers s)"

lemma position_of_fields: "po_rider (position_of rid f r n) = rid" "po_recorded (position_of rid f r n) = r"
  by (simp_all add: position_of_def)

lemma lookup_replaced:
  "key p = k \<Longrightarrow> lookup_by key k (update_where (\<lambda>x. key x = k) (\<lambda>_. p) rows) = map_option (\<lambda>_. p) (lookup_by key k rows)"
  by (induction rows) (auto simp: table_simps)

lemma upsert_stores:
  assumes "fix_ok rid s (f, r)"
  shows "get_rider_location rid (snd (upsert_rider_location rid f r s)) =
      (case get_rider_location rid s of
         None \<Rightarrow> Some (position_of rid f r (odb_now s))
       | Some q \<Rightarrow> if po_recorded q < r then Some (position_of rid f r (odb_now s)) else Some q)"
    "odb_now (snd (upsert_rider_location rid f r s)) = odb_now s" "couriers (snd (upsert_rider_location rid f r s)) = couriers s"
  using assms unfolding upsert_rider_location_def get_rider_location_def fix_ok_def
  by (auto simp: prog_simps table_simps lookup_replaced position_of_fields split: option.split)

lemma newest_stored:
  assumes "get_rider_location rid s = None" "list_all (fix_ok rid s) fs"
  shows "odb_now (fixes_stored rid fs s) = odb_now s \<and> couriers (fixes_stored rid fs s) = couriers s \<and>
    (if fs = [] then get_rider_location rid (fixes_stored rid fs s) = None
     else \<exists>x\<in>set fs. get_rider_location rid (fixes_stored rid fs s) = Some (position_of rid (fst x) (snd x) (odb_now s)) \<and>
       (\<forall>y\<in>set fs. snd y \<le> snd x))"
  using assms(2)
proof (induction fs rule: rev_induct)
  case (snoc x fs)
  obtain f r where x: "x = (f, r)" by (cases x)
  let ?u = "fixes_stored rid fs s"
  from snoc have IH: "odb_now ?u = odb_now s" "couriers ?u = couriers s" by auto
  with snoc.prems have ok: "fix_ok rid ?u (f, r)" by (simp add: x fix_ok_def)
  have step: "fixes_stored rid (fs @ [(f, r)]) s = snd (upsert_rider_location rid f r ?u)" by (simp add: fixes_stored_def)
  show ?case
  proof (cases "fs = []")
    case True
    then have "?u = s" by (simp add: fixes_stored_def)
    with ok assms(1) show ?thesis unfolding x step by (simp add: True upsert_stores)
  next
    case False
    with snoc obtain y where y: "y \<in> set fs" "get_rider_location rid ?u = Some (position_of rid (fst y) (snd y) (odb_now s))"
      "\<forall>z\<in>set fs. snd z \<le> snd y" by auto
    show ?thesis
    proof (cases "snd y < r")
      case True
      with y ok IH show ?thesis by (auto simp: step upsert_stores x position_of_fields)
    next
      case False
      with y ok IH show ?thesis by (auto simp: step upsert_stores x position_of_fields)
    qed
  qed
qed (simp add: fixes_stored_def assms(1))

text \<open>
  Property C28: positions may arrive in any order. However a rider's fixes, each with a time of its own,
  are ordered on their way to the server, the same position is stored in the end, and it is the one
  that was recorded last.
\<close>

theorem newest_fix_wins:
  assumes "get_rider_location rid s = None" and "list_all (fix_ok rid s) fs" and "distinct (map snd fs)" and "mset gs = mset fs"
    and "fs \<noteq> []"
  shows "get_rider_location rid (fixes_stored rid gs s) = get_rider_location rid (fixes_stored rid fs s) \<and>
    (\<exists>p. get_rider_location rid (fixes_stored rid fs s) = Some p \<and> po_recorded p = Max (snd ` set fs))"
proof -
  have sets: "set gs = set fs" using assms(4) by (rule mset_eq_setD)
  then have "list_all (fix_ok rid s) gs" "gs \<noteq> []" using assms(2,5) by (auto simp: list_all_iff)
  with newest_stored [OF assms(1)] assms(2,5) obtain x y where
    x: "x \<in> set fs" "get_rider_location rid (fixes_stored rid fs s) = Some (position_of rid (fst x) (snd x) (odb_now s))" "\<forall>z\<in>set fs. snd z \<le> snd x" and
    y: "y \<in> set gs" "get_rider_location rid (fixes_stored rid gs s) = Some (position_of rid (fst y) (snd y) (odb_now s))" "\<forall>z\<in>set gs. snd z \<le> snd y"
    by meson
  have "snd x \<le> snd y" "snd y \<le> snd x" using x(1,3) y(1,3) sets by auto
  then have "snd x = snd y" by simp
  then have "x = y" using x(1) y(1) sets assms(3) by (metis distinct_map inj_onD)
  moreover have "Max (snd ` set fs) = snd x" using x(1,3) by (intro Max_eqI) auto
  ultimately show ?thesis using x(2) y(2) by (simp add: position_of_fields)
qed

section \<open>A reassigned rider\<close>

lemma assign_rows:
  fixes t v :: "'z tracking_db_scheme"
  assumes "assign_batch bid user (Some other) None t = (Inr (), v)"
  shows "positions v = positions t \<and> couriers v = couriers t" (is ?same)
    and "\<forall>a\<in>set (assignment_rows v). if as_batch a = bid then as_rider a = Some other \<and> as_status a = As_Assigned
      else a \<in> set (assignment_rows t)" (is ?rows)
proof -
  define found where "found = find (\<lambda>a. as_batch a = bid) (assignment_rows t)"
  define rows where "rows = (case found of
     None \<Rightarrow> assignment_rows t @ [new_assignment (db_uuid t (db_drawn t)) bid (Some other) None user (t\<lparr>db_drawn := Suc (db_drawn t)\<rparr>)]
   | Some _ \<Rightarrow> update_where (\<lambda>x. as_batch x = bid) (\<lambda>x. new_assignment (as_id x) bid (Some other) None user t) (assignment_rows t))"
  have v: "assignment_rows v = rows \<and> ?same"
    using assms unfolding assign_batch_def upsert_assignment_def rows_def found_def
    by (auto simp: update_assignments_def update_batches_def draw_uuid_def prog_simps split: option.splits if_splits)
  moreover have "if as_batch a = bid then as_rider a = Some other \<and> as_status a = As_Assigned else a \<in> set (assignment_rows t)"
    if "a \<in> set rows" for a
  proof (cases found)
    case None
    then have "\<forall>x\<in>set (assignment_rows t). as_batch x \<noteq> bid" by (simp add: found_def find_None_iff)
    with that None show ?thesis by (auto simp: rows_def new_assignment_def)
  next
    case (Some x)
    with that show ?thesis by (auto simp: rows_def new_assignment_def update_where_def)
  qed
  ultimately show ?same ?rows by simp_all
qed

lemma find_after_assign:
  fixes t u :: "'z tracking_db_scheme"
  assumes "assign_batch_tracked bid user (Some other) None t = (Inr (), u)"
  shows "assign_batch bid user (Some other) None t = (Inr (), u)"
proof -
  obtain v where v: "assign_batch bid user (Some other) None t = (Inr (), v)"
    "for_each clear_rider_location_after_assignment (filter (\<lambda>a. as_batch a = bid) (assignment_rows v)) v = (Inr (), u)"
    using assms by (auto simp: assign_batch_tracked_def with_assignment_trigger_def prog_simps split: prod.splits sum.splits)
  have quiet: "for_each clear_rider_location_after_assignment as w = (Inr (), w)"
    if "\<forall>a\<in>set as. as_status a = As_Assigned" for as :: "delivery_assignment list" and w :: "'z tracking_db_scheme"
    using that by (induction as) (simp_all add: prog_simps clear_rider_location_after_assignment_def whenM_def split: option.split)
  have "u = v" using v(2) quiet [of "filter (\<lambda>a. as_batch a = bid) (assignment_rows v)" v] assign_rows(2) [OF v(1)] by auto
  with v(1) show ?thesis by simp
qed

text \<open>
  Property C34: a rider who loses a batch to another stays on the map. When a rider is off shift and has
  one batch to deliver, and the batch is given to another rider, they have nothing left to deliver and are
  turned away when they report their position, but the one they shared before is kept.
\<close>

theorem reassigned_rider_stays_on_the_map:
  assumes "require_rider a t = (Inr c, t)" and "rd_status c = Rider_Verified" and "rd_active c" and "\<not> rd_available c"
    and "get_rider_location (rd_id c) t = Some p"
    and "\<forall>x\<in>set (assignment_rows t). as_rider x = Some (rd_id c) \<and> open_status (as_status x) \<longrightarrow> as_batch x = bid"
    and "assign_batch_tracked bid user (Some other) None t = (Inr (), u)" and "other \<noteq> rd_id c"
  shows "nothing_to_deliver (rd_id c) u \<and> get_rider_location (rd_id c) u = Some p \<and>
    record_rider_location a f now u = (Inl (conflict ''Go on shift to share your location.''), u)"
proof -
  note after = assign_rows [OF find_after_assign [OF assms(7)]]
  have "nothing_to_deliver (rd_id c) u"
    using after(2) assms(6,8) by (fastforce simp: nothing_to_deliver_def open_assignments_def filter_empty_conv split: if_splits)
  moreover have "require_rider a u = (Inr c, u)"
    using assms(1) after(1) by (auto simp: require_rider_def find_rider_profile_for_actor_def found_or_def prog_simps split: option.splits list.splits)
  ultimately show ?thesis
    using assms(2-5) after(1) by (simp add: record_rider_location_def prog_simps nothing_to_deliver_def get_rider_location_def)
qed

section \<open>Ann on the map\<close>

definition fix_at :: "rat \<Rightarrow> location_fix" where
  "fix_at x = \<lparr>lf_point = \<lparr>latitude = x, longitude = 4\<rparr>, lf_accuracy = Some 8, lf_heading = None, lf_speed = None, lf_recorded = None\<rparr>"

definition tracking_sample :: tracking_db where
  "tracking_sample = riders_db.extend delivery_sample (tracking_db.fields [] [(''hall'', \<lparr>latitude = 7, longitude = 4\<rparr>)]
     [(''kitchen'', \<lparr>latitude = 7 + 1/100, longitude = 4\<rparr>)] (\<lambda>i. i))"

definition grid_env :: tracking_env where
  "grid_env = \<lparr>te_away = grid, te_speed = 15\<rparr>"

lemmas tracking_defs = tracking_sample_def tracking_db.defs sample_defs

lemma tracking_reads:
  "get_rider_location ''r1'' tracking_sample = None" "rd_id ` set (couriers tracking_sample) = {''r1'', ''r2''}"
  by (simp_all add: tracking_defs get_rider_location_def table_simps)

lemma fix_at_ok: "list_all (fix_ok ''r1'' tracking_sample) [(fix_at 7, 1000), (fix_at (7 + 1/200), 2000)]"
proof -
  have "position_ok (position_of ''r1'' (fix_at 7) 1000 0)" "position_ok (position_of ''r1'' (fix_at (7 + 1/200)) 2000 0)" by code_simp+
  then show ?thesis by (simp add: fix_ok_def tracking_reads position_ok_def position_of_def)
qed

lemma newest_fix_wins_witness:
  "get_rider_location ''r1'' (fixes_stored ''r1'' [(fix_at (7 + 1/200), 2000), (fix_at 7, 1000)] tracking_sample) =
     get_rider_location ''r1'' (fixes_stored ''r1'' [(fix_at 7, 1000), (fix_at (7 + 1/200), 2000)] tracking_sample) \<and>
   (\<exists>p. get_rider_location ''r1'' (fixes_stored ''r1'' [(fix_at 7, 1000), (fix_at (7 + 1/200), 2000)] tracking_sample) = Some p \<and>
     po_recorded p = 2000)"
  using newest_fix_wins [OF tracking_reads(1) fix_at_ok, of "[(fix_at (7 + 1/200), 2000), (fix_at 7, 1000)]"] by simp

text \<open>Ann is out with the first order, and was last seen at the hall.\<close>

definition ann_rides_out :: tracking_db where
  "ann_rides_out = tracking_sample\<lparr>odb_orders := [(ready_row ''o1'')\<lparr>ord_status := Out_For_Delivery\<rparr>],
     order_facts := [some_facts ''o1''], positions := [position_of ''r1'' (fix_at 7) 500000 500000]\<rparr>"

definition shopper_actor :: actor where
  "shopper_actor = \<lparr>user_id = shopper, role = Customer, email = None, campus_id = None, vendor_id = None, rider_id = None\<rparr>"

lemma tracking_answers:
  assumes "find_order_tracking_context oid (user_id a) s = Some c" "tc_mode c = ''meal_direct_rider''" "tc_assignment c = Some (asg, rid)"
    "tracking_phase_of (ord_status (tc_order c)) (Some (as_status asg)) = On_The_Way" "find_tracked_assignment (as_id asg) s = Some y"
  shows "\<exists>x g. get_order_tracking env a oid now s = (Inr x, s) \<and> ot_rider x = Some g"
  using assms by (simp add: get_order_tracking_def found_or_def prog_simps rider_for_customer_def Let_def split: prod.split)

definition rides_out_facts :: "tracking_db \<Rightarrow> (string \<times> (uuid \<times> assignment_status) option \<times> order_status) option \<times> bool" where
  "rides_out_facts s = (map_option (\<lambda>c. (tc_mode c, map_option (\<lambda>x. (as_id (fst x), as_status (fst x))) (tc_assignment c), ord_status (tc_order c)))
     (find_order_tracking_context ''o1'' shopper s), find_tracked_assignment ''a1'' s \<noteq> None)"

lemma rides_out_reads:
  "rides_out_facts ann_rides_out = (Some (''meal_direct_rider'', Some (''a1'', As_Assigned), Out_For_Delivery), True)"
  by code_simp

lemma shopper_follows:
  "\<exists>x g. get_order_tracking grid_env shopper_actor ''o1'' 600000 ann_rides_out = (Inr x, ann_rides_out) \<and> ot_rider x = Some g"
proof -
  note reads = rides_out_reads [unfolded rides_out_facts_def prod.inject]
  have user: "user_id shopper_actor = shopper" by (simp add: shopper_actor_def)
  obtain c asg rid where c: "find_order_tracking_context ''o1'' shopper ann_rides_out = Some c" "tc_mode c = ''meal_direct_rider''"
    "tc_assignment c = Some (asg, rid)" "as_id asg = ''a1''" "ord_status (tc_order c) = Out_For_Delivery"
    using reads by auto
  obtain y where y: "find_tracked_assignment ''a1'' ann_rides_out = Some y" using reads by blast
  have "find_order_tracking_context ''o1'' (user_id shopper_actor) ann_rides_out = Some c" by (simp only: user c(1))
  moreover have "tracking_phase_of (ord_status (tc_order c)) (Some (as_status asg)) = On_The_Way" by (simp add: c(5) tracking_phase_of_def)
  moreover have "find_tracked_assignment (as_id asg) ann_rides_out = Some y" by (simp only: c(4) y)
  ultimately show ?thesis using c(2,3) by (blast intro: tracking_answers)
qed

lemma customer_sees_rider_only_on_the_way_witness:
  "\<exists>x g. fst (get_order_tracking grid_env shopper_actor ''o1'' 600000 ann_rides_out) = Inr x \<and> ot_rider x = Some g \<and>
     ot_phase x = On_The_Way \<and> ord_customer (ot_order x) = shopper \<and>
     (\<exists>asg rid. live_assignment ''o1'' ann_rides_out = Some (asg, rid) \<and> rg_position g = get_rider_location rid ann_rides_out)"
proof -
  let ?run = "get_order_tracking grid_env shopper_actor ''o1'' 600000 ann_rides_out"
  obtain x g where run: "?run = (Inr x, ann_rides_out)" and g: "ot_rider x = Some g" using shopper_follows by blast
  from customer_sees_rider_only_on_the_way [OF run g] have
    "ord_customer (ot_order x) = user_id shopper_actor" "ot_phase x = On_The_Way"
    "\<exists>asg rid. live_assignment ''o1'' ann_rides_out = Some (asg, rid) \<and> rg_position g = get_rider_location rid ann_rides_out"
    by blast+
  moreover have "user_id shopper_actor = shopper" by (simp add: shopper_actor_def)
  moreover have "fst ?run = Inr x" by (simp add: run)
  ultimately show ?thesis using g by metis
qed

definition ann_off_shift :: tracking_db where
  "ann_off_shift = snd (set_availability_tracked ann False (snd (record_rider_location ann (fix_at 7) 500000 tracking_sample)))"

definition off_shift_facts ::
  "tracking_db \<Rightarrow> time option \<times> (uuid \<times> rider_status \<times> bool \<times> bool) option \<times> (uuid option \<times> uuid) list \<times> (exn + unit)" where
  "off_shift_facts s = (map_option (\<lambda>p. po_recorded p) (get_rider_location ''r1'' s),
     (case fst (require_rider ann s) of Inl e \<Rightarrow> None | Inr c \<Rightarrow> Some (rd_id c, rd_status c, rd_active c, rd_available c)),
     map (\<lambda>a. (as_rider a, as_batch a)) (assignment_rows s), fst (assign_batch_tracked ''id-0'' ''boss'' (Some ''r2'') None s))"

lemma off_shift_reads:
  "off_shift_facts ann_off_shift = (Some 500000, Some (''r1'', Rider_Verified, True, False), [(Some ''r1'', ''id-0'')], Inr ())"
  by code_simp

lemma require_rider_state: "snd (require_rider a s) = s"
  by (simp add: require_rider_def found_or_def prog_simps split: option.split)

lemma reassigned_rider_stays_on_the_map_witness:
  "\<exists>p u. assign_batch_tracked ''id-0'' ''boss'' (Some ''r2'') None ann_off_shift = (Inr (), u) \<and> nothing_to_deliver ''r1'' u \<and>
     get_rider_location ''r1'' u = Some p \<and>
     record_rider_location ann (fix_at 7) 700000 u = (Inl (conflict ''Go on shift to share your location.''), u)"
proof -
  note reads = off_shift_reads [unfolded off_shift_facts_def prod.inject]
  obtain p where p: "get_rider_location ''r1'' ann_off_shift = Some p" using reads by auto
  obtain c where c: "require_rider ann ann_off_shift = (Inr c, ann_off_shift)" "rd_id c = ''r1''" "rd_status c = Rider_Verified" "rd_active c" "\<not> rd_available c"
    using reads require_rider_state [of ann ann_off_shift] by (cases "require_rider ann ann_off_shift") (auto split: sum.splits)
  obtain u where u: "assign_batch_tracked ''id-0'' ''boss'' (Some ''r2'') None ann_off_shift = (Inr (), u)"
    using reads by (cases "assign_batch_tracked ''id-0'' ''boss'' (Some ''r2'') None ann_off_shift") simp
  have "\<forall>x\<in>set (assignment_rows ann_off_shift). as_rider x = Some (rd_id c) \<and> open_status (as_status x) \<longrightarrow> as_batch x = ''id-0''"
    using reads by (auto simp: map_eq_Cons_conv)
  from reassigned_rider_stays_on_the_map [OF c(1,3,4,5) _ this u, of p "fix_at 7" 700000] p u c(2) show ?thesis by auto
qed

end
