(* ===== verification/Spec2Isabelle.thy ===== *)
theory Spec2Isabelle
  imports Money Order_Status Access Wallet_Ledger Paystack_Event Payouts Webhook Fee_Settings Pagination Wallets
    Outbox Notifications Worker Payments Refunds Stock Delivery_Codes Tracking
begin

text \<open>
  A model of the Meal Direct backend: a NestJS program (src/src) over a PostgreSQL schema whose
  functions (src/supabase/migrations) do the writes that need locks. Customers order dishes from the
  dated stock of vendors and pay from a wallet or by a Paystack checkout; paid orders are batched by
  delivery slot and handed to riders; delivered orders leave vendors and riders a credit, which
  settlements pay out through Paystack. A transactional outbox carries the side effects to a worker
  process. The model follows the money and the stock through these parts, and the order, payment,
  payout and event life cycles that move them.

  \<^bold>\<open>How the program is translated.\<close>

  \<^item> A table is a list of rows, newest last, in a record of tables; a later component's state
    extends an earlier one's, and every operation is polymorphic in the further tables (\<open>\<dots>_scheme\<close>).
  \<^item> An operation is a function \<open>s \<Rightarrow> (exn + 'a) \<times> s\<close>, composed with the \<open>do\<close> of \<open>Prelude\<close>: \<open>Inl\<close> is a
    throw of the TypeScript code or a raise of the database, with its class. A single statement, a
    database function and what runs inside \<open>db.transaction()\<close> is \<open>transaction f\<close>: on \<open>Inl\<close> the state
    before it comes back. Outside of it the writes that precede an error stay, as in the code.
  \<^item> Concurrency is interleaving: a transaction or a database function is one step of an inductive
    reachability relation, since it runs with its row locks held.
  \<^item> Random UUIDs are drawn from \<open>db_uuid\<close> at a counter; that no id is drawn twice is a hypothesis where
    a property needs it. Order numbers and delivery codes are streams too.
  \<^item> Code that is not under src/ is an argument or a stream of answers with a log of the calls:
    Paystack's API, jose's signature check, node's HMAC and SHA-256, email and push providers, the
    campus time zone. A property over such a stream holds for whatever is answered.
  \<^item> JavaScript numbers are \<open>js_num\<close> (\<open>Js_Number\<close>), with binary64 rounding where a product is rounded;
    JSON and base64url texts are parsed and printed down to their characters (\<open>Json\<close>, \<open>Pagination\<close>).

  \<^bold>\<open>Theories, the code they model, and what their lemmas show.\<close>

  \<^item> \<open>Prelude\<close>: errors, the state-and-error monad, transactions, lists as tables. \<open>Js_Number\<close>, \<open>Json\<close>.
  \<^item> \<open>Interfaces\<close>: the locales between components. \<open>topup_store\<close> is what the webhook relies on in the
    wallet ledger (interpreted in \<open>Wallet_Ledger\<close>); \<open>outbox_handlers\<close> in \<open>Outbox\<close> is what the event
    processor relies on in the handlers (interpreted in \<open>Worker\<close> on the program's registry);
    \<open>cursor_codec\<close> in \<open>Pagination\<close> is what keyset pages need of their cursors, interpreted there on
    each kind of cursor the program uses. \<open>batch_invariant\<close> in \<open>Dispatch\<close> is what an invariant needs of
    the updates of the delivery tables, interpreted there on the two that the properties rest on.
  \<^item> \<open>Money\<close>: src/domain (money, pricing, settlements, refunds, promotions, spoons, cutoffs,
    wallet-topup-fee): the price of an order is the sum of its parts, a card top-up covers its fee.
  \<^item> \<open>Order_Status\<close>: domain/order-status.ts and \<open>public.transition_order_status\<close>: the two matrices are
    one, the history of an order replays to its status, nothing is fulfilled before it is paid.
  \<^item> \<open>Access\<close>: domain/authorization.ts, domain/admin-permissions.ts, modules/auth (guards, JWT service).
  \<^item> \<open>Wallet_Ledger\<close>: the wallet functions of the database: balances are the sums of the ledger,
    which only grows, and each reference is credited once. \<open>Wallets\<close>: modules/wallets and the
    provisioning handler. \<open>Fee_Settings\<close>, \<open>Audit_Log\<close>: the settings with their guard, the delivery
    shares they determine, common/audit.
  \<^item> \<open>Paystack_Event\<close>: domain/payments.ts. \<open>Webhook\<close>: paystack-webhook.service.ts and
    dva-topup-sweep.service.ts: signature, inbox, exact amounts, redeliveries. \<open>Payments\<close>,
    \<open>Refunds\<close>: modules/payments: a payment becomes successful on Paystack's word only, and refunds
    never add up to more than was paid as long as no failed one is retried.
  \<^item> \<open>Payouts\<close>: payout.service.ts, withdrawals.service.ts and their database functions: one live
    transfer per settlement, each credit in one live settlement.
  \<^item> \<open>Inventory\<close>: modules/inventory and the catalogue's view of it. \<open>Orders\<close>: modules/orders with
    \<open>create_pending_order_and_reserve_inventory\<close>, \<open>create_paid_order_from_wallet\<close> and the reservation
    sweep. \<open>Stock\<close>: the reserved quantity of an inventory row is what pending orders ask for.
  \<^item> \<open>Batches\<close>: modules/batches, vendors/vendor-orders.*, the batch operations of modules/admin,
    \<open>add_paid_order_to_batch\<close>, \<open>close_batches_at_cutoff\<close> and \<open>fleet_assign_batch\<close>. \<open>Riders\<close>:
    modules/riders with the counter of wrong delivery codes. \<open>Dispatch\<close>: every step of these as a relation
    on states, the invariants of the delivery tables, and how a cancelled order or a declined batch gets
    stuck. \<open>Delivery_Codes\<close>: a confirmation by code delivers the one order with that code; wrong codes
    are rationed when they come one after the other, and are not when they overlap.
  \<^item> \<open>Route\<close>: domain/geo.ts: the order of the stops and the arrivals. \<open>Tracking\<close>: modules/tracking and its
    triggers: what is stored of a rider's position, the route of an assignment, what a customer sees of it.
  \<^item> \<open>Outbox\<close>: the outbox functions, worker/outbox-processor.ts, worker.ts and modules/jobs.
    \<open>Notifications\<close>: modules/notifications, the channels and the dispatch handler. \<open>Worker\<close>: the
    registry and the automatic dispatch; a drain refines an abstract queue.
  \<^item> \<open>Pagination\<close>: common/api, and keyset pages in general.

  \<^bold>\<open>Loops and bounds.\<close> Loops over rows are structural. The delivery code of an order
  is drawn in 10 attempts, as in the code, after which it raises. The worker's loop is a sequence of
  drains, each bounded by the batch it claims; \<open>waiting_event_is_settled\<close> gives the number of drains
  that settle an event. The loop that orders a rider's stops is a partial function in
  \<open>option\<close>, and \<open>route_visits_every_stop\<close> shows that it always returns. The pages of the
  transfer sweep are bounded by its constant of pages. The walk along a listing's cursors takes fuel, and
  more than the number of rows is shown to do; the fuel of the JSON reader is the length of its text,
  which bounds the nesting.

  \<^bold>\<open>Not modelled.\<close> HTTP itself: controllers, DTO validation, filters, logging, health, OpenAPI, module
  wiring and the environment. Reads for screens: analytics, the admin dashboards, catalogue search, the
  order and payment lists. Vendors' own endpoints besides their orders and batches (onboarding, profiles, menus),
  riders' payout accounts, earnings and settlement lists, fleet accounts and their map, printing, chat,
  reviews, media, referrals, promotions' administration, escalations, feature flags and reconciliation
  runs: they call the operations modelled here or write tables that none of them reads. The great-circle
  distance is a parameter. The triggers that forget positions follow the statements on availability and
  assignments that \<open>Tracking\<close> names, not those of \<open>Riders\<close>. Row-level security policies are not
  modelled: the checks are those the services make.
\<close>

section \<open>Properties that span components\<close>

text \<open>
  Property C17: a wallet top-up started for some amount is credited with that amount. When POST
  /wallet/topup succeeds it has sent Paystack one checkout, for a whole amount and at least that
  much money; the charge.success event Paystack makes of that checkout is mapped to a top-up of the
  same user, and the webhook credits exactly the amount asked for, however it is configured.
\<close>

theorem started_topup_credits_what_was_asked:
  assumes "initialize_topup env nonce a v s = (Inr k, t)" and "money_inv s" and "user_id a \<noteq> []"
    and "wx_log t = wx_log s @ [Initialize_Transaction q]"
    and "pd_reference d = Some (cq_reference q)" and "pd_amount d = Some (cq_amount q)"
    and "pd_metadata d = Some (cq_metadata q)"
    and "Option.bind (pd_authorization d) auth_channel \<noteq> Some ''dedicated_nuban''"
  shows "\<exists>n. v = js_int n \<and> tk_amount k = n \<and>
    map_paystack_event \<lparr>pe_event = ''charge.success'', pe_data = Some d\<rparr> =
      Wallet_Topup_Succeeded (cq_reference q) (cq_amount q) None (Some (user_id a)) (Some n) None (pd_currency d) \<and>
    topup_credit cfg (cq_amount q) None (Some n) = n"
  using assms(1,2)
proof (cases rule: initialize_topup_cases)
  case (started n mail w lower upper)
  from started(10) assms(4) have q: "q = checkout_sent env nonce mail w n" by simp
  have "n \<le> cq_amount q" using topup_charge_covers_credit [of n] started(2) by (simp add: q checkout_sent_def)
  then have "topup_credit cfg (cq_amount q) None (Some n) = n" by (simp add: topup_credit_def topup_split_def)
  moreover have "cq_reference q \<noteq> []" "cq_metadata q = topup_metadata_sent (user_id a) (w_id w) n"
    using started(5) by (simp_all add: q checkout_sent_def)
  ultimately show ?thesis
    using started(1,2,11) assms(3,5-8) by (intro exI [of _ n]) (simp add: map_paystack_event_def topup_metadata_read Let_def)
qed

definition topup_actor :: actor where
  "topup_actor = \<lparr>user_id = ''u2'', role = Customer, email = Some ''a@b'', campus_id = None, vendor_id = None, rider_id = None\<rparr>"

definition topup_env :: wallet_env where
  "topup_env = \<lparr>we_fee_bps = 100, we_fee_cap = 30000, we_pass_fees = True, we_dva_enabled = False, we_app_url = ''https://app''\<rparr>"

definition started_topup :: "(exn + topup_checkout) \<times> wallet_app_db" where
  "started_topup = initialize_topup topup_env ''n1'' topup_actor (js_int 500000) wallet_sample"

definition started_checkout :: checkout_request where
  "started_checkout = checkout_sent topup_env ''n1'' ''a@b'' (held_wallet ''id-1'' ''u2'' 0 20) 500000"

definition started_charge :: paystack_data where
  "started_charge = \<lparr>pd_id = None, pd_reference = Some (cq_reference started_checkout),
     pd_amount = Some (cq_amount started_checkout), pd_currency = Some ''NGN'', pd_status = None, pd_receiver = None,
     pd_metadata = Some (cq_metadata started_checkout), pd_authorization = None\<rparr>"

lemma wallet_sample_inv: "money_inv wallet_sample"
proof -
  have "db_drawn wallet_sample = Suc (Suc 0)" "db_uuid wallet_sample 0 = ''id-0''" "db_uuid wallet_sample (Suc 0) = ''id-1''"
    by code_simp+
  then have "drawn_ids wallet_sample = {''id-0'', ''id-1''}" by (auto simp: drawn_ids_def lessThan_Suc)
  moreover have "inj (db_uuid wallet_sample)" by (simp add: wallet_sample_def inj_def nat_str_inj)
  ultimately have "wallets_ok wallet_sample"
    by (simp add: wallets_ok_def wallet_sample_def held_wallet_def booked_entry_def)
  moreover have "books_ok wallet_sample"
    by (simp add: books_ok_def wallet_sample_def held_wallet_def booked_entry_def ledger_total_def topup_refs_def)
  ultimately show ?thesis by (simp add: money_inv_def)
qed

theorem started_topup_credits_what_was_asked_witness:
  "\<exists>n. js_int 500000 = js_int n \<and> tk_amount (projr (fst started_topup)) = n \<and>
    map_paystack_event \<lparr>pe_event = ''charge.success'', pe_data = Some started_charge\<rparr> =
      Wallet_Topup_Succeeded (cq_reference started_checkout) (cq_amount started_checkout) None (Some ''u2'') (Some n) None
        (pd_currency started_charge) \<and>
    topup_credit webhook_cfg (cq_amount started_checkout) None (Some n) = n"
proof -
  have "is_ok (fst started_topup)" by code_simp
  then have "initialize_topup topup_env ''n1'' topup_actor (js_int 500000) wallet_sample =
      (Inr (projr (fst started_topup)), snd started_topup)"
    unfolding started_topup_def by (cases "initialize_topup topup_env ''n1'' topup_actor (js_int 500000) wallet_sample";
      cases "fst (initialize_topup topup_env ''n1'' topup_actor (js_int 500000) wallet_sample)") simp_all
  moreover have "wx_log (snd started_topup) = [Initialize_Transaction started_checkout]" by code_simp
  moreover have "wx_log wallet_sample = []" by (simp add: wallet_sample_def)
  ultimately show ?thesis
    using started_topup_credits_what_was_asked [of topup_env "''n1''" topup_actor "js_int 500000" wallet_sample
        "projr (fst started_topup)" "snd started_topup" started_checkout started_charge webhook_cfg]
    by (simp add: wallet_sample_inv topup_actor_def started_charge_def)
qed

end
